(* ===== verification/OS_Prelude.thy ===== *)
theory OS_Prelude
  imports Main "HOL-Library.Word" "HOL-Library.Monad_Syntax"
begin

text \<open>
  Shared vocabulary of the development.

  Memory is one flat byte store addressed by natural numbers; a C pointer is an address
  (0 is \<open>NULL\<close>), so that aliasing between two pointers is visible in every
  definition.  A C computation that may run for ever or may leave the bounds of an array
  returns an \<open>option\<close>: \<open>None\<close> says that the C code has no defined result.
  \<open>cstr m s xs\<close> says that the NUL-terminated string \<open>xs\<close> is stored at
  address \<open>s\<close>, \<open>blit m d xs\<close> is the memory after the bytes
  \<open>xs\<close> have been stored from \<open>d\<close> on, and \<open>bytes_at m s n\<close> are
  the \<open>n\<close> bytes at \<open>s\<close>.  These three are the specification language
  of the lower layers.
\<close>

unbundle bit_operations_syntax

named_theorems mem_simps \<open>rewriting of loads, stores and block stores\<close>
named_theorems opt_simps \<open>rewriting of partial results\<close>

type_synonym u8 = "8 word"
type_synonym u16 = "16 word"
type_synonym u32 = "32 word"
type_synonym addr = nat
type_synonym mem = "nat \<Rightarrow> u8"


section \<open>Bytes and little-endian words\<close>

definition bytes_at :: "mem \<Rightarrow> addr \<Rightarrow> nat \<Rightarrow> u8 list" where
  "bytes_at m s n = map (\<lambda>i. m (s + i)) [0..<n]"

definition blit :: "mem \<Rightarrow> addr \<Rightarrow> u8 list \<Rightarrow> mem" where
  "blit m d xs = (\<lambda>a. if d \<le> a \<and> a < d + length xs then xs ! (a - d) else m a)"

text \<open>\<open>ld32\<close> is the value of a \<open>uint32_t\<close> object; an \<open>int32_t\<close>
  object is read by \<open>sint\<close> of it.\<close>

definition ld32 :: "mem \<Rightarrow> addr \<Rightarrow> u32" where
  "ld32 m a = word_of_nat (unat (m a) + 256 * unat (m (a + 1)) + 65536 * unat (m (a + 2))
                + 16777216 * unat (m (a + 3)))"

definition lds32 :: "mem \<Rightarrow> addr \<Rightarrow> int" where
  "lds32 m a = sint (ld32 m a)"

text \<open>Truncation of an integer to a signed 32-bit value (a conversion to \<open>int\<close>).\<close>

definition to_i32 :: "int \<Rightarrow> int" where
  "to_i32 x = sint (word_of_int x :: u32)"

definition to_i8 :: "int \<Rightarrow> int" where
  "to_i8 x = sint (word_of_int x :: u8)"

definition to_u8 :: "int \<Rightarrow> int" where
  "to_u8 x = uint (word_of_int x :: u8)"

text \<open>Remainder of C: it has the sign of the dividend.\<close>

definition c_mod :: "int \<Rightarrow> int \<Rightarrow> int" where
  "c_mod a b = sgn a * (\<bar>a\<bar> mod \<bar>b\<bar>)"

definition c_div :: "int \<Rightarrow> int \<Rightarrow> int" where
  "c_div a b = sgn a * sgn b * (\<bar>a\<bar> div \<bar>b\<bar>)"

text \<open>Array accesses: \<open>None\<close> outside the array.\<close>

definition aget :: "'a list \<Rightarrow> int \<Rightarrow> 'a option" where
  "aget xs i = (if 0 \<le> i \<and> i < int (length xs) then Some (xs ! nat i) else None)"

definition aset :: "'a list \<Rightarrow> int \<Rightarrow> 'a \<Rightarrow> 'a list option" where
  "aset xs i v = (if 0 \<le> i \<and> i < int (length xs) then Some (xs[nat i := v]) else None)"

text \<open>A byte of an ASCII literal of the source.\<close>

definition chb :: "char \<Rightarrow> u8" where
  "chb c = of_char c"

definition str_bytes :: "string \<Rightarrow> u8 list" where
  "str_bytes s = map chb s"


section \<open>C strings\<close>

definition dstr :: "u8 \<Rightarrow> mem \<Rightarrow> addr \<Rightarrow> u8 list \<Rightarrow> bool" where
  "dstr t m s xs \<longleftrightarrow> t \<notin> set xs \<and> bytes_at m s (length xs) = xs \<and> m (s + length xs) = t"

abbreviation cstr :: "mem \<Rightarrow> addr \<Rightarrow> u8 list \<Rightarrow> bool" where
  "cstr \<equiv> dstr 0"

text \<open>Two address ranges, given by start and length, do not meet.\<close>

definition disjoint_rng :: "addr \<Rightarrow> nat \<Rightarrow> addr \<Rightarrow> nat \<Rightarrow> bool" where
  "disjoint_rng a n b k \<longleftrightarrow> a + n \<le> b \<or> b + k \<le> a"


section \<open>Lemmas on bytes, block stores and strings\<close>

lemma length_bytes_at [simp, mem_simps]: "length (bytes_at m s n) = n"
  by (simp add: bytes_at_def)

lemma nth_bytes_at [simp, mem_simps]: "i < n \<Longrightarrow> bytes_at m s n ! i = m (s + i)"
  by (simp add: bytes_at_def)

lemma bytes_at_0 [simp]: "bytes_at m s 0 = []"
  by (simp add: bytes_at_def)

lemma bytes_at_Suc: "bytes_at m s (Suc n) = m s # bytes_at m (Suc s) n"
  by (rule nth_equalityI) (auto simp: nth_Cons')

lemma bytes_at_snoc: "bytes_at m s (Suc n) = bytes_at m s n @ [m (s + n)]"
  by (simp add: bytes_at_def)

lemma bytes_at_append: "bytes_at m s (n + k) = bytes_at m s n @ bytes_at m (s + n) k"
  by (induction k) (simp_all add: bytes_at_snoc add.assoc)

lemma bytes_at_eqI:
  "(\<And>i. i < n \<Longrightarrow> m (s + i) = m' (s' + i)) \<Longrightarrow> bytes_at m s n = bytes_at m' s' n"
  by (simp add: bytes_at_def)

lemma bytes_at_eq_iff:
  "bytes_at m s n = xs \<longleftrightarrow> length xs = n \<and> (\<forall>i<n. m (s + i) = xs ! i)"
  by (auto simp: list_eq_iff_nth_eq)

lemma blit_Nil [simp, mem_simps]: "blit m d [] = m"
  by (auto simp: blit_def fun_eq_iff)

lemma blit_Cons: "blit m d (x # xs) = blit (m(d := x)) (Suc d) xs"
  by (auto simp: blit_def fun_eq_iff nth_Cons')

lemma blit_single: "blit m d [x] = m(d := x)"
  by (simp add: blit_Cons)

lemma blit_append: "blit m d (xs @ ys) = blit (blit m d xs) (d + length xs) ys"
  by (auto simp: blit_def fun_eq_iff nth_append)

lemma blit_snoc: "blit m d (xs @ [x]) = (blit m d xs)(d + length xs := x)"
  by (simp add: blit_append blit_single)

lemma blit_below [mem_simps]: "a < d \<Longrightarrow> blit m d xs a = m a"
  by (simp add: blit_def)

lemma blit_above [mem_simps]: "d + length xs \<le> a \<Longrightarrow> blit m d xs a = m a"
  by (simp add: blit_def)

lemma blit_in [mem_simps]: "i < length xs \<Longrightarrow> blit m d xs (d + i) = xs ! i"
  by (simp add: blit_def)

lemma blit_outside: "disjoint_rng d (length xs) s n \<Longrightarrow> i < n \<Longrightarrow> blit m d xs (s + i) = m (s + i)"
  by (auto simp: blit_def disjoint_rng_def)

lemma bytes_at_blit_same [simp, mem_simps]: "bytes_at (blit m d xs) d (length xs) = xs"
  by (simp add: bytes_at_eq_iff blit_in)

lemma bytes_at_blit_other:
  "disjoint_rng d (length xs) s n \<Longrightarrow> bytes_at (blit m d xs) s n = bytes_at m s n"
  by (rule bytes_at_eqI) (simp add: blit_outside)

lemma bytes_at_upd_other:
  "\<not> (s \<le> a \<and> a < s + n) \<Longrightarrow> bytes_at (m(a := v)) s n = bytes_at m s n"
  by (rule bytes_at_eqI) auto

lemma dstr_Cons: "dstr t m s (x # xs) \<longleftrightarrow> x \<noteq> t \<and> m s = x \<and> dstr t m (Suc s) xs"
  by (auto simp: dstr_def bytes_at_Suc)

lemma dstr_Nil [simp]: "dstr t m s [] \<longleftrightarrow> m s = t"
  by (simp add: dstr_def)

lemma dstr_nth: "dstr t m s xs \<Longrightarrow> i < length xs \<Longrightarrow> m (s + i) = xs ! i \<and> m (s + i) \<noteq> t"
  unfolding dstr_def by (metis nth_bytes_at nth_mem)

lemma dstr_end: "dstr t m s xs \<Longrightarrow> m (s + length xs) = t"
  by (simp add: dstr_def)

lemma dstr_unique: "dstr t m s xs \<Longrightarrow> dstr t m s ys \<Longrightarrow> xs = ys"
proof (induction xs arbitrary: s ys)
  case Nil
  then show ?case by (cases ys) (auto simp: dstr_Cons)
next
  case (Cons x xs)
  then show ?case by (cases ys) (auto simp: dstr_Cons)
qed

lemma dstr_cong:
  assumes "dstr t m s xs" and "\<And>i. i \<le> length xs \<Longrightarrow> m' (s' + i) = m (s + i)"
  shows "dstr t m' s' xs"
proof -
  have "bytes_at m' s' (length xs) = bytes_at m s (length xs)"
    by (rule bytes_at_eqI) (simp add: assms(2))
  with assms show ?thesis by (simp add: dstr_def)
qed

lemma dstr_blit: "t \<notin> set xs \<Longrightarrow> dstr t (blit m d (xs @ [t])) d xs"
proof -
  have "bytes_at (blit m d (xs @ [t])) d (length xs) = xs"
    by (simp add: bytes_at_eq_iff blit_in nth_append)
  moreover have "blit m d (xs @ [t]) (d + length xs) = t"
    by (simp add: blit_snoc)
  moreover assume "t \<notin> set xs"
  ultimately show ?thesis by (simp add: dstr_def)
qed

lemma aget_Some [opt_simps]: "aget xs i = Some v \<longleftrightarrow> 0 \<le> i \<and> i < int (length xs) \<and> v = xs ! nat i"
  by (auto simp: aget_def)

lemma aset_Some [opt_simps]:
  "aset xs i v = Some ys \<longleftrightarrow> 0 \<le> i \<and> i < int (length xs) \<and> ys = xs[nat i := v]"
  by (auto simp: aset_def)

lemma aget_nat [simp]: "aget xs (int i) = (if i < length xs then Some (xs ! i) else None)"
  by (simp add: aget_def)

lemma aget_None: "aget xs i = None \<longleftrightarrow> i < 0 \<or> int (length xs) \<le> i"
  by (auto simp: aget_def)

lemma aset_None: "aset xs i v = None \<longleftrightarrow> i < 0 \<or> int (length xs) \<le> i"
  by (auto simp: aset_def)

lemma bind_Some_iff [opt_simps]: "Option.bind x f = Some z \<longleftrightarrow> (\<exists>y. x = Some y \<and> f y = Some z)"
  by (cases x) auto


section \<open>Signed readings\<close>

lemma mod_shift: "0 \<le> (u::int) \<Longrightarrow> u < 2 * k \<Longrightarrow> (u + k) mod (2 * k) - k = (if u < k then u else u - 2 * k)"
proof -
  assume u: "0 \<le> u" "u < 2 * k"
  show ?thesis
  proof (cases "u < k")
    case True with u show ?thesis by simp
  next
    case False
    have "(u + k) mod (2 * k) = (u - k + 2 * k) mod (2 * k)" by (simp add: algebra_simps)
    also have "\<dots> = u - k" using u False by (subst mod_add_self2) simp
    finally show ?thesis using False by simp
  qed
qed

lemma sint_u8: "sint (b :: u8) = (if uint b < 128 then uint b else uint b - 256)"
proof -
  have "0 \<le> uint b" "uint b < 256" using uint_lt2p [of b] by simp_all
  then show ?thesis using mod_shift [of "uint b" 128]
    by (simp add: sint_uint signed_take_bit_eq_take_bit_shift take_bit_eq_mod)
qed

lemma sint_u32: "sint (b :: u32) = (if uint b < 2147483648 then uint b else uint b - 4294967296)"
proof -
  have "0 \<le> uint b" "uint b < 4294967296" using uint_lt2p [of b] by simp_all
  then show ?thesis using mod_shift [of "uint b" 2147483648]
    by (simp add: sint_uint signed_take_bit_eq_take_bit_shift take_bit_eq_mod)
qed

lemma uint_sint_eq: "uint (a :: u8) = sint b \<longleftrightarrow> a = b \<and> a < 128"
proof -
  have "0 \<le> uint a" "uint b < 256" using uint_lt2p [of b] by simp_all
  then have "uint a = sint b \<longleftrightarrow> uint a = uint b \<and> uint a < 128" unfolding sint_u8 by presburger
  then show ?thesis by (simp add: word_uint_eq_iff word_less_def)
qed

lemma to_i32_id: "- 2147483648 \<le> x \<Longrightarrow> x < 2147483648 \<Longrightarrow> to_i32 x = x"
  by (simp add: to_i32_def sint_sbintrunc' signed_take_bit_int_eq_self)

end
