(* ===== verification/Kernel_State.thy ===== *)
theory Kernel_State
  imports OS_Prelude
begin

text \<open>
  The state of the kernel: the structures of the header files as records and the static
  variables of every translation unit as the fields of one record \<open>kstate\<close>.

  Byte arrays (file-system image, video pages, keyboard and argument buffers, user
  buffers) live in the flat memory \<open>mem\<close>, the memory as the current page tables
  show it; \<open>phys\<close> is the physical memory behind the user page and
  \<open>tlb_user\<close> the directory entry in force for that page, which a reload of
  \<open>cr3\<close> replaces (\<open>page_access\<close> of \<open>Paging\<close>).  A field of type \<open>addr\<close> is the
  address the linker, the boot loader or the stack frame gives such an array
  (\<open>rodata\<close>: the string literals, \<open>frame\<close>: the automatic arrays of the
  function that runs).  Structures
  that the code only accesses through their members are typed: the process control blocks
  are a map from their address to a \<open>pcb_t\<close>.  Ports are a log of the bytes written
  and a function that says what a device presents for reading.

  \<open>keyboard.h\<close> defines \<open>terminals\<close> as a \<open>static\<close> array, so each
  C file that includes it has an array of its own.  \<open>terminals\<close> is the one of
  \<open>syscall.c\<close>, \<open>kb_terminals\<close> the one of \<open>keyboard.c\<close>.
\<close>

section \<open>Structures\<close>

text \<open>\<open>dentry_t\<close> of \<open>filesys.h\<close> (the reserved bytes are never read).\<close>

record dentry_t =
  filename :: "u8 list"
  filetype :: int
  d_inode_num :: int

text \<open>An \<open>f_ops_table*\<close>: the four tables that \<open>setup_exec\<close> fills.  A
  descriptor whose pointer was never set has no table.\<close>

datatype f_ops_table = file_table | dir_table | rtc_table | terminal_table

record fdt_t =
  f_ops :: "f_ops_table option"
  inode_num :: int
  file_pos :: int
  flags :: int

record pcb_t =
  fdt :: "fdt_t list"
  pid :: int
  ebp :: u32
  esp :: u32
  parent_pcb :: u32
  status_retval :: u32
  pit_ebp :: u32
  pit_esp :: u32

record terminal_t =
  terminal_idx :: int
  x_cursor :: int
  y_cursor :: int
  color :: int
  save_buf :: addr
  save_idx :: int
  curr_task :: int
  video_addr :: addr

record idt_desc_t =
  offset_15_00 :: u16
  seg_selector :: u16
  reserved4 :: u8
  reserved3 :: bool
  reserved2 :: bool
  reserved1 :: bool
  size_bit :: bool
  reserved0 :: bool
  dpl :: nat
  present :: bool
  offset_31_16 :: u16

text \<open>\<open>seg_desc_t\<close>; the bit fields are bytes below their width.\<close>

record seg_desc_t =
  seg_lim_15_00 :: u16
  base_15_00 :: u16
  base_23_16 :: u8
  seg_type :: u8
  seg_sys :: u8
  seg_dpl :: u8
  seg_present :: u8
  seg_lim_19_16 :: u8
  seg_avail :: u8
  seg_reserved :: u8
  seg_opsize :: u8
  seg_granularity :: u8
  base_31_24 :: u8

text \<open>\<open>tss_t\<close>, the task state segment; the two bit fields of its flag word are one field each.\<close>

record tss_t =
  ts_prev_task_link :: u16
  ts_prev_task_link_pad :: u16
  ts_esp0 :: u32
  ts_ss0 :: u16
  ts_ss0_pad :: u16
  ts_esp1 :: u32
  ts_ss1 :: u16
  ts_ss1_pad :: u16
  ts_esp2 :: u32
  ts_ss2 :: u16
  ts_ss2_pad :: u16
  ts_cr3 :: u32
  ts_eip :: u32
  ts_eflags :: u32
  ts_eax :: u32
  ts_ecx :: u32
  ts_edx :: u32
  ts_ebx :: u32
  ts_esp :: u32
  ts_ebp :: u32
  ts_esi :: u32
  ts_edi :: u32
  ts_es :: u16
  ts_es_pad :: u16
  ts_cs :: u16
  ts_cs_pad :: u16
  ts_ss :: u16
  ts_ss_pad :: u16
  ts_ds :: u16
  ts_ds_pad :: u16
  ts_fs :: u16
  ts_fs_pad :: u16
  ts_gs :: u16
  ts_gs_pad :: u16
  ts_ldt_segment_selector :: u16
  ts_ldt_pad :: u16
  ts_debug_trap :: bool
  ts_io_pad :: u16
  ts_io_base_addr :: u16

text \<open>\<open>x86_desc_t\<close>, the operand of \<open>lgdt\<close> and \<open>lidt\<close>.\<close>

record x86_desc_t =
  xd_padding :: u16
  xd_size :: u16
  xd_addr :: u32


section \<open>The kernel state\<close>

record kstate =
  \<comment> \<open>machine\<close>
  mem :: mem
  phys :: mem
  tlb_user :: u32
  port_log :: "(u16 \<times> u8) list"
  inports :: "u16 \<Rightarrow> u8"
  if_flag :: bool
  reg_ebp :: u32
  reg_esp :: u32
  cr0 :: u32
  cr3 :: u32
  cr4 :: u32
  tss :: tss_t
  ldt_desc_ptr :: seg_desc_t
  tss_desc_ptr :: seg_desc_t
  ldt_at :: u32
  ldt_size :: u32
  tss_at :: u32
  tss_size :: u32
  reg_ldtr :: u16
  reg_tr :: u16
  idt :: "nat \<Rightarrow> idt_desc_t"
  \<comment> \<open>lib.c\<close>
  text_color :: u8
  screen_x :: int
  screen_y :: int
  \<comment> \<open>paging.c\<close>
  page_dir :: "nat \<Rightarrow> u32"
  page_table :: "nat \<Rightarrow> u32"
  page_dir_at :: u32
  page_table_at :: u32
  \<comment> \<open>filesys.c\<close>
  curr_pcb :: u32
  boot_block :: addr
  cur_dentry :: dentry_t
  FS_START_ADDR :: addr
  FS_END_ADDR :: addr
  \<comment> \<open>syscall.c\<close>
  pcbs :: "u32 \<Rightarrow> pcb_t"
  process_num :: "int list"
  arg_buf :: addr
  active_terminal :: int
  main_process :: int
  terminals :: "terminal_t list"
  frame :: addr
  rodata :: "string \<Rightarrow> addr"
  \<comment> \<open>keyboard.c\<close>
  kb_terminals :: "terminal_t list"
  kb_active_terminal :: int
  keyboard_buf :: addr
  last_buf :: addr
  kb_save_buf :: addr
  save_buf_1 :: addr
  save_buf_2 :: addr
  save_buf_3 :: addr
  last_idx :: int
  keyboard_buf_idx :: int
  num_chars :: int
  caps_lock_check :: int
  pressed_flags :: "u8 list"
  \<comment> \<open>rtc.c and scheduler.c\<close>
  rtc_flag :: int
  curr_process :: u32

abbreviation tss_esp0 :: "kstate \<Rightarrow> u32" where "tss_esp0 s \<equiv> ts_esp0 (tss s)"
abbreviation tss_ss0 :: "kstate \<Rightarrow> u16" where "tss_ss0 s \<equiv> ts_ss0 (tss s)"


section \<open>Port and interrupt-flag macros of lib.h\<close>

definition outb :: "u8 \<Rightarrow> u16 \<Rightarrow> kstate \<Rightarrow> kstate" where
  "outb data port s = s\<lparr>port_log := port_log s @ [(port, data)]\<rparr>"

definition inb :: "u16 \<Rightarrow> kstate \<Rightarrow> u32" where
  "inb port s = ucast (inports s port)"

definition cli :: "kstate \<Rightarrow> kstate" where
  "cli s = s\<lparr>if_flag := False\<rparr>"

definition sti :: "kstate \<Rightarrow> kstate" where
  "sti s = s\<lparr>if_flag := True\<rparr>"

lemmas macro_defs = outb_def inb_def cli_def sti_def


section \<open>Constants shared by several files\<close>

definition VIDEO :: addr where "VIDEO = 0xB8000"
definition NUM_COLS :: int where "NUM_COLS = 80"
definition NUM_ROWS :: int where "NUM_ROWS = 25"
definition UNIT_4_KB :: nat where "UNIT_4_KB = 0x1000"
definition MAX_TERMINALS :: int where "MAX_TERMINALS = 3"
definition MAX_PROCESSES :: int where "MAX_PROCESSES = 6"

lemmas const_defs = VIDEO_def NUM_COLS_def NUM_ROWS_def UNIT_4_KB_def MAX_TERMINALS_def MAX_PROCESSES_def

end
