(* ===== verification/Terminals.thy ===== *)
theory Terminals
  imports Kernel_State
begin

text \<open>
  The terminal bookkeeping of \<open>student-distrib/syscall.c\<close>: initialisation of the
  terminal structures and the accessors that the console driver (\<open>lib.c\<close>) and the
  keyboard driver call.  A process slot is owned by the terminal \<open>process_num[i]\<close>
  (-1: free); \<open>main_process\<close> is the running process, \<open>active_terminal\<close>
  the one on screen.  Index errors of the code (a running process whose slot is free) are
  \<open>None\<close>.
\<close>

section \<open>Definitions\<close>

definition init_terminal :: "int \<Rightarrow> terminal_t \<Rightarrow> terminal_t \<times> addr" where
  "init_terminal i t =
     (t\<lparr>terminal_idx := i, x_cursor := 0, y_cursor := 0, save_idx := 0, curr_task := -1,
        video_addr := VIDEO + UNIT_4_KB * nat (i + 1), color := i + 1\<rparr>, save_buf t)"

text \<open>The loop body also clears the first byte of the terminal's line buffer.\<close>

definition init_terminals_step :: "int \<Rightarrow> kstate \<Rightarrow> kstate option" where
  "init_terminals_step i s = do {
     t \<leftarrow> aget (terminals s) i;
     let (t', b) = init_terminal i t;
     ts \<leftarrow> aset (terminals s) i t';
     Some (s\<lparr>terminals := ts, mem := (mem s)(b := 0)\<rparr>) }"

definition init_terminals :: "kstate \<Rightarrow> kstate option" where
  "init_terminals s = do {
     s \<leftarrow> init_terminals_step 0 s;
     s \<leftarrow> init_terminals_step 1 s;
     init_terminals_step 2 s }"

text \<open>The terminal that owns the running process.\<close>

definition main_terminal :: "kstate \<Rightarrow> int option" where
  "main_terminal s = aget (process_num s) (main_process s)"

definition video_return :: "kstate \<Rightarrow> addr option" where
  "video_return s = do {
     t \<leftarrow> main_terminal s;
     if t = active_terminal s then Some VIDEO
     else Some (nat (int VIDEO + int UNIT_4_KB * (1 + t))) }"

definition pos_terminal :: "bool \<Rightarrow> kstate \<Rightarrow> int option" where
  "pos_terminal t s = (if t then Some (active_terminal s) else main_terminal s)"

definition x_return :: "bool \<Rightarrow> kstate \<Rightarrow> int option" where
  "x_return t s = do { i \<leftarrow> pos_terminal t s; tm \<leftarrow> aget (terminals s) i; Some (x_cursor tm) }"

definition y_return :: "bool \<Rightarrow> kstate \<Rightarrow> int option" where
  "y_return t s = do { i \<leftarrow> pos_terminal t s; tm \<leftarrow> aget (terminals s) i; Some (y_cursor tm) }"

definition set_terminal_pos :: "int \<Rightarrow> int \<Rightarrow> bool \<Rightarrow> kstate \<Rightarrow> kstate option" where
  "set_terminal_pos x y t s = do {
     i \<leftarrow> pos_terminal t s;
     tm \<leftarrow> aget (terminals s) i;
     ts \<leftarrow> aset (terminals s) i (tm\<lparr>x_cursor := to_u8 x, y_cursor := to_u8 y\<rparr>);
     Some (s\<lparr>terminals := ts\<rparr>) }"

definition get_vid_mem :: "kstate \<Rightarrow> addr option" where
  "get_vid_mem s = do {
     t \<leftarrow> main_terminal s;
     if t = active_terminal s then Some VIDEO
     else do { tm \<leftarrow> aget (terminals s) t; Some (video_addr tm) } }"

definition return_active_terminal :: "kstate \<Rightarrow> int" where
  "return_active_terminal s = active_terminal s"

definition check_read_process :: "kstate \<Rightarrow> int option" where
  "check_read_process s = do {
     t \<leftarrow> main_terminal s;
     Some (if t \<noteq> active_terminal s then -1 else 0) }"


section \<open>Well-formed terminal state\<close>

definition cursor_ok :: "int \<Rightarrow> int \<Rightarrow> bool" where
  "cursor_ok x y \<longleftrightarrow> 0 \<le> x \<and> x < 80 \<and> 0 \<le> y \<and> y < 25"

text \<open>Three terminals with cursors on the screen, each with its back page, and a running
  process that some terminal owns.\<close>

definition terms_ok :: "kstate \<Rightarrow> bool" where
  "terms_ok s \<longleftrightarrow>
     length (terminals s) = 3 \<and> length (process_num s) = 6 \<and>
     (\<forall>i<3. cursor_ok (x_cursor (terminals s ! i)) (y_cursor (terminals s ! i)) \<and>
            video_addr (terminals s ! i) = VIDEO + UNIT_4_KB * (i + 1)) \<and>
     0 \<le> active_terminal s \<and> active_terminal s < 3 \<and>
     0 \<le> main_process s \<and> main_process s < 6 \<and>
     0 \<le> process_num s ! nat (main_process s) \<and> process_num s ! nat (main_process s) < 3"

text \<open>Index of the terminal an accessor refers to, and the page a process writes to.\<close>

definition pos_idx :: "bool \<Rightarrow> kstate \<Rightarrow> nat" where
  "pos_idx t s = nat (if t then active_terminal s else process_num s ! nat (main_process s))"

definition main_page :: "kstate \<Rightarrow> addr" where
  "main_page s = (if pos_idx False s = pos_idx True s then VIDEO
                  else VIDEO + UNIT_4_KB * (pos_idx False s + 1))"


section \<open>Lemmas\<close>

lemma to_u8_id: "0 \<le> x \<Longrightarrow> x < 256 \<Longrightarrow> to_u8 x = x"
  by (simp add: to_u8_def uint_word_of_int)

lemma pos_idx_less: "terms_ok s \<Longrightarrow> pos_idx t s < 3"
  by (auto simp: terms_ok_def pos_idx_def)

lemma pos_terminal_Some: "terms_ok s \<Longrightarrow> pos_terminal t s = Some (int (pos_idx t s))"
  by (auto simp: pos_terminal_def main_terminal_def terms_ok_def pos_idx_def aget_def)

lemma x_return_Some: "terms_ok s \<Longrightarrow> x_return t s = Some (x_cursor (terminals s ! pos_idx t s))"
  using pos_idx_less [of s t] by (auto simp: x_return_def pos_terminal_Some terms_ok_def)

lemma y_return_Some: "terms_ok s \<Longrightarrow> y_return t s = Some (y_cursor (terminals s ! pos_idx t s))"
  using pos_idx_less [of s t] by (auto simp: y_return_def pos_terminal_Some terms_ok_def)

lemma terms_ok_cursor:
  "terms_ok s \<Longrightarrow> cursor_ok (x_cursor (terminals s ! pos_idx t s)) (y_cursor (terminals s ! pos_idx t s))"
  using pos_idx_less [of s t] by (simp add: terms_ok_def)

definition move_cursor :: "nat \<Rightarrow> int \<Rightarrow> int \<Rightarrow> kstate \<Rightarrow> kstate" where
  "move_cursor i x y s =
     s\<lparr>terminals := (terminals s)[i := (terminals s ! i)\<lparr>x_cursor := x, y_cursor := y\<rparr>]\<rparr>"

lemma set_terminal_pos_Some:
  "terms_ok s \<Longrightarrow> cursor_ok x y \<Longrightarrow>
    set_terminal_pos x y t s = Some (move_cursor (pos_idx t s) x y s)"
  using pos_idx_less [of s t]
  by (auto simp: set_terminal_pos_def pos_terminal_Some terms_ok_def cursor_ok_def to_u8_id
      aset_def move_cursor_def)

lemma move_cursor_ok: "terms_ok s \<Longrightarrow> cursor_ok x y \<Longrightarrow> terms_ok (move_cursor i x y s)"
  by (cases "i < length (terminals s)")
     (auto simp: terms_ok_def move_cursor_def nth_list_update list_update_beyond)

lemma move_cursor_simps [simp]:
  "mem (move_cursor i x y s) = mem s" "text_color (move_cursor i x y s) = text_color s"
  "screen_x (move_cursor i x y s) = screen_x s" "screen_y (move_cursor i x y s) = screen_y s"
  "pos_idx t (move_cursor i x y s) = pos_idx t s" "main_page (move_cursor i x y s) = main_page s"
  "length (terminals (move_cursor i x y s)) = length (terminals s)"
  by (simp_all add: move_cursor_def pos_idx_def main_page_def)

lemma move_cursor_nth:
  "j < length (terminals s) \<Longrightarrow> terminals (move_cursor i x y s) ! j =
    (if i = j then (terminals s ! j)\<lparr>x_cursor := x, y_cursor := y\<rparr> else terminals s ! j)"
  by (simp add: move_cursor_def nth_list_update)

lemma video_return_Some: "terms_ok s \<Longrightarrow> video_return s = Some (main_page s)"
  by (auto simp: video_return_def main_terminal_def terms_ok_def main_page_def pos_idx_def aget_def
      nat_add_distrib nat_mult_distrib algebra_simps)

text \<open>The state predicate only reads the terminal fields.\<close>

lemma terms_ok_cong:
  "terminals s' = terminals s \<Longrightarrow> process_num s' = process_num s \<Longrightarrow>
   active_terminal s' = active_terminal s \<Longrightarrow> main_process s' = main_process s \<Longrightarrow>
   terms_ok s' = terms_ok s"
  by (simp add: terms_ok_def)

lemma pos_idx_cong:
  "process_num s' = process_num s \<Longrightarrow> active_terminal s' = active_terminal s \<Longrightarrow>
   main_process s' = main_process s \<Longrightarrow> pos_idx t s' = pos_idx t s"
  by (simp add: pos_idx_def)

end
