(* ===== verification/Lib_Strings.thy ===== *)
theory Lib_Strings
  imports OS_Prelude
begin

text \<open>
  The string routines of \<open>student-distrib/lib.c\<close>: \<open>strlen\<close>,
  \<open>strcpy\<close>, \<open>strncpy\<close>, \<open>strncmp\<close>, \<open>strrev\<close>,
  \<open>itoa\<close>, and the newline-terminated variants \<open>my_strcpy\<close> and
  \<open>my_strlen\<close> that the terminal driver uses.  Each loop of the source is one
  recursive function with the loop's variables as arguments; loops without a bound are
  \<open>partial_function (option)\<close>.  The lemmas relate each routine to the string
  predicates of the prelude and say which bytes it may change.
\<close>

section \<open>Definitions\<close>

partial_function (option) strlen_loop :: "mem \<Rightarrow> addr \<Rightarrow> nat \<Rightarrow> nat option" where
  "strlen_loop m s len = (if m (s + len) \<noteq> 0 then strlen_loop m s (len + 1) else Some len)"

definition strlen :: "mem \<Rightarrow> addr \<Rightarrow> nat option" where
  "strlen m s = strlen_loop m s 0"

partial_function (option) strcpy_loop :: "addr \<Rightarrow> addr \<Rightarrow> nat \<Rightarrow> mem \<Rightarrow> mem option" where
  "strcpy_loop dest src i m =
     (if m (src + i) \<noteq> 0 then strcpy_loop dest src (i + 1) (m(dest + i := m (src + i)))
      else Some (m(dest + i := 0)))"

definition strcpy :: "addr \<Rightarrow> addr \<Rightarrow> mem \<Rightarrow> (addr \<times> mem) option" where
  "strcpy dest src m = do { m' \<leftarrow> strcpy_loop dest src 0 m; Some (dest, m') }"

text \<open>\<open>strncpy\<close>: a copying loop bounded by \<open>n\<close>, then a padding loop.\<close>

function strncpy_copy :: "addr \<Rightarrow> addr \<Rightarrow> nat \<Rightarrow> nat \<Rightarrow> mem \<Rightarrow> nat \<times> mem" where
  "strncpy_copy dest src n i m =
     (if m (src + i) \<noteq> 0 \<and> i < n
      then strncpy_copy dest src n (i + 1) (m(dest + i := m (src + i))) else (i, m))"
  by pat_completeness auto
termination by (relation "measure (\<lambda>(d, s, n, i, m). n - i)") auto

function strncpy_pad :: "addr \<Rightarrow> nat \<Rightarrow> nat \<Rightarrow> mem \<Rightarrow> mem" where
  "strncpy_pad dest n i m = (if i < n then strncpy_pad dest n (i + 1) (m(dest + i := 0)) else m)"
  by pat_completeness auto
termination by (relation "measure (\<lambda>(d, n, i, m). n - i)") auto

definition strncpy :: "addr \<Rightarrow> addr \<Rightarrow> nat \<Rightarrow> mem \<Rightarrow> addr \<times> mem" where
  "strncpy dest src n m =
     (let (i, m1) = strncpy_copy dest src n 0 m in (dest, strncpy_pad dest n i m1))"

text \<open>\<open>strncmp\<close> compares \<open>int8_t\<close> values: the difference is of signed bytes.\<close>

function strncmp_loop :: "mem \<Rightarrow> addr \<Rightarrow> addr \<Rightarrow> nat \<Rightarrow> nat \<Rightarrow> int" where
  "strncmp_loop m s1 s2 n i =
     (if i < n then
        (if m (s1 + i) \<noteq> m (s2 + i) \<or> m (s1 + i) = 0
         then sint (m (s1 + i)) - sint (m (s2 + i))
         else strncmp_loop m s1 s2 n (i + 1))
      else 0)"
  by pat_completeness auto
termination by (relation "measure (\<lambda>(m, s1, s2, n, i). n - i)") auto

definition strncmp :: "mem \<Rightarrow> addr \<Rightarrow> addr \<Rightarrow> nat \<Rightarrow> int" where
  "strncmp m s1 s2 n = strncmp_loop m s1 s2 n 0"

function strrev_loop :: "addr \<Rightarrow> int \<Rightarrow> int \<Rightarrow> mem \<Rightarrow> mem" where
  "strrev_loop s beg en m =
     (if beg < en then
        (let tmp = m (s + nat en);
             m1 = m(s + nat en := m (s + nat beg));
             m2 = m1(s + nat beg := tmp)
         in strrev_loop s (beg + 1) (en - 1) m2)
      else m)"
  by pat_completeness auto
termination by (relation "measure (\<lambda>(s, b, e, m). nat (e - b))") auto

definition strrev :: "addr \<Rightarrow> mem \<Rightarrow> (addr \<times> mem) option" where
  "strrev s m = do { len \<leftarrow> strlen m s; Some (s, strrev_loop s 0 (int len - 1) m) }"

definition itoa_lookup :: "u8 list" where
  "itoa_lookup = str_bytes ''0123456789ABCDEFGHIJKLMNOPQRSTUVWXYZ'' @ [0]"

text \<open>The digit loop of \<open>itoa\<close>.  A zero radix divides by zero and a digit past the
  lookup string is out of bounds.\<close>

partial_function (option) itoa_loop :: "u32 \<Rightarrow> u32 \<Rightarrow> addr \<Rightarrow> mem \<Rightarrow> (addr \<times> mem) option" where
  "itoa_loop radix newval newbuf m =
     (if newval > 0 then
        (if radix = 0 then None
         else do { d \<leftarrow> aget itoa_lookup (uint (newval mod radix));
                   itoa_loop radix (newval div radix) (newbuf + 1) (m(newbuf := d)) })
      else Some (newbuf, m))"

definition itoa :: "u32 \<Rightarrow> addr \<Rightarrow> u32 \<Rightarrow> mem \<Rightarrow> (addr \<times> mem) option" where
  "itoa value buf radix m =
     (if value = 0 then Some (buf, m(buf := chb CHR ''0'', buf + 1 := 0))
      else do { (newbuf, m1) \<leftarrow> itoa_loop radix value buf m;
                strrev buf (m1(newbuf := 0)) })"

partial_function (option) my_strcpy_loop :: "addr \<Rightarrow> addr \<Rightarrow> nat \<Rightarrow> mem \<Rightarrow> mem option" where
  "my_strcpy_loop dest src i m =
     (if m (src + i) \<noteq> 10 then my_strcpy_loop dest src (i + 1) (m(dest + i := m (src + i)))
      else Some (m(dest + i := 10)))"

definition my_strcpy :: "addr \<Rightarrow> addr \<Rightarrow> mem \<Rightarrow> (addr \<times> mem) option" where
  "my_strcpy dest src m = do { m' \<leftarrow> my_strcpy_loop dest src 0 m; Some (dest, m') }"

partial_function (option) my_strlen_loop :: "mem \<Rightarrow> addr \<Rightarrow> nat \<Rightarrow> nat option" where
  "my_strlen_loop m s len = (if m (s + len) \<noteq> 10 then my_strlen_loop m s (len + 1) else Some (len + 1))"

definition my_strlen :: "mem \<Rightarrow> addr \<Rightarrow> nat option" where
  "my_strlen m s = my_strlen_loop m s 0"

declare strncpy_copy.simps [simp del] strncpy_pad.simps [simp del] strncmp_loop.simps [simp del]
  strrev_loop.simps [simp del]


section \<open>Scanning and copying up to a terminator\<close>

text \<open>
  \<open>strlen\<close> and \<open>my_strlen\<close> are the same scan with two terminators, and
  \<open>strcpy\<close> and \<open>my_strcpy\<close> the same copy.  The two locales state what the
  loops have in common, their unfolding, and carry the inductions.
\<close>

locale delim_scan =
  fixes t :: u8 and fin :: "nat \<Rightarrow> nat" and loop :: "mem \<Rightarrow> addr \<Rightarrow> nat \<Rightarrow> nat option"
  assumes unfold: "loop m s k = (if m (s + k) \<noteq> t then loop m s (k + 1) else Some (fin k))"
begin

lemma loop_dstr: "dstr t m (s + k) xs \<Longrightarrow> loop m s k = Some (fin (k + length xs))"
proof (induction xs arbitrary: k)
  case Nil
  then show ?case by (subst unfold) simp
next
  case (Cons x xs)
  from Cons.prems have "m (s + k) \<noteq> t" and "dstr t m (s + Suc k) xs"
    by (auto simp: dstr_Cons)
  with Cons.IH [of "Suc k"] show ?case by (subst unfold) simp
qed

lemma scan_dstr: "dstr t m s xs \<Longrightarrow> loop m s 0 = Some (fin (length xs))"
  using loop_dstr [of m s 0 xs] by simp

end

locale delim_copy =
  fixes t :: u8 and loop :: "addr \<Rightarrow> addr \<Rightarrow> nat \<Rightarrow> mem \<Rightarrow> mem option"
  assumes unfold: "loop dest src i m =
     (if m (src + i) \<noteq> t then loop dest src (i + 1) (m(dest + i := m (src + i)))
      else Some (m(dest + i := t)))"
begin

lemma loop_blit:
  assumes "dstr t m (src + i) xs" and "dest \<le> src \<or> src + (i + length xs) < dest"
  shows "loop dest src i m = Some (blit m (dest + i) (xs @ [t]))"
  using assms
proof (induction xs arbitrary: i m)
  case Nil
  then show ?case by (subst unfold) (simp add: blit_single)
next
  case (Cons x xs)
  let ?m = "m(dest + i := x)"
  from Cons.prems have x: "m (src + i) = x" "x \<noteq> t" and tl: "dstr t m (src + Suc i) xs"
    by (auto simp: dstr_Cons)
  from tl have "dstr t ?m (src + Suc i) xs"
    by (rule dstr_cong) (use Cons.prems(2) in auto)
  moreover have "dest \<le> src \<or> src + (Suc i + length xs) < dest"
    using Cons.prems(2) by auto
  ultimately have "loop dest src (Suc i) ?m = Some (blit ?m (dest + Suc i) (xs @ [t]))"
    by (rule Cons.IH)
  with x show ?case by (subst unfold) (simp add: blit_Cons)
qed

lemma copy_blit:
  "dstr t m src xs \<Longrightarrow> dest \<le> src \<or> src + length xs < dest \<Longrightarrow>
    loop dest src 0 m = Some (blit m dest (xs @ [t]))"
  using loop_blit [of m src 0 xs dest] by simp

end

interpretation nul_scan: delim_scan 0 "\<lambda>n. n" strlen_loop
  by unfold_locales (rule strlen_loop.simps)

interpretation nl_scan: delim_scan 10 "\<lambda>n. n + 1" my_strlen_loop
  by unfold_locales (rule my_strlen_loop.simps)

interpretation nul_copy: delim_copy 0 strcpy_loop
  by unfold_locales (rule strcpy_loop.simps)

interpretation nl_copy: delim_copy 10 my_strcpy_loop
  by unfold_locales (rule my_strcpy_loop.simps)

lemma strlen_cstr: "cstr m s xs \<Longrightarrow> strlen m s = Some (length xs)"
  unfolding strlen_def by (rule nul_scan.scan_dstr)

lemma my_strlen_dstr: "dstr 10 m s xs \<Longrightarrow> my_strlen m s = Some (length xs + 1)"
  unfolding my_strlen_def by (rule nl_scan.scan_dstr)

lemma strcpy_blit:
  "cstr m src xs \<Longrightarrow> dest \<le> src \<or> src + length xs < dest \<Longrightarrow>
    strcpy dest src m = Some (dest, blit m dest (xs @ [0]))"
  by (simp add: strcpy_def nul_copy.copy_blit)

lemma my_strcpy_blit:
  "dstr 10 m src xs \<Longrightarrow> dest \<le> src \<or> src + length xs < dest \<Longrightarrow>
    my_strcpy dest src m = Some (dest, blit m dest (xs @ [10]))"
  by (simp add: my_strcpy_def nl_copy.copy_blit)

lemma strlen_loop_Some:
  assumes "strlen_loop m s k = Some n"
  shows "k \<le> n \<and> m (s + n) = 0 \<and> (\<forall>i. k \<le> i \<and> i < n \<longrightarrow> m (s + i) \<noteq> 0)"
proof (rule strlen_loop.raw_induct
    [where P = "\<lambda>m s k n. k \<le> n \<and> m (s + n) = 0 \<and> (\<forall>i. k \<le> i \<and> i < n \<longrightarrow> m (s + i) \<noteq> 0)",
      OF _ assms])
  fix f :: "mem \<Rightarrow> nat \<Rightarrow> nat \<Rightarrow> nat option" and m s k n
  assume IH: "\<And>m s k n. f m s k = Some n \<Longrightarrow>
      k \<le> n \<and> m (s + n) = 0 \<and> (\<forall>i. k \<le> i \<and> i < n \<longrightarrow> m (s + i) \<noteq> 0)"
    and eq: "(if m (s + k) \<noteq> 0 then f m s (k + 1) else Some k) = Some n"
  show "k \<le> n \<and> m (s + n) = 0 \<and> (\<forall>i. k \<le> i \<and> i < n \<longrightarrow> m (s + i) \<noteq> 0)"
  proof (cases "m (s + k) = 0")
    case True
    with eq show ?thesis by auto
  next
    case False
    with eq have "Suc k \<le> n" "m (s + n) = 0" "\<forall>i. Suc k \<le> i \<and> i < n \<longrightarrow> m (s + i) \<noteq> 0"
      using IH [of m s "k + 1" n] by auto
    with False show ?thesis by (metis Suc_leD Suc_leI le_neq_implies_less)
  qed
qed

lemma strlen_Some_iff: "strlen m s = Some n \<longleftrightarrow> cstr m s (bytes_at m s n)"
proof
  assume "strlen m s = Some n"
  then have "m (s + n) = 0" and "\<forall>i<n. m (s + i) \<noteq> 0"
    using strlen_loop_Some [of m s 0 n] by (auto simp: strlen_def)
  then show "cstr m s (bytes_at m s n)"
    by (auto simp: dstr_def bytes_at_def)
next
  assume "cstr m s (bytes_at m s n)"
  from strlen_cstr [OF this] show "strlen m s = Some n" by simp
qed


section \<open>Bounded copy and comparison\<close>

lemma strncpy_pad_blit: "strncpy_pad dest n i m = blit m (dest + i) (replicate (n - i) 0)"
proof (induction dest n i m rule: strncpy_pad.induct)
  case (1 dest n i m)
  show ?case
  proof (cases "i < n")
    case True
    then have "n - i = Suc (n - Suc i)" by simp
    with True 1 show ?thesis by (subst strncpy_pad.simps) (simp add: blit_Cons del: fun_upd_apply)
  next
    case False
    then show ?thesis by (subst strncpy_pad.simps) simp
  qed
qed

lemma strncpy_copy_blit:
  assumes "cstr m (src + i) xs" and "i \<le> n" and "dest \<le> src \<or> src + (i + length xs) < dest"
  shows "strncpy_copy dest src n i m =
    (min n (i + length xs), blit m (dest + i) (take (n - i) xs))"
  using assms
proof (induction xs arbitrary: i m)
  case Nil
  then show ?case by (subst strncpy_copy.simps) simp
next
  case (Cons x xs)
  show ?case
  proof (cases "i < n")
    case False
    with Cons.prems show ?thesis by (subst strncpy_copy.simps) simp
  next
    case True
    let ?m = "m(dest + i := x)"
    from Cons.prems have x: "m (src + i) = x" "x \<noteq> 0" and tl: "cstr m (src + Suc i) xs"
      by (auto simp: dstr_Cons)
    from tl have "cstr ?m (src + Suc i) xs"
      by (rule dstr_cong) (use Cons.prems(3) in auto)
    moreover have "dest \<le> src \<or> src + (Suc i + length xs) < dest" using Cons.prems(3) by auto
    ultimately have "strncpy_copy dest src n (Suc i) ?m =
        (min n (Suc i + length xs), blit ?m (dest + Suc i) (take (n - Suc i) xs))"
      using True by (intro Cons.IH) (auto simp del: fun_upd_apply)
    moreover have "n - i = Suc (n - Suc i)" using True by simp
    ultimately show ?thesis using x True by (subst strncpy_copy.simps) (simp add: blit_Cons)
  qed
qed

lemma strncpy_blit:
  assumes "cstr m src xs" and "dest \<le> src \<or> src + length xs < dest"
  shows "strncpy dest src n m = (dest, blit m dest (take n xs @ replicate (n - length xs) 0))"
proof -
  have "strncpy_copy dest src n 0 m = (min n (length xs), blit m dest (take n xs))"
    using strncpy_copy_blit [of m src 0 xs n dest] assms by simp
  then show ?thesis
    by (simp add: strncpy_def strncpy_pad_blit blit_append min_def)
qed

lemma strncmp_loop_zero_iff:
  assumes "cstr m (s1 + i) xs" and "cstr m (s2 + i) ys"
  shows "strncmp_loop m s1 s2 n i = 0 \<longleftrightarrow> take (n - i) (xs @ [0]) = take (n - i) (ys @ [0])"
  using assms
proof (induction xs arbitrary: i ys)
  case Nil
  have eq: "strncmp_loop m s1 s2 n i = 0 \<longleftrightarrow> \<not> i < n \<or> m (s2 + i) = 0"
    using Nil by (subst strncmp_loop.simps) (auto dest: signed_eq_0_iff [THEN iffD1])
  with Nil show ?case
    by (cases ys; cases "n - i") (auto simp: dstr_Cons)
next
  case (Cons x xs)
  show ?case
  proof (cases "i < n \<and> m (s2 + i) = x")
    case False
    have "sint x \<noteq> sint (m (s2 + i))" if "m (s2 + i) \<noteq> x"
      using that by (metis signed_word_eqI)
    with False Cons.prems have eq: "strncmp_loop m s1 s2 n i = 0 \<longleftrightarrow> \<not> i < n"
      by (subst strncmp_loop.simps) (auto simp: dstr_Cons)
    from False Cons.prems show ?thesis
      by (subst eq) (cases ys; cases "n - i"; auto simp: dstr_Cons)
  next
    case True
    with Cons.prems obtain ys' where ys: "ys = x # ys'"
      by (cases ys) (auto simp: dstr_Cons)
    with Cons.prems have "cstr m (s1 + Suc i) xs" "cstr m (s2 + Suc i) ys'" and x: "m (s1 + i) = x" "x \<noteq> 0"
      by (auto simp: dstr_Cons)
    then have "strncmp_loop m s1 s2 n (Suc i) = 0 \<longleftrightarrow>
        take (n - Suc i) (xs @ [0]) = take (n - Suc i) (ys' @ [0])"
      by (intro Cons.IH)
    moreover have "n - i = Suc (n - Suc i)" using True by linarith
    ultimately show ?thesis using True x ys by (subst strncmp_loop.simps) simp
  qed
qed

lemma strncmp_cstr_zero_iff:
  "cstr m s1 xs \<Longrightarrow> cstr m s2 ys \<Longrightarrow>
    strncmp m s1 s2 n = 0 \<longleftrightarrow> take n (xs @ [0]) = take n (ys @ [0])"
  using strncmp_loop_zero_iff [of m s1 0 xs s2 ys n] by (simp add: strncmp_def)


section \<open>In-place reversal\<close>

lemma strrev_loop_nth:
  "0 \<le> b \<Longrightarrow> strrev_loop s b e m a =
    (if b \<le> e \<and> s + nat b \<le> a \<and> a \<le> s + nat e then m (s + nat b + (s + nat e) - a) else m a)"
proof (induction s b e m arbitrary: a rule: strrev_loop.induct)
  case (1 s b e m)
  show ?case
  proof (cases "b < e")
    case True
    define m2 where "m2 = (m(s + nat e := m (s + nat b)))(s + nat b := m (s + nat e))"
    have "strrev_loop s (b + 1) (e - 1) m2 a =
        (if b + 1 \<le> e - 1 \<and> s + nat (b + 1) \<le> a \<and> a \<le> s + nat (e - 1)
         then m2 (s + nat (b + 1) + (s + nat (e - 1)) - a) else m2 a)"
      using True "1.prems" unfolding m2_def by (intro "1.IH") auto
    moreover have "strrev_loop s b e m a = strrev_loop s (b + 1) (e - 1) m2 a"
      using True by (subst strrev_loop.simps) (simp add: m2_def Let_def)
    moreover obtain B E where BE: "b = int B" "e = int E" "B < E"
      using True "1.prems" by (metis nat_0_le order_less_le order_trans zless_nat_conj nat_int of_nat_less_iff)
    moreover have "nat (b + 1) = B + 1" "nat (e - 1) = E - 1" "b + 1 \<le> e - 1 \<longleftrightarrow> B + 1 \<le> E - 1"
      using BE by auto
    ultimately have rec: "strrev_loop s b e m a =
        (if B + 1 \<le> E - 1 \<and> s + (B + 1) \<le> a \<and> a \<le> s + (E - 1)
         then m2 (s + (B + 1) + (s + (E - 1)) - a) else m2 a)"
      by (simp only:)
    have m2: "m2 z = (if z = s + B then m (s + E) else if z = s + E then m (s + B) else m z)" for z
      by (simp add: m2_def BE)
    consider "a = s + B" | "a = s + E" | "s + B < a" "a < s + E" | "a < s + B" | "s + E < a"
      by linarith
    then have "strrev_loop s b e m a =
        (if s + B \<le> a \<and> a \<le> s + E then m (s + B + (s + E) - a) else m a)"
      by cases (use BE(3) rec m2 in auto)
    then show ?thesis using BE by simp
  next
    case False
    then show ?thesis using "1.prems" by (subst strrev_loop.simps) auto
  qed
qed

lemma strrev_loop_blit:
  "strrev_loop s 0 (int n - 1) m = blit m s (rev (bytes_at m s n))"
  by (cases n) (auto simp: strrev_loop_nth blit_def rev_nth fun_eq_iff add.commute)

lemma strrev_blit: "cstr m s xs \<Longrightarrow> strrev s m = Some (s, blit m s (rev xs))"
  by (simp add: strrev_def strlen_cstr strrev_loop_blit dstr_def)


section \<open>Number conversion\<close>

text \<open>The reference: the digits of a number, least significant first.\<close>

function digits_le :: "nat \<Rightarrow> nat \<Rightarrow> nat list" where
  "digits_le r n = (if r < 2 \<or> n = 0 then [] else n mod r # digits_le r (n div r))"
  by pat_completeness auto
termination by (relation "measure snd") (auto simp: div_less_dividend)

declare digits_le.simps [simp del]

definition digit_value :: "u8 \<Rightarrow> nat" where
  "digit_value c = (if c < 65 then unat c - 48 else unat c - 55)"

definition numeral_value :: "nat \<Rightarrow> u8 list \<Rightarrow> nat" where
  "numeral_value r cs = foldl (\<lambda>acc c. acc * r + digit_value c) 0 cs"

lemma digits_le_bound: "2 \<le> r \<Longrightarrow> \<forall>d \<in> set (digits_le r n). d < r"
proof (induction r n rule: digits_le.induct)
  case (1 r n)
  then show ?case by (subst digits_le.simps) auto
qed

lemma digits_le_value: "2 \<le> r \<Longrightarrow> foldr (\<lambda>d acc. acc * r + d) (digits_le r n) 0 = n"
proof (induction r n rule: digits_le.induct)
  case (1 r n)
  then show ?case by (subst digits_le.simps) (auto simp: div_mult_mod_eq)
qed

lemma digits_le_length: "2 \<le> r \<Longrightarrow> n < r ^ k \<Longrightarrow> length (digits_le r n) \<le> k"
proof (induction k arbitrary: n)
  case 0
  then show ?case by (simp add: digits_le.simps)
next
  case (Suc k)
  show ?case
  proof (cases "n = 0")
    case False
    have "n div r < r ^ k" using Suc.prems by (simp add: less_mult_imp_div_less mult.commute)
    with Suc.IH [of "n div r"] Suc.prems(1) False show ?thesis by (subst digits_le.simps) simp
  qed (simp add: digits_le.simps)
qed

lemma digits_le_last: "2 \<le> r \<Longrightarrow> 0 < n \<Longrightarrow> digits_le r n \<noteq> [] \<and> last (digits_le r n) \<noteq> 0"
proof (induction r n rule: digits_le.induct)
  case (1 r n)
  show ?case
  proof (cases "n div r = 0")
    case True
    with 1 have "n mod r = n" by (simp add: div_eq_0_iff)
    with True 1 show ?thesis by (subst (1 2) digits_le.simps) (simp add: digits_le.simps [of r 0])
  next
    case False
    with 1 show ?thesis by (subst (1 2) digits_le.simps) simp
  qed
qed

lemma length_itoa_lookup [simp]: "length itoa_lookup = 37"
  by (simp add: itoa_lookup_def str_bytes_def)

lemma itoa_lookup_eq: "itoa_lookup =
  [48, 49, 50, 51, 52, 53, 54, 55, 56, 57, 65, 66, 67, 68, 69, 70, 71, 72, 73, 74, 75, 76, 77,
   78, 79, 80, 81, 82, 83, 84, 85, 86, 87, 88, 89, 90, 0]"
  by (simp add: itoa_lookup_def str_bytes_def chb_def)

lemma itoa_lookup_digit: "d < 36 \<Longrightarrow> digit_value (itoa_lookup ! d) = d \<and> itoa_lookup ! d \<noteq> 0"
proof -
  have "list_all (\<lambda>d. digit_value (itoa_lookup ! d) = d \<and> itoa_lookup ! d \<noteq> 0) [0..<36]"
    unfolding itoa_lookup_eq digit_value_def by code_simp
  then show "d < 36 \<Longrightarrow> ?thesis" by (simp add: list_all_iff)
qed

lemma itoa_loop_blit:
  assumes r: "2 \<le> unat radix" "unat radix \<le> 36"
  shows "itoa_loop radix v nb m =
    Some (nb + length (digits_le (unat radix) (unat v)),
          blit m nb (map ((!) itoa_lookup) (digits_le (unat radix) (unat v))))"
proof (induction "unat v" arbitrary: v nb m rule: less_induct)
  case less
  show ?case
  proof (cases "v = 0")
    case True
    then show ?thesis by (subst itoa_loop.simps) (simp add: digits_le.simps [of _ 0])
  next
    case False
    let ?d = "unat v mod unat radix"
    from r have "radix \<noteq> 0" by auto
    from False have v: "0 < unat v" by (simp add: unat_gt_0)
    with r have lt: "unat (v div radix) < unat v" by (simp add: unat_div)
    have "?d < 36" using r by (meson less_le_trans mod_less_divisor zero_less_numeral)
    then have get: "aget itoa_lookup (uint (v mod radix)) = Some (itoa_lookup ! ?d)"
      by (simp add: aget_def uint_nat unat_mod)
    have "digits_le (unat radix) (unat v) = ?d # digits_le (unat radix) (unat (v div radix))"
      using r v by (subst digits_le.simps) (simp add: unat_div)
    with less.hyps [OF lt, of "nb + 1" "m(nb := itoa_lookup ! ?d)"] False \<open>radix \<noteq> 0\<close> get
    show ?thesis by (subst itoa_loop.simps) (simp add: word_gt_0 blit_Cons)
  qed
qed

definition itoa_spec :: "nat \<Rightarrow> nat \<Rightarrow> u8 list" where
  "itoa_spec r n = (if n = 0 then [chb CHR ''0''] else rev (map ((!) itoa_lookup) (digits_le r n)))"

lemma itoa_spec_nonzero:
  assumes "2 \<le> r" and "r \<le> 36"
  shows "0 \<notin> set (itoa_spec r n)"
proof -
  have "itoa_lookup ! d \<noteq> 0" if "d \<in> set (digits_le r n)" for d
    using that assms digits_le_bound [of r n] by (meson itoa_lookup_digit less_le_trans)
  then show ?thesis by (auto simp: itoa_spec_def chb_def)
qed

lemma itoa_spec_value: "2 \<le> r \<Longrightarrow> r \<le> 36 \<Longrightarrow> numeral_value r (itoa_spec r n) = n"
proof -
  assume r: "2 \<le> r" "r \<le> 36"
  have *: "foldr (\<lambda>c acc. acc * r + digit_value c) (map ((!) itoa_lookup) ds) 0 =
      foldr (\<lambda>d acc. acc * r + d) ds 0" if "\<forall>d \<in> set ds. d < r" for ds
    using that r by (induction ds) (auto simp: itoa_lookup_digit)
  show ?thesis
    using r * [OF digits_le_bound [OF r(1), of n]]
    by (simp add: numeral_value_def itoa_spec_def foldl_conv_foldr digits_le_value chb_def digit_value_def)
qed

lemma itoa_blit:
  assumes r: "2 \<le> unat radix" "unat radix \<le> 36"
  shows "itoa value buf radix m = Some (buf, blit m buf (itoa_spec (unat radix) (unat value) @ [0]))"
proof (cases "value = 0")
  case True
  then show ?thesis by (simp add: itoa_def itoa_spec_def blit_Cons fun_upd_twist)
next
  case False
  define cs where "cs = map ((!) itoa_lookup) (digits_le (unat radix) (unat value))"
  have spec: "itoa_spec (unat radix) (unat value) = rev cs"
    using False by (simp add: itoa_spec_def cs_def unat_eq_0)
  have nz: "0 \<notin> set cs" using itoa_spec_nonzero [OF r, of "unat value"] by (simp add: spec)
  have loop: "itoa_loop radix value buf m = Some (buf + length cs, blit m buf cs)"
    by (simp add: itoa_loop_blit r cs_def)
  let ?m = "blit m buf (cs @ [0])"
  have "strrev buf ?m = Some (buf, blit ?m buf (rev cs))"
    by (rule strrev_blit, rule dstr_blit, rule nz)
  moreover have "blit ?m buf (rev cs) = blit m buf (rev cs @ [0])"
    by (auto simp: blit_def fun_eq_iff nth_append)
  ultimately show ?thesis using False loop by (simp add: itoa_def spec blit_snoc)
qed

end
