(* ===== verification/Console.thy ===== *)
theory Console
  imports Terminals Lib_Strings
begin

text \<open>
  The text-mode console of \<open>student-distrib/lib.c\<close>: clearing, scrolling, the three
  character-output routines (\<open>putc\<close> for kernel messages, \<open>my_putc\<close> for the
  running process, \<open>key_putc\<close> for keyboard echo), backspace, cursor update, the
  string loops and the two \<open>printf\<close> routines.  Video memory is a 4 KB page of the
  flat memory: character \<open>(x, y)\<close> is the byte at \<open>2 * (80 * y + x)\<close>, its
  attribute the next one.

  The lemmas show that output keeps every cursor on the screen, changes nothing outside
  the page it is meant for, and that the string routines print exactly the bytes of their
  argument.
\<close>

section \<open>Cells, clearing and scrolling\<close>

definition vaddr :: "addr \<Rightarrow> int \<Rightarrow> int \<Rightarrow> addr" where
  "vaddr base x y = nat (int base + 2 * (NUM_COLS * y + x))"

definition cycle_text_color :: "int \<Rightarrow> kstate \<Rightarrow> kstate" where
  "cycle_text_color terminal s = s\<lparr>text_color := 0x07\<rparr>"

definition clear_cell :: "u8 \<Rightarrow> nat \<Rightarrow> mem \<Rightarrow> mem" where
  "clear_cell col i m = m(VIDEO + 2 * i := 32, VIDEO + 2 * i + 1 := col)"

definition clear :: "kstate \<Rightarrow> kstate" where
  "clear s = s\<lparr>mem := fold (clear_cell (text_color s)) [0..<2000] (mem s)\<rparr>"

definition update_cursor :: "kstate \<Rightarrow> kstate" where
  "update_cursor s =
     (let pos = (word_of_int (screen_y s * NUM_COLS + screen_x s) :: u16)
      in outb (ucast (drop_bit 8 pos AND 0xFF)) 0x3D5 (outb 0x0E 0x3D4
           (outb (ucast (pos AND 0xFF)) 0x3D5 (outb 0x0F 0x3D4 s))))"

definition my_clear :: "kstate \<Rightarrow> kstate" where
  "my_clear s =
     update_cursor (s\<lparr>screen_x := 0, screen_y := 0,
        mem := fold (clear_cell (text_color s)) [0..<2000] (mem s)\<rparr>)"

definition test_interrupts :: "kstate \<Rightarrow> kstate" where
  "test_interrupts s =
     s\<lparr>mem := fold (\<lambda>i m. m(VIDEO + 2 * i := m (VIDEO + 2 * i) + 1)) [0..<2000] (mem s)\<rparr>"

definition scroll_cell :: "addr \<Rightarrow> nat \<Rightarrow> nat \<Rightarrow> mem \<Rightarrow> mem" where
  "scroll_cell base i j m =
     (if i = 24 then m(base + 2 * (80 * i + j) := 32)
      else m(base + 2 * (80 * i + j) := m (base + 2 * (80 * (i + 1) + j))))"

definition scroll_row :: "addr \<Rightarrow> nat \<Rightarrow> mem \<Rightarrow> mem" where
  "scroll_row base i m = fold (scroll_cell base i) [0..<80] m"

definition scroll_page :: "addr \<Rightarrow> mem \<Rightarrow> mem" where
  "scroll_page base m = fold (scroll_row base) [0..<25] m"

text \<open>\<open>_scroll_down_\<close> and \<open>_scroll_down\<close>.\<close>

definition scroll_down_at :: "addr \<Rightarrow> kstate \<Rightarrow> kstate" where
  "scroll_down_at base s = s\<lparr>mem := scroll_page base (mem s)\<rparr>"

definition scroll_down :: "kstate \<Rightarrow> kstate" where
  "scroll_down s = scroll_down_at VIDEO s"


section \<open>Character output\<close>

text \<open>
  The common body of \<open>putc\<close>, \<open>my_putc\<close> and \<open>key_putc\<close>: a newline
  or carriage return moves to the next line, any other byte is stored and the position
  advances, with scrolling on the last row.  The result is the new position and state.
\<close>

definition char_out :: "addr \<Rightarrow> u8 \<Rightarrow> int \<Rightarrow> int \<Rightarrow> kstate \<Rightarrow> int \<times> int \<times> kstate" where
  "char_out base c x y s =
     (if c = 10 \<or> c = 13 then
        (if y = NUM_ROWS - 1 then (0, y, scroll_down_at base s) else (0, y + 1, s))
      else
        (let s1 = s\<lparr>mem := (mem s)(vaddr base x y := c, vaddr base x y + 1 := text_color s)\<rparr>;
             x1 = c_mod (x + 1) NUM_COLS;
             y1 = c_mod (y + c_div x1 NUM_COLS) NUM_ROWS
         in if x1 = 0 then
              (if y1 = NUM_ROWS - 1 then (x1, y1, scroll_down_at base s1) else (x1, y1 + 1, s1))
            else (x1, y1, s1)))"

definition putc :: "u8 \<Rightarrow> kstate \<Rightarrow> kstate" where
  "putc c s =
     (let (x, y, s1) = char_out VIDEO c (screen_x s) (screen_y s) s
      in update_cursor (s1\<lparr>screen_x := x, screen_y := y\<rparr>))"

definition my_putc :: "u8 \<Rightarrow> kstate \<Rightarrow> kstate option" where
  "my_putc c s = do {
     video_addr \<leftarrow> video_return s;
     x \<leftarrow> x_return False s;
     y \<leftarrow> y_return False s;
     let (x, y, s1) = char_out video_addr c x y s;
     s2 \<leftarrow> set_terminal_pos x y False s1;
     Some (update_cursor s2) }"

definition key_putc :: "u8 \<Rightarrow> kstate \<Rightarrow> kstate option" where
  "key_putc c s = do {
     x \<leftarrow> x_return True s;
     y \<leftarrow> y_return True s;
     let (x, y, s1) = char_out VIDEO c x y (s\<lparr>screen_x := x, screen_y := y\<rparr>);
     let s2 = s1\<lparr>screen_x := x, screen_y := y\<rparr>;
     s3 \<leftarrow> set_terminal_pos x y True s2;
     Some (update_cursor s3) }"

text \<open>\<open>_backspace\<close>\<close>

definition set_pos_here :: "kstate \<Rightarrow> kstate option" where
  "set_pos_here s = set_terminal_pos (screen_x s) (screen_y s) True s"

definition backspace :: "kstate \<Rightarrow> kstate option" where
  "backspace s = do {
     x \<leftarrow> x_return True s;
     y \<leftarrow> y_return True s;
     let s = s\<lparr>screen_x := x, screen_y := y\<rparr>;
     if x = 0 \<and> y = 0 then Some (update_cursor s)
     else do {
       s \<leftarrow> (if x = 0 then do {
                s \<leftarrow> set_pos_here (s\<lparr>screen_x := NUM_COLS - 1, screen_y := y - 1\<rparr>);
                s \<leftarrow> key_putc 0x20 s;
                set_pos_here (s\<lparr>screen_x := NUM_COLS - 1, screen_y := screen_y s - 1\<rparr>) }
              else do {
                s \<leftarrow> set_pos_here (s\<lparr>screen_x := x - 1\<rparr>);
                s \<leftarrow> key_putc 0x20 s;
                set_pos_here (s\<lparr>screen_x := screen_x s - 1\<rparr>) });
       s \<leftarrow> set_pos_here s;
       Some (update_cursor s) } }"

definition arrow_key :: "int \<Rightarrow> kstate \<Rightarrow> kstate" where
  "arrow_key dir s =
     update_cursor (if dir = 1 then s\<lparr>screen_x := screen_x s + 1\<rparr>
                    else if dir = -1 then s\<lparr>screen_x := screen_x s - 1\<rparr> else s)"

definition x_screen_return :: "kstate \<Rightarrow> int" where "x_screen_return s = screen_x s"
definition y_screen_return :: "kstate \<Rightarrow> int" where "y_screen_return s = screen_y s"
definition x_set_screen :: "int \<Rightarrow> kstate \<Rightarrow> kstate" where "x_set_screen x s = s\<lparr>screen_x := x\<rparr>"
definition y_set_screen :: "int \<Rightarrow> kstate \<Rightarrow> kstate" where "y_set_screen y s = s\<lparr>screen_y := y\<rparr>"


section \<open>String output\<close>

partial_function (option) puts_loop :: "addr \<Rightarrow> nat \<Rightarrow> kstate \<Rightarrow> (nat \<times> kstate) option" where
  "puts_loop str index s =
     (if mem s (str + index) \<noteq> 0 then puts_loop str (index + 1) (putc (mem s (str + index)) s)
      else Some (index, s))"

definition puts :: "addr \<Rightarrow> kstate \<Rightarrow> (nat \<times> kstate) option" where
  "puts str s = puts_loop str 0 s"

function fs_puts_loop :: "addr \<Rightarrow> nat \<Rightarrow> kstate \<Rightarrow> nat \<times> kstate" where
  "fs_puts_loop str index s =
     (if mem s (str + index) \<noteq> 0 \<and> index < 32
      then fs_puts_loop str (index + 1) (putc (mem s (str + index)) s)
      else (index, s))"
  by pat_completeness auto
termination by (relation "measure (\<lambda>(str, i, s). 32 - i)") auto

definition fs_puts :: "addr \<Rightarrow> kstate \<Rightarrow> (nat \<times> kstate) option" where
  "fs_puts str s = Some (fs_puts_loop str 0 s)"

partial_function (option) my_puts_loop :: "addr \<Rightarrow> int \<Rightarrow> int \<Rightarrow> kstate \<Rightarrow> (int \<times> kstate) option" where
  "my_puts_loop str nbytes index s =
     (if index = nbytes then Some (index, s)
      else do { s \<leftarrow> my_putc (mem s (nat (int str + index))) s;
                my_puts_loop str nbytes (index + 1) s })"

definition my_puts :: "addr \<Rightarrow> int \<Rightarrow> kstate \<Rightarrow> (int \<times> kstate) option" where
  "my_puts str nbytes s = my_puts_loop str nbytes 0 s"

declare fs_puts_loop.simps [simp del]


section \<open>Formatted output\<close>

text \<open>
  \<open>printf\<close> and \<open>fs_printf\<close> differ in the routine that prints a
  \<open>%s\<close> argument.  The arguments on the stack are a list of words; taking one more
  than were passed reads the caller's frame and is undefined.  \<open>conv_buf\<close> is at
  \<open>frame\<close>.
\<close>

definition print_hex :: "u32 \<Rightarrow> kstate \<Rightarrow> kstate option" where
  "print_hex v s = do {
     (b, m) \<leftarrow> itoa v (frame s) 16 (mem s);
     (n, s) \<leftarrow> puts (frame s) (s\<lparr>mem := m\<rparr>);
     Some s }"

function pad_zeros :: "addr \<Rightarrow> nat \<Rightarrow> mem \<Rightarrow> mem" where
  "pad_zeros cb i m = (if i < 8 then pad_zeros cb (i + 1) (m(cb + i := 48)) else m)"
  by pat_completeness auto
termination by (relation "measure (\<lambda>(cb, i, m). 8 - i)") auto

definition print_hex_alt :: "u32 \<Rightarrow> kstate \<Rightarrow> kstate option" where
  "print_hex_alt v s = do {
     (b, m) \<leftarrow> itoa v (frame s + 8) 16 (mem s);
     starting_index \<leftarrow> strlen m (frame s + 8);
     (n, s) \<leftarrow> puts (frame s + starting_index) (s\<lparr>mem := pad_zeros (frame s) starting_index m\<rparr>);
     Some s }"

definition print_unsigned :: "u32 \<Rightarrow> kstate \<Rightarrow> kstate option" where
  "print_unsigned v s = do {
     (b, m) \<leftarrow> itoa v (frame s) 10 (mem s);
     (n, s) \<leftarrow> puts (frame s) (s\<lparr>mem := m\<rparr>);
     Some s }"

definition print_signed :: "u32 \<Rightarrow> kstate \<Rightarrow> kstate option" where
  "print_signed v s = do {
     (b, m) \<leftarrow> (if sint v < 0 then itoa (- v) (frame s + 1) 10 ((mem s)(frame s := 45))
               else itoa v (frame s) 10 (mem s));
     (n, s) \<leftarrow> puts (frame s) (s\<lparr>mem := m\<rparr>);
     Some s }"

text \<open>One conversion, from the label \<open>format_char_switch\<close>: \<open>buf\<close> points at
  the character after the percent sign and is returned pointing at the last one used.\<close>

partial_function (option) fmt_conv ::
  "(addr \<Rightarrow> kstate \<Rightarrow> (nat \<times> kstate) option) \<Rightarrow> bool \<Rightarrow> addr \<Rightarrow> u32 list \<Rightarrow> kstate \<Rightarrow> (addr \<times> u32 list \<times> kstate) option"
where
  "fmt_conv put_str alternate buf args s =
     (if mem s buf = 37 then Some (buf, args, putc 37 s)
      else if mem s buf = 35 then fmt_conv put_str True (buf + 1) args s
      else if mem s buf = 120 then
        (case args of [] \<Rightarrow> None | v # vs \<Rightarrow> do {
           s \<leftarrow> (if alternate then print_hex_alt v s else print_hex v s); Some (buf, vs, s) })
      else if mem s buf = 117 then
        (case args of [] \<Rightarrow> None | v # vs \<Rightarrow> do { s \<leftarrow> print_unsigned v s; Some (buf, vs, s) })
      else if mem s buf = 100 then
        (case args of [] \<Rightarrow> None | v # vs \<Rightarrow> do { s \<leftarrow> print_signed v s; Some (buf, vs, s) })
      else if mem s buf = 99 then
        (case args of [] \<Rightarrow> None | v # vs \<Rightarrow> Some (buf, vs, putc (ucast v) s))
      else if mem s buf = 115 then
        (case args of [] \<Rightarrow> None | v # vs \<Rightarrow> do { (n, s) \<leftarrow> put_str (unat v) s; Some (buf, vs, s) })
      else Some (buf, args, s))"

partial_function (option) printf_loop ::
  "(addr \<Rightarrow> kstate \<Rightarrow> (nat \<times> kstate) option) \<Rightarrow> addr \<Rightarrow> u32 list \<Rightarrow> kstate \<Rightarrow> (addr \<times> kstate) option"
where
  "printf_loop put_str buf args s =
     (if mem s buf \<noteq> 0 then
        (if mem s buf = 37 then do {
           (buf, args, s) \<leftarrow> fmt_conv put_str False (buf + 1) args s;
           printf_loop put_str (buf + 1) args s }
         else printf_loop put_str (buf + 1) args (putc (mem s buf) s))
      else Some (buf, s))"

definition printf :: "addr \<Rightarrow> u32 list \<Rightarrow> kstate \<Rightarrow> (int \<times> kstate) option" where
  "printf format args s = do { (buf, s) \<leftarrow> printf_loop puts format args s; Some (int buf - int format, s) }"

definition fs_printf :: "addr \<Rightarrow> u32 list \<Rightarrow> kstate \<Rightarrow> (int \<times> kstate) option" where
  "fs_printf format args s = do { (buf, s) \<leftarrow> printf_loop fs_puts format args s; Some (int buf - int format, s) }"

declare pad_zeros.simps [simp del]


section \<open>Scrolling\<close>

lemma fold_upt_Suc: "fold f [0..<Suc n] m = f n (fold f [0..<n] m)"
  by simp

lemma scroll_row_prefix:
  assumes "n \<le> 80"
  shows "fold (scroll_cell base i) [0..<n] m a =
    (if \<exists>j<n. a = base + 2 * (80 * i + j) then (if i = 24 then 32 else m (a + 160)) else m a)"
  using assms
proof (induction n arbitrary: a)
  case 0
  then show ?case by simp
next
  case (Suc n)
  let ?m = "fold (scroll_cell base i) [0..<n] m"
  have IH: "?m a = (if \<exists>j<n. a = base + 2 * (80 * i + j) then (if i = 24 then 32 else m (a + 160)) else m a)" for a
    using Suc by simp
  have next_row: "?m (base + 2 * (80 * (i + 1) + n)) = m (base + 2 * (80 * i + n) + 160)"
    using Suc.prems by (auto simp: IH algebra_simps)
  have "fold (scroll_cell base i) [0..<Suc n] m a =
      (if a = base + 2 * (80 * i + n) then (if i = 24 then 32 else m (a + 160)) else ?m a)"
    unfolding fold_upt_Suc scroll_cell_def [of base i n] using next_row by simp
  then show ?case by (auto simp: IH less_Suc_eq)
qed

lemma scroll_page_prefix:
  assumes "n \<le> 25"
  shows "fold (scroll_row base) [0..<n] m a =
    (if \<exists>k<80 * n. a = base + 2 * k then (if base + 3840 \<le> a then 32 else m (a + 160)) else m a)"
  using assms
proof (induction n arbitrary: a)
  case 0
  then show ?case by simp
next
  case (Suc n)
  let ?m = "fold (scroll_row base) [0..<n] m"
  have IH: "?m a = (if \<exists>k<80 * n. a = base + 2 * k then (if base + 3840 \<le> a then 32 else m (a + 160)) else m a)" for a
    using Suc by simp
  have row: "(\<exists>k<80 * Suc n. a = base + 2 * k) \<longleftrightarrow>
      (\<exists>k<80 * n. a = base + 2 * k) \<or> (\<exists>j<80. a = base + 2 * (80 * n + j))"
    (is "?L \<longleftrightarrow> ?R")
  proof
    assume ?L
    then obtain k where k: "k < 80 * Suc n" "a = base + 2 * k" by blast
    show ?R
    proof (cases "k < 80 * n")
      case False
      with k have "k - 80 * n < 80" "a = base + 2 * (80 * n + (k - 80 * n))" by auto
      then show ?thesis by blast
    qed (use k in blast)
  next
    assume ?R
    then show ?L by (auto intro: exI [of _ "80 * n + j" for j])
  qed
  have "fold (scroll_row base) [0..<Suc n] m a =
      (if \<exists>j<80. a = base + 2 * (80 * n + j) then (if n = 24 then 32 else ?m (a + 160)) else ?m a)"
    unfolding fold_upt_Suc scroll_row_def by (rule scroll_row_prefix) simp
  moreover have "?m (a + 160) = m (a + 160)" if "a = base + 2 * (80 * n + j)" for j
    using that by (auto simp: IH)
  moreover have "base + 3840 \<le> a \<longleftrightarrow> n = 24" if "a = base + 2 * (80 * n + j)" "j < 80" for j
    using that Suc.prems by auto
  ultimately show ?case unfolding row by (auto simp: IH)
qed

lemma scroll_page_nth:
  "scroll_page base m a =
    (if base \<le> a \<and> a < base + 4000 \<and> even (a - base)
     then (if a < base + 3840 then m (a + 160) else 32) else m a)"
proof -
  have "(\<exists>k<80 * 25. a = base + 2 * k) \<longleftrightarrow> base \<le> a \<and> a < base + 4000 \<and> even (a - base)"
    (is "?L \<longleftrightarrow> ?R")
  proof
    assume ?L
    then obtain k where "k < 2000" "a = base + 2 * k" by auto
    then show ?R by simp
  next
    assume ?R
    then have "(a - base) div 2 < 80 * 25" "a = base + 2 * ((a - base) div 2)" by auto
    then show ?L by blast
  qed
  then show ?thesis
    using scroll_page_prefix [of 25 base m a] by (auto simp: scroll_page_def)
qed


section \<open>One character\<close>

lemma update_cursor_simps [simp]:
  "mem (update_cursor s) = mem s" "terminals (update_cursor s) = terminals s"
  "screen_x (update_cursor s) = screen_x s" "screen_y (update_cursor s) = screen_y s"
  "process_num (update_cursor s) = process_num s" "main_process (update_cursor s) = main_process s"
  "active_terminal (update_cursor s) = active_terminal s" "text_color (update_cursor s) = text_color s"
  "frame (update_cursor s) = frame s" "pos_idx t (update_cursor s) = pos_idx t s"
  "main_page (update_cursor s) = main_page s" "terms_ok (update_cursor s) = terms_ok s"
  by (simp_all add: update_cursor_def Let_def outb_def pos_idx_def main_page_def terms_ok_def)

text \<open>Position and page after one character, for a cursor on the screen.\<close>

definition wrap_row :: "int \<Rightarrow> int" where
  "wrap_row y = (if y = 24 then 24 else y + 1)"

definition next_x :: "u8 \<Rightarrow> int \<Rightarrow> int" where
  "next_x c x = (if c = 10 \<or> c = 13 \<or> x = 79 then 0 else x + 1)"

definition next_y :: "u8 \<Rightarrow> int \<Rightarrow> int \<Rightarrow> int" where
  "next_y c x y = (if c = 10 \<or> c = 13 \<or> x = 79 then wrap_row y else y)"

definition page_out :: "addr \<Rightarrow> u8 \<Rightarrow> u8 \<Rightarrow> int \<Rightarrow> int \<Rightarrow> mem \<Rightarrow> mem" where
  "page_out base col c x y m =
     (let m1 = (if c = 10 \<or> c = 13 then m else m(vaddr base x y := c, vaddr base x y + 1 := col))
      in if next_x c x = 0 \<and> y = 24 then scroll_page base m1 else m1)"

lemma next_pos_ok: "cursor_ok x y \<Longrightarrow> cursor_ok (next_x c x) (next_y c x y)"
  by (auto simp: cursor_ok_def next_x_def next_y_def wrap_row_def)

lemma vaddr_nat:
  "0 \<le> x \<Longrightarrow> 0 \<le> y \<Longrightarrow> vaddr base x y = base + 2 * (80 * nat y + nat x)"
  by (simp add: vaddr_def NUM_COLS_def nat_add_distrib nat_mult_distrib)

lemma char_out_eq:
  assumes "cursor_ok x y"
  shows "char_out base c x y s =
    (next_x c x, next_y c x y, s\<lparr>mem := page_out base (text_color s) c x y (mem s)\<rparr>)"
proof -
  have x: "c_mod (x + 1) 80 = (if x = 79 then 0 else x + 1)"
    using assms by (auto simp: c_mod_def cursor_ok_def sgn_if)
  have "c_div (if x = 79 then 0 else x + 1) 80 = 0"
    using assms by (auto simp: c_div_def cursor_ok_def sgn_if)
  moreover have "c_mod y 25 = y"
    using assms by (auto simp: c_mod_def cursor_ok_def sgn_if)
  ultimately show ?thesis
    using assms x
    by (auto simp: char_out_def page_out_def next_x_def next_y_def wrap_row_def Let_def NUM_COLS_def
        NUM_ROWS_def scroll_down_at_def cursor_ok_def)
qed

lemma page_out_frame:
  assumes "cursor_ok x y" and "\<not> (base \<le> a \<and> a < base + 4000)"
  shows "page_out base col c x y m a = m a"
proof -
  have "base \<le> vaddr base x y" "vaddr base x y + 1 < base + 4000"
    using assms(1) by (auto simp: vaddr_nat cursor_ok_def)
  with assms(2) have "a \<noteq> vaddr base x y" "a \<noteq> vaddr base x y + 1" by auto
  with assms(2) show ?thesis
    by (auto simp: page_out_def Let_def scroll_page_nth)
qed

lemma page_out_store:
  assumes "cursor_ok x y" and "c \<noteq> 10" "c \<noteq> 13" and "\<not> (x = 79 \<and> y = 24)"
  shows "page_out base col c x y m = m(vaddr base x y := c, vaddr base x y + 1 := col)"
  using assms by (auto simp: page_out_def next_x_def Let_def cursor_ok_def)

lemma putc_eq:
  assumes "cursor_ok (screen_x s) (screen_y s)"
  shows "putc c s = update_cursor (s\<lparr>mem := page_out VIDEO (text_color s) c (screen_x s) (screen_y s) (mem s),
    screen_x := next_x c (screen_x s), screen_y := next_y c (screen_x s) (screen_y s)\<rparr>)"
  by (simp add: putc_def char_out_eq [OF assms])

lemma my_putc_eq:
  assumes ok: "terms_ok s"
  defines "i \<equiv> pos_idx False s"
  defines "x \<equiv> x_cursor (terminals s ! i)" and "y \<equiv> y_cursor (terminals s ! i)"
  shows "my_putc c s = Some (update_cursor (move_cursor i (next_x c x) (next_y c x y)
     (s\<lparr>mem := page_out (main_page s) (text_color s) c x y (mem s)\<rparr>)))"
proof -
  let ?s1 = "s\<lparr>mem := page_out (main_page s) (text_color s) c x y (mem s)\<rparr>"
  have cur: "cursor_ok x y" unfolding x_def y_def i_def using ok by (rule terms_ok_cursor)
  have "terms_ok ?s1" using ok by (simp add: terms_ok_def)
  from set_terminal_pos_Some [OF this next_pos_ok [OF cur]]
  have "set_terminal_pos (next_x c x) (next_y c x y) False ?s1 =
      Some (move_cursor i (next_x c x) (next_y c x y) ?s1)"
    by (simp add: i_def pos_idx_def)
  then show ?thesis
    by (simp add: my_putc_def video_return_Some [OF ok] x_return_Some [OF ok] y_return_Some [OF ok]
        char_out_eq [OF cur] flip: i_def x_def y_def)
qed

lemma key_putc_eq:
  assumes ok: "terms_ok s"
  defines "i \<equiv> pos_idx True s"
  defines "x \<equiv> x_cursor (terminals s ! i)" and "y \<equiv> y_cursor (terminals s ! i)"
  shows "key_putc c s = Some (update_cursor (move_cursor i (next_x c x) (next_y c x y)
     (s\<lparr>mem := page_out VIDEO (text_color s) c x y (mem s),
        screen_x := next_x c x, screen_y := next_y c x y\<rparr>)))"
proof -
  let ?s1 = "s\<lparr>mem := page_out VIDEO (text_color s) c x y (mem s),
        screen_x := next_x c x, screen_y := next_y c x y\<rparr>"
  have cur: "cursor_ok x y" unfolding x_def y_def i_def using ok by (rule terms_ok_cursor)
  have "terms_ok ?s1" using ok by (simp add: terms_ok_def)
  from set_terminal_pos_Some [OF this next_pos_ok [OF cur]]
  have "set_terminal_pos (next_x c x) (next_y c x y) True ?s1 =
      Some (move_cursor i (next_x c x) (next_y c x y) ?s1)"
    by (simp add: i_def pos_idx_def)
  then show ?thesis
    by (simp add: key_putc_def x_return_Some [OF ok] y_return_Some [OF ok]
        char_out_eq [OF cur] flip: i_def x_def y_def)
qed


section \<open>Output routines as character sinks\<close>

text \<open>
  The contract the string loops rely on: in a good state, printing a character succeeds,
  gives a good state and changes no byte outside the 4000 bytes of the sink's page.
\<close>

fun emit :: "(u8 \<Rightarrow> kstate \<Rightarrow> kstate option) \<Rightarrow> u8 list \<Rightarrow> kstate \<Rightarrow> kstate option" where
  "emit put [] s = Some s"
| "emit put (c # cs) s = do { s \<leftarrow> put c s; emit put cs s }"

definition same_outside :: "addr \<Rightarrow> mem \<Rightarrow> mem \<Rightarrow> bool" where
  "same_outside page m m' \<longleftrightarrow> (\<forall>a. \<not> (page \<le> a \<and> a < page + 4000) \<longrightarrow> m' a = m a)"

lemma same_outside_refl [simp]: "same_outside p m m"
  by (simp add: same_outside_def)

lemma same_outside_trans: "same_outside p m m' \<Longrightarrow> same_outside p m' m'' \<Longrightarrow> same_outside p m m''"
  by (simp add: same_outside_def)

lemma same_outside_bytes:
  "same_outside p m m' \<Longrightarrow> disjoint_rng p 4000 a n \<Longrightarrow> bytes_at m' a n = bytes_at m a n"
  by (rule bytes_at_eqI) (auto simp: same_outside_def disjoint_rng_def)

lemma same_outside_dstr:
  assumes "same_outside p m m'" and "disjoint_rng p 4000 a (length xs + 1)" and "dstr t m a xs"
  shows "dstr t m' a xs"
  using assms(3) by (rule dstr_cong) (use assms in \<open>auto simp: same_outside_def disjoint_rng_def\<close>)

locale char_sink =
  fixes put :: "u8 \<Rightarrow> kstate \<Rightarrow> kstate option" and ok :: "kstate \<Rightarrow> bool" and page :: "kstate \<Rightarrow> addr"
  assumes put_ok: "ok s \<Longrightarrow>
    \<exists>s'. put c s = Some s' \<and> ok s' \<and> page s' = page s \<and> same_outside (page s) (mem s) (mem s')"
begin

lemma emit_ok:
  "ok s \<Longrightarrow> \<exists>s'. emit put cs s = Some s' \<and> ok s' \<and> page s' = page s \<and> same_outside (page s) (mem s) (mem s')"
proof (induction cs arbitrary: s)
  case Nil
  then show ?case by simp
next
  case (Cons c cs)
  from put_ok [OF Cons.prems, of c] obtain s1 where s1: "put c s = Some s1" "ok s1" "page s1 = page s"
    "same_outside (page s) (mem s) (mem s1)" by blast
  with Cons.IH [of s1] show ?case by (auto intro: same_outside_trans)
qed

end

interpretation kernel_sink: char_sink "\<lambda>c s. Some (putc c s)" "\<lambda>s. cursor_ok (screen_x s) (screen_y s)" "\<lambda>s. VIDEO"
  by unfold_locales (simp add: putc_eq next_pos_ok same_outside_def page_out_frame)

interpretation process_sink: char_sink my_putc terms_ok main_page
proof
  fix s c assume ok: "terms_ok s"
  let ?i = "pos_idx False s"
  have cur: "cursor_ok (x_cursor (terminals s ! ?i)) (y_cursor (terminals s ! ?i))"
    using ok by (rule terms_ok_cursor)
  have ok': "terms_ok (s\<lparr>mem := m\<rparr>)" and pg: "main_page (s\<lparr>mem := m\<rparr>) = main_page s" for m
    using ok by (simp_all add: terms_ok_def main_page_def pos_idx_def)
  show "\<exists>s'. my_putc c s = Some s' \<and> terms_ok s' \<and> main_page s' = main_page s \<and>
      same_outside (main_page s) (mem s) (mem s')"
    unfolding my_putc_eq [OF ok]
    using cur by (simp add: move_cursor_ok ok' pg next_pos_ok same_outside_def page_out_frame)
qed

interpretation echo_sink: char_sink key_putc terms_ok "\<lambda>s. VIDEO"
proof
  fix s c assume ok: "terms_ok s"
  let ?i = "pos_idx True s"
  have cur: "cursor_ok (x_cursor (terminals s ! ?i)) (y_cursor (terminals s ! ?i))"
    using ok by (rule terms_ok_cursor)
  have ok': "terms_ok (s\<lparr>mem := m, screen_x := x, screen_y := y\<rparr>)" for m x y
    using ok by (simp add: terms_ok_def)
  show "\<exists>s'. key_putc c s = Some s' \<and> terms_ok s' \<and> VIDEO = VIDEO \<and>
      same_outside VIDEO (mem s) (mem s')"
    unfolding key_putc_eq [OF ok]
    using cur by (simp add: move_cursor_ok ok' next_pos_ok same_outside_def page_out_frame)
qed

lemma emit_putc: "emit (\<lambda>c s. Some (putc c s)) cs s = Some (fold putc cs s)"
  by (induction cs arbitrary: s) simp_all

lemma putc_keeps:
  assumes "cursor_ok (screen_x s) (screen_y s)"
  shows "cursor_ok (screen_x (putc c s)) (screen_y (putc c s))"
    and "same_outside VIDEO (mem s) (mem (putc c s))" and "frame (putc c s) = frame s"
  using assms by (simp_all add: putc_eq next_pos_ok same_outside_def page_out_frame)

lemma fold_putc_keeps:
  assumes "cursor_ok (screen_x s) (screen_y s)"
  shows "cursor_ok (screen_x (fold putc cs s)) (screen_y (fold putc cs s))"
    and "same_outside VIDEO (mem s) (mem (fold putc cs s))"
  using kernel_sink.emit_ok [OF assms, of cs] by (simp_all add: emit_putc)


section \<open>The string loops print their argument\<close>

lemma puts_loop_eq:
  assumes "cursor_ok (screen_x s) (screen_y s)" and "cstr (mem s) (str + i) xs"
    and "disjoint_rng VIDEO 4000 (str + i) (length xs + 1)"
  shows "puts_loop str i s = Some (i + length xs, fold putc xs s)"
  using assms
proof (induction xs arbitrary: i s)
  case Nil
  then show ?case by (subst puts_loop.simps) simp
next
  case (Cons x xs)
  from Cons.prems have x: "mem s (str + i) = x" "x \<noteq> 0" and tl: "cstr (mem s) (str + Suc i) xs"
    by (auto simp: dstr_Cons)
  have d: "disjoint_rng VIDEO 4000 (str + Suc i) (length xs + 1)"
    using Cons.prems(3) by (auto simp: disjoint_rng_def)
  note k = putc_keeps [OF Cons.prems(1), of x]
  have "puts_loop str (Suc i) (putc x s) = Some (Suc i + length xs, fold putc xs (putc x s))"
    by (rule Cons.IH) (use k same_outside_dstr [OF k(2) d tl] d in auto)
  with x show ?case by (subst puts_loop.simps) simp
qed

lemma puts_eq:
  "cursor_ok (screen_x s) (screen_y s) \<Longrightarrow> cstr (mem s) str xs \<Longrightarrow>
    disjoint_rng VIDEO 4000 str (length xs + 1) \<Longrightarrow> puts str s = Some (length xs, fold putc xs s)"
  using puts_loop_eq [of s str 0 xs] by (simp add: puts_def)

lemma my_puts_loop_eq:
  assumes "terms_ok s" and "disjoint_rng (main_page s) 4000 (str + i) n"
  shows "my_puts_loop str (int (i + n)) (int i) s =
    map_option (\<lambda>s'. (int (i + n), s')) (emit my_putc (bytes_at (mem s) (str + i) n) s)"
  using assms
proof (induction n arbitrary: i s)
  case 0
  then show ?case by (subst my_puts_loop.simps) simp
next
  case (Suc n)
  let ?c = "mem s (str + i)"
  from process_sink.put_ok [OF Suc.prems(1), of ?c] obtain s1 where
    s1: "my_putc ?c s = Some s1" "terms_ok s1" "main_page s1 = main_page s"
      "same_outside (main_page s) (mem s) (mem s1)" by blast
  have d: "disjoint_rng (main_page s) 4000 (str + Suc i) n"
    using Suc.prems(2) by (auto simp: disjoint_rng_def)
  have "my_puts_loop str (int (Suc i + n)) (int (Suc i)) s1 =
      map_option (\<lambda>s'. (int (Suc i + n), s')) (emit my_putc (bytes_at (mem s1) (str + Suc i) n) s1)"
    by (rule Suc.IH) (use s1 d in auto)
  with s1 same_outside_bytes [OF s1(4) d] show ?case
    by (subst my_puts_loop.simps) (simp add: bytes_at_Suc nat_int_add add.commute add.left_commute)
qed

lemma my_puts_eq:
  assumes "terms_ok s" and "disjoint_rng (main_page s) 4000 str n"
  shows "\<exists>s'. my_puts str (int n) s = Some (int n, s') \<and> emit my_putc (bytes_at (mem s) str n) s = Some s' \<and>
    terms_ok s' \<and> main_page s' = main_page s \<and> same_outside (main_page s) (mem s) (mem s')"
  using process_sink.emit_ok [OF assms(1), of "bytes_at (mem s) str n"]
    my_puts_loop_eq [of s str 0 n] assms by (auto simp: my_puts_def)

lemma my_puts_loop_le:
  assumes "my_puts_loop str nbytes index s = Some r"
  shows "index \<le> nbytes"
proof (rule my_puts_loop.raw_induct [where P = "\<lambda>str nbytes index s r. index \<le> nbytes", OF _ assms])
  fix f :: "nat \<Rightarrow> int \<Rightarrow> int \<Rightarrow> kstate \<Rightarrow> (int \<times> kstate) option" and str nbytes index s r
  assume IH: "\<And>str nbytes index s r. f str nbytes index s = Some r \<Longrightarrow> index \<le> nbytes"
    and eq: "(if index = nbytes then Some (index, s)
      else do { s \<leftarrow> my_putc (mem s (nat (int str + index))) s; f str nbytes (index + 1) s }) = Some r"
  show "index \<le> nbytes"
  proof (cases "index = nbytes")
    case False
    with eq obtain s1 where "f str nbytes (index + 1) s1 = Some r" by (auto simp: bind_Some_iff)
    from IH [OF this] show ?thesis by simp
  qed simp
qed

lemma my_puts_negative: "nbytes < 0 \<Longrightarrow> my_puts str nbytes s = None"
  using my_puts_loop_le [of str nbytes 0 s] by (cases "my_puts str nbytes s") (auto simp: my_puts_def)


section \<open>Backspace\<close>

definition prev_x :: "int \<Rightarrow> int" where "prev_x x = (if x = 0 then 79 else x - 1)"
definition prev_y :: "int \<Rightarrow> int \<Rightarrow> int" where "prev_y x y = (if x = 0 then y - 1 else y)"

lemma prev_ok: "cursor_ok x y \<Longrightarrow> \<not> (x = 0 \<and> y = 0) \<Longrightarrow> cursor_ok (prev_x x) (prev_y x y)"
  by (auto simp: cursor_ok_def prev_x_def prev_y_def)

lemma set_pos_here_Some:
  "terms_ok s \<Longrightarrow> cursor_ok (screen_x s) (screen_y s) \<Longrightarrow>
    set_pos_here s = Some (move_cursor (pos_idx True s) (screen_x s) (screen_y s) s)"
  by (simp add: set_pos_here_def set_terminal_pos_Some)

lemma move_cursor_same:
  "terminals s' = terminals (move_cursor i x' y' s) \<Longrightarrow>
    terminals (move_cursor i x y s') = terminals (move_cursor i x y s)"
  by (cases "i < length (terminals s)") (simp_all add: move_cursor_def list_update_beyond)

text \<open>Blanking the cell before the cursor, as both branches do it.\<close>

lemma blank_prev:
  assumes ok: "terms_ok s" and i: "i = pos_idx True s"
    and xy: "cursor_ok px py" "\<not> (px = 79 \<and> py = 24)"
  defines "s0 \<equiv> s\<lparr>screen_x := px, screen_y := py\<rparr>"
  shows "\<exists>s1 s2. set_pos_here s0 = Some s1 \<and> key_putc 0x20 s1 = Some s2 \<and> terms_ok s2 \<and>
    pos_idx True s2 = i \<and> screen_x s2 = next_x 0x20 px \<and> screen_y s2 = next_y 0x20 px py \<and>
    (\<exists>x' y'. terminals s2 = terminals (move_cursor i x' y' s)) \<and>
    mem s2 = (mem s)(vaddr VIDEO px py := 0x20, vaddr VIDEO px py + 1 := text_color s)"
proof -
  have ok0: "terms_ok s0" using ok by (simp add: s0_def terms_ok_def)
  have i0: "pos_idx True s0 = i" by (simp add: s0_def i pos_idx_def)
  let ?s1 = "move_cursor i px py s0"
  have s1: "set_pos_here s0 = Some ?s1"
    using set_pos_here_Some [OF ok0] xy(1) i0 by (simp add: s0_def)
  have ok1: "terms_ok ?s1" using ok0 xy(1) by (rule move_cursor_ok)
  have len: "i < length (terminals s0)" "length (terminals s0) = 3"
    using pos_idx_less [OF ok] ok i by (auto simp: s0_def terms_ok_def)
  have cur: "x_cursor (terminals ?s1 ! i) = px" "y_cursor (terminals ?s1 ! i) = py"
    using len by (simp_all add: move_cursor_nth)
  have page: "page_out VIDEO (text_color ?s1) 0x20 px py (mem ?s1) =
      (mem s)(vaddr VIDEO px py := 0x20, vaddr VIDEO px py + 1 := text_color s)"
    using xy by (simp add: page_out_store s0_def)
  let ?s2 = "move_cursor i (next_x 0x20 px) (next_y 0x20 px py)
     (?s1\<lparr>mem := (mem s)(vaddr VIDEO px py := 0x20, vaddr VIDEO px py + 1 := text_color s),
        screen_x := next_x 0x20 px, screen_y := next_y 0x20 px py\<rparr>)"
  have i1: "pos_idx True ?s1 = i" by (simp add: i0)
  have s2: "key_putc 0x20 ?s1 = Some (update_cursor ?s2)"
    using key_putc_eq [OF ok1, of "0x20"] unfolding i1 cur page .
  have "terms_ok (?s1\<lparr>mem := m, screen_x := x, screen_y := y\<rparr>)" for m x y
    using ok1 by (simp add: terms_ok_def)
  then have ok2: "terms_ok ?s2"
    using xy(1) by (intro move_cursor_ok next_pos_ok)
  have "terminals ?s2 = terminals (move_cursor i (next_x 0x20 px) (next_y 0x20 px py) s)"
    by (rule move_cursor_same [where x' = px and y' = py]) (simp add: s0_def move_cursor_def)
  moreover have "pos_idx True ?s2 = i"
    using i1 by (simp add: pos_idx_def move_cursor_def)
  ultimately show ?thesis
    using s1 s2 ok2 by (intro exI [of _ ?s1] exI [of _ "update_cursor ?s2"]) auto
qed

lemma move_home:
  assumes "terms_ok s" "cursor_ok (screen_x s) (screen_y s)" "pos_idx True s = i"
    and "terminals s = terminals (move_cursor i x' y' r)"
  shows "\<exists>s'. set_pos_here s = Some s' \<and> terms_ok s' \<and> pos_idx True s' = i \<and> mem s' = mem s \<and>
    screen_x s' = screen_x s \<and> screen_y s' = screen_y s \<and>
    terminals s' = terminals (move_cursor i (screen_x s) (screen_y s) r)"
  using assms by (auto simp: set_pos_here_Some move_cursor_ok intro: move_cursor_same)

lemma backspace_eq:
  assumes ok: "terms_ok s"
  defines "i \<equiv> pos_idx True s"
  defines "x \<equiv> x_cursor (terminals s ! i)" and "y \<equiv> y_cursor (terminals s ! i)"
  assumes not_home: "\<not> (x = 0 \<and> y = 0)"
  shows "\<exists>s'. backspace s = Some s' \<and> terms_ok s' \<and>
    terminals s' = terminals (move_cursor i (prev_x x) (prev_y x y) s) \<and>
    mem s' = (mem s)(vaddr VIDEO (prev_x x) (prev_y x y) := 0x20,
                     vaddr VIDEO (prev_x x) (prev_y x y) + 1 := text_color s)"
proof -
  let ?px = "prev_x x" and ?py = "prev_y x y"
  have cur: "cursor_ok x y" unfolding x_def y_def i_def using ok by (rule terms_ok_cursor)
  have pok: "cursor_ok ?px ?py" using cur not_home by (rule prev_ok)
  have "\<not> (?px = 79 \<and> ?py = 24)"
    using cur by (auto simp: prev_x_def prev_y_def cursor_ok_def split: if_splits)
  from blank_prev [OF ok refl pok this] obtain s1 s2 x' y' where
    s1: "set_pos_here (s\<lparr>screen_x := ?px, screen_y := ?py\<rparr>) = Some s1" and
    s2: "key_putc 0x20 s1 = Some s2" "terms_ok s2" "pos_idx True s2 = i"
      "screen_x s2 = next_x 0x20 ?px" "screen_y s2 = next_y 0x20 ?px ?py"
      "terminals s2 = terminals (move_cursor i x' y' s)" and
    m2: "mem s2 = (mem s)(vaddr VIDEO ?px ?py := 0x20, vaddr VIDEO ?px ?py + 1 := text_color s)"
    unfolding i_def by blast
  let ?s3 = "s2\<lparr>screen_x := ?px, screen_y := ?py\<rparr>"
  have "terms_ok ?s3" "pos_idx True ?s3 = i" "terminals ?s3 = terminals (move_cursor i x' y' s)"
    using s2 by (simp_all add: terms_ok_def pos_idx_def)
  with pok move_home [of ?s3 i x' y' s] obtain s4 where
    s4: "set_pos_here ?s3 = Some s4" "terms_ok s4" "pos_idx True s4 = i" "mem s4 = mem s2"
      "screen_x s4 = ?px" "screen_y s4 = ?py" "terminals s4 = terminals (move_cursor i ?px ?py s)"
    by auto
  with pok move_home [of s4 i ?px ?py s] obtain s5 where
    s5: "set_pos_here s4 = Some s5" "terms_ok s5" "mem s5 = mem s2"
      "terminals s5 = terminals (move_cursor i ?px ?py s)"
    by auto
  have "backspace s = Some (update_cursor s5)"
  proof (cases "x = 0")
    case True
    with not_home cur have y: "0 < y" "y < 25" by (auto simp: cursor_ok_def)
    with True s2 have bk: "s2\<lparr>screen_x := 79, screen_y := screen_y s2 - 1\<rparr> = ?s3"
      by (simp add: prev_x_def prev_y_def next_y_def wrap_row_def)
    show ?thesis
      using True y s1 s2(1) s4(1) s5(1) bk
      by (simp add: backspace_def x_return_Some [OF ok] y_return_Some [OF ok] flip: i_def x_def y_def)
         (simp add: prev_x_def prev_y_def NUM_COLS_def)
  next
    case False
    with s2 cur have bk: "s2\<lparr>screen_x := screen_x s2 - 1\<rparr> = ?s3"
      by (simp add: prev_x_def prev_y_def next_x_def next_y_def cursor_ok_def)
    have swap: "s\<lparr>screen_y := y, screen_x := x - 1\<rparr> = s\<lparr>screen_x := x - 1, screen_y := y\<rparr>" by simp
    show ?thesis
      using False s1 s2(1) s4(1) s5(1) bk
      by (simp add: backspace_def x_return_Some [OF ok] y_return_Some [OF ok] flip: i_def x_def y_def)
         (simp add: prev_x_def prev_y_def swap)
  qed
  with s5 m2 show ?thesis by auto
qed

end
