(* ===== verification/Lib_Memory.thy ===== *)
theory Lib_Memory
  imports OS_Prelude
begin

text \<open>
  The block-memory routines of \<open>student-distrib/lib.c\<close>, which are inline
  assembly: \<open>memset\<close>, \<open>memset_word\<close>, \<open>memset_dword\<close>,
  \<open>memcpy\<close> and \<open>memmove\<close>.  The model follows the instructions: the
  registers \<open>edi\<close>, \<open>esi\<close>, \<open>ecx\<close> and \<open>edx\<close> are the
  arguments of the loops, each label of the assembly is one function, and the repeated
  string instructions move 1, 2 or 4 bytes per step.  The lemmas show that the routines
  that work in double words write exactly the bytes a byte-by-byte routine would.
\<close>

section \<open>Store instructions\<close>

text \<open>\<open>st16\<close> and \<open>st32\<close> store \<open>ax\<close> and \<open>eax\<close>, low byte first.\<close>

definition byte_of :: "nat \<Rightarrow> u32 \<Rightarrow> u8" where
  "byte_of k v = ucast (drop_bit (8 * k) v)"

definition st16 :: "mem \<Rightarrow> addr \<Rightarrow> u32 \<Rightarrow> mem" where
  "st16 m a v = m(a := byte_of 0 v, a + 1 := byte_of 1 v)"

definition st32 :: "mem \<Rightarrow> addr \<Rightarrow> u32 \<Rightarrow> mem" where
  "st32 m a v = m(a := byte_of 0 v, a + 1 := byte_of 1 v, a + 2 := byte_of 2 v, a + 3 := byte_of 3 v)"

text \<open>\<open>movsl\<close> reads its four bytes before it stores them.\<close>

definition mov32 :: "mem \<Rightarrow> addr \<Rightarrow> addr \<Rightarrow> mem" where
  "mov32 m d s = m(d := m s, d + 1 := m (s + 1), d + 2 := m (s + 2), d + 3 := m (s + 3))"

fun rep_stosw :: "u32 \<Rightarrow> nat \<Rightarrow> addr \<Rightarrow> mem \<Rightarrow> addr \<times> mem" where
  "rep_stosw eax 0 edi m = (edi, m)"
| "rep_stosw eax (Suc ecx) edi m = rep_stosw eax ecx (edi + 2) (st16 m edi eax)"

fun rep_stosl :: "u32 \<Rightarrow> nat \<Rightarrow> addr \<Rightarrow> mem \<Rightarrow> addr \<times> mem" where
  "rep_stosl eax 0 edi m = (edi, m)"
| "rep_stosl eax (Suc ecx) edi m = rep_stosl eax ecx (edi + 4) (st32 m edi eax)"

fun rep_movsl :: "nat \<Rightarrow> addr \<Rightarrow> addr \<Rightarrow> mem \<Rightarrow> addr \<times> addr \<times> mem" where
  "rep_movsl 0 edi esi m = (edi, esi, m)"
| "rep_movsl (Suc ecx) edi esi m = rep_movsl ecx (edi + 4) (esi + 4) (mov32 m edi esi)"


section \<open>memset\<close>

fun memset_bottom :: "u32 \<Rightarrow> nat \<Rightarrow> addr \<Rightarrow> mem \<Rightarrow> mem" where
  "memset_bottom eax 0 edi m = m"
| "memset_bottom eax (Suc edx) edi m = memset_bottom eax edx (edi + 1) (m(edi := byte_of 0 eax))"

definition memset_aligned :: "u32 \<Rightarrow> nat \<Rightarrow> addr \<Rightarrow> mem \<Rightarrow> mem" where
  "memset_aligned eax ecx edi m =
     (let edx = ecx mod 4; (edi', m') = rep_stosl eax (ecx div 4) edi m
      in memset_bottom eax edx edi' m')"

fun memset_top :: "u32 \<Rightarrow> nat \<Rightarrow> addr \<Rightarrow> mem \<Rightarrow> mem" where
  "memset_top eax 0 edi m = m"
| "memset_top eax (Suc ecx) edi m =
     (if edi mod 4 = 0 then memset_aligned eax (Suc ecx) edi m
      else memset_top eax ecx (edi + 1) (m(edi := byte_of 0 eax)))"

definition memset :: "addr \<Rightarrow> u32 \<Rightarrow> nat \<Rightarrow> mem \<Rightarrow> addr \<times> mem" where
  "memset s c n m =
     (let c' = c AND 0xFF;
          eax = push_bit 24 c' OR push_bit 16 c' OR push_bit 8 c' OR c'
      in (s, memset_top eax n s m))"

definition memset_word :: "addr \<Rightarrow> u32 \<Rightarrow> nat \<Rightarrow> mem \<Rightarrow> addr \<times> mem" where
  "memset_word s c n m = (s, snd (rep_stosw c n s m))"

definition memset_dword :: "addr \<Rightarrow> u32 \<Rightarrow> nat \<Rightarrow> mem \<Rightarrow> addr \<times> mem" where
  "memset_dword s c n m = (s, snd (rep_stosl c n s m))"


section \<open>memcpy\<close>

fun memcpy_bottom :: "nat \<Rightarrow> addr \<Rightarrow> addr \<Rightarrow> mem \<Rightarrow> mem" where
  "memcpy_bottom 0 edi esi m = m"
| "memcpy_bottom (Suc edx) edi esi m = memcpy_bottom edx (edi + 1) (esi + 1) (m(edi := m esi))"

definition memcpy_aligned :: "nat \<Rightarrow> addr \<Rightarrow> addr \<Rightarrow> mem \<Rightarrow> mem" where
  "memcpy_aligned ecx edi esi m =
     (let edx = ecx mod 4; (edi', esi', m') = rep_movsl (ecx div 4) edi esi m
      in memcpy_bottom edx edi' esi' m')"

fun memcpy_top :: "nat \<Rightarrow> addr \<Rightarrow> addr \<Rightarrow> mem \<Rightarrow> mem" where
  "memcpy_top 0 edi esi m = m"
| "memcpy_top (Suc ecx) edi esi m =
     (if edi mod 4 = 0 then memcpy_aligned (Suc ecx) edi esi m
      else memcpy_top ecx (edi + 1) (esi + 1) (m(edi := m esi)))"

definition memcpy :: "addr \<Rightarrow> addr \<Rightarrow> nat \<Rightarrow> mem \<Rightarrow> addr \<times> mem" where
  "memcpy dest src n m = (dest, memcpy_top n dest src m)"


section \<open>memmove\<close>

text \<open>
  \<open>rep movsb\<close> runs upwards with the direction flag clear and downwards with it set.
  The flag after the routine is the first component of the result: the assembly does not
  clear it again.
\<close>

fun rep_movsb_up :: "nat \<Rightarrow> addr \<Rightarrow> addr \<Rightarrow> mem \<Rightarrow> mem" where
  "rep_movsb_up 0 edi esi m = m"
| "rep_movsb_up (Suc ecx) edi esi m = rep_movsb_up ecx (edi + 1) (esi + 1) (m(edi := m esi))"

fun rep_movsb_down :: "nat \<Rightarrow> int \<Rightarrow> int \<Rightarrow> mem \<Rightarrow> mem" where
  "rep_movsb_down 0 edi esi m = m"
| "rep_movsb_down (Suc ecx) edi esi m =
     rep_movsb_down ecx (edi - 1) (esi - 1) (m(nat edi := m (nat esi)))"

definition memmove :: "addr \<Rightarrow> addr \<Rightarrow> nat \<Rightarrow> mem \<Rightarrow> bool \<times> addr \<times> mem" where
  "memmove dest src n m =
     (if src \<ge> dest then (False, dest, rep_movsb_up n dest src m)
      else (True, dest, rep_movsb_down n (int dest + int n - 1) (int src + int n - 1) m))"


section \<open>Double words are four bytes\<close>

lemma unat_byte_of: "unat (byte_of k v) = unat v div 256 ^ k mod 256"
proof -
  have "take_bit 32 (unat v) = unat v" using unsigned_less [of v, where ?'a = nat] by (simp add: take_bit_nat_eq_self)
  then have "unat (drop_bit (8 * k) v) = unat v div 256 ^ k"
    by (simp add: unsigned_drop_bit_eq drop_bit_eq_div [of _ "unat v"] power_mult)
  then show ?thesis by (simp add: byte_of_def unsigned_ucast_eq take_bit_eq_mod)
qed

lemma ld32_st32: "ld32 (st32 m a x) a = x"
proof -
  have "unat x < 4294967296" using unsigned_less [of x, where ?'a = nat] by simp
  then have top: "unat x div 16777216 mod 256 = unat x div 16777216" by (simp add: div_less_mono less_mult_imp_div_less)
  have step: "k mod 256 + 256 * (k div 256) = k" for k :: nat by (rule mod_mult_div_eq)
  have "unat x mod 256 + 256 * (unat x div 256 mod 256) + 65536 * (unat x div 65536 mod 256)
    + 16777216 * (unat x div 16777216 mod 256) = unat x"
    unfolding top using step [of "unat x"] step [of "unat x div 256"] step [of "unat x div 65536"]
    by (simp only: div_mult2_eq [symmetric] numeral_times_numeral semiring_norm)
  then have "word_of_nat (unat x mod 256 + 256 * (unat x div 256 mod 256) + 65536 * (unat x div 65536 mod 256)
    + 16777216 * (unat x div 16777216 mod 256)) = (word_of_nat (unat x) :: u32)" by (rule arg_cong)
  then show ?thesis unfolding ld32_def st32_def by (simp add: unat_byte_of del: of_nat_add of_nat_mult)
qed

lemma st32_other: "b < a \<or> a + 4 \<le> b \<Longrightarrow> st32 m a x b = m b"
  by (auto simp: st32_def)

lemma st32_blit: "st32 m a v = blit m a (map (\<lambda>k. byte_of k v) [0, 1, 2, 3])"
  by (simp add: st32_def blit_Cons numeral_eq_Suc)

lemma rep_stosl_blit:
  "rep_stosl eax n edi m =
    (edi + 4 * n, blit m edi (concat (replicate n (map (\<lambda>k. byte_of k eax) [0, 1, 2, 3]))))"
proof (induction n arbitrary: edi m)
  case 0
  then show ?case by simp
next
  case (Suc n)
  then show ?case
    by (simp only: rep_stosl.simps st32_blit replicate_Suc concat.simps blit_append)
       (simp add: numeral_eq_Suc)
qed

lemma rep_stosw_blit:
  "rep_stosw eax n edi m =
    (edi + 2 * n, blit m edi (concat (replicate n (map (\<lambda>k. byte_of k eax) [0, 1]))))"
proof (induction n arbitrary: edi m)
  case 0
  then show ?case by simp
next
  case (Suc n)
  have "st16 m edi eax = blit m edi (map (\<lambda>k. byte_of k eax) [0, 1])"
    by (simp add: st16_def blit_Cons)
  with Suc show ?case
    by (simp only: rep_stosw.simps replicate_Suc concat.simps blit_append)
       (simp add: numeral_eq_Suc)
qed

lemma memset_bottom_blit: "memset_bottom eax n edi m = blit m edi (replicate n (byte_of 0 eax))"
  by (induction n arbitrary: edi m) (simp_all add: blit_Cons)

text \<open>The word that \<open>memset\<close> builds holds the fill byte four times.\<close>

lemma byte_of_splat:
  assumes "k < 4"
  shows "byte_of k (push_bit 24 (c AND 0xFF) OR push_bit 16 (c AND 0xFF) OR push_bit 8 (c AND 0xFF)
           OR (c AND 0xFF)) = ucast (c :: u32)"
proof (rule bit_word_eqI)
  fix n assume "n < LENGTH(8)"
  then have n: "n < 8" by simp
  have ff: "c AND 0xFF = take_bit 8 c"
    by (simp add: take_bit_eq_mask mask_eq_exp_minus_1)
  from assms consider "k = 0" | "k = 1" | "k = 2" | "k = 3" by linarith
  then show "bit (byte_of k (push_bit 24 (c AND 0xFF) OR push_bit 16 (c AND 0xFF)
      OR push_bit 8 (c AND 0xFF) OR (c AND 0xFF))) n = bit (ucast c :: u8) n"
    unfolding ff by cases (use n in \<open>auto simp: byte_of_def bit_simps\<close>)
qed

lemma memset_aligned_blit:
  assumes b: "\<And>k. k < 4 \<Longrightarrow> byte_of k eax = b"
  shows "memset_aligned eax n edi m = blit m edi (replicate n b)"
proof -
  have four: "map (\<lambda>k. byte_of k eax) [0, 1, 2, 3] = replicate 4 b"
    by (simp add: b numeral_eq_Suc)
  have cat: "concat (replicate j (replicate 4 b)) = replicate (4 * j) b" for j
    by (induction j) (simp_all add: replicate_add [symmetric])
  have "memset_aligned eax n edi m = blit (blit m edi (replicate (4 * (n div 4)) b))
      (edi + 4 * (n div 4)) (replicate (n mod 4) b)"
    unfolding memset_aligned_def Let_def rep_stosl_blit four cat memset_bottom_blit
    by (simp add: b)
  also have "\<dots> = blit m edi (replicate (4 * (n div 4)) b @ replicate (n mod 4) b)"
    by (simp add: blit_append)
  also have "replicate (4 * (n div 4)) b @ replicate (n mod 4) b = replicate n b"
    by (simp add: replicate_add [symmetric])
  finally show ?thesis .
qed

lemma memset_top_blit:
  assumes b: "\<And>k. k < 4 \<Longrightarrow> byte_of k eax = b"
  shows "memset_top eax n edi m = blit m edi (replicate n b)"
proof (induction n arbitrary: edi m)
  case 0
  then show ?case by simp
next
  case (Suc n)
  then show ?case
    by (simp add: memset_aligned_blit [OF b] b blit_Cons del: fun_upd_apply)
qed

lemma memset_blit: "memset s c n m = (s, blit m s (replicate n (ucast c)))"
  unfolding memset_def Let_def by (simp only: memset_top_blit [OF byte_of_splat])


section \<open>Copying forwards\<close>

text \<open>An upward copy is right when the destination does not lie inside the source, above
  its start; every block size up to the distance gives the same bytes.\<close>

lemma rep_movsb_up_blit:
  assumes "edi \<le> esi \<or> esi + n \<le> edi"
  shows "rep_movsb_up n edi esi m = blit m edi (bytes_at m esi n)"
  using assms
proof (induction n arbitrary: edi esi m)
  case 0
  then show ?case by simp
next
  case (Suc n)
  have "bytes_at (m(edi := m esi)) (Suc esi) n = bytes_at m (Suc esi) n"
    using Suc.prems by (intro bytes_at_upd_other) auto
  moreover have "rep_movsb_up n (Suc edi) (Suc esi) (m(edi := m esi)) =
      blit (m(edi := m esi)) (Suc edi) (bytes_at (m(edi := m esi)) (Suc esi) n)"
    using Suc.prems by (intro Suc.IH) auto
  ultimately show ?case by (simp add: bytes_at_Suc blit_Cons)
qed

lemma memcpy_bottom_eq: "memcpy_bottom n edi esi m = rep_movsb_up n edi esi m"
  by (induction n arbitrary: edi esi m) simp_all

lemma rep_movsb_up_add:
  "rep_movsb_up (j + k) edi esi m = rep_movsb_up k (edi + j) (esi + j) (rep_movsb_up j edi esi m)"
  by (induction j arbitrary: edi esi m) simp_all

lemma mov32_up:
  assumes "edi \<le> esi \<or> esi + 4 \<le> edi"
  shows "mov32 m edi esi = rep_movsb_up 4 edi esi m"
proof -
  have four: "bytes_at m esi 4 = [m esi, m (esi + 1), m (esi + 2), m (esi + 3)]"
    by (simp add: numeral_eq_Suc bytes_at_Suc)
  show ?thesis
    unfolding rep_movsb_up_blit [OF assms] four mov32_def
    by (simp add: blit_Cons numeral_eq_Suc)
qed

lemma rep_movsl_up:
  assumes "edi \<le> esi \<or> esi + 4 * n \<le> edi"
  shows "rep_movsl n edi esi m = (edi + 4 * n, esi + 4 * n, rep_movsb_up (4 * n) edi esi m)"
  using assms
proof (induction n arbitrary: edi esi m)
  case 0
  then show ?case by simp
next
  case (Suc n)
  have "rep_movsb_up (4 * Suc n) edi esi m =
      rep_movsb_up (4 * n) (edi + 4) (esi + 4) (rep_movsb_up 4 edi esi m)"
    using rep_movsb_up_add [of 4 "4 * n"] by (simp only: mult_Suc_right)
  moreover have "rep_movsl n (edi + 4) (esi + 4) (rep_movsb_up 4 edi esi m) =
      (edi + 4 + 4 * n, esi + 4 + 4 * n, rep_movsb_up (4 * n) (edi + 4) (esi + 4) (rep_movsb_up 4 edi esi m))"
    using Suc.prems by (intro Suc.IH) auto
  moreover have "mov32 m edi esi = rep_movsb_up 4 edi esi m"
    using Suc.prems by (intro mov32_up) auto
  ultimately show ?case by (simp only: rep_movsl.simps) simp
qed

lemma memcpy_top_eq:
  assumes "edi \<le> esi \<or> esi + n \<le> edi"
  shows "memcpy_top n edi esi m = rep_movsb_up n edi esi m"
  using assms
proof (induction n arbitrary: edi esi m)
  case 0
  then show ?case by simp
next
  case (Suc n)
  let ?q = "Suc n div 4"
  have "edi \<le> esi \<or> esi + 4 * ?q \<le> edi" using Suc.prems by auto
  then have "memcpy_aligned (Suc n) edi esi m = rep_movsb_up (4 * ?q + Suc n mod 4) edi esi m"
    by (simp only: memcpy_aligned_def rep_movsl_up memcpy_bottom_eq rep_movsb_up_add Let_def prod.case)
  then have "memcpy_aligned (Suc n) edi esi m = rep_movsb_up (Suc n) edi esi m" by simp
  moreover have "memcpy_top n (Suc edi) (Suc esi) (m(edi := m esi)) =
      rep_movsb_up n (Suc edi) (Suc esi) (m(edi := m esi))"
    using Suc.prems by (intro Suc.IH) auto
  ultimately show ?case by simp
qed

lemma memcpy_blit:
  "dest \<le> src \<or> src + n \<le> dest \<Longrightarrow> memcpy dest src n m = (dest, blit m dest (bytes_at m src n))"
  by (simp add: memcpy_def memcpy_top_eq rep_movsb_up_blit)


section \<open>Copying downwards\<close>

lemma rep_movsb_down_blit:
  assumes "src \<le> dest"
  shows "rep_movsb_down n (int dest + int n - 1) (int src + int n - 1) m =
    blit m dest (bytes_at m src n)"
proof (induction n arbitrary: m)
  case 0
  then show ?case by simp
next
  case (Suc n)
  have idx: "int d + int (Suc n) - 1 = int (d + n)" "int d + int (Suc n) - 1 - 1 = int d + int n - 1" for d
    by simp_all
  let ?m = "m(dest + n := m (src + n))"
  have "bytes_at ?m src n = bytes_at m src n"
    using assms by (intro bytes_at_upd_other) auto
  with Suc [of ?m] have "rep_movsb_down n (int dest + int n - 1) (int src + int n - 1) ?m =
      blit ?m dest (bytes_at m src n)"
    by (simp del: fun_upd_apply)
  moreover have "blit ?m dest (bytes_at m src n) = blit m dest (bytes_at m src (Suc n))"
    by (auto simp: bytes_at_snoc blit_snoc fun_eq_iff blit_def nth_append)
  ultimately show ?case by (simp only: rep_movsb_down.simps idx nat_int) simp
qed

lemma memmove_blit:
  "memmove dest src n m = (src < dest, dest, blit m dest (bytes_at m src n))"
  by (auto simp: memmove_def rep_movsb_up_blit rep_movsb_down_blit)

end
