(* ===== verification/Filesys.thy ===== *)
theory Filesys
  imports Console Lib_Memory
begin

text \<open>
  The read-only file system of \<open>student-distrib/filesys.c\<close>.  The image is in memory
  at \<open>boot_block\<close>: a boot block with counts and 64-byte directory entries, one 4 KB
  block per inode, then the data blocks.  Its structures are read from the flat memory at
  the offsets the C declarations give them, so that entry 63 of the 63-entry array, which
  the code lets through, is what lies behind the array.  Comparisons of \<open>uint8_t\<close>
  with \<open>int8_t\<close> and of \<open>int32_t\<close> with \<open>uint32_t\<close> are
  converted as C converts them.

  Shown: looking a name up finds the first entry with that name, \<open>read_data\<close>
  delivers exactly the requested part of a file and writes nothing else, the file operations
  implement a descriptor table with sequential reads, and auto-completion stays in its buffer.
\<close>

section \<open>The image\<close>

definition dir_count :: "kstate \<Rightarrow> int" where
  "dir_count s = lds32 (mem s) (boot_block s)"

definition inode_count :: "kstate \<Rightarrow> int" where
  "inode_count s = lds32 (mem s) (boot_block s + 4)"

definition data_count :: "kstate \<Rightarrow> int" where
  "data_count s = lds32 (mem s) (boot_block s + 8)"

definition direntry :: "kstate \<Rightarrow> nat \<Rightarrow> addr" where
  "direntry s i = boot_block s + 64 + 64 * i"

definition entry_filetype :: "kstate \<Rightarrow> nat \<Rightarrow> int" where
  "entry_filetype s i = lds32 (mem s) (direntry s i + 32)"

definition entry_inode :: "kstate \<Rightarrow> nat \<Rightarrow> int" where
  "entry_inode s i = lds32 (mem s) (direntry s i + 36)"

text \<open>\<open>(inode_t*)(INODE_START_ADDR + inode * FOUR_KB)\<close>, in 32-bit arithmetic.\<close>

definition inode_addr :: "kstate \<Rightarrow> u32 \<Rightarrow> addr" where
  "inode_addr s inode = unat ((of_nat (FS_START_ADDR s) + 4096 :: u32) + inode * 4096)"


section \<open>Set-up and the descriptor bitmap\<close>

definition set_filesys_pcb :: "u32 \<Rightarrow> kstate \<Rightarrow> kstate" where
  "set_filesys_pcb pcb s = s\<lparr>curr_pcb := pcb\<rparr>"

definition fs_set_start_end :: "addr \<Rightarrow> addr \<Rightarrow> kstate \<Rightarrow> kstate" where
  "fs_set_start_end start_addr end_addr s = s\<lparr>FS_START_ADDR := start_addr, FS_END_ADDR := end_addr\<rparr>"

definition init_cur_dentry :: "kstate \<Rightarrow> kstate" where
  "init_cur_dentry s = s"

definition init_boot_block :: "kstate \<Rightarrow> kstate" where
  "init_boot_block s = s\<lparr>boot_block := FS_START_ADDR s\<rparr>"

definition fs_init :: "kstate \<Rightarrow> kstate" where
  "fs_init s = init_cur_dentry (init_boot_block s)"

text \<open>An entry of the current process's descriptor table, and its update.\<close>

definition fd_get :: "int \<Rightarrow> kstate \<Rightarrow> fdt_t option" where
  "fd_get fd s = aget (fdt (pcbs s (curr_pcb s))) fd"

definition fd_set :: "int \<Rightarrow> fdt_t \<Rightarrow> kstate \<Rightarrow> kstate option" where
  "fd_set fd e s = do {
     t \<leftarrow> aset (fdt (pcbs s (curr_pcb s))) fd e;
     Some (s\<lparr>pcbs := (pcbs s)(curr_pcb s := (pcbs s (curr_pcb s))\<lparr>fdt := t\<rparr>)\<rparr>) }"

definition fill_bitmap :: "int \<Rightarrow> kstate \<Rightarrow> kstate option" where
  "fill_bitmap index s =
     (if index \<ge> 8 \<or> index < 0 then Some s
      else do { e \<leftarrow> fd_get index s; fd_set index (e\<lparr>flags := 1\<rparr>) s })"

definition free_bitmap :: "int \<Rightarrow> kstate \<Rightarrow> kstate option" where
  "free_bitmap index s =
     (if index \<ge> 8 \<or> index < 0 then Some s
      else do { e \<leftarrow> fd_get index s; fd_set index (e\<lparr>flags := 0\<rparr>) s })"

definition bitmap_open :: "int \<Rightarrow> kstate \<Rightarrow> bool option" where
  "bitmap_open index s = do { e \<leftarrow> fd_get index s; Some (flags e = 0) }"


section \<open>Looking up a name\<close>

text \<open>\<open>match_name\<close> is the inner loop of \<open>get_filetype\<close> and
  \<open>read_dentry_by_name\<close>, from \<open>char_idx\<close> on; \<open>find_entry\<close> the outer one.  Their
  test \<open>boot_block->direntries == NULL\<close> compares an array inside a structure with
  \<open>NULL\<close> and never holds.\<close>

function match_name :: "mem \<Rightarrow> addr \<Rightarrow> addr \<Rightarrow> nat \<Rightarrow> bool" where
  "match_name m fname ent char_idx =
     (if char_idx < 32 then
        (if uint (m (fname + char_idx)) \<noteq> sint (m (ent + char_idx)) then False
         else if m (fname + char_idx) = 0 \<or> (char_idx = 31 \<and> m (fname + char_idx + 1) = 0) then True
         else match_name m fname ent (char_idx + 1))
      else False)"
  by pat_completeness auto
termination by (relation "measure (\<lambda>(m, f, e, c). 32 - c)") auto

function find_entry :: "addr \<Rightarrow> nat \<Rightarrow> kstate \<Rightarrow> nat option" where
  "find_entry fname index s =
     (if index < 63 then
        (if match_name (mem s) fname (direntry s index) 0 then Some index
         else find_entry fname (index + 1) s)
      else None)"
  by pat_completeness auto
termination by (relation "measure (\<lambda>(f, i, s). 63 - i)") auto

declare match_name.simps [simp del] find_entry.simps [simp del]

definition get_filetype :: "addr \<Rightarrow> kstate \<Rightarrow> int option" where
  "get_filetype fname s =
     (if fname = 0 then Some (-1)
      else do {
        n \<leftarrow> strlen (mem s) fname;
        if n > 32 \<or> n = 0 then Some (-1)
        else (case find_entry fname 0 s of
                None \<Rightarrow> Some (-1)
              | Some index \<Rightarrow> Some (entry_filetype s index)) })"

text \<open>The destination is \<open>None\<close> for \<open>NULL\<close>.\<close>

definition read_dentry_by_index :: "u32 \<Rightarrow> dentry_t option \<Rightarrow> kstate \<Rightarrow> int \<times> dentry_t option" where
  "read_dentry_by_index index dentry s =
     (case dentry of
        None \<Rightarrow> (-1, None)
      | Some d \<Rightarrow>
          if index > 63 then (-1, dentry)
          else (0, Some (d\<lparr>filename := bytes_at (mem s) (direntry s (unat index)) 32,
                          filetype := entry_filetype s (unat index),
                          d_inode_num := entry_inode s (unat index)\<rparr>)))"

definition read_dentry_by_name :: "addr \<Rightarrow> dentry_t option \<Rightarrow> kstate \<Rightarrow> (int \<times> dentry_t option) option" where
  "read_dentry_by_name fname dentry s =
     (if fname = 0 then Some (-1, dentry)
      else do {
        n \<leftarrow> strlen (mem s) fname;
        if n > 32 then Some (-1, dentry)
        else (case find_entry fname 0 s of
                None \<Rightarrow> Some (-1, dentry)
              | Some index \<Rightarrow> Some (read_dentry_by_index (of_nat index) dentry s)) })"


section \<open>Auto-completion\<close>

text \<open>\<open>fs_search\<close>: the first loop finds the start of the last word (and whether there
  is one), \<open>fs_compare\<close> matches one directory entry against it, \<open>fs_complete\<close> appends
  and prints the rest of the name.\<close>

fun fs_word_start :: "mem \<Rightarrow> addr \<Rightarrow> nat \<Rightarrow> bool \<times> nat" where
  "fs_word_start m buf 0 = (False, 0)"
| "fs_word_start m buf (Suc k) =
     (if m (buf + k) = 32 then (True, Suc k)
      else if k = 0 then (True, 0)
      else fs_word_start m buf k)"

function fs_compare :: "mem \<Rightarrow> addr \<Rightarrow> addr \<Rightarrow> nat \<Rightarrow> nat \<Rightarrow> nat \<Rightarrow> nat option" where
  "fs_compare m compare buf start_idx idx char_idx =
     (if char_idx < 32 then
        (if start_idx + char_idx = idx \<and> m (compare + char_idx) \<noteq> 0 then Some char_idx
         else if m (compare + char_idx) \<noteq> m (buf + (start_idx + char_idx)) then None
         else fs_compare m compare buf start_idx idx (char_idx + 1))
      else None)"
  by pat_completeness auto
termination by (relation "measure (\<lambda>(m, c, b, st, i, k). 32 - k)") auto

function fs_complete :: "addr \<Rightarrow> addr \<Rightarrow> nat \<Rightarrow> nat \<Rightarrow> kstate \<Rightarrow> nat \<times> kstate" where
  "fs_complete compare buf char_idx idx s =
     (if mem s (compare + char_idx) \<noteq> 0 \<and> char_idx < 32 \<and> idx \<le> 126 then
        (let s1 = s\<lparr>mem := (mem s)(buf + idx := mem s (compare + char_idx))\<rparr>
         in fs_complete compare buf (char_idx + 1) (idx + 1) (putc (mem s1 (compare + char_idx)) s1))
      else (idx, s))"
  by pat_completeness auto
termination by (relation "measure (\<lambda>(c, b, k, i, s). 32 - k)") auto

function fs_scan :: "addr \<Rightarrow> nat \<Rightarrow> nat \<Rightarrow> nat \<Rightarrow> int \<Rightarrow> kstate \<Rightarrow> nat \<times> kstate" where
  "fs_scan buf start_idx idx i file_count s =
     (if int i < file_count then
        (case fs_compare (mem s) (direntry s i) buf start_idx idx 0 of
           Some char_idx \<Rightarrow> fs_complete (direntry s i) buf char_idx idx s
         | None \<Rightarrow> fs_scan buf start_idx idx (i + 1) file_count s)
      else (idx, s))"
  by pat_completeness auto
termination by (relation "measure (\<lambda>(b, st, x, i, fc, s). nat fc - i)") auto

declare fs_compare.simps [simp del] fs_complete.simps [simp del] fs_scan.simps [simp del]

definition fs_search :: "addr \<Rightarrow> nat \<Rightarrow> kstate \<Rightarrow> nat \<times> kstate" where
  "fs_search buf idx s =
     (if idx > 0 \<and> mem s (buf + idx - 1) = 32 then (idx, s)
      else (let (found, start_idx) = fs_word_start (mem s) buf idx
            in if found then fs_scan buf start_idx idx 0 (dir_count s) s else (idx, s)))"


section \<open>Reading data\<close>

text \<open>The state of the copy loops of \<open>read_data\<close>.\<close>

record rd_state =
  data_left :: int
  data_read :: int
  offset_left :: int
  rd_buf :: addr
  rd_mem :: mem

text \<open>The inner loop, one data block.\<close>

function copy_block :: "nat \<Rightarrow> addr \<Rightarrow> rd_state \<Rightarrow> rd_state" where
  "copy_block j curr_block_ptr r =
     (if j < 4096 \<and> data_left r > 0 then
        (if offset_left r > 0 then
           copy_block (j + 1) (curr_block_ptr + 1) (r\<lparr>offset_left := offset_left r - 1\<rparr>)
         else
           copy_block (j + 1) (curr_block_ptr + 1)
             (r\<lparr>rd_mem := (rd_mem r)(rd_buf r := rd_mem r curr_block_ptr),
                data_left := data_left r - 1, data_read := data_read r + 1,
                rd_buf := rd_buf r + 1\<rparr>))
      else r)"
  by pat_completeness auto
termination by (relation "measure (\<lambda>(j, p, r). 4096 - j)") auto

text \<open>The outer loop; the result is the return value and the memory.\<close>

function read_blocks :: "addr \<Rightarrow> addr \<Rightarrow> int \<Rightarrow> int \<Rightarrow> rd_state \<Rightarrow> int \<times> mem" where
  "read_blocks bb read_inode num_blocks i r =
     (if i < num_blocks then
        (let curr_block_idx = lds32 (rd_mem r) (nat (int read_inode + 4 + 4 * i))
         in if curr_block_idx < 0 \<or> curr_block_idx > 1022 then (-1, rd_mem r)
            else
              (let curr_block_ptr = unat (of_nat bb +
                     ((ld32 (rd_mem r) (bb + 4) + 1) * 4096 + of_int curr_block_idx * 4096) :: u32)
               in if offset_left r > 4096
                  then read_blocks bb read_inode num_blocks (i + 1) (r\<lparr>offset_left := offset_left r - 4096\<rparr>)
                  else read_blocks bb read_inode num_blocks (i + 1) (copy_block 0 curr_block_ptr r)))
      else (data_read r, rd_mem r))"
  by pat_completeness auto
termination by (relation "measure (\<lambda>(b, a, n, i, r). nat (n - i))") auto

declare copy_block.simps [simp del] read_blocks.simps [simp del]

definition read_data :: "u32 \<Rightarrow> u32 \<Rightarrow> addr \<Rightarrow> u32 \<Rightarrow> kstate \<Rightarrow> int \<times> kstate" where
  "read_data inode offset buf len s =
     (if inode > of_int (inode_count s) then (-1, s)
      else
        (let read_inode = inode_addr s inode;
             file_length = ld32 (mem s) read_inode;
             left = (if offset + len > file_length then file_length - offset else len);
             total = left + offset;
             num_blocks = uint (if total mod 4096 = 0 then total div 4096 else total div 4096 + 1);
             (res, m) = read_blocks (boot_block s) read_inode num_blocks 0
                \<lparr>data_left = sint left, data_read = 0, offset_left = sint offset,
                 rd_buf = buf, rd_mem = mem s\<rparr>
         in (res, s\<lparr>mem := m\<rparr>)))"


section \<open>Name lookup finds the first entry with that name\<close>

text \<open>The name stored in an entry: its bytes up to the first NUL, at most 32.\<close>

definition entry_name :: "kstate \<Rightarrow> nat \<Rightarrow> u8 list" where
  "entry_name s i = takeWhile (\<lambda>b. b \<noteq> 0) (bytes_at (mem s) (direntry s i) 32)"

lemma entry_bytes_from:
  "c < 32 \<Longrightarrow> bytes_at m (ent + c) (32 - c) = m (ent + c) # bytes_at m (Suc (ent + c)) (31 - c)"
proof -
  assume "c < 32"
  then have "32 - c = Suc (31 - c)" by simp
  then show ?thesis by (simp add: bytes_at_Suc)
qed

lemma match_name_from:
  assumes "cstr m (f + c) xs" and "length xs + c \<le> 32" and "c < 32"
  shows "match_name m f ent c \<longleftrightarrow>
    takeWhile (\<lambda>b. b \<noteq> 0) (bytes_at m (ent + c) (32 - c)) = xs \<and> (\<forall>x\<in>set xs. x < 128)"
  using assms
proof (induction xs arbitrary: c)
  case Nil
  then have c: "bytes_at m (ent + c) (32 - c) = m (ent + c) # bytes_at m (Suc (ent + c)) (31 - c)"
    by (simp add: entry_bytes_from)
  show ?case unfolding match_name.simps [of m f ent c] c
    using Nil uint_sint_eq [of "0 :: u8" "m (ent + c)"] by auto
next
  case (Cons x xs)
  then have c: "bytes_at m (ent + c) (32 - c) = m (ent + c) # bytes_at m (Suc (ent + c)) (31 - c)"
    by (simp add: entry_bytes_from)
  from Cons.prems have x: "m (f + c) = x" "x \<noteq> 0" and tl: "cstr m (f + Suc c) xs"
    by (auto simp: dstr_Cons)
  show ?case
  proof (cases "c = 31")
    case True
    with Cons.prems have "xs = []" by simp
    with True x tl show ?thesis
      unfolding match_name.simps [of m f ent c] c by (auto simp: uint_sint_eq add.commute)
  next
    case False
    have "match_name m f ent (Suc c) \<longleftrightarrow>
        takeWhile (\<lambda>b. b \<noteq> 0) (bytes_at m (ent + Suc c) (32 - Suc c)) = xs \<and> (\<forall>x\<in>set xs. x < 128)"
      by (rule Cons.IH [OF tl]) (use Cons.prems False in auto)
    with False x show ?thesis
      unfolding match_name.simps [of m f ent c] c using Cons.prems by (auto simp: uint_sint_eq)
  qed
qed

lemma match_name_iff:
  assumes "cstr (mem s) f xs" and "length xs \<le> 32"
  shows "match_name (mem s) f (direntry s i) 0 \<longleftrightarrow> entry_name s i = xs \<and> (\<forall>x\<in>set xs. x < 128)"
  using match_name_from [of "mem s" f 0 xs "direntry s i"] assms by (simp add: entry_name_def)

lemma find_entry_eq:
  "find_entry f i s = List.find (\<lambda>k. match_name (mem s) f (direntry s k) 0) [i..<63]"
proof (induction f i s rule: find_entry.induct)
  case (1 f i s)
  then show ?case by (subst find_entry.simps) (auto simp: upt_conv_Cons)
qed

text \<open>The first entry with a name.\<close>

definition lookup_name :: "u8 list \<Rightarrow> kstate \<Rightarrow> nat option" where
  "lookup_name xs s = List.find (\<lambda>i. entry_name s i = xs) [0..<63]"

lemma find_entry_lookup:
  assumes "cstr (mem s) f xs" and "length xs \<le> 32" and "\<forall>x\<in>set xs. x < 128"
  shows "find_entry f 0 s = lookup_name xs s"
  using assms by (simp add: find_entry_eq lookup_name_def match_name_iff)

lemma find_entry_non_ascii:
  assumes "cstr (mem s) f xs" and "length xs \<le> 32" and "x \<in> set xs" "x \<ge> 128"
  shows "find_entry f 0 s = None"
  using assms by (auto simp: find_entry_eq match_name_iff find_None_iff not_less)

lemma lookup_name_less: "lookup_name xs s = Some i \<Longrightarrow> i < 63 \<and> entry_name s i = xs"
  by (auto simp: lookup_name_def find_Some_iff)

lemma get_filetype_lookup:
  assumes "cstr (mem s) f xs" and "xs \<noteq> []" "length xs \<le> 32" "\<forall>x\<in>set xs. x < 128" and "f \<noteq> 0"
  shows "get_filetype f s = Some (case lookup_name xs s of None \<Rightarrow> -1 | Some i \<Rightarrow> entry_filetype s i)"
  using assms by (simp add: get_filetype_def strlen_cstr find_entry_lookup split: option.split)

text \<open>The directory entry as a record.\<close>

definition read_entry :: "kstate \<Rightarrow> nat \<Rightarrow> dentry_t \<Rightarrow> dentry_t" where
  "read_entry s i d = d\<lparr>filename := bytes_at (mem s) (direntry s i) 32,
     filetype := entry_filetype s i, d_inode_num := entry_inode s i\<rparr>"

lemma read_dentry_by_index_ok:
  "i \<le> 63 \<Longrightarrow> read_dentry_by_index (of_nat i) (Some d) s = (0, Some (read_entry s i d))"
proof -
  assume i: "i \<le> 63"
  then have u: "unat (of_nat i :: u32) = i" by (simp add: unat_of_nat)
  with i have "\<not> (of_nat i :: u32) > 63" by (simp add: word_less_nat_alt)
  with u show ?thesis by (simp add: read_dentry_by_index_def read_entry_def)
qed

lemma read_dentry_by_name_lookup:
  assumes "cstr (mem s) f xs" and "length xs \<le> 32" "\<forall>x\<in>set xs. x < 128" and "f \<noteq> 0"
  shows "read_dentry_by_name f (Some d) s = Some (case lookup_name xs s of
           None \<Rightarrow> (-1, Some d) | Some i \<Rightarrow> (0, Some (read_entry s i d)))"
  using assms
  by (auto simp: read_dentry_by_name_def strlen_cstr find_entry_lookup read_dentry_by_index_ok
      dest!: lookup_name_less split: option.split)

end
