(* ===== verification/Filesys_Read.thy ===== *)
theory Filesys_Read
  imports Filesys
begin

text \<open>
  The contract of \<open>read_data\<close>: for an inode of a well-formed image the call copies the
  bytes \<open>[offset, offset + n)\<close> of the file to the buffer, \<open>n\<close> being the
  requested length cut off at the end of the file, returns \<open>n\<close> and changes nothing
  else.  The proof follows the two loops: \<open>copy_block_eq\<close> is one 4 KB block,
  \<open>read_blocks_eq\<close> the walk over the block list with the offset that is left to skip.
\<close>

section \<open>Files of an image\<close>

definition file_length :: "kstate \<Rightarrow> nat \<Rightarrow> nat" where
  "file_length s ino = unat (ld32 (mem s) (inode_addr s (of_nat ino)))"

definition data_block :: "kstate \<Rightarrow> nat \<Rightarrow> nat \<Rightarrow> int" where
  "data_block s ino b = lds32 (mem s) (inode_addr s (of_nat ino) + 4 + 4 * b)"

definition block_addr :: "kstate \<Rightarrow> nat \<Rightarrow> addr" where
  "block_addr s blk = boot_block s + 4096 * (1 + nat (inode_count s)) + 4096 * blk"

definition file_byte :: "kstate \<Rightarrow> nat \<Rightarrow> nat \<Rightarrow> u8" where
  "file_byte s ino k = mem s (block_addr s (nat (data_block s ino (k div 4096))) + k mod 4096)"

definition file_data :: "kstate \<Rightarrow> nat \<Rightarrow> nat \<Rightarrow> nat \<Rightarrow> u8 list" where
  "file_data s ino off n = map (\<lambda>k. file_byte s ino (off + k)) [0..<n]"

definition num_blocks :: "nat \<Rightarrow> nat" where
  "num_blocks n = (n + 4095) div 4096"

definition fs_size :: "kstate \<Rightarrow> nat" where
  "fs_size s = 4096 * (1 + nat (inode_count s) + nat (data_count s))"

definition fs_ok :: "kstate \<Rightarrow> bool" where
  "fs_ok s \<longleftrightarrow> boot_block s = FS_START_ADDR s \<and> 0 \<le> inode_count s \<and> 0 \<le> data_count s \<and>
     boot_block s + fs_size s < 2 ^ 32"

text \<open>An inode of the image whose block list is usable; block numbers above 1022 are refused
  by the code, whatever the size of the image.\<close>

definition inode_ok :: "kstate \<Rightarrow> nat \<Rightarrow> bool" where
  "inode_ok s ino \<longleftrightarrow> int ino < inode_count s \<and> file_length s ino \<le> 1023 * 4096 \<and>
     (\<forall>b < num_blocks (file_length s ino).
        0 \<le> data_block s ino b \<and> data_block s ino b < data_count s \<and> data_block s ino b \<le> 1022)"

lemma length_file_data [simp]: "length (file_data s ino off n) = n"
  by (simp add: file_data_def)

lemma file_data_append:
  "file_data s ino off (n + k) = file_data s ino off n @ file_data s ino (off + n) k"
  by (rule nth_equalityI) (auto simp: file_data_def nth_append)

lemma fs_ok_addr:
  assumes "fs_ok s" and "int ino < inode_count s"
  shows "inode_addr s (of_nat ino) = boot_block s + 4096 + 4096 * ino"
proof -
  have "boot_block s + 4096 + 4096 * ino < 2 ^ 32"
    using assms by (auto simp: fs_ok_def fs_size_def)
  then have "unat (of_nat (boot_block s + 4096 + 4096 * ino) :: u32) = boot_block s + 4096 + 4096 * ino"
    by (simp only: unat_of_nat) simp
  with assms(1) show ?thesis
    by (simp add: inode_addr_def fs_ok_def mult.commute)
qed


section \<open>One block\<close>

lemma bytes_at_upd_buf:
  "disjoint_rng b d p n \<Longrightarrow> 0 < d \<Longrightarrow> bytes_at (m(b := v)) p n = bytes_at m p n"
  by (rule bytes_at_upd_other) (auto simp: disjoint_rng_def)

lemma copy_block_eq:
  fixes ol :: nat
  assumes "j + k = 4096" and "disjoint_rng b dl ptr k"
  defines "cnt \<equiv> min dl (k - ol)"
  shows "copy_block j ptr \<lparr>data_left = int dl, data_read = int dr, offset_left = int ol, rd_buf = b, rd_mem = m\<rparr> =
    \<lparr>data_left = int (dl - cnt), data_read = int (dr + cnt),
     offset_left = int (if dl = 0 then ol else ol - k), rd_buf = b + cnt,
     rd_mem = blit m b (bytes_at m (ptr + ol) cnt)\<rparr>"
  using assms(1,2) unfolding cnt_def
proof (induction k arbitrary: j ptr dl dr ol b m)
  case 0
  then show ?case by (subst copy_block.simps) simp
next
  case (Suc k)
  consider "dl = 0" | "0 < dl" "0 < ol" | "0 < dl" "ol = 0" by auto
  then show ?case
  proof cases
    case 1
    then show ?thesis by (subst copy_block.simps) simp
  next
    case 2
    have "disjoint_rng b dl (Suc ptr) k" using Suc.prems(2) by (auto simp: disjoint_rng_def)
    from Suc.IH [OF _ this, of "Suc j" dr "ol - 1" m] Suc.prems 2 show ?thesis
      by (subst copy_block.simps) (simp add: of_nat_diff)
  next
    case 3
    let ?m = "m(b := m ptr)"
    have d: "disjoint_rng (Suc b) (dl - 1) (Suc ptr) k" "disjoint_rng b dl (Suc ptr) k"
      using Suc.prems(2) 3 by (auto simp: disjoint_rng_def)
    have "disjoint_rng b dl (Suc ptr) (min (dl - 1) k)" using d(2) by (auto simp: disjoint_rng_def)
    then have "bytes_at ?m (Suc ptr) (min (dl - 1) k) = bytes_at m (Suc ptr) (min (dl - 1) k)"
      using 3 by (intro bytes_at_upd_buf)
    moreover have "min dl (Suc k) = Suc (min (dl - 1) k)" using 3 by simp
    ultimately have copied: "blit m b (bytes_at m ptr (min dl (Suc k))) =
        blit ?m (Suc b) (bytes_at ?m (Suc ptr) (min (dl - 1) k))"
      by (simp add: bytes_at_Suc blit_Cons del: fun_upd_apply)
    from Suc.IH [OF _ d(1), of "Suc j" "Suc dr" 0 ?m] Suc.prems 3 copied show ?thesis
      by (subst copy_block.simps) (auto simp: of_nat_diff algebra_simps simp del: fun_upd_apply)
  qed
qed


section \<open>The block walk\<close>

text \<open>Bytes delivered when the walk has passed \<open>pos\<close> bytes of the file.\<close>

definition delivered :: "nat \<Rightarrow> nat \<Rightarrow> nat \<Rightarrow> nat" where
  "delivered off n pos = min n (pos - off)"

lemma delivered_step:
  assumes "delivered off n p < n \<longrightarrow> ol = off - p" and "ol \<le> 4096"
  shows "delivered off n (p + 4096) = delivered off n p + min (n - delivered off n p) (4096 - ol)"
    and "delivered off n p < n \<longrightarrow> p + ol = off + delivered off n p"
  using assms by (cases "off \<le> p"; auto simp: delivered_def min_def split: if_splits)+

text \<open>What the walk reads from an image that the copied bytes do not touch.\<close>

lemma ld32_cong: "(\<And>i. i < 4 \<Longrightarrow> m' (a + i) = m (a + i)) \<Longrightarrow> ld32 m' a = ld32 m a"
proof -
  assume eq: "\<And>i. i < 4 \<Longrightarrow> m' (a + i) = m (a + i)"
  have "m' a = m a" "m' (a + 1) = m (a + 1)" "m' (a + 2) = m (a + 2)" "m' (a + 3) = m (a + 3)"
    using eq [of 0] eq [of 1] eq [of 2] eq [of 3] by simp_all
  then show ?thesis by (simp add: ld32_def)
qed

lemma ld32_blit:
  "disjoint_rng b (length xs) a 4 \<Longrightarrow> ld32 (blit m b xs) a = ld32 m a"
  by (rule ld32_cong) (simp add: blit_outside)

lemma disjoint_sub:
  "disjoint_rng b n a k \<Longrightarrow> n' \<le> n \<Longrightarrow> a \<le> a' \<Longrightarrow> a' + k' \<le> a + k \<Longrightarrow> disjoint_rng b n' a' k'"
  by (auto simp: disjoint_rng_def)

lemma block_bytes:
  assumes "4096 * i + ol = off + done" and "ol + cnt \<le> 4096"
    and same: "\<And>k. k < 4096 \<Longrightarrow> m (block_addr s (nat (data_block s ino i)) + k) =
                 mem s (block_addr s (nat (data_block s ino i)) + k)"
  shows "bytes_at m (block_addr s (nat (data_block s ino i)) + ol) cnt = file_data s ino (off + done) cnt"
proof -
  have "file_byte s ino (off + done + k) = m (block_addr s (nat (data_block s ino i)) + ol + k)" if "k < cnt" for k
  proof -
    from that assms(2) have lt: "ol + k < 4096" by simp
    have pos: "off + done + k = 4096 * i + (ol + k)" using assms(1) by simp
    from lt have "(off + done + k) div 4096 = i" "(off + done + k) mod 4096 = ol + k"
      unfolding pos by simp_all
    with lt same [OF lt] show ?thesis by (simp add: file_byte_def add.assoc)
  qed
  then show ?thesis by (auto simp: bytes_at_eq_iff file_data_def)
qed


lemma of_nat_sint: "0 \<le> sint w \<Longrightarrow> of_nat (nat (sint w)) = (w :: u32)"
  by (subst of_nat_nat) simp_all

lemma block_ptr:
  assumes ok: "fs_ok s" and blk: "0 \<le> blk" "blk < data_count s"
  shows "unat (of_nat (boot_block s) + ((ld32 (mem s) (boot_block s + 4) + 1) * 4096 + of_int blk * 4096) :: u32)
    = block_addr s (nat blk)"
proof -
  let ?a = "boot_block s + 4096 * (1 + nat (inode_count s)) + 4096 * nat blk"
  have "?a < 2 ^ 32" using ok blk by (auto simp: fs_ok_def fs_size_def)
  then have "unat (of_nat ?a :: u32) = ?a" by (simp only: unat_of_nat) simp
  moreover have "ld32 (mem s) (boot_block s + 4) = of_nat (nat (inode_count s))"
    using ok of_nat_sint [of "ld32 (mem s) (boot_block s + 4)"]
    by (auto simp: fs_ok_def inode_count_def lds32_def)
  moreover have "(of_int blk :: u32) = of_nat (nat blk)" using blk by simp
  ultimately show ?thesis by (simp add: block_addr_def algebra_simps)
qed

text \<open>Inode and data blocks lie inside the image.\<close>

lemma image_parts:
  assumes "fs_ok s"
  shows "int ino < inode_count s \<Longrightarrow>
      boot_block s \<le> inode_addr s (of_nat ino) \<and> inode_addr s (of_nat ino) + 4096 \<le> boot_block s + fs_size s"
    and "0 \<le> blk \<Longrightarrow> blk < data_count s \<Longrightarrow>
      boot_block s \<le> block_addr s (nat blk) \<and> block_addr s (nat blk) + 4096 \<le> boot_block s + fs_size s"
  using fs_ok_addr [OF assms, of ino] by (auto simp: fs_size_def block_addr_def)

lemma read_blocks_step:
  assumes fs: "fs_ok s" and ino: "inode_ok s ino" and nb: "off + n \<le> file_length s ino"
    and buf: "disjoint_rng buf n (boot_block s) (fs_size s)" and i: "i < num_blocks (off + n)" and d: "d \<le> n"
  defines "m \<equiv> blit (mem s) buf (file_data s ino off d)" and "blk \<equiv> block_addr s (nat (data_block s ino i))"
  shows "read_blocks (boot_block s) (inode_addr s (of_nat ino)) (int (num_blocks (off + n))) (int i)
      \<lparr>data_left = int (n - d), data_read = int d, offset_left = int ol, rd_buf = buf + d, rd_mem = m\<rparr> =
    read_blocks (boot_block s) (inode_addr s (of_nat ino)) (int (num_blocks (off + n))) (int (Suc i))
      (if ol > 4096 then \<lparr>data_left = int (n - d), data_read = int d, offset_left = int (ol - 4096), rd_buf = buf + d, rd_mem = m\<rparr>
       else copy_block 0 blk \<lparr>data_left = int (n - d), data_read = int d, offset_left = int ol, rd_buf = buf + d, rd_mem = m\<rparr>)"
    and "boot_block s \<le> blk" "blk + 4096 \<le> boot_block s + fs_size s"
    and "boot_block s \<le> a \<Longrightarrow> a + l \<le> boot_block s + fs_size s \<Longrightarrow> bytes_at m a l = bytes_at (mem s) a l"
proof -
  let ?ri = "inode_addr s (of_nat ino)"
  let ?blk = "data_block s ino i"
  have "num_blocks (off + n) \<le> num_blocks (file_length s ino)"
    using nb unfolding num_blocks_def by (intro div_le_mono) simp
  with i ino have bk: "0 \<le> ?blk" "?blk < data_count s" "?blk \<le> 1022" and inN: "int ino < inode_count s"
    by (auto simp: inode_ok_def)
  have i1023: "i < 1023"
    using i nb ino by (auto simp: inode_ok_def num_blocks_def)
  note parts = image_parts(1) [OF fs inN] image_parts(2) [OF fs bk(1,2)]
  have m_same: "bytes_at m a l = bytes_at (mem s) a l \<and> (l = 4 \<longrightarrow> ld32 m a = ld32 (mem s) a)"
    if "boot_block s \<le> a" "a + l \<le> boot_block s + fs_size s" for a l
    using disjoint_sub [OF buf d that] by (auto simp: m_def intro!: bytes_at_blit_other ld32_blit)
  have blk_eq: "lds32 m (nat (int ?ri + 4 + 4 * int i)) = ?blk"
    using m_same [of "?ri + 4 + 4 * i" 4] parts i1023
    by (simp add: data_block_def lds32_def nat_add_distrib nat_mult_distrib)
  have "boot_block s + 8 \<le> boot_block s + fs_size s" by (simp add: fs_size_def)
  then have ptr_eq: "unat (of_nat (boot_block s) + ((ld32 m (boot_block s + 4) + 1) * 4096 + of_int ?blk * 4096) :: u32) = blk"
    using m_same [of "boot_block s + 4" 4] block_ptr [OF fs bk(1,2)] by (simp add: blk_def)
  show "read_blocks (boot_block s) ?ri (int (num_blocks (off + n))) (int i)
      \<lparr>data_left = int (n - d), data_read = int d, offset_left = int ol, rd_buf = buf + d, rd_mem = m\<rparr> =
    read_blocks (boot_block s) ?ri (int (num_blocks (off + n))) (int (Suc i))
      (if ol > 4096 then \<lparr>data_left = int (n - d), data_read = int d, offset_left = int (ol - 4096), rd_buf = buf + d, rd_mem = m\<rparr>
       else copy_block 0 blk \<lparr>data_left = int (n - d), data_read = int d, offset_left = int ol, rd_buf = buf + d, rd_mem = m\<rparr>)"
    unfolding read_blocks.simps [of _ _ _ "int i"] rd_state.simps blk_eq Let_def ptr_eq
    using i bk by (simp add: of_nat_diff algebra_simps)
  show "boot_block s \<le> blk" "blk + 4096 \<le> boot_block s + fs_size s" using parts by (simp_all add: blk_def)
  show "bytes_at m a l = bytes_at (mem s) a l" if "boot_block s \<le> a" "a + l \<le> boot_block s + fs_size s"
    using m_same [OF that] by simp
qed

lemma read_blocks_eq:
  assumes fs: "fs_ok s" and ino: "inode_ok s ino" and nb: "off + n \<le> file_length s ino"
    and buf: "disjoint_rng buf n (boot_block s) (fs_size s)"
    and i: "i + k = num_blocks (off + n)"
    and ol: "delivered off n (4096 * i) < n \<longrightarrow> ol = off - 4096 * i"
  defines "d \<equiv> delivered off n (4096 * i)"
  shows "read_blocks (boot_block s) (inode_addr s (of_nat ino)) (int (num_blocks (off + n))) (int i)
     \<lparr>data_left = int (n - d), data_read = int d, offset_left = int ol, rd_buf = buf + d,
      rd_mem = blit (mem s) buf (file_data s ino off d)\<rparr>
    = (int n, blit (mem s) buf (file_data s ino off n))"
  using i ol unfolding d_def
proof (induction k arbitrary: i ol)
  case 0
  then have "off + n \<le> 4096 * i" by (simp add: num_blocks_def)
  then have "delivered off n (4096 * i) = n" by (auto simp: delivered_def)
  with 0 show ?case by (subst read_blocks.simps) simp
next
  case (Suc k)
  let ?d = "delivered off n (4096 * i)" and ?d' = "delivered off n (4096 * Suc i)"
  let ?m = "blit (mem s) buf (file_data s ino off ?d)"
  let ?r = "\<lparr>data_left = int (n - ?d), data_read = int ?d, offset_left = int ol, rd_buf = buf + ?d, rd_mem = ?m\<rparr>"
  let ?ri = "inode_addr s (of_nat ino)"
  let ?blk = "data_block s ino i"
  have d: "?d \<le> n" by (simp add: delivered_def)
  have i: "i < num_blocks (off + n)" using Suc.prems by simp
  note step = read_blocks_step(1) [OF fs ino nb buf i d] and parts = read_blocks_step(2,3) [OF fs ino nb buf i d]
    and m_same = read_blocks_step(4) [OF fs ino nb buf i d]
  show ?case
  proof (cases "ol > 4096")
    case True
    with Suc.prems(2) have d': "?d' = ?d" "?d' < n \<longrightarrow> ol - 4096 = off - 4096 * Suc i"
      by (auto simp: delivered_def min_def split: if_splits)
    show ?thesis unfolding step using True Suc.IH [of "Suc i" "ol - 4096"] Suc.prems(1) d' by simp
  next
    case False
    let ?cnt = "min (n - ?d) (4096 - ol)"
    have "disjoint_rng (buf + ?d) (n - ?d) (block_addr s (nat ?blk)) 4096"
      using buf parts d by (auto simp: disjoint_rng_def)
    note copied = copy_block_eq [OF _ this, of 0 ?d ol ?m, simplified]
    have d': "?d' = ?d + ?cnt" and at: "?d < n \<longrightarrow> 4096 * i + ol = off + ?d"
      using delivered_step [OF Suc.prems(2)] False by (simp_all add: add.commute)
    have "bytes_at ?m (block_addr s (nat ?blk) + ol) ?cnt = file_data s ino (off + ?d) ?cnt"
    proof (cases "?d < n")
      case True
      show ?thesis
      proof (rule block_bytes)
        fix k :: nat assume "k < 4096"
        then show "?m (block_addr s (nat ?blk) + k) = mem s (block_addr s (nat ?blk) + k)"
          using m_same [of "block_addr s (nat ?blk) + k" 1] parts by (simp add: bytes_at_def)
      qed (use at True False in auto)
    qed (simp add: file_data_def)
    then have "blit ?m (buf + ?d) (bytes_at ?m (block_addr s (nat ?blk) + ol) ?cnt) =
        blit (mem s) buf (file_data s ino off ?d')"
      unfolding d' by (simp add: file_data_append blit_append)
    with copied have "copy_block 0 (block_addr s (nat ?blk)) ?r =
        \<lparr>data_left = int (n - ?d'), data_read = int ?d',
         offset_left = int (if n \<le> ?d then ol else ol - 4096), rd_buf = buf + ?d',
         rd_mem = blit (mem s) buf (file_data s ino off ?d')\<rparr>"
      unfolding d' by (simp add: add.assoc)
    moreover have "?d' < n \<longrightarrow> (if n \<le> ?d then ol else ol - 4096) = off - 4096 * Suc i"
      using Suc.prems(2) False by (auto simp: delivered_def min_def)
    ultimately show ?thesis unfolding step using False Suc.IH [of "Suc i"] Suc.prems(1) by simp
  qed
qed


section \<open>The contract of read\_data\<close>

lemma num_blocks_eq: "num_blocks t = (if t mod 4096 = 0 then t div 4096 else t div 4096 + 1)"
proof -
  define q r where "q = t div 4096" and "r = t mod 4096"
  have t: "t = r + q * 4096" and r: "r < 4096" by (simp_all add: q_def r_def)
  have "num_blocks t = q + (r + 4095) div 4096"
    unfolding num_blocks_def t using div_mult_self1 [of 4096 "r + 4095" q] by (simp add: algebra_simps)
  moreover have "(r + 4095) div 4096 = (if r = 0 then 0 else 1)"
    using r by (auto intro: div_nat_eqI)
  ultimately show ?thesis by (simp add: q_def r_def)
qed

lemma num_blocks_word:
  assumes "t \<le> 1023 * 4096"
  defines "w \<equiv> of_nat t :: u32"
  shows "uint (if w mod 4096 = 0 then w div 4096 else w div 4096 + 1) = int (num_blocks t)"
proof -
  have t: "unat w = t" unfolding w_def using assms(1) by (simp add: unat_of_nat)
  have dm: "w mod 4096 = 0 \<longleftrightarrow> t mod 4096 = 0" "unat (w div 4096) = t div 4096"
    using unat_mod [of w 4096] unat_div [of w 4096] unat_eq_zero [of "w mod 4096"]
    by (simp_all add: t)
  have "t div 4096 \<le> 1023" using assms(1) by simp
  then have suc: "unat (w div 4096 + 1) = t div 4096 + 1"
    using dm(2) by (subst unat_word_ariths) simp
  have "unat (if w mod 4096 = 0 then w div 4096 else w div 4096 + 1) = num_blocks t"
    using dm suc by (simp add: num_blocks_eq)
  then show ?thesis by (simp add: uint_nat del: of_nat_unat)
qed

lemma sint_of_nat_small: "n < 2 ^ 31 \<Longrightarrow> sint (of_nat n :: u32) = int n"
  using to_i32_id [of "int n"] by (simp add: to_i32_def)

lemma inode_check:
  "int ino \<le> inode_count s \<Longrightarrow> \<not> (of_nat ino :: u32) > of_int (inode_count s)"
proof -
  assume a: "int ino \<le> inode_count s"
  moreover have "inode_count s < 2 ^ 31"
    using sint_lt [of "ld32 (mem s) (boot_block s + 4)"] by (simp add: inode_count_def lds32_def)
  ultimately have "uint (of_nat ino :: u32) = int ino" "uint (of_int (inode_count s) :: u32) = inode_count s"
    by (simp_all add: uint_word_of_int unsigned_of_nat take_bit_eq_mod)
  with a show ?thesis by (simp add: word_less_def)
qed

lemma read_data_eq:
  assumes fs: "fs_ok s" and ino: "inode_ok s ino"
    and off: "off \<le> file_length s ino" and len: "off + len < 2 ^ 32"
  defines "n \<equiv> min len (file_length s ino - off)"
  assumes buf: "disjoint_rng buf n (boot_block s) (fs_size s)"
  shows "read_data (of_nat ino) (of_nat off) buf (of_nat len) s =
    (int n, s\<lparr>mem := blit (mem s) buf (file_data s ino off n)\<rparr>)"
proof -
  let ?L = "ld32 (mem s) (inode_addr s (of_nat ino))"
  have L: "unat ?L = file_length s ino" "file_length s ino \<le> 1023 * 4096"
    using ino by (simp_all add: file_length_def inode_ok_def)
  have n: "off + n \<le> file_length s ino" using off by (auto simp: n_def)
  have gt: "(of_nat off + of_nat len :: u32) > ?L \<longleftrightarrow> off + len > file_length s ino"
    using len by (simp add: word_less_nat_alt L unat_of_nat flip: of_nat_add)
  have "?L = of_nat (file_length s ino)" by (simp flip: L(1))
  then have left: "(if (of_nat off + of_nat len :: u32) > ?L then ?L - of_nat off else of_nat len) = of_nat n"
    unfolding gt using off by (auto simp: n_def of_nat_diff)
  have total: "(of_nat n + of_nat off :: u32) = of_nat (off + n)" by simp
  have nb: "uint (if (of_nat (off + n) :: u32) mod 4096 = 0 then (of_nat (off + n) :: u32) div 4096
      else of_nat (off + n) div 4096 + 1) = int (num_blocks (off + n))"
    by (rule num_blocks_word) (use n L in simp)
  have sints: "sint (of_nat n :: u32) = int n" "sint (of_nat off :: u32) = int off"
    using n L by (simp_all add: sint_of_nat_small)
  have check: "\<not> (of_nat ino :: u32) > of_int (inode_count s)"
    using ino by (intro inode_check) (simp add: inode_ok_def)
  show ?thesis
    using read_blocks_eq [OF fs ino n buf, of 0 _ off] check
    unfolding read_data_def Let_def left total nb sints
    by (simp add: delivered_def file_data_def)
qed

text \<open>At or behind the end of the file nothing is copied.\<close>

lemma read_blocks_none:
  assumes "data_left r \<le> 0" and "i + int k = nb"
    and "\<And>j. i \<le> j \<Longrightarrow> j < nb \<Longrightarrow> 0 \<le> lds32 (rd_mem r) (nat (int ri + 4 + 4 * j)) \<and>
               lds32 (rd_mem r) (nat (int ri + 4 + 4 * j)) \<le> 1022"
  shows "read_blocks bb ri nb i r = (data_read r, rd_mem r)"
  using assms
proof (induction k arbitrary: i r)
  case 0
  then show ?case by (subst read_blocks.simps) simp
next
  case (Suc k)
  have stop: "copy_block 0 p r = r" for p using Suc.prems(1) by (subst copy_block.simps) simp
  have rec: "read_blocks bb ri nb (i + 1) (r\<lparr>offset_left := ol\<rparr>) = (data_read r, rd_mem r)" for ol
    using Suc.IH [of "r\<lparr>offset_left := ol\<rparr>" "i + 1"] Suc.prems by simp
  have "read_blocks bb ri nb (i + 1) r = (data_read r, rd_mem r)"
    using rec [of "offset_left r"] by simp
  with rec stop show ?case
    using Suc.prems(2) Suc.prems(3) [of i] by (subst read_blocks.simps) (auto simp: Let_def)
qed

lemma read_data_eof:
  assumes fs: "fs_ok s" and ino: "inode_ok s ino"
    and off: "file_length s ino \<le> off" and len: "off + len < 2 ^ 32" "off < 2 ^ 31"
  shows "read_data (of_nat ino) (of_nat off) buf (of_nat len) s = (0, s)"
proof -
  let ?L = "ld32 (mem s) (inode_addr s (of_nat ino))"
  let ?left = "if (of_nat off + of_nat len :: u32) > ?L then ?L - of_nat off else of_nat len"
  let ?ri = "inode_addr s (of_nat ino)"
  have L: "unat ?L = file_length s ino" "file_length s ino \<le> 1023 * 4096"
    using ino by (simp_all add: file_length_def inode_ok_def)
  have Lw: "?L = of_nat (file_length s ino)" by (simp flip: L(1))
  have gt: "(of_nat off + of_nat len :: u32) > ?L \<longleftrightarrow> off + len > file_length s ino"
    using len by (simp add: word_less_nat_alt L unat_of_nat flip: of_nat_add)
  have z: "off + len \<le> file_length s ino \<Longrightarrow> len = 0 \<and> off = file_length s ino" using off by simp
  have total: "?left + of_nat off = of_nat (file_length s ino)"
    unfolding gt using Lw off by (auto simp: not_less dest: z)
  have "sint ?left = int (file_length s ino) - int off"
  proof -
    have "?left = of_int (int (file_length s ino) - int off)"
      unfolding gt using Lw off by (auto simp: not_less dest: z)
    then show ?thesis using to_i32_id [of "int (file_length s ino) - int off"] L len off
      by (simp add: to_i32_def)
  qed
  with off have neg: "sint ?left \<le> 0" by simp
  have nb: "uint (if (of_nat (file_length s ino) :: u32) mod 4096 = 0 then (of_nat (file_length s ino) :: u32) div 4096
      else of_nat (file_length s ino) div 4096 + 1) = int (num_blocks (file_length s ino))"
    by (rule num_blocks_word) (use L in simp)
  have check: "\<not> (of_nat ino :: u32) > of_int (inode_count s)"
    using ino by (intro inode_check) (simp add: inode_ok_def)
  have blk: "0 \<le> lds32 (mem s) (nat (int ?ri + 4 + 4 * j)) \<and> lds32 (mem s) (nat (int ?ri + 4 + 4 * j)) \<le> 1022"
    if "0 \<le> j" "j < int (num_blocks (file_length s ino))" for j
    using that ino by (auto simp: inode_ok_def data_block_def nat_add_distrib nat_mult_distrib
        dest!: spec [of _ "nat j"])
  have walk: "read_blocks (boot_block s) ?ri (int (num_blocks (file_length s ino))) 0
      \<lparr>data_left = sint ?left, data_read = 0, offset_left = sint (of_nat off :: u32), rd_buf = buf, rd_mem = mem s\<rparr>
      = (0, mem s)"
    using read_blocks_none [where i = 0 and k = "num_blocks (file_length s ino)" and ri = ?ri] neg blk by simp
  show ?thesis
    using check walk unfolding read_data_def Let_def total nb by simp
qed

end
