(* ===== verification/File_Ops.thy ===== *)
theory File_Ops
  imports Filesys_Read
begin

text \<open>
  The descriptor operations of \<open>student-distrib/filesys.c\<close> on the table of the process
  that \<open>set_filesys_pcb\<close> selected: \<open>file_open\<close>, \<open>file_close\<close>,
  \<open>file_read\<close>, \<open>file_write\<close> and the same four for the directory.

  What a caller may rely on when it opens and closes descriptors is the locale
  \<open>descriptor_ops\<close>, interpreted for files and for the directory.  The refinement lemmas
  say that a sequence of reads delivers the file from the current position on, and that
  reading the directory delivers its names in order.
\<close>

section \<open>Definitions\<close>

function already_open :: "int \<Rightarrow> nat \<Rightarrow> kstate \<Rightarrow> bool option" where
  "already_open ino index s =
     (if index < 8 then do {
        free \<leftarrow> bitmap_open (int index) s;
        e \<leftarrow> fd_get (int index) s;
        if \<not> free \<and> inode_num e = ino then Some True else already_open ino (index + 1) s }
      else Some False)"
  by pat_completeness auto
termination by (relation "measure (\<lambda>(i, k, s). 8 - k)") auto

text \<open>The loop that takes the first free slot; \<open>upd\<close> is what is stored in it besides
  the flag.\<close>

function fill_slot :: "(fdt_t \<Rightarrow> fdt_t) \<Rightarrow> nat \<Rightarrow> kstate \<Rightarrow> (int \<times> kstate) option" where
  "fill_slot upd index s =
     (if index < 8 then do {
        free \<leftarrow> bitmap_open (int index) s;
        if free then do {
          s \<leftarrow> fill_bitmap (int index) s;
          e \<leftarrow> fd_get (int index) s;
          s \<leftarrow> fd_set (int index) (upd e) s;
          Some (int index, s) }
        else fill_slot upd (index + 1) s }
      else Some (-1, s))"
  by pat_completeness auto
termination by (relation "measure (\<lambda>(u, k, s). 8 - k)") auto

declare already_open.simps [simp del] fill_slot.simps [simp del]

text \<open>\<open>read_dentry_by_name(fname, &cur_dentry)\<close>\<close>

definition load_cur_dentry :: "addr \<Rightarrow> kstate \<Rightarrow> (int \<times> kstate) option" where
  "load_cur_dentry fname s = do {
     (r, d) \<leftarrow> read_dentry_by_name fname (Some (cur_dentry s)) s;
     Some (r, s\<lparr>cur_dentry := the d\<rparr>) }"

definition file_open :: "addr \<Rightarrow> kstate \<Rightarrow> (int \<times> kstate) option" where
  "file_open fname s = do {
     (r, s) \<leftarrow> load_cur_dentry fname s;
     if r = -1 then Some (-1, s)
     else if filetype (cur_dentry s) = 1 then Some (-1, s)
     else do {
       dup \<leftarrow> already_open (d_inode_num (cur_dentry s)) 0 s;
       if dup then Some (-1, s)
       else fill_slot (\<lambda>e. e\<lparr>inode_num := d_inode_num (cur_dentry s), file_pos := 0\<rparr>) 0 s } }"

definition file_close :: "int \<Rightarrow> kstate \<Rightarrow> (int \<times> kstate) option" where
  "file_close fd s =
     (if fd \<ge> 8 \<or> fd < 0 then Some (-1, s)
      else do {
        free \<leftarrow> bitmap_open fd s;
        if free then Some (-1, s)
        else do {
          e \<leftarrow> fd_get fd s;
          s \<leftarrow> fd_set fd (e\<lparr>file_pos := 0\<rparr>) s;
          s \<leftarrow> free_bitmap fd s;
          Some (0, s) } })"

definition file_write :: "int \<Rightarrow> addr \<Rightarrow> int \<Rightarrow> kstate \<Rightarrow> (int \<times> kstate) option" where
  "file_write fd buf nbytes s = Some (-1, s)"

definition file_read :: "int \<Rightarrow> addr \<Rightarrow> int \<Rightarrow> kstate \<Rightarrow> (int \<times> kstate) option" where
  "file_read fd buf nbytes s = do {
     e \<leftarrow> fd_get fd s;
     let offset = file_pos e;
     if nbytes < 0 then Some (-1, s)
     else if fd \<ge> 8 \<or> fd < 0 then Some (-1, s)
     else do {
       free \<leftarrow> bitmap_open fd s;
       if free then Some (-1, s)
       else do {
         let len = lds32 (mem s) (inode_addr s (of_int (inode_num e)));
         let size = (if nbytes \<ge> len then len else nbytes);
         let (bytes_read, s) = read_data (of_int (inode_num e)) (of_int offset) buf (of_int size) s;
         if bytes_read = -1 then Some (-1, s)
         else do {
           e \<leftarrow> fd_get fd s;
           s \<leftarrow> fd_set fd (e\<lparr>file_pos := to_i32 (file_pos e + bytes_read)\<rparr>) s;
           Some (bytes_read, s) } } } }"

definition dir_open :: "addr \<Rightarrow> kstate \<Rightarrow> (int \<times> kstate) option" where
  "dir_open fname s =
     (if strncmp (mem s) (direntry s 0) fname 32 \<noteq> 0 then Some (-1, s)
      else do {
        (r, s) \<leftarrow> load_cur_dentry fname s;
        if r = -1 then Some (-1, s)
        else if filetype (cur_dentry s) \<noteq> 1 then Some (-1, s)
        else fill_slot (\<lambda>e. e\<lparr>inode_num := d_inode_num (cur_dentry s)\<rparr>) 0 s })"

definition dir_close :: "int \<Rightarrow> kstate \<Rightarrow> (int \<times> kstate) option" where
  "dir_close fd s =
     (if fd \<ge> 8 \<or> fd < 0 then Some (-1, s)
      else do {
        free \<leftarrow> bitmap_open fd s;
        if free then Some (-1, s)
        else do { s \<leftarrow> free_bitmap fd s; Some (0, s) } })"

definition dir_write :: "int \<Rightarrow> addr \<Rightarrow> int \<Rightarrow> kstate \<Rightarrow> (int \<times> kstate) option" where
  "dir_write fd buf nbytes s = Some (-1, s)"

text \<open>A position that is negative indexes before the array; the position only grows
  from 0.\<close>

definition dir_read :: "int \<Rightarrow> addr \<Rightarrow> int \<Rightarrow> kstate \<Rightarrow> (int \<times> kstate) option" where
  "dir_read fd buf nbytes s = do {
     let file_count = dir_count s;
     e \<leftarrow> fd_get fd s;
     let offset = file_pos e;
     if fd \<ge> 8 \<or> fd < 0 then Some (-1, s)
     else do {
       free \<leftarrow> bitmap_open fd s;
       if free then Some (-1, s)
       else do {
         let ret_buf = nat (int (boot_block s) + 64 + 64 * offset);
         n \<leftarrow> strlen (mem s) ret_buf;
         let fname_len = (of_nat n :: u32);
         let fname_len = (if fname_len > 32 then 32 else fname_len);
         let fname_len = (if fname_len > of_int nbytes then of_int nbytes else fname_len);
         let s = s\<lparr>mem := snd (memcpy buf ret_buf (unat fname_len) (mem s))\<rparr>;
         if file_pos e < file_count then do {
           s \<leftarrow> fd_set fd (e\<lparr>file_pos := file_pos e + 1\<rparr>) s;
           Some (sint fname_len, s) }
         else Some (0, s) } } }"


section \<open>The descriptor table\<close>

abbreviation fd_table :: "kstate \<Rightarrow> fdt_t list" where
  "fd_table s \<equiv> fdt (pcbs s (curr_pcb s))"

definition fds_ok :: "kstate \<Rightarrow> bool" where
  "fds_ok s \<longleftrightarrow> length (fd_table s) = 8"

definition fd_used :: "kstate \<Rightarrow> int \<Rightarrow> bool" where
  "fd_used s fd \<longleftrightarrow> 0 \<le> fd \<and> fd < 8 \<and> flags (fd_table s ! nat fd) \<noteq> 0"

text \<open>The state with another entry in a slot.\<close>

definition put_fd :: "int \<Rightarrow> fdt_t \<Rightarrow> kstate \<Rightarrow> kstate" where
  "put_fd fd e s = s\<lparr>pcbs := (pcbs s)(curr_pcb s := (pcbs s (curr_pcb s))\<lparr>fdt := (fd_table s)[nat fd := e]\<rparr>)\<rparr>"

lemma fd_get_ok: "fds_ok s \<Longrightarrow> 0 \<le> fd \<Longrightarrow> fd < 8 \<Longrightarrow> fd_get fd s = Some (fd_table s ! nat fd)"
  by (simp add: fd_get_def fds_ok_def aget_def)

lemma fd_set_ok: "fds_ok s \<Longrightarrow> 0 \<le> fd \<Longrightarrow> fd < 8 \<Longrightarrow> fd_set fd e s = Some (put_fd fd e s)"
  by (simp add: fd_set_def fds_ok_def aset_def put_fd_def)

lemma bitmap_open_ok: "fds_ok s \<Longrightarrow> 0 \<le> fd \<Longrightarrow> fd < 8 \<Longrightarrow> bitmap_open fd s = Some (\<not> fd_used s fd)"
  by (simp add: bitmap_open_def fd_get_ok fd_used_def)

lemma fds_ok_put [simp]: "fds_ok (put_fd fd e s) = fds_ok s"
  by (simp add: put_fd_def fds_ok_def)

lemma put_fd_put [simp]: "put_fd fd e (put_fd fd e' s) = put_fd fd e s"
  by (simp add: put_fd_def)

lemma put_fd_simps [simp]:
  "mem (put_fd fd e s) = mem s" "curr_pcb (put_fd fd e s) = curr_pcb s"
  "boot_block (put_fd fd e s) = boot_block s" "FS_START_ADDR (put_fd fd e s) = FS_START_ADDR s"
  "cur_dentry (put_fd fd e s) = cur_dentry s"
  by (simp_all add: put_fd_def)

lemma fd_table_put:
  "fds_ok s \<Longrightarrow> 0 \<le> fd \<Longrightarrow> fd < 8 \<Longrightarrow> fd_table (put_fd fd e s) ! nat fd = e"
  by (simp add: put_fd_def fds_ok_def)

lemma fd_table_put_nat:
  "fds_ok s \<Longrightarrow> k < 8 \<Longrightarrow> fdt (pcbs (put_fd (int k) e s) (curr_pcb s)) ! k = e"
  using fd_table_put [of s "int k" e] by simp

lemma fd_used_put:
  "fds_ok s \<Longrightarrow> 0 \<le> fd \<Longrightarrow> fd < 8 \<Longrightarrow>
    fd_used (put_fd fd e s) fd' = (if fd' = fd then flags e \<noteq> 0 else fd_used s fd')"
  by (auto simp: fd_used_def put_fd_def fds_ok_def nth_list_update)

lemmas fd_simps = fd_get_ok fd_set_ok bitmap_open_ok fd_table_put fd_table_put_nat fd_used_put


definition first_free :: "kstate \<Rightarrow> nat option" where
  "first_free s = List.find (\<lambda>i. \<not> fd_used s (int i)) [0..<8]"

lemma fill_slot_from:
  assumes "fds_ok s"
  shows "fill_slot upd k s =
    (case List.find (\<lambda>i. \<not> fd_used s (int i)) [k..<8] of
       None \<Rightarrow> Some (-1, s)
     | Some i \<Rightarrow> Some (int i, put_fd (int i) (upd ((fd_table s ! i)\<lparr>flags := 1\<rparr>)) s))"
  using assms
proof (induction upd k s rule: fill_slot.induct)
  case (1 upd k s)
  then show ?case
    by (subst fill_slot.simps) (auto simp: upt_conv_Cons fd_simps fill_bitmap_def)
qed

lemma fill_slot_eq:
  "fds_ok s \<Longrightarrow> fill_slot upd 0 s =
    (case first_free s of
       None \<Rightarrow> Some (-1, s)
     | Some i \<Rightarrow> Some (int i, put_fd (int i) (upd ((fd_table s ! i)\<lparr>flags := 1\<rparr>)) s))"
  by (simp add: fill_slot_from first_free_def)

lemma first_free_Some:
  "first_free s = Some i \<Longrightarrow> i < 8 \<and> \<not> fd_used s (int i) \<and> (\<forall>j<i. fd_used s (int j))"
  by (auto simp: first_free_def find_Some_iff)

lemma first_free_None: "first_free s = None \<longleftrightarrow> (\<forall>i<8. fd_used s (int i))"
  by (auto simp: first_free_def find_None_iff)

lemma already_open_from:
  "fds_ok s \<Longrightarrow> already_open ino k s =
    Some (\<exists>i. k \<le> i \<and> i < 8 \<and> fd_used s (int i) \<and> inode_num (fd_table s ! i) = ino)"
proof (induction ino k s rule: already_open.induct)
  case (1 ino k s)
  then have IH: "k < 8 \<Longrightarrow> \<not> (fd_used s (int k) \<and> inode_num (fd_table s ! k) = ino) \<Longrightarrow>
      already_open ino (k + 1) s =
      Some (\<exists>i. k + 1 \<le> i \<and> i < 8 \<and> fd_used s (int i) \<and> inode_num (fd_table s ! i) = ino)"
    by (simp add: fd_simps)
  have split: "k \<le> i \<longleftrightarrow> i = k \<or> k + 1 \<le> i" for i :: nat by auto
  show ?case
    by (subst already_open.simps) (use IH 1(2) in \<open>auto simp: fd_simps split\<close>)
qed


section \<open>Opening and closing\<close>

text \<open>
  The contract of a pair of open and close operations: opening fails and leaves the table
  alone or takes the lowest free slot, closing a used slot frees it and fails on any other
  number.  \<open>same_table\<close> relates states with the same table.
\<close>

definition same_table :: "kstate \<Rightarrow> kstate \<Rightarrow> bool" where
  "same_table s s' \<longleftrightarrow> curr_pcb s' = curr_pcb s \<and> pcbs s' = pcbs s"

lemma same_table_used: "same_table s s' \<Longrightarrow> fd_used s' = fd_used s" "same_table s s' \<Longrightarrow> fds_ok s' = fds_ok s"
  "same_table s s' \<Longrightarrow> first_free s' = first_free s"
  by (simp_all add: same_table_def fd_used_def fds_ok_def first_free_def fun_eq_iff)

definition takes_slot :: "kstate \<Rightarrow> int \<Rightarrow> kstate \<Rightarrow> bool" where
  "takes_slot s r s' \<longleftrightarrow>
      (r = -1 \<and> same_table s s') \<or>
      (\<exists>i e s0. first_free s = Some i \<and> r = int i \<and> same_table s s0 \<and> s' = put_fd r e s0 \<and> flags e = 1)"

locale descriptor_ops =
  fixes open_op :: "addr \<Rightarrow> kstate \<Rightarrow> (int \<times> kstate) option"
    and close_op :: "int \<Rightarrow> kstate \<Rightarrow> (int \<times> kstate) option"
  assumes open_cases: "fds_ok s \<Longrightarrow> open_op f s = Some (r, s') \<Longrightarrow> takes_slot s r s'"
    and close_used: "fds_ok s \<Longrightarrow> fd_used s fd \<Longrightarrow>
      \<exists>e. close_op fd s = Some (0, put_fd fd e s) \<and> flags e = 0"
    and close_unused: "fds_ok s \<Longrightarrow> \<not> fd_used s fd \<Longrightarrow> close_op fd s = Some (-1, s)"
begin

lemma open_used:
  assumes "fds_ok s" and "open_op f s = Some (r, s')" and "r \<noteq> -1"
  shows "0 \<le> r \<and> r < 8 \<and> \<not> fd_used s r \<and> (\<forall>j. 0 \<le> j \<and> j < r \<longrightarrow> fd_used s j) \<and> fds_ok s' \<and>
    (\<forall>j. fd_used s' j \<longleftrightarrow> j = r \<or> fd_used s j)"
proof -
  from open_cases [OF assms(1,2)] assms(3) obtain i e s0 where
    o: "first_free s = Some i" "r = int i" "same_table s s0" "s' = put_fd r e s0" "flags e = 1" by (auto simp: takes_slot_def)
  from first_free_Some [OF o(1)] have i: "i < 8" "\<not> fd_used s (int i)" "\<And>j. j < i \<Longrightarrow> fd_used s (int j)"
    by auto
  have "fd_used s j" if "0 \<le> j" "j < int i" for j
    using i(3) [of "nat j"] that by simp
  with o i same_table_used [OF o(3)] assms(1) show ?thesis by (auto simp: fd_used_put)
qed

lemma open_fails:
  assumes "fds_ok s" and "open_op f s = Some (-1, s')"
  shows "fds_ok s' \<and> fd_used s' = fd_used s"
  using open_cases [OF assms] same_table_used assms(1) by (auto simp: takes_slot_def)

lemma close_after_open:
  assumes "fds_ok s" and "open_op f s = Some (fd, s1)" and "fd \<noteq> -1"
  shows "\<exists>s2. close_op fd s1 = Some (0, s2) \<and> fds_ok s2 \<and> fd_used s2 = fd_used s \<and>
           close_op fd s2 = Some (-1, s2)"
proof -
  note o = open_used [OF assms]
  then obtain e where e: "close_op fd s1 = Some (0, put_fd fd e s1)" "flags e = 0"
    using close_used [of s1 fd] by auto
  have u: "fd_used (put_fd fd e s1) = fd_used s"
    using o e(2) by (auto simp: fun_eq_iff fd_used_put)
  have "close_op fd (put_fd fd e s1) = Some (-1, put_fd fd e s1)"
    by (rule close_unused) (use o u in simp_all)
  with e u o show ?thesis by (intro exI [of _ "put_fd fd e s1"]) simp
qed

end

lemma load_cur_dentry_table: "load_cur_dentry f s = Some (r, s') \<Longrightarrow> same_table s s'"
  by (auto simp: load_cur_dentry_def same_table_def bind_Some_iff)

lemma takes_none: "same_table s s' \<Longrightarrow> takes_slot s (-1) s'"
  by (simp add: takes_slot_def)

lemma takes_fill:
  assumes "fds_ok s" and "same_table s s1" and "fill_slot upd 0 s1 = Some (r, s')"
    and "\<And>e. flags (upd e) = flags e"
  shows "takes_slot s r s'"
proof (cases "first_free s")
  case None
  with assms show ?thesis by (simp add: fill_slot_eq same_table_used takes_slot_def)
next
  case (Some i)
  with assms have "r = int i" "s' = put_fd (int i) (upd ((fd_table s1 ! i)\<lparr>flags := 1\<rparr>)) s1"
    by (auto simp: fill_slot_eq same_table_used)
  with Some assms(2,4) show ?thesis unfolding takes_slot_def
    by (intro disjI2 exI [of _ i] exI [of _ "upd ((fd_table s1 ! i)\<lparr>flags := 1\<rparr>)"] exI [of _ s1]) simp
qed

lemma same_table_refl [simp]: "same_table s s"
  by (simp add: same_table_def)

interpretation file_fds: descriptor_ops file_open file_close
proof
  fix s f r s' assume ok: "fds_ok s" and op: "file_open f s = Some (r, s')"
  then obtain r1 s1 where "load_cur_dentry f s = Some (r1, s1)"
    by (auto simp: file_open_def bind_Some_iff)
  with op load_cur_dentry_table [OF this] show "takes_slot s r s'"
    by (auto simp: file_open_def bind_Some_iff takes_none split: if_splits intro: takes_fill [OF ok])
next
  fix s fd assume "fds_ok s" and "fd_used s fd"
  then show "\<exists>e. file_close fd s = Some (0, put_fd fd e s) \<and> flags e = 0"
    by (auto simp: file_close_def fd_simps free_bitmap_def fd_used_def)
next
  fix s fd assume "fds_ok s" and "\<not> fd_used s fd"
  then show "file_close fd s = Some (-1, s)" by (auto simp: file_close_def fd_simps)
qed

interpretation dir_fds: descriptor_ops dir_open dir_close
proof
  fix s f r s' assume ok: "fds_ok s" and op: "dir_open f s = Some (r, s')"
  show "takes_slot s r s'"
  proof (cases "strncmp (mem s) (direntry s 0) f 32 = 0")
    case True
    with op obtain r1 s1 where "load_cur_dentry f s = Some (r1, s1)"
      by (auto simp: dir_open_def bind_Some_iff)
    with True op load_cur_dentry_table [OF this] show ?thesis
      by (auto simp: dir_open_def bind_Some_iff takes_none split: if_splits intro: takes_fill [OF ok])
  qed (use op in \<open>auto simp: dir_open_def takes_none\<close>)
next
  fix s fd assume "fds_ok s" and "fd_used s fd"
  then show "\<exists>e. dir_close fd s = Some (0, put_fd fd e s) \<and> flags e = 0"
    by (auto simp: dir_close_def fd_simps free_bitmap_def fd_used_def)
next
  fix s fd assume "fds_ok s" and "\<not> fd_used s fd"
  then show "dir_close fd s = Some (-1, s)" by (auto simp: dir_close_def fd_simps)
qed


section \<open>Sequential reading\<close>

text \<open>The image is seen the same in two states whose memories agree on it.\<close>

definition same_image :: "kstate \<Rightarrow> kstate \<Rightarrow> bool" where
  "same_image s s' \<longleftrightarrow> boot_block s' = boot_block s \<and> FS_START_ADDR s' = FS_START_ADDR s \<and>
     (\<forall>a. boot_block s \<le> a \<and> a < boot_block s + fs_size s \<longrightarrow> mem s' a = mem s a)"

lemma same_image_ld32:
  "same_image s s' \<Longrightarrow> boot_block s \<le> a \<Longrightarrow> a + 4 \<le> boot_block s + fs_size s \<Longrightarrow>
    ld32 (mem s') a = ld32 (mem s) a"
  by (rule ld32_cong) (simp add: same_image_def)

lemma same_image_counts:
  assumes "same_image s s'"
  shows "inode_count s' = inode_count s" "data_count s' = data_count s" "dir_count s' = dir_count s"
    "fs_size s' = fs_size s" "fs_ok s' = fs_ok s" "boot_block s' = boot_block s"
proof -
  have bb: "boot_block s' = boot_block s" "FS_START_ADDR s' = FS_START_ADDR s" and big: "12 \<le> fs_size s"
    using assms by (simp_all add: same_image_def fs_size_def)
  show c: "inode_count s' = inode_count s" "data_count s' = data_count s" "dir_count s' = dir_count s"
    using bb big same_image_ld32 [OF assms]
    by (simp_all add: inode_count_def data_count_def dir_count_def lds32_def)
  show "fs_size s' = fs_size s" using c by (simp add: fs_size_def)
  then show "fs_ok s' = fs_ok s" using c bb by (simp add: fs_ok_def)
  show "boot_block s' = boot_block s" by (rule bb)
qed

lemma same_image_inode:
  assumes same: "same_image s s'" and ok: "fs_ok s" and ino: "inode_ok s ino"
  shows "file_length s' ino = file_length s ino"
    and "b < num_blocks (file_length s ino) \<Longrightarrow> data_block s' ino b = data_block s ino b"
    and "inode_ok s' ino"
proof -
  have N: "int ino < inode_count s" using ino by (simp add: inode_ok_def)
  have ia: "inode_addr s' (of_nat ino) = inode_addr s (of_nat ino)"
    using same by (simp add: inode_addr_def same_image_def)
  note part = image_parts(1) [OF ok N]
  show len: "file_length s' ino = file_length s ino"
    using same_image_ld32 [OF same, of "inode_addr s (of_nat ino)"] part by (simp add: file_length_def ia)
  have nb: "num_blocks (file_length s ino) \<le> 1023"
    using ino by (auto simp: inode_ok_def num_blocks_def)
  show blk: "data_block s' ino b = data_block s ino b" if "b < num_blocks (file_length s ino)" for b
    using same_image_ld32 [OF same, of "inode_addr s (of_nat ino) + 4 + 4 * b"] part nb that
    by (simp add: data_block_def lds32_def ia)
  show "inode_ok s' ino"
    using ino blk by (simp add: inode_ok_def len same_image_counts [OF same])
qed

lemma same_image_data:
  assumes same: "same_image s s'" and ok: "fs_ok s" and ino: "inode_ok s ino"
    and n: "off + n \<le> file_length s ino"
  shows "file_data s' ino off n = file_data s ino off n"
proof -
  have "file_byte s' ino k = file_byte s ino k" if k: "k < file_length s ino" for k
  proof -
    let ?b = "k div 4096"
    have b: "?b < num_blocks (file_length s ino)"
      using k by (auto simp: num_blocks_def less_eq_div_iff_mult_less_eq Suc_le_eq [symmetric])
    with ino have blk: "0 \<le> data_block s ino ?b" "data_block s ino ?b < data_count s"
      by (auto simp: inode_ok_def)
    have "block_addr s' x = block_addr s x" for x
      by (simp add: block_addr_def same_image_counts [OF same])
    moreover have "k mod 4096 < 4096" by simp
    with image_parts(2) [OF ok blk] have "boot_block s \<le> block_addr s (nat (data_block s ino ?b)) + k mod 4096"
      "block_addr s (nat (data_block s ino ?b)) + k mod 4096 < boot_block s + fs_size s" by linarith+
    ultimately show ?thesis
      using same_image_inode(2) [OF same ok ino b] same by (simp add: file_byte_def same_image_def)
  qed
  with n show ?thesis by (simp add: file_data_def)
qed

text \<open>A descriptor that is open on a file.\<close>

definition fd_on :: "kstate \<Rightarrow> int \<Rightarrow> nat \<Rightarrow> nat \<Rightarrow> bool" where
  "fd_on s fd ino pos \<longleftrightarrow> fds_ok s \<and> fd_used s fd \<and> inode_num (fd_table s ! nat fd) = int ino \<and>
     file_pos (fd_table s ! nat fd) = int pos"

lemma file_read_eq:
  fixes n :: nat
  assumes fs: "fs_ok s" and ino: "inode_ok s ino" and fd: "fd_on s fd ino pos"
    and pos: "pos \<le> file_length s ino"
  defines "k \<equiv> min n (file_length s ino - pos)"
  assumes buf: "disjoint_rng buf k (boot_block s) (fs_size s)" and n: "n < 2 ^ 31"
  shows "file_read fd buf (int n) s = Some (int k,
    put_fd fd ((fd_table s ! nat fd)\<lparr>file_pos := int (pos + k)\<rparr>)
      (s\<lparr>mem := blit (mem s) buf (file_data s ino pos k)\<rparr>))"
proof -
  let ?L = "file_length s ino"
  have fd': "fds_ok s" "fd_used s fd" "0 \<le> fd" "fd < 8" "inode_num (fd_table s ! nat fd) = int ino"
    "file_pos (fd_table s ! nat fd) = int pos"
    using fd by (auto simp: fd_on_def fd_used_def)
  have L: "?L \<le> 1023 * 4096" using ino by (simp add: inode_ok_def)
  have "ld32 (mem s) (inode_addr s (of_nat ino)) = of_nat ?L" by (simp add: file_length_def)
  then have len: "lds32 (mem s) (inode_addr s (of_nat ino)) = int ?L"
    using L by (simp add: lds32_def sint_of_nat_small)
  define size where "size = min n ?L"
  have k: "min size (?L - pos) = k" by (auto simp: size_def k_def)
  have rd: "read_data (of_nat ino) (of_nat pos) buf (of_nat size) s =
      (int k, s\<lparr>mem := blit (mem s) buf (file_data s ino pos k)\<rparr>)"
    using read_data_eq [OF fs ino pos, of size buf] buf L pos unfolding k by (simp add: size_def)
  have fd2: "fds_ok (s\<lparr>mem := m\<rparr>)" "fd_table (s\<lparr>mem := m\<rparr>) = fd_table s" for m
    using fd'(1) by (simp_all add: fds_ok_def)
  have "to_i32 (int pos + int k) = int (pos + k)"
    using L pos by (simp add: to_i32_id k_def)
  then show ?thesis
    using fd' fd2 rd len
    by (cases "?L \<le> n") (simp_all add: file_read_def fd_simps Let_def size_def)
qed


lemma same_image_step:
  assumes "disjoint_rng buf (length xs) (boot_block s) (fs_size s)"
  shows "same_image s (put_fd fd e (s\<lparr>mem := blit (mem s) buf xs\<rparr>))"
  using assms by (auto simp: same_image_def disjoint_rng_def blit_def)

lemma fd_on_step:
  assumes "fd_on s fd ino pos"
  shows "fd_on (put_fd fd ((fd_table s ! nat fd)\<lparr>file_pos := int p\<rparr>) (s\<lparr>mem := m\<rparr>)) fd ino p"
  using assms by (auto simp: fd_on_def fd_used_def fds_ok_def put_fd_def)

text \<open>A sequence of reads on one descriptor and the bytes it hands to the caller.\<close>

fun file_reads :: "int \<Rightarrow> (addr \<times> nat) list \<Rightarrow> kstate \<Rightarrow> (u8 list \<times> kstate) option" where
  "file_reads fd [] s = Some ([], s)"
| "file_reads fd ((buf, n) # rs) s = do {
     (r, s) \<leftarrow> file_read fd buf (int n) s;
     let got = bytes_at (mem s) buf (nat r);
     (rest, s) \<leftarrow> file_reads fd rs s;
     Some (got @ rest, s) }"

lemma file_reads_eq:
  assumes "fs_ok s" and "inode_ok s ino" and "fd_on s fd ino pos" and "pos \<le> file_length s ino"
    and "\<forall>(buf, n) \<in> set rs. n < 2 ^ 31 \<and> disjoint_rng buf n (boot_block s) (fs_size s)"
  shows "\<exists>s'. file_reads fd rs s =
    Some (file_data s ino pos (min (sum_list (map snd rs)) (file_length s ino - pos)), s')"
  using assms
proof (induction rs arbitrary: s pos)
  case Nil
  then show ?case by (simp add: file_data_def)
next
  case (Cons r rs)
  obtain buf n where r: "r = (buf, n)" by (cases r)
  define L where "L = file_length s ino"
  define k where "k = min n (L - pos)"
  define s1 where "s1 = put_fd fd ((fd_table s ! nat fd)\<lparr>file_pos := int (pos + k)\<rparr>)
      (s\<lparr>mem := blit (mem s) buf (file_data s ino pos k)\<rparr>)"
  define j where "j = min (sum_list (map snd rs)) (L - (pos + k))"
  have n: "n < 2 ^ 31" "disjoint_rng buf k (boot_block s) (fs_size s)"
    using Cons.prems(5) by (auto simp: r disjoint_rng_def k_def)
  have step: "file_read fd buf (int n) s = Some (int k, s1)"
    unfolding s1_def k_def L_def using n file_read_eq [OF Cons.prems(1-4)] by (simp add: k_def L_def)
  have same: "same_image s s1" unfolding s1_def using n(2) by (intro same_image_step) simp
  note c = same_image_counts [OF same] and i = same_image_inode [OF same Cons.prems(1,2)]
  have "\<exists>s'. file_reads fd rs s1 =
      Some (file_data s1 ino (pos + k) (min (sum_list (map snd rs)) (file_length s1 ino - (pos + k))), s')"
  proof (rule Cons.IH)
    show "fs_ok s1" using c Cons.prems(1) by simp
    show "inode_ok s1 ino" by (rule i(3))
    show "fd_on s1 fd ino (pos + k)" unfolding s1_def using Cons.prems(3) by (rule fd_on_step)
    show "pos + k \<le> file_length s1 ino" using i(1) Cons.prems(4) by (simp add: k_def L_def)
    show "\<forall>(buf, n) \<in> set rs. n < 2 ^ 31 \<and> disjoint_rng buf n (boot_block s1) (fs_size s1)"
      using Cons.prems(5) unfolding c by auto
  qed
  then obtain s' where rest: "file_reads fd rs s1 = Some (file_data s1 ino (pos + k) j, s')"
    unfolding i(1) j_def L_def by blast
  have "file_data s1 ino (pos + k) j = file_data s ino (pos + k) j"
    using Cons.prems(4) by (intro same_image_data [OF same Cons.prems(1,2)]) (simp add: j_def k_def L_def)
  moreover have "bytes_at (mem s1) buf k = file_data s ino pos k"
    using bytes_at_blit_same [of "mem s" buf "file_data s ino pos k"] by (simp add: s1_def)
  moreover have "min (n + S) (L - pos) = min n (L - pos) + min S (L - (pos + min n (L - pos)))" for S
    by (auto simp: min_def)
  then have "min (sum_list (map snd (r # rs))) (L - pos) = k + j" by (simp add: r k_def j_def)
  moreover have "file_reads fd (r # rs) s = Some (bytes_at (mem s1) buf k @ file_data s1 ino (pos + k) j, s')"
    by (simp add: r step rest)
  ultimately show ?case by (simp only: file_data_append flip: L_def) blast
qed


section \<open>Reading the directory\<close>

lemma length_entry_name: "length (entry_name s i) \<le> 32"
  using length_takeWhile_le [of "\<lambda>b. b \<noteq> 0" "bytes_at (mem s) (direntry s i) 32"]
  by (simp add: entry_name_def)

lemma entry_name_strlen:
  assumes "strlen (mem s) (direntry s i) = Some k"
  shows "entry_name s i = bytes_at (mem s) (direntry s i) (min k 32)"
proof -
  let ?m = "mem s" and ?d = "direntry s i"
  have str: "cstr ?m ?d (bytes_at ?m ?d k)" using assms by (simp add: strlen_Some_iff)
  have nz: "\<forall>x \<in> set (bytes_at ?m ?d (min k 32)). x \<noteq> 0"
    using dstr_nth [OF str] by (auto simp: in_set_conv_nth)
  show ?thesis
  proof (cases "k < 32")
    case True
    then have "bytes_at ?m ?d 32 = bytes_at ?m ?d k @ ?m (?d + k) # bytes_at ?m (Suc (?d + k)) (31 - k)"
      using bytes_at_append [of ?m ?d k "Suc (31 - k)"] by (simp add: bytes_at_Suc)
    with True nz dstr_end [OF str] show ?thesis by (simp add: entry_name_def takeWhile_append)
  next
    case False
    with nz show ?thesis by (simp add: entry_name_def takeWhile_eq_all_conv)
  qed
qed

lemma dir_read_eq:
  assumes fd: "fds_ok s" "fd_used s fd" "file_pos (fd_table s ! nat fd) = int pos"
    and len: "strlen (mem s) (direntry s pos) = Some k" "k < 2 ^ 32" and n: "n < 2 ^ 31"
    and buf: "disjoint_rng buf n (direntry s pos) 32"
  defines "name \<equiv> take n (entry_name s pos)"
  defines "s1 \<equiv> s\<lparr>mem := blit (mem s) buf name\<rparr>"
  shows "dir_read fd buf (int n) s = Some (
    if int pos < dir_count s
    then (int (length name), put_fd fd ((fd_table s ! nat fd)\<lparr>file_pos := int pos + 1\<rparr>) s1)
    else (0, s1))"
proof -
  let ?l = "min n (min k 32)"
  have name: "name = bytes_at (mem s) (direntry s pos) ?l"
    unfolding name_def entry_name_strlen [OF len(1)] by (auto simp: bytes_at_def take_map min_def)
  have fd': "0 \<le> fd" "fd < 8" using fd by (auto simp: fd_used_def)
  have ret: "nat (int (boot_block s) + 64 + 64 * int pos) = direntry s pos"
    by (simp add: direntry_def nat_add_distrib nat_mult_distrib)
  have f1: "(if 32 < (of_nat k :: u32) then 32 else of_nat k) = (of_nat (min k 32) :: u32)"
    using len(2) by (auto simp: word_less_nat_alt unat_of_nat)
  have f2: "(if of_nat n < (of_nat (min k 32) :: u32) then of_nat n else of_nat (min k 32)) = (of_nat ?l :: u32)"
    using n by (auto simp: word_less_nat_alt unat_of_nat min_def)
  have "?l < 2 ^ 31" using n by simp
  then have f3: "unat (of_nat ?l :: u32) = ?l" "sint (of_nat ?l :: u32) = int ?l"
    by (simp_all only: sint_of_nat_small unat_of_nat) simp
  have mc: "memcpy buf (direntry s pos) ?l (mem s) = (buf, blit (mem s) buf name)"
    unfolding name by (rule memcpy_blit) (use buf in \<open>auto simp: disjoint_rng_def\<close>)
  have "fds_ok s1" using fd(1) by (simp add: s1_def fds_ok_def)
  moreover have "length name = ?l" by (simp add: name)
  ultimately show ?thesis
    using fd fd'
    unfolding dir_read_def Let_def of_int_of_nat_eq fd_get_ok [OF fd(1) fd'] bitmap_open_ok [OF fd(1) fd']
    by (simp add: ret len(1) f1 f2 f3 mc fd_set_ok cong: if_cong flip: s1_def)
qed

end
