(* ===== verification/Devices.thy ===== *)
theory Devices
  imports Kernel_State
begin

text \<open>
  The interrupt controller (\<open>i8259.c\<close>), the real-time clock (\<open>rtc.c\<close>) and
  the start of the interval timer (\<open>pit.c\<close>), as the bytes they send to their ports.
  A device answers a read through \<open>inports\<close>.  \<open>rtc_read\<close> spins on a flag
  that only the interrupt handler sets: the interrupts taken while it spins are an explicit
  list, and a list that ends first leaves the call waiting (\<open>None\<close>).
\<close>

section \<open>i8259.c\<close>

definition pic_port :: "u32 \<Rightarrow> u16" where
  "pic_port irq_num = (if irq_num < 8 then 0x20 + 1 else 0xA0 + 1)"

definition pic_line :: "u32 \<Rightarrow> u32" where
  "pic_line irq_num = (if irq_num < 8 then irq_num else irq_num - 8)"

text \<open>The shift count is taken modulo 32, as the processor does.\<close>

definition enable_irq :: "u32 \<Rightarrow> kstate \<Rightarrow> kstate" where
  "enable_irq irq_num s =
     (let port = pic_port irq_num;
          irq_mask = ucast (inb port s AND NOT (push_bit (unat (pic_line irq_num) mod 32) 1))
      in outb irq_mask port s)"

definition disable_irq :: "u32 \<Rightarrow> kstate \<Rightarrow> kstate" where
  "disable_irq irq_num s =
     (let port = pic_port irq_num;
          irq_mask = ucast (inb port s OR (push_bit (unat (pic_line irq_num) mod 32) 1))
      in outb irq_mask port s)"

definition send_eoi :: "u32 \<Rightarrow> kstate \<Rightarrow> kstate" where
  "send_eoi irq_num s =
     (if irq_num \<ge> 8 then outb (0x60 OR 2) 0x20 (outb (ucast (0x60 OR (irq_num - 8))) 0xA0 s)
      else outb (ucast (0x60 OR irq_num)) 0x20 s)"

definition i8259_init :: "kstate \<Rightarrow> kstate" where
  "i8259_init s =
     (let s = outb 0xFF (0xA0 + 1) (outb 0xFF (0x20 + 1) s);
          s = outb 0x01 (0x20 + 1) (outb 0x04 (0x20 + 1) (outb 0x20 (0x20 + 1) (outb 0x11 0x20 s)));
          s = outb 0x01 (0xA0 + 1) (outb 0x02 (0xA0 + 1) (outb 0x28 (0xA0 + 1) (outb 0x11 0xA0 s)));
          s = outb 0xFF (0xA0 + 1) (outb 0xFF (0x20 + 1) s)
      in enable_irq 2 s)"


section \<open>rtc.c\<close>

definition rtc_open :: "addr \<Rightarrow> kstate \<Rightarrow> (int \<times> kstate) option" where
  "rtc_open fname s = Some (0, outb 0x2F 0x71 (outb 0x8A 0x70 s))"

definition rtc_close :: "int \<Rightarrow> kstate \<Rightarrow> (int \<times> kstate) option" where
  "rtc_close fd s = Some (0, s)"

fun rtc_wait :: "(kstate \<Rightarrow> kstate option) list \<Rightarrow> kstate \<Rightarrow> (int \<times> kstate) option" where
  "rtc_wait [] s = (if rtc_flag s = 0 then None else Some (0, s))"
| "rtc_wait (h # hs) s =
     (if rtc_flag s = 0 then do { s \<leftarrow> h s; rtc_wait hs s } else Some (0, s))"

definition rtc_read ::
  "(kstate \<Rightarrow> kstate option) list \<Rightarrow> int \<Rightarrow> addr \<Rightarrow> int \<Rightarrow> kstate \<Rightarrow> (int \<times> kstate) option" where
  "rtc_read interrupts fd buf nbytes s = rtc_wait interrupts (s\<lparr>rtc_flag := 0\<rparr>)"

definition rtc_rate :: "int \<Rightarrow> u8 option" where
  "rtc_rate freq =
     (let freq = (if freq = 1024 \<or> freq = 2048 \<or> freq = 4096 \<or> freq = 8192 then 1024 else freq)
      in if freq = 1024 then Some 0x6
         else if freq = 512 then Some 0x7
         else if freq = 256 then Some 0x8
         else if freq = 128 then Some 0x9
         else if freq = 64 then Some 0xA
         else if freq = 32 then Some 0xB
         else if freq = 16 then Some 0xC
         else if freq = 8 then Some 0xD
         else if freq = 4 then Some 0xE
         else if freq = 2 then Some 0xF
         else None)"

definition rtc_write :: "int \<Rightarrow> addr \<Rightarrow> int \<Rightarrow> kstate \<Rightarrow> (int \<times> kstate) option" where
  "rtc_write fd buf nbytes s =
     (if nbytes \<noteq> 4 then Some (-1, s)
      else (case rtc_rate (lds32 (mem s) buf) of
              None \<Rightarrow> Some (-1, s)
            | Some rate \<Rightarrow> Some (0, outb rate 0x71 (outb 0x8A 0x70 s))))"

definition rtc_int :: "kstate \<Rightarrow> kstate" where
  "rtc_int s =
     (let s = enable_irq 8 s;
          s = outb 0x8B 0x70 s;
          prev = inb 0x71 s;
          s = outb 0x8B 0x70 s
      in outb (ucast prev OR 0x40) 0x71 s)"

definition rtc_handler :: "kstate \<Rightarrow> kstate" where
  "rtc_handler s = send_eoi 8 ((outb 0x0C 0x70 s)\<lparr>rtc_flag := 1\<rparr>)"


section \<open>pit.c\<close>

definition pit_init :: "kstate \<Rightarrow> kstate" where
  "pit_init s =
     (let divisor = (word_of_int (1193180 div 30) :: u32)
      in outb (ucast (drop_bit 8 divisor)) 0x40 (outb (ucast (divisor AND 0xFF)) 0x40 (outb 0x36 0x43 s)))"


section \<open>Lemmas\<close>

lemma mask_bit:
  assumes "k < 8"
  shows "bit (ucast (ucast (b :: u8) AND NOT (push_bit k (1 :: u32))) :: u8) i \<longleftrightarrow> bit b i \<and> i \<noteq> k"
    and "bit (ucast (ucast b OR (push_bit k (1 :: u32))) :: u8) i \<longleftrightarrow> bit b i \<or> i = k"
  using assms by (auto simp: bit_simps bit_1_iff dest: bit_imp_le_length)

lemma pic_line_less: "irq < 16 \<Longrightarrow> unat (pic_line irq) < 8 \<and> unat (pic_line irq) = unat irq mod 8"
proof -
  assume "irq < 16"
  then have i: "unat irq < 16" by (simp add: word_less_nat_alt)
  show ?thesis
  proof (cases "irq < 8")
    case True
    then show ?thesis by (simp add: pic_line_def word_less_nat_alt)
  next
    case False
    then have "8 \<le> irq" by simp
    then have "unat (irq - 8) = unat irq - 8" by (simp add: unat_sub)
    moreover have "8 \<le> unat irq" using False by (simp add: word_less_nat_alt)
    then have "unat irq mod 8 = unat irq - 8" using i by (simp add: mod_if)
    ultimately show ?thesis using False i by (simp add: pic_line_def)
  qed
qed

text \<open>Programming a mask register changes the line's own bit only.\<close>

lemma enable_irq_log:
  assumes "irq < 16"
  shows "\<exists>mask. port_log (enable_irq irq s) = port_log s @ [(pic_port irq, mask)] \<and>
    (\<forall>i. bit mask i \<longleftrightarrow> bit (inports s (pic_port irq)) i \<and> i \<noteq> unat irq mod 8)"
  using pic_line_less [OF assms] mask_bit(1) [of "unat (pic_line irq)" "inports s (pic_port irq)"]
  by (simp add: enable_irq_def Let_def outb_def inb_def)

lemma disable_irq_log:
  assumes "irq < 16"
  shows "\<exists>mask. port_log (disable_irq irq s) = port_log s @ [(pic_port irq, mask)] \<and>
    (\<forall>i. bit mask i \<longleftrightarrow> bit (inports s (pic_port irq)) i \<or> i = unat irq mod 8)"
  using pic_line_less [OF assms] mask_bit(2) [of "unat (pic_line irq)" "inports s (pic_port irq)"]
  by (simp add: disable_irq_def Let_def outb_def inb_def)

text \<open>The periodic rate selector \<open>r\<close> of the clock gives \<open>32768 / 2^(r - 1)\<close> Hz.\<close>

definition rtc_hz :: "u8 \<Rightarrow> int" where
  "rtc_hz rate = 32768 div 2 ^ (unat rate - 1)"

lemma rtc_rate_Some:
  "rtc_rate f = Some r \<Longrightarrow> rtc_hz r = min f 1024 \<and> 6 \<le> r \<and> r \<le> 15"
  by (auto simp: rtc_rate_def rtc_hz_def Let_def split: if_splits)

lemma rtc_rate_dom: "rtc_rate f \<noteq> None \<longleftrightarrow> (\<exists>k. 1 \<le> k \<and> k \<le> (13 :: nat) \<and> f = 2 ^ k)"
proof -
  have "rtc_rate f \<noteq> None \<longleftrightarrow> f \<in> {2, 4, 8, 16, 32, 64, 128, 256, 512, 1024, 2048, 4096, 8192}"
    by (auto simp: rtc_rate_def Let_def)
  also have "{2, 4, 8, 16, 32, 64, 128, 256, 512, 1024, 2048, 4096, 8192} = (\<lambda>k. (2 :: int) ^ k) ` {1..13}"
    by (simp add: atLeastAtMost_insertL [symmetric] atLeastAtMostSuc_conv numeral_eq_Suc)
  finally show ?thesis by (auto simp: image_iff)
qed

lemma rtc_read_waits:
  assumes "\<And>h s'. h \<in> set hs \<Longrightarrow> h s' = None \<or> rtc_flag (the (h s')) = rtc_flag s'"
  shows "rtc_read hs fd buf n s = None"
proof -
  have "rtc_flag s = 0 \<Longrightarrow> rtc_wait hs s = None" for s
    using assms
  proof (induction hs arbitrary: s)
    case (Cons h hs)
    show ?case
    proof (cases "h s")
      case (Some s1)
      with Cons.prems(2) [of h s] Cons.prems(1) have "rtc_flag s1 = 0" by simp
      with Cons Some show ?thesis by simp
    qed (use Cons.prems(1) in simp)
  qed simp
  then show ?thesis by (simp add: rtc_read_def)
qed

lemma rtc_flag_handler [simp]: "rtc_flag (rtc_handler s) = 1"
  by (simp add: rtc_handler_def send_eoi_def outb_def)

lemma send_eoi_simps [simp]:
  "terminals (send_eoi n s) = terminals s" "process_num (send_eoi n s) = process_num s"
  "main_process (send_eoi n s) = main_process s" "pcbs (send_eoi n s) = pcbs s"
  "reg_ebp (send_eoi n s) = reg_ebp s" "reg_esp (send_eoi n s) = reg_esp s" "mem (send_eoi n s) = mem s"
  "active_terminal (send_eoi n s) = active_terminal s"
  by (simp_all add: send_eoi_def outb_def)

end
