(* ===== verification/Paging.thy ===== *)
theory Paging
  imports Kernel_State
begin

text \<open>
  Page tables of \<open>student-distrib/paging.c\<close> and the control-register macros of
  \<open>paging.h\<close>.  The tables are maps from index to entry.  \<open>translate\<close> is the
  two-level walk of the processor with 4 MB pages; the theorems state what the set-up maps,
  that \<open>map_page\<close> puts the user page of a process on that process's own frame, and that
  the contents of one process's page survive while another one is mapped.

  The kernel itself touches user memory only through the 4 MB page at 128 MB, so
  \<open>page_access\<close> (a reload of \<open>cr3\<close>) moves that page between \<open>mem\<close>
  and \<open>phys\<close> when its directory entry has changed.
\<close>

section \<open>The user page\<close>

definition UNIT_4_MB :: nat where "UNIT_4_MB = 0x400000"

definition USER_PAGE :: addr where "USER_PAGE = 0x8000000"

definition pde_base :: "u32 \<Rightarrow> addr" where
  "pde_base e = unat (e AND 0xFFC00000)"

definition store_page :: "u32 \<Rightarrow> mem \<Rightarrow> mem \<Rightarrow> mem" where
  "store_page e m p =
     (\<lambda>a. if bit e 0 \<and> pde_base e \<le> a \<and> a < pde_base e + UNIT_4_MB then m (USER_PAGE + (a - pde_base e)) else p a)"

definition load_page :: "u32 \<Rightarrow> mem \<Rightarrow> mem \<Rightarrow> mem" where
  "load_page e p m =
     (\<lambda>a. if bit e 0 \<and> USER_PAGE \<le> a \<and> a < USER_PAGE + UNIT_4_MB then p (pde_base e + (a - USER_PAGE)) else m a)"


section \<open>Definitions\<close>

definition page_access :: "kstate \<Rightarrow> kstate" where
  "page_access s =
     (let e = page_dir s 32; p = store_page (tlb_user s) (mem s) (phys s)
      in s\<lparr>cr3 := page_dir_at s, phys := p, mem := load_page e p (mem s), tlb_user := e\<rparr>)"

definition page_enable :: "kstate \<Rightarrow> kstate" where
  "page_enable s = s\<lparr>cr0 := cr0 s OR 0x80000001\<rparr>"

definition page_enable_size_extend :: "kstate \<Rightarrow> kstate" where
  "page_enable_size_extend s = s\<lparr>cr4 := cr4 s OR 0x10\<rparr>"

definition init_page_directory :: "kstate \<Rightarrow> kstate" where
  "init_page_directory s = s\<lparr>page_dir := (\<lambda>i. if i < 1024 then 0x2 else page_dir s i)\<rparr>"

definition init_page_table :: "kstate \<Rightarrow> kstate" where
  "init_page_table s =
     s\<lparr>page_table := (\<lambda>i. if i < 1024 then (of_nat i * 0x1000) OR 2 else page_table s i)\<rparr>"

definition init_page_map :: "kstate \<Rightarrow> kstate" where
  "init_page_map s =
     s\<lparr>page_dir := (page_dir s)(0 := page_table_at s OR 0x03, 1 := 0x400000 OR 0x083),
       page_table := (page_table s)(184 := page_table s 184 OR 1, 185 := page_table s 185 OR 1,
          186 := page_table s 186 OR 1, 187 := page_table s 187 OR 1)\<rparr>"

definition setup_paging :: "kstate \<Rightarrow> kstate" where
  "setup_paging s =
     page_enable (page_enable_size_extend (page_access
       (init_page_map (init_page_table (init_page_directory s)))))"

definition map_page :: "u32 \<Rightarrow> u32 \<Rightarrow> kstate \<Rightarrow> kstate" where
  "map_page physaddr virtualaddr s =
     (let pdindex = unat (virtualaddr div 0x400000)
      in page_access (s\<lparr>page_dir := (page_dir s)(pdindex := physaddr OR 0x87)\<rparr>))"

definition map_vid :: "u32 \<Rightarrow> kstate \<Rightarrow> kstate" where
  "map_vid physaddr s = page_access (s\<lparr>page_table := (page_table s)(0 := (0 OR physaddr) OR 0x07)\<rparr>)"

definition get_vidmap_page :: "int \<Rightarrow> kstate \<Rightarrow> u32 \<times> kstate" where
  "get_vidmap_page terminal s =
     (let s = s\<lparr>page_dir := (page_dir s)(34 := (0 OR page_table_at s) OR 0x07)\<rparr>;
          s = s\<lparr>page_table := (page_table s)(0 := (0 OR 0xB8000) OR 0x07)\<rparr>
      in (0x400000 * 34, page_access s))"

definition flush_tlb_helper :: "kstate \<Rightarrow> kstate" where
  "flush_tlb_helper s = page_access s"

text \<open>The expression \<open>(uint32_t*)UNIT_8_MB + pid * UNIT_4_MB\<close> of the callers:
  pointer arithmetic scales by four.\<close>

definition user_frame :: "int \<Rightarrow> u32" where
  "user_frame p = 0x800000 + 4 * word_of_int (p * 0x400000)"


section \<open>Address translation\<close>

definition translate :: "kstate \<Rightarrow> u32 \<Rightarrow> u32 option" where
  "translate s va =
     (let pde = page_dir s (unat (drop_bit 22 va))
      in if \<not> bit pde 0 then None
         else if bit pde 7 then Some ((pde AND 0xFFC00000) OR (va AND 0x3FFFFF))
         else if pde AND 0xFFFFF000 \<noteq> page_table_at s then None
         else (let pte = page_table s (unat (drop_bit 12 va AND 0x3FF))
               in if \<not> bit pte 0 then None
                  else Some ((pte AND 0xFFFFF000) OR (va AND 0xFFF))))"

lemma page_access_simps [simp]:
  "page_dir (page_access s) = page_dir s" "page_table (page_access s) = page_table s"
  "page_table_at (page_access s) = page_table_at s" "page_dir_at (page_access s) = page_dir_at s"
  "tlb_user (page_access s) = page_dir s 32"
  by (simp_all add: page_access_def Let_def)

lemma translate_cong:
  "page_dir s' = page_dir s \<Longrightarrow> page_table s' = page_table s \<Longrightarrow> page_table_at s' = page_table_at s \<Longrightarrow>
    translate s' = translate s"
  by (rule ext) (simp only: translate_def)

lemma translate_page_access [simp]: "translate (page_access s) = translate s"
  by (rule translate_cong) simp_all

lemma page_split: "push_bit n (drop_bit n w) OR (w AND mask n) = (w :: u32)"
  by (rule bit_word_eqI) (auto simp: bit_simps)

lemma masks: "(0xFFF :: u32) = mask 12" "(0x3FF :: u32) = mask 10" "(0x3FFFFF :: u32) = mask 22"
  "(0xFFFFF000 :: u32) = NOT (mask 12)" "(0xFFC00000 :: u32) = NOT (mask 22)"
  by (simp_all add: mask_numeral)

lemma unat_dir_index: "unat (drop_bit 22 (va :: u32)) = unat va div 0x400000"
  by (simp only: unat_drop_bit_eq) (simp add: drop_bit_eq_div)

text \<open>A 4 MB entry and a 4 KB entry translate as base and offset.\<close>

lemma translate_large:
  assumes "page_dir s (unat va div 0x400000) = e" and "bit e 0" "bit e 7"
  shows "translate s va = Some ((e AND NOT (mask 22)) OR (va AND mask 22))"
  using assms by (simp add: translate_def unat_dir_index masks del: bit_0)

lemma translate_absent:
  assumes "page_dir s (unat va div 0x400000) = e" and "\<not> bit e 0"
  shows "translate s va = None"
  using assms by (simp add: translate_def unat_dir_index del: bit_0)

lemma translate_small:
  assumes "page_dir s (unat va div 0x400000) = e" and "bit e 0" "\<not> bit e 7"
    and "e AND NOT (mask 12) = page_table_at s"
    and "page_table s (unat (drop_bit 12 va AND mask 10)) = p"
  shows "translate s va = (if bit p 0 then Some ((p AND NOT (mask 12)) OR (va AND mask 12)) else None)"
  using assms by (simp add: translate_def unat_dir_index masks Let_def del: bit_0)

lemma table_ptr:
  assumes "(pt :: u32) AND mask 12 = 0" and "v AND NOT (mask 12) = 0"
  shows "(pt OR v) AND NOT (mask 12) = pt" and "k < 12 \<Longrightarrow> bit (pt OR v) k = bit v k"
proof -
  have pt: "\<not> bit pt k" if "k < 12" for k
  proof -
    have "\<not> bit (pt AND mask 12) k" by (simp add: assms(1))
    with that show ?thesis by (auto simp: bit_simps dest: bit_imp_le_length)
  qed
  show "k < 12 \<Longrightarrow> bit (pt OR v) k = bit v k" using pt by (simp add: bit_simps)
  show "(pt OR v) AND NOT (mask 12) = pt"
    using assms(2) pt by (intro bit_word_eqI) (auto simp: bit_simps bit_eq_iff)
qed


section \<open>The initial map\<close>

lemma kernel_pde: "(0x400083 :: u32) AND NOT (mask 22) = push_bit 22 1"
  by (simp add: mask_numeral)

lemma take_bit_small: "unat (w :: u32) < 2 ^ n \<Longrightarrow> take_bit n w = w"
  by (simp add: word_unat_eq_iff unsigned_take_bit_eq take_bit_nat_eq_self_iff)

text \<open>A page table entry of the initial table: the identity, present or not.\<close>

lemma identity_entry:
  fixes i :: nat and f :: u32
  assumes "i < 1024" and "f AND NOT (mask 12) = 0"
  shows "(of_nat i * 0x1000 OR f) AND NOT (mask 12) = push_bit 12 (of_nat i)"
    and "bit (of_nat i * 0x1000 OR f) 0 = bit f 0"
proof -
  have p: "(of_nat i * 0x1000 :: u32) = push_bit 12 (of_nat i)" by (simp add: push_bit_eq_mult)
  have "push_bit 12 (of_nat i :: u32) AND mask 12 = 0"
    by (rule bit_word_eqI) (auto simp: bit_simps)
  from table_ptr [OF this assms(2)] show
    "(of_nat i * 0x1000 OR f) AND NOT (mask 12) = push_bit 12 (of_nat i)"
    "bit (of_nat i * 0x1000 OR f) 0 = bit f 0"
    unfolding p by simp_all
qed

lemma low_index:
  assumes "unat (va :: u32) < 0x400000"
  shows "drop_bit 12 va AND mask 10 = drop_bit 12 va" "unat (drop_bit 12 va) = unat va div 4096"
proof -
  show d: "unat (drop_bit 12 va) = unat va div 4096"
    by (simp only: unat_drop_bit_eq) (simp add: drop_bit_eq_div)
  with assms have "unat (drop_bit 12 va) < 2 ^ 10" by simp
  then have "take_bit 10 (drop_bit 12 va) = drop_bit 12 va"
    by (rule take_bit_small)
  then show "drop_bit 12 va AND mask 10 = drop_bit 12 va" by (simp add: take_bit_eq_mask)
qed

lemma setup_tables:
  "page_dir (setup_paging s) i =
     (if i = 0 then page_table_at s OR 3 else if i = 1 then 0x400083 else if i < 1024 then 2 else page_dir s i)"
  "i < 1024 \<Longrightarrow> page_table (setup_paging s) i =
     of_nat i * 0x1000 OR (if 184 \<le> i \<and> i \<le> 187 then 3 else 2)"
  "page_table_at (setup_paging s) = page_table_at s"
proof -
  have "184 \<le> i \<and> i \<le> 187 \<longleftrightarrow> i = 184 \<or> i = 185 \<or> i = 186 \<or> i = 187" by auto
  then show "i < 1024 \<Longrightarrow> page_table (setup_paging s) i =
     of_nat i * 0x1000 OR (if 184 \<le> i \<and> i \<le> 187 then 3 else 2)"
    by (auto simp: setup_paging_def page_enable_def page_enable_size_extend_def init_page_map_def
        init_page_table_def init_page_directory_def)
qed (simp_all add: setup_paging_def page_enable_def page_enable_size_extend_def init_page_map_def
      init_page_table_def init_page_directory_def)

lemma translate_setup:
  assumes al: "page_table_at s AND mask 12 = 0"
  shows "translate (setup_paging s) va =
    (if 0x400000 \<le> unat va \<and> unat va < 0x800000 \<or> 0xB8000 \<le> unat va \<and> unat va < 0xBC000
     then Some va else None)"
proof -
  let ?s = "setup_paging s" and ?d = "unat va div 0x400000"
  consider "?d = 0" | "?d = 1" | "?d \<ge> 2" by linarith
  then show ?thesis
  proof cases
    case 1
    then have lo: "unat va < 0x400000" by simp
    define i where "i = unat va div 4096"
    let ?f = "if 184 \<le> i \<and> i \<le> 187 then 3 else 2 :: u32"
    have i: "i < 1024" "of_nat i = drop_bit 12 va" "unat (drop_bit 12 va AND mask 10) = i"
      using lo low_index(1) [OF lo] by (simp add: i_def, simp_all add: i_def flip: low_index(2) [OF lo])
    have f: "?f AND NOT (mask 12) = 0" "bit ?f 0 \<longleftrightarrow> 184 \<le> i \<and> i \<le> 187"
      by (simp_all add: mask_numeral)
    have three: "(3 :: u32) AND NOT (mask 12) = 0" by (simp add: mask_numeral)
    have "translate ?s va = (if bit (of_nat i * 0x1000 OR ?f) 0
        then Some (((of_nat i * 0x1000 OR ?f) AND NOT (mask 12)) OR (va AND mask 12)) else None)"
    proof (rule translate_small)
      show "page_dir ?s ?d = page_table_at s OR 3" using 1 by (simp add: setup_tables)
      show "bit (page_table_at s OR 3) 0" "\<not> bit (page_table_at s OR 3) 7"
        using table_ptr(2) [OF al three, of 0] table_ptr(2) [OF al three, of 7] by simp_all
      show "(page_table_at s OR 3) AND NOT (mask 12) = page_table_at ?s"
        using table_ptr(1) [OF al three] by (simp add: setup_tables)
      show "page_table ?s (unat (drop_bit 12 va AND mask 10)) = of_nat i * 0x1000 OR ?f"
        unfolding i(3) using i(1) by (rule setup_tables)
    qed
    also have "\<dots> = (if 184 \<le> i \<and> i \<le> 187 then Some va else None)"
      unfolding identity_entry [OF i(1) f(1)] f(2) unfolding i(2) page_split ..
    also have "184 \<le> i \<and> i \<le> 187 \<longleftrightarrow> 0xB8000 \<le> unat va \<and> unat va < 0xBC000"
      unfolding i_def by auto
    finally show ?thesis using lo by simp
  next
    case 2
    then have hi: "0x400000 \<le> unat va" "unat va < 0x800000" by auto
    have "drop_bit 22 va = 1" using 2 unat_dir_index [of va] by (metis unat_1 word_unat_eq_iff)
    then have va: "push_bit 22 1 OR (va AND mask 22) = va" using page_split [of 22 va] by simp
    have "page_dir ?s ?d = 0x400083" using 2 by (simp add: setup_tables)
    from translate_large [OF this] va show ?thesis
      unfolding kernel_pde using hi by simp
  next
    case 3
    have "unat va < 2 ^ LENGTH(32)" by (rule unsigned_less)
    then have "?d < 1024" by (simp add: div_less_iff_less_mult)
    with 3 have "page_dir ?s ?d = 2" by (simp add: setup_tables)
    from translate_absent [OF this] 3 show ?thesis by auto
  qed
qed


section \<open>User pages\<close>

text \<open>Six processes have six different 4 MB frames, 16 MB apart from 8 MB on.\<close>

lemma unat_user_frame: "0 \<le> p \<Longrightarrow> p < 6 \<Longrightarrow> unat (user_frame p) = 0x800000 + 0x1000000 * nat p"
proof -
  assume p: "0 \<le> p" "p < 6"
  then have "user_frame p = of_nat (0x800000 + 0x1000000 * nat p)"
    by (simp add: user_frame_def)
  then show ?thesis using p by (simp only: unat_of_nat) simp
qed

lemma user_frames_disjoint:
  assumes "0 \<le> p" "p < 6" "0 \<le> q" "q < 6" "p \<noteq> q"
  shows "disjoint_rng (unat (user_frame p)) UNIT_4_MB (unat (user_frame q)) UNIT_4_MB"
  using assms by (auto simp: unat_user_frame disjoint_rng_def UNIT_4_MB_def)

lemma user_pde:
  assumes "0 \<le> p" "p < 6"
  shows "pde_base (user_frame p OR 0x87) = unat (user_frame p)" "bit (user_frame p OR 0x87) 0"
    "bit (user_frame p OR 0x87) 7" "(user_frame p OR 0x87) AND NOT (mask 22) = user_frame p"
proof -
  have f: "user_frame p = push_bit 22 (2 + 4 * word_of_int p)"
    by (simp add: user_frame_def push_bit_eq_mult algebra_simps)
  show e: "(user_frame p OR 0x87) AND NOT (mask 22) = user_frame p"
  proof -
    have "(0x87 :: u32) AND NOT (mask 22) = 0" by (simp add: mask_numeral)
    moreover have "user_frame p AND NOT (mask 22) = user_frame p"
      unfolding f by (rule bit_word_eqI) (auto simp: bit_simps)
    moreover have "(a OR b) AND c = (a AND c) OR (b AND c)" for a b c :: u32
      by (rule bit_word_eqI) (auto simp: bit_simps)
    ultimately show ?thesis by simp
  qed
  then show "pde_base (user_frame p OR 0x87) = unat (user_frame p)"
    by (simp add: pde_base_def masks)
  show "bit (user_frame p OR 0x87) 0" "bit (user_frame p OR 0x87) 7"
    by (simp_all add: bit_simps)
qed

lemma map_page_user:
  "page_dir (map_page f 0x8000000 s) = (page_dir s)(32 := f OR 0x87)"
  "page_table (map_page f 0x8000000 s) = page_table s"
  "page_table_at (map_page f 0x8000000 s) = page_table_at s"
  by (simp_all add: map_page_def Let_def)

lemma translate_map_page:
  assumes p: "0 \<le> p" "p < 6"
  shows "translate (map_page (user_frame p) 0x8000000 s) va =
    (if USER_PAGE \<le> unat va \<and> unat va < USER_PAGE + UNIT_4_MB
     then Some (user_frame p OR (va AND mask 22)) else translate s va)"
proof -
  have user: "USER_PAGE \<le> unat va \<and> unat va < USER_PAGE + UNIT_4_MB \<longleftrightarrow> unat va div 0x400000 = 32"
    by (auto simp: USER_PAGE_def UNIT_4_MB_def)
  show ?thesis
  proof (cases "unat va div 0x400000 = 32")
    case True
    then have "page_dir (map_page (user_frame p) 0x8000000 s) (unat va div 0x400000) = user_frame p OR 0x87"
      by (simp add: map_page_user)
    from translate_large [OF this] True user user_pde [OF p] show ?thesis by simp
  next
    case False
    then show ?thesis
      unfolding user by (simp add: translate_def map_page_user unat_dir_index Let_def)
  qed
qed

text \<open>The contents of a process's page, wherever it is: in the window when the process is
  mapped, in physical memory otherwise.\<close>

definition user_byte :: "kstate \<Rightarrow> int \<Rightarrow> nat \<Rightarrow> u8" where
  "user_byte s p o' =
     (if tlb_user s = user_frame p OR 0x87 then mem s (USER_PAGE + o') else phys s (unat (user_frame p) + o'))"

lemma user_pde_inj:
  assumes "0 \<le> p" "p < 6" "0 \<le> q" "q < 6"
  shows "user_frame p OR 0x87 = user_frame q OR 0x87 \<longleftrightarrow> p = q"
  using user_pde(1) [OF assms(1,2)] user_pde(1) [OF assms(3,4)] unat_user_frame assms
  by (auto dest: arg_cong [of _ _ pde_base])

lemma user_byte_map_page:
  assumes p: "0 \<le> p" "p < 6" and q: "0 \<le> q" "q < 6" and o': "o' < UNIT_4_MB"
    and cur: "tlb_user s = user_frame r OR 0x87" "0 \<le> r" "r < 6"
  shows "user_byte (map_page (user_frame p) 0x8000000 s) q o' = user_byte s q o'"
proof -
  let ?p = "store_page (user_frame r OR 0x87) (mem s) (phys s)"
  have tlb: "tlb_user (map_page (user_frame p) 0x8000000 s) = user_frame p OR 0x87"
    by (simp add: map_page_def Let_def)
  have ph: "phys (map_page (user_frame p) 0x8000000 s) = ?p"
    by (simp add: map_page_def Let_def page_access_def cur(1))
  have m: "mem (map_page (user_frame p) 0x8000000 s) (USER_PAGE + o') = ?p (unat (user_frame p) + o')"
    using o' user_pde [OF p]
    by (simp add: map_page_def Let_def page_access_def load_page_def cur(1) del: bit_0)
  have stored: "?p (unat (user_frame q) + o') = user_byte s q o'"
  proof (cases "q = r")
    case True
    then show ?thesis
      using o' user_pde [OF cur(2,3)] cur(1) by (simp add: store_page_def user_byte_def del: bit_0)
  next
    case False
    have "disjoint_rng (unat (user_frame r)) UNIT_4_MB (unat (user_frame q)) UNIT_4_MB"
      using user_frames_disjoint [OF cur(2,3) q] False by blast
    then have "\<not> (unat (user_frame r) \<le> unat (user_frame q) + o' \<and>
        unat (user_frame q) + o' < unat (user_frame r) + UNIT_4_MB)"
      using o' by (auto simp: disjoint_rng_def)
    then show ?thesis
      using False user_pde [OF cur(2,3)] user_pde_inj [OF cur(2,3) q] cur(1)
      by (auto simp: store_page_def user_byte_def)
  qed
  have "user_byte (map_page (user_frame p) 0x8000000 s) q o' = ?p (unat (user_frame q) + o')"
    using m ph user_pde_inj [OF p q] by (cases "p = q") (simp_all add: user_byte_def tlb)
  with stored show ?thesis by simp
qed

text \<open>The page that \<open>vidmap\<close> hands out.\<close>

lemma translate_vidmap:
  assumes al: "page_table_at s AND mask 12 = 0" and va: "unat va div 0x400000 = 34" "unat va mod 0x400000 < 4096"
  shows "translate (snd (get_vidmap_page t s)) va = Some (0xB8000 OR (va AND mask 12))"
proof -
  let ?s = "snd (get_vidmap_page t s)"
  have seven: "(7 :: u32) AND NOT (mask 12) = 0" by (simp add: mask_numeral)
  have "unat (drop_bit 12 va AND mask 10) = unat va div 4096 mod 1024"
    by (simp only: take_bit_eq_mask [symmetric] unsigned_take_bit_eq unat_drop_bit_eq)
       (simp add: take_bit_eq_mod drop_bit_eq_div)
  also have "\<dots> = unat va mod 0x400000 div 4096"
    using mod_mult2_eq [of "unat va" 4096 1024] by simp
  also have "\<dots> = 0" using va(2) by simp
  finally have ix: "unat (drop_bit 12 va AND mask 10) = 0" .
  have "translate ?s va = (if bit (0xB8007 :: u32) 0
      then Some ((0xB8007 AND NOT (mask 12)) OR (va AND mask 12)) else None)"
  proof (rule translate_small)
    show "page_dir ?s (unat va div 0x400000) = page_table_at s OR 7"
      using va(1) by (simp add: get_vidmap_page_def Let_def)
    show "bit (page_table_at s OR 7) 0" "\<not> bit (page_table_at s OR 7) 7"
      using table_ptr(2) [OF al seven, of 0] table_ptr(2) [OF al seven, of 7] by simp_all
    show "(page_table_at s OR 7) AND NOT (mask 12) = page_table_at ?s"
      using table_ptr(1) [OF al seven] by (simp add: get_vidmap_page_def Let_def)
    show "page_table ?s (unat (drop_bit 12 va AND mask 10)) = 0xB8007"
      unfolding ix by (simp add: get_vidmap_page_def Let_def)
  qed
  then show ?thesis by (simp add: mask_numeral)
qed

end
