(* ===== verification/Process.thy ===== *)
theory Process
  imports File_Ops Devices Paging
begin

text \<open>
  Processes of \<open>student-distrib/syscall.c\<close>: process control blocks, the process
  table \<open>process_num\<close>, \<open>system_execute\<close>, \<open>system_halt\<close> and
  \<open>switch_terminal\<close>.

  A control block is found by its address, 8 MB minus 32 KB per process.  The calls that leave
  the C code have an \<open>outcome\<close>: an ordinary return, an \<open>iret\<close> to a user
  entry point, or the jump of \<open>system_halt\<close> into the frame of the parent's
  \<open>system_execute\<close> with the base pointer, stack pointer and return value it loads.
  The automatic arrays of \<open>system_execute\<close> are at \<open>frame\<close>:
  \<open>parsed_command\<close> (128 bytes), \<open>buf\<close> and \<open>save_entry_point\<close>
  (4 bytes each); a command word or argument that does not fit its 128-byte array is
  \<open>None\<close>.
\<close>

datatype outcome = Ret int | Iret u32 | RetFromHalt u32 u32 u32

section \<open>Control blocks and the process table\<close>

definition return_pcb_parent :: "int \<Rightarrow> u32" where
  "return_pcb_parent num = 0x800000 - (1 + word_of_int num) * 0x8000"

definition return_pcb_addr :: "int \<Rightarrow> kstate \<Rightarrow> u32" where
  "return_pcb_addr num s = reg_esp s AND 0xFFFF8000"

fun find_down :: "int list \<Rightarrow> int \<Rightarrow> nat \<Rightarrow> int option" where
  "find_down pn terminal 0 = Some (-1)"
| "find_down pn terminal (Suc i) = do {
     v \<leftarrow> aget pn (int i);
     if v = terminal then Some (int i) else find_down pn terminal i }"

definition find_terminal_process :: "int \<Rightarrow> kstate \<Rightarrow> int option" where
  "find_terminal_process terminal s = find_down (process_num s) terminal 6"

definition find_parent_process :: "int \<Rightarrow> int \<Rightarrow> kstate \<Rightarrow> int option" where
  "find_parent_process idx terminal s =
     (if idx < MAX_TERMINALS then Some (-1) else find_down (process_num s) terminal (nat idx))"

definition fresh_fdt :: "fdt_t list \<Rightarrow> fdt_t list" where
  "fresh_fdt t =
     (let t = map (\<lambda>e. e\<lparr>flags := 0, inode_num := -1, file_pos := 0\<rparr>) t;
          t = t[1 := (t ! 1)\<lparr>f_ops := Some terminal_table, flags := 1\<rparr>]
      in t[0 := (t ! 0)\<lparr>f_ops := Some terminal_table, flags := 1\<rparr>])"

definition create_pcb :: "int \<Rightarrow> kstate \<Rightarrow> (u32 \<times> kstate) option" where
  "create_pcb process_idx s = do {
     let pcb = return_pcb_parent process_idx;
     let p = pcbs s pcb;
     parent_pid \<leftarrow> (if process_idx < MAX_TERMINALS then Some process_idx
                     else find_parent_process process_idx (active_terminal s) s);
     let p = p\<lparr>pid := process_idx, fdt := fresh_fdt (fdt p),
               parent_pcb := return_pcb_parent parent_pid, status_retval := 0\<rparr>;
     tm \<leftarrow> aget (terminals s) (active_terminal s);
     ts \<leftarrow> aset (terminals s) (active_terminal s) (tm\<lparr>curr_task := process_idx\<rparr>);
     Some (pcb, s\<lparr>pcbs := (pcbs s)(pcb := p), terminals := ts\<rparr>) }"

text \<open>The slot search of \<open>system_execute\<close>: the terminal's own slot among the first
  three, or a free one of the others; \<open>Some None\<close> when all are taken.\<close>

function find_slot :: "nat \<Rightarrow> kstate \<Rightarrow> int option option" where
  "find_slot process_idx s =
     (if process_idx < 8 then
        (if process_idx \<ge> 6 then Some None
         else do {
           v \<leftarrow> aget (process_num s) (int process_idx);
           if v = -1 then
             (if int process_idx < MAX_TERMINALS \<and> int process_idx = active_terminal s
              then Some (Some (int process_idx))
              else if MAX_TERMINALS \<le> int process_idx \<and> int process_idx < MAX_PROCESSES
              then Some (Some (int process_idx))
              else find_slot (process_idx + 1) s)
           else find_slot (process_idx + 1) s })
      else Some None)"
  by pat_completeness auto
termination by (relation "measure (\<lambda>(i, s). 8 - i)") auto

declare find_slot.simps [simp del]


section \<open>Parsing a command\<close>

partial_function (option) skip_spaces :: "mem \<Rightarrow> addr \<Rightarrow> nat \<Rightarrow> nat option" where
  "skip_spaces m command i = (if m (command + i) = 32 then skip_spaces m command (i + 1) else Some i)"

text \<open>The two copying loops; \<open>stop\<close> says whether a space ends the copy.\<close>

partial_function (option) copy_arg ::
  "bool \<Rightarrow> addr \<Rightarrow> addr \<Rightarrow> nat \<Rightarrow> nat \<Rightarrow> mem \<Rightarrow> (nat \<times> nat \<times> mem) option" where
  "copy_arg stop command dst i j m =
     (if m (command + i) \<noteq> 0 then
        (if stop \<and> m (command + i) = 32 then Some (i, j, m)
         else if j < 128 then copy_arg stop command dst (i + 1) (j + 1) (m(dst + j := m (command + i)))
         else None)
      else Some (i, j, m))"

definition parse_command :: "addr \<Rightarrow> addr \<Rightarrow> addr \<Rightarrow> mem \<Rightarrow> mem option" where
  "parse_command command parsed args m = do {
     i \<leftarrow> skip_spaces m command 0;
     (i, j, m) \<leftarrow> copy_arg True command parsed i 0 m;
     m \<leftarrow> (if j < 128 then Some (m(parsed + j := 0)) else None);
     let m = m(args := 0);
     i \<leftarrow> skip_spaces m command i;
     (i, j, m) \<leftarrow> copy_arg False command args i 0 m;
     (if j < 128 then Some (m(args + j := 0)) else None) }"


section \<open>Execute\<close>

definition is_executable :: "mem \<Rightarrow> addr \<Rightarrow> bool" where
  "is_executable m buf \<longleftrightarrow> m buf = 0x7f \<and> m (buf + 1) = 0x45 \<and> m (buf + 2) = 0x4c \<and> m (buf + 3) = 0x46"

definition entry_word :: "mem \<Rightarrow> addr \<Rightarrow> u32" where
  "entry_word m b = ucast (m b) OR push_bit 8 (ucast (m (b + 1))) OR push_bit 16 (ucast (m (b + 2)))
     OR push_bit 24 (ucast (m (b + 3)))"

text \<open>Loading: the entry point, the page of the process, the image.\<close>

definition load_program :: "int \<Rightarrow> int \<Rightarrow> kstate \<Rightarrow> u32 \<times> kstate" where
  "load_program inode process_idx s =
     (let save_entry_point = frame s + 132;
          (r, s) = read_data (of_int inode) 24 save_entry_point 4 s;
          entry_point = entry_word (mem s) save_entry_point;
          s = map_page (user_frame process_idx) 0x8000000 s;
          (r, s) = read_data (of_int inode) 0 0x08048000 0x800000 s
      in (entry_point, s))"

text \<open>The switch: control block, task-state segment, and the \<open>iret\<close> frame whose flags
  have the interrupt bit set.\<close>

definition enter_user :: "int \<Rightarrow> u32 \<Rightarrow> kstate \<Rightarrow> (outcome \<times> kstate) option" where
  "enter_user process_idx entry_point s = do {
     (pcb, s) \<leftarrow> create_pcb process_idx (cli s);
     let s = s\<lparr>main_process := process_idx\<rparr>;
     let s = s\<lparr>pcbs := (pcbs s)(pcb := (pcbs s pcb)\<lparr>ebp := reg_ebp s, esp := reg_esp s\<rparr>)\<rparr>;
     let s = s\<lparr>tss := (tss s)\<lparr>ts_ss0 := 0x18, ts_esp0 := 0x800000 - 0x8000 * word_of_int process_idx - 4\<rparr>\<rparr>;
     Some (Iret entry_point, (cli s)\<lparr>if_flag := True\<rparr>) }"

definition system_execute :: "addr \<Rightarrow> kstate \<Rightarrow> (outcome \<times> kstate) option" where
  "system_execute command s = do {
     let parsed_command = frame s;
     m \<leftarrow> parse_command command parsed_command (arg_buf s) (mem s);
     let s = s\<lparr>mem := m\<rparr>;
     (r, test) \<leftarrow> read_dentry_by_name parsed_command (Some \<lparr>filename = [], filetype = 0, d_inode_num = 0\<rparr>) s;
     if r = -1 then Some (Ret (-1), s)
     else do {
       let inode = d_inode_num (the test);
       let buf = frame s + 128;
       let (r, s) = read_data (of_int inode) 0 buf 4 s;
       if \<not> is_executable (mem s) buf then Some (Ret (-1), s)
       else do {
         slot \<leftarrow> find_slot 0 s;
         case slot of
           None \<Rightarrow> do {
             (n, s) \<leftarrow> my_puts (rodata s ''Max processes.\<newline>'') 15 s;
             Some (Ret 0, s) }
         | Some process_idx \<Rightarrow> do {
             pn \<leftarrow> aset (process_num s) process_idx (active_terminal s);
             let (entry_point, s) = load_program inode process_idx (s\<lparr>process_num := pn\<rparr>);
             enter_user process_idx entry_point s } } } }"


section \<open>Halt\<close>

definition halt_tasks :: "int \<Rightarrow> int \<Rightarrow> terminal_t list \<Rightarrow> terminal_t list" where
  "halt_tasks own parent ts = map (\<lambda>t. if curr_task t = own then t\<lparr>curr_task := parent\<rparr> else t) ts"

text \<open>The tail of \<open>system_halt\<close>, after the process has been removed.\<close>

definition resume_parent :: "u32 \<Rightarrow> u32 \<Rightarrow> u8 \<Rightarrow> kstate \<Rightarrow> outcome \<times> kstate" where
  "resume_parent own par status s =
     (let parent_pid = pid (pcbs s par);
          s = s\<lparr>main_process := parent_pid\<rparr>;
          s = map_page (user_frame parent_pid) 0x8000000 s;
          s = s\<lparr>tss := (tss s)\<lparr>ts_esp0 := 0x800000 - 0x8000 * word_of_int parent_pid - 4\<rparr>\<rparr>
      in (RetFromHalt (ebp (pcbs s own)) (esp (pcbs s own)) (ucast status), s))"

definition system_halt :: "u8 \<Rightarrow> kstate \<Rightarrow> (outcome \<times> kstate) option" where
  "system_halt status s = do {
     let s = cli s;
     let own = return_pcb_parent (main_process s);
     let par = parent_pcb (pcbs s own);
     let s = s\<lparr>pcbs := (pcbs s)(par := (pcbs s par)\<lparr>status_retval := ucast status\<rparr>)\<rparr>;
     let s = s\<lparr>terminals := halt_tasks (pid (pcbs s own)) (pid (pcbs s par)) (terminals s)\<rparr>;
     pn \<leftarrow> aset (process_num s) (pid (pcbs s own)) (-1);
     let s = s\<lparr>process_num := pn\<rparr>;
     if pid (pcbs s own) < MAX_TERMINALS then do {
       (r, s) \<leftarrow> system_execute (rodata s ''shell'') s;
       case r of
         Ret n \<Rightarrow> Some (resume_parent own par status s)
       | _ \<Rightarrow> Some (r, s) }
     else Some (resume_parent own par status s) }"


section \<open>Switching terminals\<close>

definition switch_restore :: "kstate \<Rightarrow> (outcome \<times> kstate) option" where
  "switch_restore s = do {
     t \<leftarrow> aget (terminals s) (active_terminal s);
     let s = y_set_screen (y_cursor t) (x_set_screen (x_cursor t) s);
     let s = s\<lparr>mem := snd (memcpy VIDEO (video_addr t) 4096 (mem s))\<rparr>;
     Some (Ret 0, sti s) }"

definition switch_terminal :: "int \<Rightarrow> kstate \<Rightarrow> (outcome \<times> kstate) option" where
  "switch_terminal terminal s =
     (if active_terminal s = terminal then Some (Ret 0, s)
      else do {
        let s = cli s;
        old \<leftarrow> aget (terminals s) (active_terminal s);
        let s = s\<lparr>mem := snd (memcpy (video_addr old) VIDEO 4096 (mem s))\<rparr>;
        t \<leftarrow> aget (terminals s) terminal;
        let s = (cycle_text_color (color t) s)\<lparr>active_terminal := to_u8 terminal\<rparr>;
        let next_process = curr_task t;
        if next_process = -1 then do {
          t \<leftarrow> aget (terminals s) (active_terminal s);
          let s = s\<lparr>mem := snd (memcpy VIDEO (video_addr t) 4096 (mem s))\<rparr>;
          let pcb = return_pcb_parent (main_process s);
          let s = s\<lparr>pcbs := (pcbs s)(pcb := (pcbs s pcb)\<lparr>pit_ebp := reg_ebp s, pit_esp := reg_esp s\<rparr>)\<rparr>;
          (r, s) \<leftarrow> system_execute (rodata s ''shell'') (sti s);
          case r of
            Ret n \<Rightarrow> switch_restore s
          | _ \<Rightarrow> Some (r, s) }
        else switch_restore s })"

text \<open>Scheduling helpers of \<open>syscall.c\<close>.\<close>

definition get_main_process :: "kstate \<Rightarrow> int" where
  "get_main_process s = main_process s"

definition set_main_process :: "int \<Rightarrow> kstate \<Rightarrow> kstate" where
  "set_main_process p s = s\<lparr>main_process := to_u8 p\<rparr>"

function check_from :: "int \<Rightarrow> int \<Rightarrow> kstate \<Rightarrow> int option" where
  "check_from i num s =
     (if i < 4 then do {
        t \<leftarrow> aget (terminals s) (c_mod (num + i) 3);
        if curr_task t \<noteq> main_process s \<and> curr_task t \<noteq> -1 then Some (curr_task t)
        else check_from (i + 1) (num + 1) s }
      else Some (-1))"
  by pat_completeness auto
termination by (relation "measure (\<lambda>(i, n, s). nat (4 - i))") auto

declare check_from.simps [simp del]

definition check_tasks :: "int \<Rightarrow> kstate \<Rightarrow> int option" where
  "check_tasks num s = do { t \<leftarrow> aget (process_num s) num; check_from 1 t s }"



section \<open>Choosing the next task\<close>

definition runnable :: "kstate \<Rightarrow> nat \<Rightarrow> bool" where
  "runnable s t \<longleftrightarrow> curr_task (terminals s ! t) \<noteq> main_process s \<and> curr_task (terminals s ! t) \<noteq> -1"

text \<open>Since \<open>num\<close> is incremented in the loop as well as \<open>i\<close>, the terminals are
  visited in the order next, own, next but one.\<close>

lemma check_tasks_order:
  assumes "length (terminals s) = 3" and "aget (process_num s) num = Some (int n)" and "n < 3"
  shows "check_tasks num s = Some (case List.find (runnable s) [(n + 1) mod 3, n, (n + 2) mod 3] of
    None \<Rightarrow> -1 | Some t \<Rightarrow> curr_task (terminals s ! t))"
proof -
  have "n = 0 \<or> n = 1 \<or> n = 2" using assms(3) by auto
  then have m: "c_mod (int n + 1) 3 = int ((n + 1) mod 3)" "c_mod (int n + 1 + 2) 3 = int n"
    "c_mod (int n + 1 + 1 + 3) 3 = int ((n + 2) mod 3)"
    by (auto simp: c_mod_def)
  have lt: "(n + 1) mod 3 < 3" "(n + 2) mod 3 < 3" by simp_all
  have "check_tasks num s = check_from 1 (int n) s" by (simp add: check_tasks_def assms(2))
  also have "\<dots> = Some (case List.find (runnable s) [(n + 1) mod 3, n, (n + 2) mod 3] of
      None \<Rightarrow> -1 | Some t \<Rightarrow> curr_task (terminals s ! t))"
    unfolding check_from.simps [of 1] check_from.simps [of "1 + 1"] check_from.simps [of "1 + 1 + 1"]
      check_from.simps [of "1 + 1 + 1 + 1"]
    using m assms(1,3) lt by (simp add: runnable_def)
  finally show ?thesis .
qed

lemma check_tasks_round_robin:
  assumes "length (terminals s) = 3" and "aget (process_num s) num = Some (int n)" and "n < 3"
    and "curr_task (terminals s ! n) = main_process s"
  shows "check_tasks num s = Some (
    if runnable s ((n + 1) mod 3) then curr_task (terminals s ! ((n + 1) mod 3))
    else if runnable s ((n + 2) mod 3) then curr_task (terminals s ! ((n + 2) mod 3)) else -1)"
  unfolding check_tasks_order [OF assms(1-3)] using assms(4) by (simp add: runnable_def)


section \<open>Slots\<close>

text \<open>The process table: owners are terminals, the first three slots belong to the terminal
  of the same number.\<close>

definition table_ok :: "kstate \<Rightarrow> bool" where
  "table_ok s \<longleftrightarrow> length (process_num s) = 6 \<and> 0 \<le> active_terminal s \<and> active_terminal s < 3 \<and>
     (\<forall>i<6. process_num s ! i \<in> {-1, 0, 1, 2}) \<and> (\<forall>i<3. process_num s ! i \<in> {-1, int i})"

definition slot_free :: "kstate \<Rightarrow> nat \<Rightarrow> bool" where
  "slot_free s i \<longleftrightarrow> process_num s ! i = -1 \<and> (int i = active_terminal s \<or> 3 \<le> i)"

lemma find_slot_step:
  assumes "length (process_num s) = 6" "active_terminal s < 3" "i < 6"
  shows "find_slot i s = (if slot_free s i then Some (Some (int i)) else find_slot (Suc i) s)"
proof -
  have a: "aget (process_num s) (int i) = Some (process_num s ! i)" using assms by simp
  show ?thesis
    unfolding find_slot.simps [of i] a using assms
    by (auto simp: slot_free_def MAX_TERMINALS_def MAX_PROCESSES_def)
qed

lemma find_slot_from:
  assumes "length (process_num s) = 6" "active_terminal s < 3" "i + k = 6"
  shows "find_slot i s = Some (map_option int (List.find (slot_free s) [i..<6]))"
  using assms(3)
proof (induction k arbitrary: i)
  case 0
  then show ?case by (subst find_slot.simps) simp
next
  case (Suc k)
  then show ?case
    using find_slot_step [OF assms(1,2), of i] by (simp add: upt_conv_Cons)
qed

lemma find_slot_eq:
  "table_ok s \<Longrightarrow> find_slot 0 s = Some (map_option int (List.find (slot_free s) [0..<6]))"
  using find_slot_from [of s 0 6] by (simp add: table_ok_def)

text \<open>A slot above the reserved ones is only given out while the terminal's own slot is
  taken, so the search for a parent finds one.\<close>

lemma find_down_eq:
  "k \<le> length pn \<Longrightarrow> find_down pn t k =
    Some (case List.find (\<lambda>i. pn ! i = t) (rev [0..<k]) of None \<Rightarrow> -1 | Some i \<Rightarrow> int i)"
  by (induction k) auto

lemma find_slot_parent:
  assumes ok: "table_ok s" and slot: "List.find (slot_free s) [0..<6] = Some i" and i: "3 \<le> i"
  shows "\<exists>q. find_parent_process (int i) (active_terminal s) s = Some (int q) \<and> q < i \<and>
    process_num s ! q = active_terminal s \<and> (\<forall>j. q < j \<and> j < i \<longrightarrow> process_num s ! j \<noteq> active_terminal s)"
proof -
  from slot have i6: "i < 6" and before: "\<And>j. j < i \<Longrightarrow> \<not> slot_free s j"
    by (auto simp: find_Some_iff)
  let ?a = "nat (active_terminal s)"
  have a: "?a < 3" "?a < i" using ok i by (auto simp: table_ok_def)
  with ok have "process_num s ! ?a \<in> {-1, int ?a}" unfolding table_ok_def by blast
  with before [OF a(2)] a ok have own: "process_num s ! ?a = active_terminal s"
    by (auto simp: slot_free_def table_ok_def)
  then have "?a \<in> set (rev [0..<i]) \<and> process_num s ! ?a = active_terminal s" using a by simp
  then obtain q where q: "List.find (\<lambda>k. process_num s ! k = active_terminal s) (rev [0..<i]) = Some q"
    by (cases "List.find (\<lambda>k. process_num s ! k = active_terminal s) (rev [0..<i])") (auto simp: find_None_iff)
  then obtain r where r: "r < i" "process_num s ! q = active_terminal s" "q = rev [0..<i] ! r"
    "\<And>j. j < r \<Longrightarrow> process_num s ! (rev [0..<i] ! j) \<noteq> active_terminal s"
    by (auto simp: find_Some_iff)
  have nth: "rev [0..<i] ! j = i - 1 - j" if "j < i" for j
    using that by (simp add: rev_nth)
  have "process_num s ! j \<noteq> active_terminal s" if "q < j" "j < i" for j
    using r(4) [of "i - 1 - j"] nth [of "i - 1 - j"] nth [OF r(1)] r(1,3) that by simp
  moreover have "q < i" using r(1,3) nth [OF r(1)] by simp
  moreover have "find_parent_process (int i) (active_terminal s) s = Some (int q)"
    using q i i6 ok by (simp add: find_parent_process_def find_down_eq table_ok_def MAX_TERMINALS_def)
  ultimately show ?thesis using r(2) by blast
qed

end
