(* ===== verification/Terminal_IO.thy ===== *)
theory Terminal_IO
  imports Console
begin

text \<open>
  The terminal driver's file operations, \<open>terminal_open\<close>, \<open>terminal_close\<close>,
  \<open>terminal_read\<close> and \<open>terminal_write\<close> of \<open>student-distrib/keyboard.c\<close>.
  A read polls the line buffer of the terminal on screen; the interrupts taken between two
  polls are an explicit list (the keyboard handler fills the line buffer, the timer may run
  another process).
\<close>

section \<open>Definitions\<close>

definition terminal_open :: "addr \<Rightarrow> kstate \<Rightarrow> (int \<times> kstate) option" where
  "terminal_open fname s =
     Some (0, s\<lparr>mem := (mem s)(keyboard_buf s := 0, last_buf s := 0, kb_save_buf s := 0,
        save_buf_1 s := 0, save_buf_2 s := 0, save_buf_3 s := 0)\<rparr>)"

definition terminal_close :: "int \<Rightarrow> kstate \<Rightarrow> (int \<times> kstate) option" where
  "terminal_close fd s = Some (-1, s)"

text \<open>The line buffer of a terminal number; other numbers take the \<open>default\<close>
  branch.\<close>

definition line_buf :: "int \<Rightarrow> kstate \<Rightarrow> addr option" where
  "line_buf t s = (if t = 0 then Some (save_buf_1 s) else if t = 1 then Some (save_buf_2 s)
                   else if t = 2 then Some (save_buf_3 s) else None)"

text \<open>One pass through the body of the loop: whether the flag was set, and the state.\<close>

definition read_poll :: "addr \<Rightarrow> kstate \<Rightarrow> (bool \<times> kstate) option" where
  "read_poll buf s =
     (case line_buf (return_active_terminal s) s of
        None \<Rightarrow> Some (False, s)
      | Some b \<Rightarrow> do {
          c \<leftarrow> check_read_process s;
          if c = -1 then Some (False, s)
          else if mem s b \<noteq> 0 then do {
            (d, m) \<leftarrow> my_strcpy buf b (mem s);
            Some (True, s\<lparr>mem := m(b := 0)\<rparr>) }
          else Some (False, s) })"

fun read_wait :: "(kstate \<Rightarrow> kstate option) list \<Rightarrow> addr \<Rightarrow> kstate \<Rightarrow> kstate option" where
  "read_wait [] buf s = do { (flag, s) \<leftarrow> read_poll buf s; if flag then Some s else None }"
| "read_wait (h # hs) buf s = do {
     (flag, s) \<leftarrow> read_poll buf s;
     if flag then Some s else do { s \<leftarrow> h s; read_wait hs buf s } }"

definition terminal_read ::
  "(kstate \<Rightarrow> kstate option) list \<Rightarrow> int \<Rightarrow> addr \<Rightarrow> int \<Rightarrow> kstate \<Rightarrow> (int \<times> kstate) option" where
  "terminal_read interrupts fd buf nbytes s =
     (if fd \<noteq> 0 then Some (-1, s)
      else do {
        s \<leftarrow> read_wait interrupts buf s;
        n \<leftarrow> my_strlen (mem s) buf;
        Some (int n, s) })"

definition terminal_write :: "int \<Rightarrow> addr \<Rightarrow> int \<Rightarrow> kstate \<Rightarrow> (int \<times> kstate) option" where
  "terminal_write fd buf nbytes s =
     (if fd \<noteq> 1 then Some (-1, s)
      else do {
        (r, s) \<leftarrow> my_puts buf nbytes (cli s);
        if r = nbytes then Some (nbytes, sti s) else Some (-1, sti s) })"


section \<open>Writing\<close>

lemma terms_ok_flag [simp]:
  "terms_ok (cli s) = terms_ok s" "terms_ok (sti s) = terms_ok s"
  "main_page (cli s) = main_page s" "main_page (sti s) = main_page s"
  "mem (cli s) = mem s" "mem (sti s) = mem s"
  by (simp_all add: cli_def sti_def terms_ok_def main_page_def pos_idx_def)

lemma terminal_write_eq:
  assumes "terms_ok s" and "disjoint_rng (main_page s) 4000 buf n"
  shows "\<exists>s'. terminal_write 1 buf (int n) s = Some (int n, sti s') \<and>
    emit my_putc (bytes_at (mem s) buf n) (cli s) = Some s' \<and> terms_ok s' \<and>
    same_outside (main_page s) (mem s) (mem s')"
  using my_puts_eq [of "cli s" buf n] assms by (auto simp: terminal_write_def)

lemma terminal_write_negative: "n < 0 \<Longrightarrow> terminal_write 1 buf n s = None"
  by (simp add: terminal_write_def my_puts_negative)


section \<open>Reading\<close>

text \<open>A complete line waits in the buffer of the terminal on screen, which the running
  process owns.\<close>

definition line_ready :: "kstate \<Rightarrow> addr \<Rightarrow> u8 list \<Rightarrow> bool" where
  "line_ready s b xs \<longleftrightarrow> terms_ok s \<and> pos_idx False s = pos_idx True s \<and>
     line_buf (active_terminal s) s = Some b \<and> dstr 10 (mem s) b xs \<and> mem s b \<noteq> 0"

lemma check_read_process_eq:
  "terms_ok s \<Longrightarrow> check_read_process s = Some (if pos_idx False s = pos_idx True s then 0 else -1)"
  by (auto simp: check_read_process_def main_terminal_def terms_ok_def pos_idx_def aget_def)

lemma read_poll_ready:
  assumes "line_ready s b xs" and "buf \<le> b \<or> b + length xs < buf"
  shows "read_poll buf s = Some (True, s\<lparr>mem := (blit (mem s) buf (xs @ [10]))(b := 0)\<rparr>)"
  using assms by (auto simp: read_poll_def line_ready_def return_active_terminal_def
      check_read_process_eq my_strcpy_blit)

lemma read_poll_other:
  assumes "terms_ok s" and "pos_idx False s \<noteq> pos_idx True s"
  shows "read_poll buf s = Some (False, s)"
  using assms by (auto simp: read_poll_def check_read_process_eq split: option.split)

lemma terminal_read_eq:
  assumes ready: "line_ready s b xs" and d: "disjoint_rng buf (length xs + 1) b (length xs + 1)"
  defines "s' \<equiv> s\<lparr>mem := (blit (mem s) buf (xs @ [10]))(b := 0)\<rparr>"
  shows "terminal_read hs 0 buf nbytes s = Some (int (length xs + 1), s')"
proof -
  have "buf \<le> b \<or> b + length xs < buf" using d by (auto simp: disjoint_rng_def)
  from read_poll_ready [OF ready this] have "read_wait hs buf s = Some s'"
    by (cases hs) (simp_all add: s'_def)
  moreover have "dstr 10 (mem s') buf xs"
  proof (rule dstr_cong)
    show "dstr 10 (blit (mem s) buf (xs @ [10])) buf xs"
      using ready by (intro dstr_blit) (simp add: line_ready_def dstr_def)
    show "mem s' (buf + i) = blit (mem s) buf (xs @ [10]) (buf + i)" if "i \<le> length xs" for i
      using d that by (auto simp: s'_def disjoint_rng_def)
  qed
  ultimately show ?thesis by (simp add: terminal_read_def my_strlen_dstr)
qed

text \<open>A process whose terminal is not on screen is not given a line: it waits, whatever is in
  the buffers, until an interrupt has changed the terminal or the process.\<close>

lemma read_wait_other:
  assumes "terms_ok s" and "pos_idx False s \<noteq> pos_idx True s"
  shows "read_wait (h # hs) buf s = do { s \<leftarrow> h s; read_wait hs buf s }" "read_wait [] buf s = None"
  using assms by (simp_all add: read_poll_other)

end
