(* ===== verification/Syscall.thy ===== *)
theory Syscall
  imports Process Terminal_IO
begin

text \<open>
  The remaining system calls of \<open>student-distrib/syscall.c\<close>: the jump through the
  operation tables that \<open>setup_exec\<close> fills, \<open>getargs\<close>, \<open>vidmap\<close>
  and \<open>fill_open_fd\<close>.  A descriptor whose table pointer was never set, and a store to
  entry -1 of the table, have no defined result (\<open>None\<close>).
\<close>

section \<open>Operation tables\<close>

type_synonym interrupts = "(kstate \<Rightarrow> kstate option) list"

fun table_read :: "f_ops_table \<Rightarrow> interrupts \<Rightarrow> int \<Rightarrow> addr \<Rightarrow> int \<Rightarrow> kstate \<Rightarrow> (int \<times> kstate) option" where
  "table_read file_table hs = file_read"
| "table_read dir_table hs = dir_read"
| "table_read rtc_table hs = rtc_read hs"
| "table_read terminal_table hs = terminal_read hs"

fun table_write :: "f_ops_table \<Rightarrow> int \<Rightarrow> addr \<Rightarrow> int \<Rightarrow> kstate \<Rightarrow> (int \<times> kstate) option" where
  "table_write file_table = file_write"
| "table_write dir_table = dir_write"
| "table_write rtc_table = rtc_write"
| "table_write terminal_table = terminal_write"

fun table_open :: "f_ops_table \<Rightarrow> addr \<Rightarrow> kstate \<Rightarrow> (int \<times> kstate) option" where
  "table_open file_table = file_open"
| "table_open dir_table = dir_open"
| "table_open rtc_table = rtc_open"
| "table_open terminal_table = terminal_open"

fun table_close :: "f_ops_table \<Rightarrow> int \<Rightarrow> kstate \<Rightarrow> (int \<times> kstate) option" where
  "table_close file_table = file_close"
| "table_close dir_table = dir_close"
| "table_close rtc_table = rtc_close"
| "table_close terminal_table = terminal_close"


section \<open>Calls\<close>

text \<open>\<open>set_filesys_pcb(return_pcb_parent(main_process))\<close>\<close>

definition use_main_pcb :: "kstate \<Rightarrow> kstate" where
  "use_main_pcb s = set_filesys_pcb (return_pcb_parent (main_process s)) s"

definition system_read :: "interrupts \<Rightarrow> int \<Rightarrow> addr \<Rightarrow> int \<Rightarrow> kstate \<Rightarrow> (int \<times> kstate) option" where
  "system_read hs fd buf nbytes s =
     (if buf = 0 \<or> fd < 0 \<or> fd > 7 then Some (-1, s)
      else do {
        let s = use_main_pcb s;
        e \<leftarrow> fd_get fd s;
        t \<leftarrow> f_ops e;
        table_read t hs fd buf nbytes s })"

definition system_write :: "int \<Rightarrow> addr \<Rightarrow> int \<Rightarrow> kstate \<Rightarrow> (int \<times> kstate) option" where
  "system_write fd buf nbytes s =
     (if buf = 0 \<or> fd < 0 \<or> fd > 7 then Some (-1, s)
      else do {
        let s = use_main_pcb s;
        e \<leftarrow> fd_get fd s;
        t \<leftarrow> f_ops e;
        table_write t fd buf nbytes s })"

definition system_close :: "int \<Rightarrow> kstate \<Rightarrow> (int \<times> kstate) option" where
  "system_close fd s =
     (if fd < 0 \<or> fd > 7 then Some (-1, s)
      else do {
        let s = use_main_pcb s;
        e \<leftarrow> fd_get fd s;
        t \<leftarrow> f_ops e;
        table_close t fd s })"

function fill_open_fd :: "nat \<Rightarrow> kstate \<Rightarrow> (int \<times> kstate) option" where
  "fill_open_fd fd s =
     (if fd < 8 then do {
        e \<leftarrow> fd_get (int fd) s;
        if flags e = 0 then do { s \<leftarrow> fd_set (int fd) (e\<lparr>flags := 1\<rparr>) s; Some (int fd, s) }
        else fill_open_fd (fd + 1) s }
      else Some (-1, s))"
  by pat_completeness auto
termination by (relation "measure (\<lambda>(fd, s). 8 - fd)") auto

declare fill_open_fd.simps [simp del]

definition set_f_ops :: "int \<Rightarrow> f_ops_table \<Rightarrow> kstate \<Rightarrow> kstate option" where
  "set_f_ops fd t s = do { e \<leftarrow> fd_get fd s; fd_set fd (e\<lparr>f_ops := Some t\<rparr>) s }"

definition system_open :: "addr \<Rightarrow> kstate \<Rightarrow> (int \<times> kstate) option" where
  "system_open fname s = do {
     let s = use_main_pcb s;
     ft \<leftarrow> get_filetype fname s;
     if ft = 0 then do {
       (fd, s) \<leftarrow> fill_open_fd 2 s;
       if fd = -1 then Some (-1, s)
       else do { s \<leftarrow> set_f_ops fd rtc_table s; Some (fd, s) } }
     else if ft = 1 then do {
       (fd, s) \<leftarrow> dir_open fname s;
       s \<leftarrow> set_f_ops fd dir_table s;
       Some (fd, s) }
     else if ft = 2 then do {
       (fd, s) \<leftarrow> file_open fname s;
       s \<leftarrow> set_f_ops fd file_table s;
       Some (fd, s) }
     else Some (-1, s) }"

definition system_getargs :: "addr \<Rightarrow> int \<Rightarrow> kstate \<Rightarrow> (int \<times> kstate) option" where
  "system_getargs buf nbytes s =
     (if buf = 0 \<or> nbytes = 0 then Some (-1, s)
      else do {
        n \<leftarrow> strlen (mem s) (arg_buf s);
        if n = 0 then Some (-1, s)
        else do {
          (d, m) \<leftarrow> strcpy buf (arg_buf s) (mem s);
          Some (0, s\<lparr>mem := m\<rparr>) } })"

definition system_vidmap :: "addr \<Rightarrow> kstate \<Rightarrow> (int \<times> kstate) option" where
  "system_vidmap screen_start s =
     (if screen_start = 0 \<or> screen_start = 0x400000 then Some (-1, s)
      else (let (page, s) = get_vidmap_page (active_terminal s) s
            in Some (0, s\<lparr>mem := st32 (mem s) screen_start page\<rparr>)))"


section \<open>Arguments and the video page\<close>

lemma system_getargs_eq:
  assumes "cstr (mem s) (arg_buf s) xs" and "xs \<noteq> []" and "buf \<noteq> 0" "nbytes \<noteq> 0"
    and "buf \<le> arg_buf s \<or> arg_buf s + length xs < buf"
  shows "system_getargs buf nbytes s = Some (0, s\<lparr>mem := blit (mem s) buf (xs @ [0])\<rparr>)"
  using assms by (simp add: system_getargs_def strlen_cstr strcpy_blit)

lemma system_getargs_none:
  "cstr (mem s) (arg_buf s) [] \<Longrightarrow> system_getargs buf nbytes s = Some (-1, s)"
  using strlen_cstr [of "mem s" "arg_buf s" "[]"] by (simp add: system_getargs_def)

text \<open>Every address but the two that are refused is written, in the kernel's pages too.\<close>

lemma system_vidmap_eq:
  assumes "screen_start \<noteq> 0" "screen_start \<noteq> 0x400000" and "page_table_at s AND mask 12 = 0"
  shows "\<exists>s'. system_vidmap screen_start s = Some (0, s') \<and>
    bytes_at (mem s') screen_start 4 = [0, 0, 0x80, 0x08] \<and>
    (\<forall>off < 4096. translate s' (0x8800000 + of_nat off) = Some (0xB8000 OR of_nat off))"
proof -
  let ?s1 = "snd (get_vidmap_page (active_terminal s) s)"
  let ?s' = "?s1\<lparr>mem := st32 (mem ?s1) screen_start 0x8800000\<rparr>"
  have "system_vidmap screen_start s = Some (0, ?s')"
    using assms(1,2) by (simp add: system_vidmap_def get_vidmap_page_def Let_def)
  moreover have "bytes_at (mem ?s') screen_start 4 = [0, 0, 0x80, 0x08]"
  proof -
    have v: "map (\<lambda>k. byte_of k 0x8800000) [0, 1, 2, 3] = [0, 0, 0x80, 0x08 :: u8]" by (simp add: byte_of_def)
    show ?thesis
      unfolding st32_blit v using bytes_at_blit_same [of "mem ?s1" screen_start "[0, 0, 0x80, 0x08]"]
      by (simp add: numeral_eq_Suc)
  qed
  moreover have "translate ?s' (0x8800000 + of_nat off) = Some (0xB8000 OR of_nat off)" if "off < 4096" for off
  proof -
    have u: "unat (0x8800000 + of_nat off :: u32) = 0x8800000 + off"
      using that by (simp add: unat_word_ariths unat_of_nat)
    have m: "(0x8800000 + off) mod 0x400000 = off"
      using that mod_mult_self1 [of off 34 "0x400000"] by (simp add: add.commute del: mod_mult_self1)
    have o': "unat (of_nat off :: u32) = off" using that by (simp add: unat_of_nat)
    have "unat (take_bit 12 (0x8800000 + of_nat off :: u32)) = take_bit 12 (off + 34816 * 4096)"
      by (simp only: unsigned_take_bit_eq u) (simp add: add.commute)
    also have "\<dots> = off"
      using that mod_mult_self1 [of off 34816 4096] by (simp add: take_bit_eq_mod del: mod_mult_self1)
    finally have "(0x8800000 + of_nat off) AND mask 12 = (of_nat off :: u32)"
      by (simp add: word_unat_eq_iff o' flip: take_bit_eq_mask)
    moreover have "translate ?s1 (0x8800000 + of_nat off) = Some (0xB8000 OR ((0x8800000 + of_nat off) AND mask 12))"
      by (rule translate_vidmap [OF assms(3)]) (use that m in \<open>simp_all add: u\<close>)
    moreover have "translate ?s' = translate ?s1" by (rule translate_cong) simp_all
    ultimately show ?thesis by simp
  qed
  ultimately show ?thesis by blast
qed


section \<open>Open, then read\<close>

lemma file_open_new:
  assumes fd: "fds_ok s" "first_free s = Some i"
    and name: "cstr (mem s) f xs" "length xs \<le> 32" "\<forall>x\<in>set xs. x < 128" "f \<noteq> 0"
    and look: "lookup_name xs s = Some d" "entry_filetype s d \<noteq> 1"
    and fresh: "\<forall>j<8. fd_used s (int j) \<longrightarrow> inode_num (fd_table s ! j) \<noteq> entry_inode s d"
  shows "file_open f s = Some (int i,
    put_fd (int i) ((fd_table s ! i)\<lparr>flags := 1, inode_num := entry_inode s d, file_pos := 0\<rparr>)
      (s\<lparr>cur_dentry := read_entry s d (cur_dentry s)\<rparr>))"
proof -
  let ?s1 = "s\<lparr>cur_dentry := read_entry s d (cur_dentry s)\<rparr>"
  have ld: "load_cur_dentry f s = Some (0, ?s1)"
    using read_dentry_by_name_lookup [OF name] look(1) by (simp add: load_cur_dentry_def)
  have ent: "filetype (cur_dentry ?s1) = entry_filetype s d" "d_inode_num (cur_dentry ?s1) = entry_inode s d"
    by (simp_all add: read_entry_def)
  have st: "same_table s ?s1" by (simp add: same_table_def)
  note u = same_table_used [OF st]
  have fd1: "fds_ok ?s1" using u fd(1) by simp
  have "already_open (entry_inode s d) 0 ?s1 = Some False"
    using already_open_from [OF fd1] fresh by (auto simp: u)
  moreover have "fill_slot (\<lambda>e. e\<lparr>inode_num := entry_inode s d, file_pos := 0\<rparr>) 0 ?s1 = Some (int i,
      put_fd (int i) ((fd_table s ! i)\<lparr>flags := 1, inode_num := entry_inode s d, file_pos := 0\<rparr>) ?s1)"
    using fill_slot_eq [OF fd1] fd(2) by (simp add: u)
  ultimately show ?thesis unfolding file_open_def using ld ent look(2) by simp
qed

lemma system_open_file:
  assumes fd: "fds_ok (use_main_pcb s)" "first_free (use_main_pcb s) = Some i"
    and name: "cstr (mem s) f xs" "xs \<noteq> []" "length xs \<le> 32" "\<forall>x\<in>set xs. x < 128" "f \<noteq> 0"
    and look: "lookup_name xs s = Some d" "entry_filetype s d = 2" "entry_inode s d = int ino"
    and fresh: "\<forall>j<8. fd_used (use_main_pcb s) (int j) \<longrightarrow> inode_num (fd_table (use_main_pcb s) ! j) \<noteq> int ino"
  shows "\<exists>s'. system_open f s = Some (int i, s') \<and> fd_on s' (int i) ino 0 \<and>
    f_ops (fd_table s' ! i) = Some file_table \<and> same_image s s' \<and> mem s' = mem s \<and>
    curr_pcb s' = return_pcb_parent (main_process s') \<and> main_process s' = main_process s \<and>
    (\<exists>e c. s' = put_fd (int i) e ((use_main_pcb s)\<lparr>cur_dentry := c\<rparr>))"
proof -
  let ?s0 = "use_main_pcb s"
  have f0: "mem ?s0 = mem s" "boot_block ?s0 = boot_block s" "FS_START_ADDR ?s0 = FS_START_ADDR s"
    "curr_pcb ?s0 = return_pcb_parent (main_process s)" "main_process ?s0 = main_process s"
    by (simp_all add: use_main_pcb_def set_filesys_pcb_def)
  have img: "entry_filetype ?s0 k = entry_filetype s k" "entry_inode ?s0 k = entry_inode s k"
    "lookup_name ys ?s0 = lookup_name ys s" for k ys
    by (simp_all add: entry_filetype_def entry_inode_def lookup_name_def entry_name_def direntry_def f0)
  have i: "i < 8" using first_free_Some [OF fd(2)] by simp
  define s1 where "s1 = ?s0\<lparr>cur_dentry := read_entry ?s0 d (cur_dentry ?s0)\<rparr>"
  define e where "e = (fd_table ?s0 ! i)\<lparr>flags := 1, inode_num := int ino, file_pos := 0\<rparr>"
  have gf: "get_filetype f ?s0 = Some 2"
    using get_filetype_lookup [of ?s0 f xs] name look by (simp add: f0 img)
  have "entry_filetype ?s0 d \<noteq> 1" "cstr (mem ?s0) f xs" using look name(1) by (simp_all add: img f0)
  then have fo: "file_open f ?s0 = Some (int i, put_fd (int i) e s1)"
    using file_open_new [OF fd _ name(3-5)] look fresh by (simp add: img s1_def e_def)
  have fd1: "fds_ok s1" using fd(1) by (simp add: s1_def fds_ok_def)
  have cp: "curr_pcb s1 = curr_pcb ?s0" "fd_table s1 = fd_table ?s0" by (simp_all add: s1_def)
  let ?s' = "put_fd (int i) (e\<lparr>f_ops := Some file_table\<rparr>) s1"
  have "set_f_ops (int i) file_table (put_fd (int i) e s1) = Some ?s'"
    using fd1 i fd_table_put_nat [OF fd1 i] by (simp add: set_f_ops_def fd_get_ok fd_set_ok)
  then have "system_open f s = Some (int i, ?s')"
    using gf fo by (simp add: system_open_def)
  moreover have "fd_on ?s' (int i) ino 0" "f_ops (fd_table ?s' ! i) = Some file_table"
    using fd1 i fd_table_put_nat [OF fd1 i] by (simp_all add: fd_on_def fd_used_put e_def)
  moreover have "mem ?s' = mem s" "curr_pcb ?s' = return_pcb_parent (main_process s)" "main_process ?s' = main_process s"
    "boot_block ?s' = boot_block s" "FS_START_ADDR ?s' = FS_START_ADDR s"
    by (simp_all add: s1_def f0) (simp add: put_fd_def f0)
  moreover have "\<exists>e c. ?s' = put_fd (int i) e (?s0\<lparr>cur_dentry := c\<rparr>)" unfolding s1_def by blast
  ultimately show ?thesis by (intro exI [of _ ?s']) (simp add: same_image_def)
qed

lemma system_open_then_read:
  assumes fs: "fs_ok s" "inode_ok s ino"
    and fd: "fds_ok (use_main_pcb s)" "first_free (use_main_pcb s) = Some i"
    and name: "cstr (mem s) f xs" "xs \<noteq> []" "length xs \<le> 32" "\<forall>x\<in>set xs. x < 128" "f \<noteq> 0"
    and look: "lookup_name xs s = Some d" "entry_filetype s d = 2" "entry_inode s d = int ino"
    and fresh: "\<forall>j<8. fd_used (use_main_pcb s) (int j) \<longrightarrow> inode_num (fd_table (use_main_pcb s) ! j) \<noteq> int ino"
    and buf: "buf \<noteq> 0" "n < 2 ^ 31" "disjoint_rng buf n (boot_block s) (fs_size s)"
  defines "k \<equiv> min n (file_length s ino)"
  shows "\<exists>s1 s2. system_open f s = Some (int i, s1) \<and> system_read hs (int i) buf (int n) s1 = Some (int k, s2) \<and>
    mem s2 = blit (mem s) buf (file_data s ino 0 k)"
proof -
  from system_open_file [OF fd name look fresh] obtain s1 where
    s1: "system_open f s = Some (int i, s1)" "fd_on s1 (int i) ino 0" "f_ops (fd_table s1 ! i) = Some file_table"
      "same_image s s1" "mem s1 = mem s" "curr_pcb s1 = return_pcb_parent (main_process s1)" by blast
  have i: "i < 8" using first_free_Some [OF fd(2)] by simp
  have pcb: "use_main_pcb s1 = s1" using s1(6) by (simp add: use_main_pcb_def set_filesys_pcb_def)
  note c = same_image_counts [OF s1(4)] and f = same_image_inode [OF s1(4) fs]
  have "min n (file_length s1 ino - 0) = k" by (simp add: k_def f)
  moreover have "disjoint_rng buf k (boot_block s1) (fs_size s1)"
    using buf(3) c by (auto simp: k_def disjoint_rng_def)
  moreover have "fs_ok s1" "inode_ok s1 ino" using c(5) fs f(3) by simp_all
  ultimately have "\<exists>e. file_read (int i) buf (int n) s1 =
      Some (int k, put_fd (int i) e (s1\<lparr>mem := blit (mem s1) buf (file_data s1 ino 0 k)\<rparr>))"
    using file_read_eq [of s1 ino "int i" 0 buf n] s1(2) buf(2) by auto
  moreover have "file_data s1 ino 0 k = file_data s ino 0 k"
    by (rule same_image_data [OF s1(4) fs]) (simp add: k_def)
  moreover have "fds_ok s1" using s1(2) by (simp add: fd_on_def)
  ultimately show ?thesis
    using s1(1,3,5) i buf(1) by (auto simp: system_read_def pcb fd_get_ok)
qed

text \<open>When \<open>file_open\<close> or \<open>dir_open\<close> fails (the table is full, or the file is open already)
  the jump table is stored at index \<open>-1\<close>.\<close>

lemma set_f_ops_negative: "set_f_ops (-1) t s = None"
  by (simp add: set_f_ops_def fd_get_def aget_def)

lemma system_open_failed:
  assumes "get_filetype f (use_main_pcb s) = Some 2" and "file_open f (use_main_pcb s) = Some (-1, s')"
  shows "system_open f s = None"
  using assms by (simp add: system_open_def set_f_ops_negative)

end
