(* ===== verification/Keyboard.thy ===== *)
theory Keyboard
  imports Syscall
begin

text \<open>
  The keyboard driver of \<open>student-distrib/keyboard.c\<close>: decoding of scan codes
  (\<open>getChar\<close>) and the interrupt handler that edits the line of the terminal on screen
  and hands it over on Enter.  A handler that halts the process or starts a shell does not
  return; \<open>key_result\<close> records where control went.  The driver's own copies of
  \<open>terminals\<close> and \<open>active_terminal\<close> are \<open>kb_terminals\<close> and
  \<open>kb_active_terminal\<close>.
\<close>

section \<open>Definitions\<close>

datatype key_result = Key u8 | Gone outcome

definition scancode_tail :: "u8 list" where
  "scancode_tail = str_bytes ''*'' @ [0] @ str_bytes '' '' @ [0] @ replicate 12 0 @
     str_bytes ''789-456+1230.'' @ [0, 0]"

definition scancode_lower :: "u8 list" where
  "scancode_lower = [0, 0] @ str_bytes ''1234567890-='' @ [0, 0] @ str_bytes ''qwertyuiop[]'' @ [10, 0] @
     str_bytes ''asdfghjkl;'' @ [39, 96, 0, 92] @ str_bytes ''zxcvbnm,./'' @ [0] @ scancode_tail"

definition scancode_upper :: "u8 list" where
  "scancode_upper = [0, 0] @ str_bytes ''!@#$%^&*()_+'' @ [0, 0] @ str_bytes ''QWERTYUIOP{}'' @ [10, 0] @
     str_bytes ''ASDFGHJKL:'' @ [34, 126, 0, 124] @ str_bytes ''ZXCVBNM<>?'' @ [0] @ scancode_tail"

definition scancode :: "u8 list" where
  "scancode = scancode_lower @ scancode_upper"

definition DONT_PRINT :: u8 where "DONT_PRINT = 0xFF"

definition getScancode :: "kstate \<Rightarrow> u8" where
  "getScancode s = ucast (inb 0x60 s)"

definition pressed :: "nat \<Rightarrow> kstate \<Rightarrow> bool option" where
  "pressed k s = do { v \<leftarrow> aget (pressed_flags s) (int k); Some (v \<noteq> 0) }"

definition set_pressed :: "u8 \<Rightarrow> u8 \<Rightarrow> kstate \<Rightarrow> kstate option" where
  "set_pressed c v s = do { pf \<leftarrow> aset (pressed_flags s) (uint c) v; Some (s\<lparr>pressed_flags := pf\<rparr>) }"

text \<open>The driver's line buffer, \<open>terminals[active_terminal].save_buf\<close>.\<close>

definition edit_buf :: "kstate \<Rightarrow> addr option" where
  "edit_buf s = do { t \<leftarrow> aget (kb_terminals s) (kb_active_terminal s); Some (save_buf t) }"

text \<open>Ctrl-L, Ctrl-C and Ctrl-T; \<open>None\<close> inside means that no combination applies.\<close>

definition ctl_key :: "u8 \<Rightarrow> kstate \<Rightarrow> (key_result option \<times> kstate) option" where
  "ctl_key c s = do {
     ctl \<leftarrow> pressed 0x1D s;
     if ctl \<and> c = 0x26 then do {
       b \<leftarrow> edit_buf s;
       (n, s) \<leftarrow> terminal_write 1 b (keyboard_buf_idx s) (my_clear s);
       Some (Some (Key DONT_PRINT), s) }
     else if ctl \<and> c = 0x2E then do {
       (n, s) \<leftarrow> printf (rodata s ''\<newline>Keyboard interrupt!\<newline>'') [] s;
       b \<leftarrow> edit_buf s;
       let s = s\<lparr>mem := (mem s)(nat (int b + keyboard_buf_idx s) := 10)\<rparr>;
       (r, s) \<leftarrow> system_halt 255 (send_eoi 1 s);
       Some (Some (Gone r), s) }
     else if ctl \<and> c = 0x14 then Some (Some (Key DONT_PRINT), s)
     else Some (None, s) }"

text \<open>Shift and caps lock select the second half of the table.\<close>

definition shift_code :: "u8 \<Rightarrow> kstate \<Rightarrow> u8 option" where
  "shift_code c s = do {
     l \<leftarrow> pressed 0x2A s;
     r \<leftarrow> pressed 0x36 s;
     Some (if l \<or> r then (if caps_lock_check s \<noteq> 1 then c + 86 else c)
           else if caps_lock_check s = 1 then c + 86 else c) }"

text \<open>Backspace, completion and the table, from the comment \<open>if backspace\<close> on.\<close>

definition plain_key :: "u8 \<Rightarrow> kstate \<Rightarrow> (key_result \<times> kstate) option" where
  "plain_key c s =
     (if c = 0x0E \<and> keyboard_buf_idx s > 0 then do {
        s \<leftarrow> backspace s;
        Some (Key DONT_PRINT, s\<lparr>keyboard_buf_idx := keyboard_buf_idx s - 1, num_chars := num_chars s - 1\<rparr>) }
      else do {
        c \<leftarrow> shift_code c s;
        s \<leftarrow> (if c = 0x0F then do {
                b \<leftarrow> edit_buf s;
                let (idx, s) = fs_search b (nat (keyboard_buf_idx s)) s;
                Some (s\<lparr>keyboard_buf_idx := int idx\<rparr>) }
              else Some s);
        ret \<leftarrow> aget scancode (uint c);
        Some (Key (if ret = 0 then DONT_PRINT else ret), s) })"

definition getChar :: "kstate \<Rightarrow> (key_result \<times> kstate) option" where
  "getChar s =
     (let c = getScancode s
      in if c \<le> 0x58 then do {
           s \<leftarrow> set_pressed c 1 s;
           if c = 0x3A then Some (Key DONT_PRINT, s\<lparr>caps_lock_check := caps_lock_check s * (-1)\<rparr>)
           else do {
             (k, s) \<leftarrow> ctl_key c s;
             case k of
               Some k \<Rightarrow> Some (k, s)
             | None \<Rightarrow> do {
                 alt \<leftarrow> pressed 0x38 s;
                 if alt \<and> c \<ge> 0x3B \<and> c < 0x3B + 3 then do {
                   (r, s) \<leftarrow> switch_terminal (uint (c - 0x3B)) (send_eoi 1 s);
                   case r of
                     Ret n \<Rightarrow> Some (Key DONT_PRINT, s)
                   | _ \<Rightarrow> Some (Gone r, s) }
                 else if c = 0x4B \<or> c = 0x4D \<or> c = 0x48 \<or> c = 0x50 then Some (Key DONT_PRINT, s)
                 else plain_key c s } } }
         else if c \<le> 0xD8 then do {
           s \<leftarrow> set_pressed (c AND 0x7F) 0 s;
           Some (Key DONT_PRINT, s) }
         else Some (Key DONT_PRINT, s))"

text \<open>The end of the handler and the delivery of a finished line.\<close>

definition save_idx_eoi :: "kstate \<Rightarrow> kstate option" where
  "save_idx_eoi s = do {
     t \<leftarrow> aget (kb_terminals s) (kb_active_terminal s);
     ts \<leftarrow> aset (kb_terminals s) (kb_active_terminal s) (t\<lparr>save_idx := keyboard_buf_idx s\<rparr>);
     Some (send_eoi 1 (s\<lparr>kb_terminals := ts\<rparr>)) }"

definition deliver_line :: "addr \<Rightarrow> kstate \<Rightarrow> kstate option" where
  "deliver_line b s = do {
     s \<leftarrow> (case line_buf (kb_active_terminal s) s of
             Some d \<Rightarrow> do { (x, m) \<leftarrow> my_strcpy d b (mem s); Some (s\<lparr>mem := m\<rparr>) }
           | None \<Rightarrow> Some s);
     (x, m) \<leftarrow> my_strcpy (last_buf s) b (mem s);
     Some (s\<lparr>mem := m(b := 0), last_idx := keyboard_buf_idx s, keyboard_buf_idx := 0, num_chars := 0\<rparr>) }"

definition store_key :: "u8 \<Rightarrow> kstate \<Rightarrow> kstate option" where
  "store_key test s = do {
     b \<leftarrow> edit_buf s;
     let s = s\<lparr>mem := (mem s)(nat (int b + keyboard_buf_idx s) := test)\<rparr>;
     if test \<noteq> 0x0A then
       (let s = s\<lparr>keyboard_buf_idx := keyboard_buf_idx s + 1\<rparr>
        in Some (if keyboard_buf_idx s > num_chars s then s\<lparr>num_chars := keyboard_buf_idx s\<rparr> else s))
     else deliver_line b s }"

definition keyboard_handler :: "kstate \<Rightarrow> (outcome \<times> kstate) option" where
  "keyboard_handler s = do {
     let s = s\<lparr>kb_active_terminal := return_active_terminal s\<rparr>;
     t \<leftarrow> aget (kb_terminals s) (kb_active_terminal s);
     (k, s) \<leftarrow> getChar (s\<lparr>keyboard_buf_idx := save_idx t\<rparr>);
     case k of
       Gone r \<Rightarrow> Some (r, s)
     | Key test \<Rightarrow>
         if test \<noteq> DONT_PRINT then
           (if keyboard_buf_idx s = 127 \<and> test \<noteq> 0x0A then do {
              b \<leftarrow> edit_buf s;
              let s = s\<lparr>mem := (mem s)(nat (int b + keyboard_buf_idx s) := 10)\<rparr>;
              Some (Ret 0, send_eoi 1 s) }
            else do {
              s \<leftarrow> store_key test s;
              s \<leftarrow> key_putc test s;
              s \<leftarrow> save_idx_eoi s;
              Some (Ret 0, s) })
         else do { s \<leftarrow> save_idx_eoi s; Some (Ret 0, s) } }"

lemma length_scancode [simp]: "length scancode_lower = 86" "length scancode_upper = 86" "length scancode = 172"
  by (simp_all add: scancode_def scancode_lower_def scancode_upper_def scancode_tail_def str_bytes_def)

end
