(* ===== verification/Execute.thy ===== *)
theory Execute
  imports Process
begin

text \<open>
  What \<open>system_execute\<close> and \<open>system_halt\<close> do as a whole.  Parsing splits the
  command into its first word and the rest after the following spaces.  A successful execute
  takes the lowest slot the terminal may use, maps the slot's own page, loads the program
  there, and enters it at the address stored in its header; halting the process frees the slot
  and resumes the parent in the frame that execute saved.
\<close>

section \<open>Parsing\<close>

definition cmd_word :: "u8 list \<Rightarrow> u8 list" where
  "cmd_word cs = takeWhile (\<lambda>c. c \<noteq> 32) (dropWhile (\<lambda>c. c = 32) cs)"

definition cmd_args :: "u8 list \<Rightarrow> u8 list" where
  "cmd_args cs = dropWhile (\<lambda>c. c = 32) (dropWhile (\<lambda>c. c \<noteq> 32) (dropWhile (\<lambda>c. c = 32) cs))"

lemma dstr_drop: "dstr t m s xs \<Longrightarrow> k \<le> length xs \<Longrightarrow> dstr t m (s + k) (drop k xs)"
proof (induction k arbitrary: s xs)
  case (Suc k)
  then obtain x ys where xs: "xs = x # ys" by (cases xs) auto
  with Suc.prems have "dstr t m (Suc s) ys" by (simp add: dstr_Cons)
  with Suc.IH [of "Suc s" ys] Suc.prems xs show ?case by simp
qed simp

lemma dropWhile_drop: "dropWhile P xs = drop (length (takeWhile P xs)) xs"
  by (induction xs) simp_all

lemma skip_spaces_eq:
  "cstr m (command + i) cs \<Longrightarrow> skip_spaces m command i = Some (i + length (takeWhile (\<lambda>c. c = 32) cs))"
proof (induction cs arbitrary: i)
  case Nil
  then show ?case by (subst skip_spaces.simps) simp
next
  case (Cons c cs)
  then have c: "m (command + i) = c" and tl: "cstr m (command + Suc i) cs" by (auto simp: dstr_Cons)
  show ?case using Cons.IH [OF tl] c by (subst skip_spaces.simps) simp
qed

definition arg_part :: "bool \<Rightarrow> u8 list \<Rightarrow> u8 list" where
  "arg_part stop cs = (if stop then takeWhile (\<lambda>c. c \<noteq> 32) cs else cs)"

lemma copy_arg_eq:
  assumes "cstr m (command + i) cs" and "j + length (arg_part stop cs) \<le> 128"
    and "disjoint_rng dst 128 (command + i) (length cs + 1)"
  shows "copy_arg stop command dst i j m =
    Some (i + length (arg_part stop cs), j + length (arg_part stop cs), blit m (dst + j) (arg_part stop cs))"
  using assms
proof (induction cs arbitrary: i j m)
  case Nil
  then show ?case by (subst copy_arg.simps) (simp add: arg_part_def)
next
  case (Cons c cs)
  then have c: "m (command + i) = c" "c \<noteq> 0" and tl: "cstr m (command + Suc i) cs" by (auto simp: dstr_Cons)
  show ?case
  proof (cases "stop \<and> c = 32")
    case True
    with c show ?thesis by (subst copy_arg.simps) (simp add: arg_part_def)
  next
    case False
    then have part: "arg_part stop (c # cs) = c # arg_part stop cs" by (simp add: arg_part_def)
    with Cons.prems have j: "j < 128" "Suc j + length (arg_part stop cs) \<le> 128" by simp_all
    have d: "disjoint_rng dst 128 (command + Suc i) (length cs + 1)"
      using Cons.prems(3) by (auto simp: disjoint_rng_def)
    let ?m = "m(dst + j := c)"
    have "cstr ?m (command + Suc i) cs"
      by (rule dstr_cong [OF tl]) (use d j in \<open>auto simp: disjoint_rng_def\<close>)
    from Cons.IH [OF this j(2) d] c False j show ?thesis
      by (subst copy_arg.simps) (simp add: part blit_Cons del: fun_upd_apply)
  qed
qed

lemma cstr_blit_other:
  assumes "cstr m a xs" and "disjoint_rng d (length ys) a (length xs + 1)"
  shows "cstr (blit m d ys) a xs"
  by (rule dstr_cong [OF assms(1)]) (use assms(2) in \<open>auto simp: disjoint_rng_def blit_def\<close>)

lemma parse_command_eq:
  assumes cs: "cstr m command cs" and len: "length (cmd_word cs) < 128" "length (cmd_args cs) < 128"
    and d: "disjoint_rng parsed 128 command (length cs + 1)" "disjoint_rng args 128 command (length cs + 1)"
  shows "parse_command command parsed args m =
    Some (blit (blit m parsed (cmd_word cs @ [0])) args (cmd_args cs @ [0]))"
proof -
  let ?i = "length (takeWhile (\<lambda>c. c = 32) cs)"
  let ?cs1 = "drop ?i cs"
  let ?w = "cmd_word cs" and ?a = "cmd_args cs"
  have w: "?w = arg_part True ?cs1" by (simp add: cmd_word_def arg_part_def dropWhile_drop)
  have i: "?i \<le> length cs" by (rule length_takeWhile_le)
  have cs1: "cstr m (command + ?i) ?cs1" using dstr_drop [OF cs i] .
  have d1: "disjoint_rng parsed 128 (command + ?i) (length ?cs1 + 1)"
    using d(1) i by (auto simp: disjoint_rng_def)
  have s1: "copy_arg True command parsed ?i 0 m = Some (?i + length ?w, length ?w, blit m parsed ?w)"
    using copy_arg_eq [OF cs1 _ d1, of 0 True] len(1) by (simp add: w)
  let ?m1 = "blit m parsed (?w @ [0])"
  let ?m2 = "?m1(args := 0)"
  let ?cs2 = "drop (length ?w) ?cs1"
  have wl: "length ?w \<le> length ?cs1" unfolding w arg_part_def by (simp only: if_True length_takeWhile_le)
  have cs2: "cstr ?m2 (command + (?i + length ?w)) ?cs2"
  proof -
    have "cstr m (command + ?i + length ?w) ?cs2" using dstr_drop [OF cs1 wl] .
    then have "cstr ?m1 (command + ?i + length ?w) ?cs2"
      by (rule cstr_blit_other) (use d(1) len(1) i wl in \<open>auto simp: disjoint_rng_def\<close>)
    then have "cstr (blit ?m1 args [0]) (command + ?i + length ?w) ?cs2"
      by (rule cstr_blit_other) (use d(2) i wl in \<open>auto simp: disjoint_rng_def\<close>)
    then show ?thesis by (simp add: blit_single add.assoc)
  qed
  let ?k = "length (takeWhile (\<lambda>c. c = 32) ?cs2)"
  have k: "?k \<le> length ?cs2" by (rule length_takeWhile_le)
  have a: "?a = drop ?k ?cs2"
  proof -
    have "dropWhile (\<lambda>c. c = 32) cs = ?cs1" by (rule dropWhile_drop)
    moreover have "dropWhile (\<lambda>c. c \<noteq> 32) ?cs1 = ?cs2"
      unfolding w arg_part_def if_True by (rule dropWhile_drop)
    ultimately show ?thesis unfolding cmd_args_def by (simp only: dropWhile_drop)
  qed
  have cs3: "cstr ?m2 (command + (?i + length ?w + ?k)) ?a"
    using dstr_drop [OF cs2 k] by (simp add: a add.assoc)
  have d3: "disjoint_rng args 128 (command + (?i + length ?w + ?k)) (length ?a + 1)"
    using d(2) i wl k by (auto simp: disjoint_rng_def a)
  have s3: "copy_arg False command args (?i + length ?w + ?k) 0 ?m2 =
      Some (?i + length ?w + ?k + length ?a, length ?a, blit ?m2 args ?a)"
    using copy_arg_eq [OF cs3 _ d3, of 0 False] len(2) by (simp add: arg_part_def)
  have m1: "(blit m parsed ?w)(parsed + length ?w := 0) = ?m1" by (simp add: blit_snoc)
  have "(blit ?m2 args ?a)(args + length ?a := 0) = blit ?m2 args (?a @ [0])" by (simp add: blit_snoc)
  also have "\<dots> = blit ?m1 args (?a @ [0])"
    by (auto simp: blit_def fun_eq_iff)
  finally have m3: "(blit ?m2 args ?a)(args + length ?a := 0) = blit ?m1 args (?a @ [0])" .
  show ?thesis
    using skip_spaces_eq [of m command 0 cs] cs s1 len skip_spaces_eq [OF cs2] s3
    by (simp add: parse_command_def m1 m3 del: fun_upd_apply)
qed



section \<open>Control blocks\<close>

lemma unat_pcb: "i < 6 \<Longrightarrow> unat (return_pcb_parent (int i)) = 0x7F8000 - 0x8000 * i"
proof -
  assume i: "i < 6"
  then have "return_pcb_parent (int i) = of_nat (0x7F8000 - 0x8000 * i)"
    by (simp add: return_pcb_parent_def of_nat_diff algebra_simps)
  then show ?thesis by (simp only: unat_of_nat) simp
qed

lemma pcb_inj: "i < 6 \<Longrightarrow> j < 6 \<Longrightarrow> return_pcb_parent (int i) = return_pcb_parent (int j) \<longleftrightarrow> i = j"
  using unat_pcb [of i] unat_pcb [of j] by (auto dest: arg_cong [of _ _ unat])

lemma map_page_simps [simp]:
  "process_num (map_page f v s) = process_num s" "terminals (map_page f v s) = terminals s"
  "pcbs (map_page f v s) = pcbs s" "main_process (map_page f v s) = main_process s"
  "active_terminal (map_page f v s) = active_terminal s" "frame (map_page f v s) = frame s"
  "boot_block (map_page f v s) = boot_block s" "FS_START_ADDR (map_page f v s) = FS_START_ADDR s"
  "reg_ebp (map_page f v s) = reg_ebp s" "reg_esp (map_page f v s) = reg_esp s"
  "arg_buf (map_page f v s) = arg_buf s"
  by (simp_all add: map_page_def page_access_def Let_def)

text \<open>Variables that starting and ending a process leaves alone.\<close>

definition statics where
  "statics s = (active_terminal s, boot_block s, FS_START_ADDR s, arg_buf s, rodata s, text_color s,
     frame s, curr_pcb s, [save_buf_1 s, save_buf_2 s, save_buf_3 s])"

lemma statics_map_page [simp]: "statics (map_page f v s) = statics s"
  by (simp add: statics_def map_page_def page_access_def Let_def)

lemma map_page_tlb: "tlb_user (map_page f 0x8000000 s) = f OR 0x87"
  by (simp add: map_page_def Let_def)

lemma map_page_mem:
  "\<not> (USER_PAGE \<le> a \<and> a < USER_PAGE + UNIT_4_MB) \<Longrightarrow> mem (map_page f v s) a = mem s a"
  by (auto simp: map_page_def page_access_def Let_def load_page_def)


section \<open>Halting\<close>

lemma system_halt_eq:
  assumes i: "3 \<le> i" "i < 6" and q: "q < 6" "q \<noteq> i"
    and main: "main_process s = int i" and len: "length (process_num s) = 6"
  defines "own \<equiv> pcbs s (return_pcb_parent (int i))"
  assumes own: "pid own = int i" "parent_pcb own = return_pcb_parent (int q)"
    and par: "pid (pcbs s (return_pcb_parent (int q))) = int q"
  shows "\<exists>s'. system_halt status s = Some (RetFromHalt (ebp own) (esp own) (ucast status), s') \<and>
    main_process s' = int q \<and> process_num s' = (process_num s)[i := -1] \<and>
    terminals s' = halt_tasks (int i) (int q) (terminals s) \<and>
    tss_esp0 s' = 0x800000 - 0x8000 * of_nat q - 4 \<and> tlb_user s' = user_frame (int q) OR 0x87 \<and>
    pcbs s' = (pcbs s)(return_pcb_parent (int q) :=
      (pcbs s (return_pcb_parent (int q)))\<lparr>status_retval := ucast status\<rparr>) \<and> \<not> if_flag s'"
proof -
  have ne: "return_pcb_parent (int i) \<noteq> return_pcb_parent (int q)"
    using pcb_inj [of i q] i q by auto
  have set: "aset (process_num s) (int i) (-1) = Some ((process_num s)[i := -1])"
    using len i by (simp add: aset_def)
  show ?thesis
    using main own par ne i set
    by (simp add: system_halt_def cli_def Let_def resume_parent_def map_page_tlb MAX_TERMINALS_def
        flip: own_def) (simp add: own_def map_page_def page_access_def Let_def)
qed


section \<open>Entering a process\<close>

definition fresh_pcb :: "nat \<Rightarrow> nat \<Rightarrow> kstate \<Rightarrow> pcb_t" where
  "fresh_pcb i q s = (pcbs s (return_pcb_parent (int i)))
     \<lparr>pid := int i, fdt := fresh_fdt (fdt (pcbs s (return_pcb_parent (int i)))),
      parent_pcb := return_pcb_parent (int q), status_retval := 0, ebp := reg_ebp s, esp := reg_esp s\<rparr>"

lemma enter_user_eq:
  assumes a: "active_terminal s = int a" "a < 3" and len: "length (terminals s) = 3"
    and parent: "i < 3 \<and> q = i \<or> 3 \<le> i \<and> find_parent_process (int i) (int a) s = Some (int q)"
  shows "\<exists>s'. enter_user (int i) e s = Some (Iret e, s') \<and> main_process s' = int i \<and>
    pcbs s' = (pcbs s)(return_pcb_parent (int i) := fresh_pcb i q s) \<and>
    terminals s' = (terminals s)[a := (terminals s ! a)\<lparr>curr_task := int i\<rparr>] \<and>
    process_num s' = process_num s \<and> active_terminal s' = active_terminal s \<and>
    tss_ss0 s' = 0x18 \<and> tss_esp0 s' = 0x800000 - 0x8000 * of_nat i - 4 \<and> if_flag s' \<and>
    mem s' = mem s \<and> tlb_user s' = tlb_user s \<and> phys s' = phys s \<and> statics s' = statics s"
proof -
  have fp: "find_parent_process p t (cli s) = find_parent_process p t s" for p t
    by (simp add: find_parent_process_def cli_def)
  have "create_pcb (int i) (cli s) = Some (return_pcb_parent (int i),
      (cli s)\<lparr>pcbs := (pcbs s)(return_pcb_parent (int i) := (pcbs s (return_pcb_parent (int i)))
          \<lparr>pid := int i, fdt := fresh_fdt (fdt (pcbs s (return_pcb_parent (int i)))),
           parent_pcb := return_pcb_parent (int q), status_retval := 0\<rparr>),
        terminals := (terminals s)[a := (terminals s ! a)\<lparr>curr_task := int i\<rparr>]\<rparr>)"
  proof -
    have par: "(if int i < MAX_TERMINALS then Some (int i)
        else find_parent_process (int i) (active_terminal (cli s)) (cli s)) = Some (int q)"
      unfolding fp using parent a(1) by (auto simp: MAX_TERMINALS_def cli_def)
    show ?thesis
      unfolding create_pcb_def Let_def par using a len
      by (simp add: aset_def cli_def)
  qed
  then show ?thesis
    by (simp add: enter_user_def Let_def fresh_pcb_def cli_def statics_def)
qed



section \<open>Executing a program\<close>

lemma find_down_upd: "k \<le> i \<Longrightarrow> find_down (pn[i := v]) t k = find_down pn t k"
  by (induction k) (auto simp: aget_def)

lemma same_image_lookup:
  assumes "same_image s s'"
  shows "lookup_name xs s' = lookup_name xs s" and "i < 63 \<Longrightarrow> entry_inode s' i = entry_inode s i"
proof -
  have bb: "boot_block s' = boot_block s" using assms by (simp add: same_image_def)
  have big: "4096 \<le> fs_size s" by (simp add: fs_size_def)
  have ent: "entry_name s' i = entry_name s i \<and> entry_inode s' i = entry_inode s i" if "i < 63" for i
  proof -
    have "bytes_at (mem s') (direntry s i) 32 = bytes_at (mem s) (direntry s i) 32"
      by (rule bytes_at_eqI) (use assms big that in \<open>simp add: same_image_def direntry_def\<close>)
    moreover have "ld32 (mem s') (direntry s i + 36) = ld32 (mem s) (direntry s i + 36)"
      by (rule same_image_ld32 [OF assms]) (use big that in \<open>simp_all add: direntry_def\<close>)
    ultimately show ?thesis by (simp add: entry_name_def entry_inode_def lds32_def direntry_def bb)
  qed
  then show "i < 63 \<Longrightarrow> entry_inode s' i = entry_inode s i" by simp
  show "lookup_name xs s' = lookup_name xs s"
    unfolding lookup_name_def by (rule find_cong) (simp_all add: ent)
qed

lemma same_image_blit:
  "disjoint_rng b (length xs) (boot_block s) (fs_size s) \<Longrightarrow> mem s' = blit (mem s) b xs \<Longrightarrow>
    boot_block s' = boot_block s \<Longrightarrow> FS_START_ADDR s' = FS_START_ADDR s \<Longrightarrow> same_image s s'"
  by (auto simp: same_image_def disjoint_rng_def blit_def)

lemma same_image_trans: "same_image s s1 \<Longrightarrow> same_image s1 s2 \<Longrightarrow> same_image s s2"
  using same_image_counts [of s s1] by (simp add: same_image_def)

text \<open>The areas that \<open>system_execute\<close> writes do not meet each other or the image.\<close>

definition exec_layout :: "kstate \<Rightarrow> addr \<Rightarrow> nat \<Rightarrow> bool" where
  "exec_layout s command n \<longleftrightarrow>
     frame s \<noteq> 0 \<and> disjoint_rng (frame s) 136 command n \<and> disjoint_rng (arg_buf s) 128 command n \<and>
     disjoint_rng (arg_buf s) 128 (frame s) 136 \<and>
     disjoint_rng (frame s) 136 (boot_block s) (fs_size s) \<and>
     disjoint_rng (arg_buf s) 128 (boot_block s) (fs_size s) \<and>
     disjoint_rng USER_PAGE UNIT_4_MB (boot_block s) (fs_size s) \<and>
     disjoint_rng USER_PAGE UNIT_4_MB (arg_buf s) 128"

text \<open>A file that can be executed: its inode, its magic number and its size.\<close>

definition program :: "kstate \<Rightarrow> nat \<Rightarrow> bool" where
  "program s ino \<longleftrightarrow> inode_ok s ino \<and> 28 \<le> file_length s ino \<and> file_length s ino \<le> 0x3B8000 \<and>
     file_data s ino 0 4 = [0x7f, 0x45, 0x4c, 0x46]"

definition program_entry :: "kstate \<Rightarrow> nat \<Rightarrow> u32" where
  "program_entry s ino = entry_word (\<lambda>k. file_byte s ino (24 + k)) 0"

lemma same_image_program:
  assumes "same_image s s'" "fs_ok s" "program s ino"
  shows "program s' ino" "file_length s' ino = file_length s ino"
    "off + n \<le> file_length s ino \<Longrightarrow> file_data s' ino off n = file_data s ino off n"
proof -
  have ino: "inode_ok s ino" using assms(3) by (simp add: program_def)
  note i = same_image_inode [OF assms(1,2) ino] and d = same_image_data [OF assms(1,2) ino]
  show "file_length s' ino = file_length s ino" by (rule i(1))
  show "off + n \<le> file_length s ino \<Longrightarrow> file_data s' ino off n = file_data s ino off n" by (rule d)
  show "program s' ino" using assms(3) i d [of 0 4] by (simp add: program_def)
qed

text \<open>The pages of the other processes, mapped or not.\<close>

definition others_kept :: "kstate \<Rightarrow> nat \<Rightarrow> kstate \<Rightarrow> bool" where
  "others_kept s i s' \<longleftrightarrow> (\<forall>r<6. tlb_user s = user_frame (int r) OR 0x87 \<and> disjoint_rng USER_PAGE UNIT_4_MB (frame s) 136 \<longrightarrow>
     (\<forall>p<6. \<forall>o'<UNIT_4_MB. p \<noteq> i \<longrightarrow> user_byte s' (int p) o' = user_byte s (int p) o'))"

lemma user_byte_cong:
  "tlb_user s' = tlb_user s \<Longrightarrow> phys s' = phys s \<Longrightarrow> mem s' (USER_PAGE + o') = mem s (USER_PAGE + o') \<Longrightarrow>
    user_byte s' p o' = user_byte s p o'"
  by (simp add: user_byte_def)

lemma map_page_others:
  assumes i: "i < 6" and m: "\<And>a. \<not> (frame s \<le> a \<and> a < frame s + 136) \<Longrightarrow> mem s1 a = mem s a"
    and s1: "tlb_user s1 = tlb_user s" "phys s1 = phys s"
  shows "others_kept s i ((map_page (user_frame (int i)) 0x8000000 s1)\<lparr>mem := m'\<rparr>)"
  unfolding others_kept_def
proof (intro allI impI, elim conjE)
  fix r p o' assume r: "r < 6" "tlb_user s = user_frame (int r) OR 0x87" and d: "disjoint_rng USER_PAGE UNIT_4_MB (frame s) 136"
    and p: "p < 6" "o' < UNIT_4_MB" "p \<noteq> i"
  let ?s2 = "map_page (user_frame (int i)) 0x8000000 s1"
  have "tlb_user ?s2 \<noteq> user_frame (int p) OR 0x87"
    unfolding map_page_tlb using user_pde_inj [of "int i" "int p"] i p by simp
  then have "user_byte (?s2\<lparr>mem := m'\<rparr>) (int p) o' = user_byte ?s2 (int p) o'" by (simp add: user_byte_def)
  also have "\<dots> = user_byte s1 (int p) o'"
    by (rule user_byte_map_page [of _ _ _ _ "int r"]) (use i p r s1 in simp_all)
  also have "\<dots> = user_byte s (int p) o'"
    by (rule user_byte_cong [OF s1]) (rule m, use d p(2) in \<open>auto simp: disjoint_rng_def\<close>)
  finally show "user_byte (?s2\<lparr>mem := m'\<rparr>) (int p) o' = user_byte s (int p) o'" .
qed

lemma load_program_eq:
  assumes fs: "fs_ok s" and prog: "program s ino" and i: "i < 6"
    and d: "disjoint_rng (frame s) 136 (boot_block s) (fs_size s)"
      "disjoint_rng USER_PAGE UNIT_4_MB (boot_block s) (fs_size s)"
  shows "\<exists>s'. load_program (int ino) (int i) s = (program_entry s ino, s') \<and>
    (\<forall>k < file_length s ino. mem s' (0x08048000 + k) = file_byte s ino k) \<and>
    (\<forall>a. \<not> (USER_PAGE \<le> a \<and> a < USER_PAGE + UNIT_4_MB) \<and> \<not> (frame s \<le> a \<and> a < frame s + 136)
        \<longrightarrow> mem s' a = mem s a) \<and>
    tlb_user s' = user_frame (int i) OR 0x87 \<and> process_num s' = process_num s \<and>
    terminals s' = terminals s \<and> pcbs s' = pcbs s \<and> active_terminal s' = active_terminal s \<and>
    reg_ebp s' = reg_ebp s \<and> reg_esp s' = reg_esp s \<and> statics s' = statics s \<and> others_kept s i s'"
proof -
  let ?L = "file_length s ino"
  have ino: "inode_ok s ino" and L: "28 \<le> ?L" "?L \<le> 0x3B8000" using prog by (auto simp: program_def)
  define s1 where "s1 = s\<lparr>mem := blit (mem s) (frame s + 132) (file_data s ino 24 4)\<rparr>"
  have d4: "disjoint_rng (frame s + 132) 4 (boot_block s) (fs_size s)"
    using d(1) by (auto simp: disjoint_rng_def)
  have m4: "min 4 (?L - 24) = 4" using L by simp
  have r1: "read_data (of_int (int ino)) 24 (frame s + 132) 4 s = (4, s1)"
    using read_data_eq [OF fs ino, of 24 4 "frame s + 132"] d4 L unfolding m4 by (simp add: s1_def)
  have e: "entry_word (mem s1) (frame s + 132) = program_entry s ino"
  proof -
    have "mem s1 (frame s + 132 + k) = file_byte s ino (24 + k)" if "k < 4" for k
      using that blit_in [of k "file_data s ino 24 4" "mem s" "frame s + 132"]
      by (simp add: s1_def file_data_def)
    from this [of 0] this [of 1] this [of 2] this [of 3] show ?thesis
      by (simp add: entry_word_def program_entry_def add.assoc)
  qed
  define s2 where "s2 = map_page (user_frame (int i)) 0x8000000 s1"
  have im1: "same_image s s1"
    by (rule same_image_blit [of "frame s + 132" "file_data s ino 24 4"]) (use d4 in \<open>simp_all add: s1_def\<close>)
  have im2: "same_image s1 s2"
    using d(2) same_image_counts [OF im1]
    by (auto simp: same_image_def s2_def map_page_mem disjoint_rng_def)
  note im = same_image_trans [OF im1 im2]
  note c = same_image_counts [OF im] and p = same_image_program [OF im fs prog]
  have fs2: "fs_ok s2" using c fs by simp
  have ino2: "inode_ok s2 ino" using p(1) by (simp add: program_def)
  have bufd: "disjoint_rng 0x08048000 ?L (boot_block s2) (fs_size s2)"
    using d(2) L c by (auto simp: disjoint_rng_def USER_PAGE_def UNIT_4_MB_def)
  have mL: "min 0x800000 (?L - 0) = ?L" using L by simp
  have r2: "read_data (of_int (int ino)) 0 0x08048000 0x800000 s2 =
      (int ?L, s2\<lparr>mem := blit (mem s2) 0x08048000 (file_data s ino 0 ?L)\<rparr>)"
    using read_data_eq [OF fs2 ino2, of 0 "0x800000" "0x08048000"] bufd p(2) p(3) [of 0 ?L]
    unfolding p(2) mL by simp
  have ld: "load_program (int ino) (int i) s =
      (program_entry s ino, s2\<lparr>mem := blit (mem s2) 0x08048000 (file_data s ino 0 ?L)\<rparr>)"
    using r1 r2 unfolding load_program_def Let_def by (simp add: e flip: s2_def)
  have img: "blit (mem s2) 0x08048000 (file_data s ino 0 ?L) (0x08048000 + k) = file_byte s ino k" if "k < ?L" for k
    using that blit_in [of k "file_data s ino 0 ?L" "mem s2" "0x08048000"] by (simp add: file_data_def)
  have out: "blit (mem s2) 0x08048000 (file_data s ino 0 ?L) a = mem s a"
    if "\<not> (USER_PAGE \<le> a \<and> a < USER_PAGE + UNIT_4_MB)" "\<not> (frame s \<le> a \<and> a < frame s + 136)" for a
  proof -
    have "a < 0x08048000 \<or> 0x08048000 + ?L \<le> a"
      using that(1) L by (auto simp: USER_PAGE_def UNIT_4_MB_def)
    then have "blit (mem s2) 0x08048000 (file_data s ino 0 ?L) a = mem s2 a" by (auto simp: blit_def)
    also have "\<dots> = mem s1 a" unfolding s2_def using that(1) by (rule map_page_mem)
    also have "\<dots> = mem s a" using that(2) by (auto simp: s1_def blit_def)
    finally show ?thesis .
  qed
  have flds: "tlb_user s2 = user_frame (int i) OR 0x87" "process_num s2 = process_num s"
    "terminals s2 = terminals s" "pcbs s2 = pcbs s" "active_terminal s2 = active_terminal s"
    "reg_ebp s2 = reg_ebp s" "reg_esp s2 = reg_esp s"
    by (simp_all add: s2_def s1_def map_page_tlb)
  have st: "statics (s2\<lparr>mem := m\<rparr>) = statics s" for m
    using statics_map_page [of "user_frame (int i)" "0x8000000" s1] by (simp add: statics_def s2_def s1_def)
  have "others_kept s i (s2\<lparr>mem := m\<rparr>)" for m
    unfolding s2_def by (rule map_page_others [OF i]) (auto simp: s1_def blit_def)
  with st show ?thesis
    unfolding ld by (intro exI [of _ "s2\<lparr>mem := blit (mem s2) 0x08048000 (file_data s ino 0 ?L)\<rparr>"])
      (simp add: img out flds)
qed


text \<open>The state after the command has been parsed and the magic number read.\<close>

text \<open>Parsing leaves the word and the arguments as strings and the image alone.\<close>

lemma parsed_words:
  assumes cs: "cstr (mem s) command cs"
    and len: "length (cmd_word cs) \<le> 32" "length (cmd_args cs) < 128"
    and lay: "exec_layout s command (length cs + 1)"
  defines "m1 \<equiv> blit (blit (mem s) (frame s) (cmd_word cs @ [0])) (arg_buf s) (cmd_args cs @ [0])"
  shows "parse_command command (frame s) (arg_buf s) (mem s) = Some m1" and "same_image s (s\<lparr>mem := m1\<rparr>)"
    and "cstr m1 (frame s) (cmd_word cs)" and "cstr m1 (arg_buf s) (cmd_args cs)"
proof -
  let ?w = "cmd_word cs" and ?a = "cmd_args cs"
  have w0: "0 \<notin> set ?w" "0 \<notin> set ?a"
    using cs unfolding cmd_word_def cmd_args_def dstr_def by (auto dest!: set_takeWhileD set_dropWhileD)
  note lay' = lay [unfolded exec_layout_def]
  have cmd: "disjoint_rng (frame s) 128 command (length cs + 1)" "disjoint_rng (arg_buf s) 128 command (length cs + 1)"
    using lay' by (auto simp: disjoint_rng_def)
  define mw where "mw = blit (mem s) (frame s) (?w @ [0])"
  have m1: "m1 = blit mw (arg_buf s) (?a @ [0])" by (simp add: m1_def mw_def)
  show "parse_command command (frame s) (arg_buf s) (mem s) = Some m1"
    unfolding m1_def using parse_command_eq [OF cs _ len(2) cmd] len(1) by simp
  have "same_image s (s\<lparr>mem := mw\<rparr>)"
    by (rule same_image_blit [of "frame s" "?w @ [0]"]) (use lay' len in \<open>auto simp: mw_def disjoint_rng_def\<close>)
  moreover have "same_image (s\<lparr>mem := mw\<rparr>) (s\<lparr>mem := m1\<rparr>)"
    by (rule same_image_blit [of "arg_buf s" "?a @ [0]"])
      (use lay' len same_image_counts [OF calculation] in \<open>auto simp: m1 disjoint_rng_def\<close>)
  ultimately show "same_image s (s\<lparr>mem := m1\<rparr>)" by (rule same_image_trans)
  show "cstr m1 (frame s) ?w"
    unfolding m1_def
    by (rule cstr_blit_other [OF dstr_blit [OF w0(1)]]) (use lay' len in \<open>auto simp: disjoint_rng_def\<close>)
  show "cstr m1 (arg_buf s) ?a" unfolding m1 by (rule dstr_blit [OF w0(2)])
qed

lemma parsed_state:
  assumes fs: "fs_ok s" and prog: "program s ino" and cs: "cstr (mem s) command cs"
    and len: "length (cmd_word cs) \<le> 32" "length (cmd_args cs) < 128" and ascii: "\<forall>x\<in>set (cmd_word cs). x < 128"
    and look: "lookup_name (cmd_word cs) s = Some d" "entry_inode s d = int ino"
    and lay: "exec_layout s command (length cs + 1)"
  shows "\<exists>m1 s2. parse_command command (frame s) (arg_buf s) (mem s) = Some m1 \<and>
    (\<exists>e. read_dentry_by_name (frame s) (Some d0) (s\<lparr>mem := m1\<rparr>) = Some (0, Some e) \<and> d_inode_num e = int ino) \<and>
    read_data (of_nat ino) 0 (frame s + 128) 4 (s\<lparr>mem := m1\<rparr>) = (4, s2) \<and>
    is_executable (mem s2) (frame s + 128) \<and> same_image s s2 \<and>
    cstr (mem s2) (arg_buf s) (cmd_args cs) \<and> s2 = s\<lparr>mem := mem s2\<rparr> \<and>
    (\<forall>x. \<not> (frame s \<le> x \<and> x < frame s + 136) \<and> \<not> (arg_buf s \<le> x \<and> x < arg_buf s + 128) \<longrightarrow> mem s2 x = mem s x)"
proof -
  let ?w = "cmd_word cs" and ?a = "cmd_args cs"
  note lay' = lay [unfolded exec_layout_def]
  define m1 where "m1 = blit (blit (mem s) (frame s) (?w @ [0])) (arg_buf s) (?a @ [0])"
  note parse = parsed_words [OF cs len lay, folded m1_def]
  let ?s1 = "s\<lparr>mem := m1\<rparr>"
  have im1: "same_image s ?s1" and name: "cstr (mem ?s1) (frame s) ?w" using parse by simp_all
  have d: "d < 63" using lookup_name_less [OF look(1)] by simp
  have dent: "read_dentry_by_name (frame s) (Some d0) ?s1 = Some (0, Some (read_entry ?s1 d d0))"
    using read_dentry_by_name_lookup [OF name len(1) ascii, of d0] same_image_lookup(1) [OF im1] look(1) lay'
    by simp
  have ent: "d_inode_num (read_entry ?s1 d d0) = int ino"
    using same_image_lookup(2) [OF im1 d] look(2) by (simp add: read_entry_def)
  note c1 = same_image_counts [OF im1] and p1 = same_image_program [OF im1 fs prog]
  have fs1: "fs_ok ?s1" using c1(5) fs by simp
  have ino1: "inode_ok ?s1 ino" and L: "28 \<le> file_length ?s1 ino" using p1(1) by (auto simp: program_def)
  have fd: "file_data ?s1 ino 0 4 = [0x7f, 0x45, 0x4c, 0x46]" using p1(1) by (simp add: program_def)
  define s2 where "s2 = s\<lparr>mem := blit m1 (frame s + 128) [0x7f, 0x45, 0x4c, 0x46]\<rparr>"
  have m4: "min 4 (file_length ?s1 ino - 0) = 4" using L by simp
  have d4: "disjoint_rng (frame s + 128) 4 (boot_block s) (fs_size s)" using lay' by (auto simp: disjoint_rng_def)
  have rd: "read_data (of_nat ino) 0 (frame s + 128) 4 ?s1 = (4, s2)"
    using read_data_eq [OF fs1 ino1, of 0 4 "frame s + 128"] d4 c1 unfolding m4 fd by (simp add: s2_def)
  have ex: "is_executable (mem s2) (frame s + 128)"
    by (simp add: is_executable_def s2_def blit_def)
  have "same_image ?s1 s2"
    by (rule same_image_blit [of "frame s + 128" "[0x7f, 0x45, 0x4c, 0x46]"]) (use d4 c1 in \<open>auto simp: s2_def disjoint_rng_def\<close>)
  with im1 have im2: "same_image s s2" by (rule same_image_trans)
  have arg: "cstr (mem s2) (arg_buf s) ?a"
    unfolding s2_def
    by simp (rule cstr_blit_other [OF parse(4)], use lay' len in \<open>auto simp: disjoint_rng_def\<close>)
  have "mem s2 x = mem s x" if "\<not> (frame s \<le> x \<and> x < frame s + 136)" "\<not> (arg_buf s \<le> x \<and> x < arg_buf s + 128)" for x
    using that len by (auto simp: s2_def m1_def blit_def)
  with parse(1) dent ent rd ex im2 arg show ?thesis
    by (intro exI [of _ m1] exI [of _ s2]) (auto simp: s2_def)
qed

text \<open>A name that is not in the directory, and a table with no slot.\<close>

lemma system_execute_missing:
  assumes cs: "cstr (mem s) command cs"
    and len: "length (cmd_word cs) \<le> 32" "length (cmd_args cs) < 128" and ascii: "\<forall>x\<in>set (cmd_word cs). x < 128"
    and look: "lookup_name (cmd_word cs) s = None" and lay: "exec_layout s command (length cs + 1)"
  shows "system_execute command s = Some (Ret (-1),
    s\<lparr>mem := blit (blit (mem s) (frame s) (cmd_word cs @ [0])) (arg_buf s) (cmd_args cs @ [0])\<rparr>)"
proof -
  define m1 where "m1 = blit (blit (mem s) (frame s) (cmd_word cs @ [0])) (arg_buf s) (cmd_args cs @ [0])"
  note parse = parsed_words [OF cs len lay, folded m1_def]
  let ?s1 = "s\<lparr>mem := m1\<rparr>"
  have name: "cstr (mem ?s1) (frame s) (cmd_word cs)" and f: "frame s \<noteq> 0"
    using parse(3) lay by (simp_all add: exec_layout_def)
  have look1: "lookup_name (cmd_word cs) ?s1 = None" using same_image_lookup(1) [OF parse(2)] look by simp
  have "read_dentry_by_name (frame s) (Some d0) ?s1 = Some (-1, Some d0)" for d0
    using read_dentry_by_name_lookup [OF name len(1) ascii f, of d0] look1 by simp
  then show ?thesis by (simp add: system_execute_def parse(1) Let_def flip: m1_def)
qed

lemma find_slot_full: "table_ok s \<Longrightarrow> \<forall>i<6. \<not> slot_free s i \<Longrightarrow> find_slot 0 s = Some None"
  by (auto simp: find_slot_eq find_None_iff)

lemma system_execute_full:
  assumes fs: "fs_ok s" and prog: "program s ino" and cs: "cstr (mem s) command cs"
    and len: "length (cmd_word cs) \<le> 32" "length (cmd_args cs) < 128" and ascii: "\<forall>x\<in>set (cmd_word cs). x < 128"
    and look: "lookup_name (cmd_word cs) s = Some d" "entry_inode s d = int ino"
    and lay: "exec_layout s command (length cs + 1)"
    and tab: "table_ok s" "terms_ok s" and full: "\<forall>i<6. \<not> slot_free s i"
    and msg: "disjoint_rng (main_page s) 4000 (rodata s ''Max processes.\<newline>'') 15"
  shows "\<exists>s'. system_execute command s = Some (Ret 0, s') \<and> terms_ok s'"
proof -
  let ?d0 = "\<lparr>filename = [], filetype = 0, d_inode_num = 0\<rparr> :: dentry_t"
  from parsed_state [OF fs prog cs len ascii look lay, of ?d0] obtain m1 s2 e where
    parse: "parse_command command (frame s) (arg_buf s) (mem s) = Some m1"
    and dent: "read_dentry_by_name (frame s) (Some ?d0) (s\<lparr>mem := m1\<rparr>) = Some (0, Some e)" "d_inode_num e = int ino"
    and rd: "read_data (of_nat ino) 0 (frame s + 128) 4 (s\<lparr>mem := m1\<rparr>) = (4, s2)"
    and ex: "is_executable (mem s2) (frame s + 128)" and s2: "s2 = s\<lparr>mem := mem s2\<rparr>"
    by blast
  have flds: "process_num s2 = process_num s" "active_terminal s2 = active_terminal s" "rodata s2 = rodata s"
    "main_process s2 = main_process s" "terminals s2 = terminals s"
    by (subst s2, simp)+
  have "find_slot 0 s2 = Some None"
    using tab(1) full by (intro find_slot_full) (simp_all add: table_ok_def slot_free_def flds)
  moreover have ok: "terms_ok s2" and "main_page s2 = main_page s"
    using tab(2) terms_ok_cong [of s2 s] by (simp_all add: flds main_page_def pos_idx_def)
  then obtain s' where "my_puts (rodata s2 ''Max processes.\<newline>'') 15 s2 = Some (15, s')" "terms_ok s'"
    using my_puts_eq [of s2 "rodata s2 ''Max processes.\<newline>''" 15] msg by (auto simp: flds)
  ultimately have "system_execute command s = Some (Ret 0, s')"
    unfolding system_execute_def Let_def using parse dent rd ex by simp
  with \<open>terms_ok s'\<close> show ?thesis by blast
qed

text \<open>The parent a new process gets: itself for the first shell of a terminal, otherwise the
  terminal's process in the nearest lower slot.\<close>

definition parent_slot :: "kstate \<Rightarrow> nat \<Rightarrow> nat \<Rightarrow> bool" where
  "parent_slot s i q \<longleftrightarrow> (if i < 3 then q = i else q < i \<and> process_num s ! q = active_terminal s \<and>
     (\<forall>j. q < j \<and> j < i \<longrightarrow> process_num s ! j \<noteq> active_terminal s))"

definition exec_kept :: "kstate \<Rightarrow> nat \<Rightarrow> kstate \<Rightarrow> bool" where
  "exec_kept s i s' \<longleftrightarrow> statics s' = statics s \<and> others_kept s i s' \<and>
     (\<forall>x. \<not> (frame s \<le> x \<and> x < frame s + 136) \<and> \<not> (arg_buf s \<le> x \<and> x < arg_buf s + 128) \<and>
          \<not> (USER_PAGE \<le> x \<and> x < USER_PAGE + UNIT_4_MB) \<longrightarrow> mem s' x = mem s x)"

lemma parent_after_load:
  assumes tab: "table_ok s" and slot: "List.find (slot_free s) [0..<6] = Some i"
    and pn: "process_num s4 = (process_num s)[i := active_terminal s]"
  obtains q where "parent_slot s i q" "i < 3 \<and> q = i \<or> 3 \<le> i \<and> find_parent_process (int i) (active_terminal s) s4 = Some (int q)"
proof (cases "i < 3")
  case True
  then show ?thesis by (intro that [of i]) (simp_all add: parent_slot_def)
next
  case False
  then obtain q where "find_parent_process (int i) (active_terminal s) s = Some (int q)" "q < i"
    "process_num s ! q = active_terminal s" "\<forall>j. q < j \<and> j < i \<longrightarrow> process_num s ! j \<noteq> active_terminal s"
    using find_slot_parent [OF tab slot] by auto
  with False show ?thesis
    by (intro that [of q]) (auto simp: parent_slot_def find_parent_process_def find_down_upd pn)
qed

lemma find_slot_same:
  assumes "table_ok s" "List.find (slot_free s) [0..<6] = Some i" "process_num s' = process_num s" "active_terminal s' = active_terminal s"
  shows "find_slot 0 s' = Some (Some (int i))"
proof -
  have "slot_free s' = slot_free s" by (simp add: slot_free_def fun_eq_iff assms(3,4))
  moreover have "table_ok s'" using assms(1) by (simp add: table_ok_def assms(3,4))
  ultimately show ?thesis using find_slot_eq [of s'] assms(2) by simp
qed

lemma system_execute_run:
  assumes fs: "fs_ok s" and prog: "program s ino" and cs: "cstr (mem s) command cs"
    and len: "length (cmd_word cs) \<le> 32" "length (cmd_args cs) < 128" and ascii: "\<forall>x\<in>set (cmd_word cs). x < 128"
    and look: "lookup_name (cmd_word cs) s = Some d" "entry_inode s d = int ino"
    and lay: "exec_layout s command (length cs + 1)"
    and tab: "table_ok s" "length (terminals s) = 3" and slot: "List.find (slot_free s) [0..<6] = Some i"
  shows "\<exists>s' q. system_execute command s = Some (Iret (program_entry s ino), s') \<and> parent_slot s i q \<and>
    main_process s' = int i \<and> process_num s' = (process_num s)[i := active_terminal s] \<and>
    terminals s' = (terminals s)[nat (active_terminal s) :=
       (terminals s ! nat (active_terminal s))\<lparr>curr_task := int i\<rparr>] \<and>
    pcbs s' = (pcbs s)(return_pcb_parent (int i) := fresh_pcb i q s) \<and>
    tlb_user s' = user_frame (int i) OR 0x87 \<and> tss_esp0 s' = 0x800000 - 0x8000 * of_nat i - 4 \<and> if_flag s' \<and>
    (\<forall>k < file_length s ino. mem s' (0x08048000 + k) = file_byte s ino k) \<and>
    cstr (mem s') (arg_buf s) (cmd_args cs) \<and> exec_kept s i s'"
proof -
  let ?d0 = "\<lparr>filename = [], filetype = 0, d_inode_num = 0\<rparr> :: dentry_t"
  from parsed_state [OF fs prog cs len ascii look lay, of ?d0] obtain m1 s2 e where
    parse: "parse_command command (frame s) (arg_buf s) (mem s) = Some m1"
    and dent: "read_dentry_by_name (frame s) (Some ?d0) (s\<lparr>mem := m1\<rparr>) = Some (0, Some e)" "d_inode_num e = int ino"
    and rd: "read_data (of_nat ino) 0 (frame s + 128) 4 (s\<lparr>mem := m1\<rparr>) = (4, s2)"
    and ex: "is_executable (mem s2) (frame s + 128)" and im: "same_image s s2"
    and arg: "cstr (mem s2) (arg_buf s) (cmd_args cs)" and s2: "s2 = s\<lparr>mem := mem s2\<rparr>"
    and mem2: "\<And>x. \<not> (frame s \<le> x \<and> x < frame s + 136) \<Longrightarrow> \<not> (arg_buf s \<le> x \<and> x < arg_buf s + 128) \<Longrightarrow> mem s2 x = mem s x"
    by blast
  have flds2: "process_num s2 = process_num s" "active_terminal s2 = active_terminal s" "frame s2 = frame s"
    "terminals s2 = terminals s" "pcbs s2 = pcbs s" "reg_ebp s2 = reg_ebp s" "reg_esp s2 = reg_esp s"
    by (subst s2, simp)+
  define a where "a = nat (active_terminal s)"
  have a: "active_terminal s = int a" "a < 3" and i: "i < 6" and pn: "length (process_num s) = 6"
    using tab slot by (auto simp: a_def table_ok_def find_Some_iff)
  define s3 where "s3 = s2\<lparr>process_num := (process_num s)[i := active_terminal s]\<rparr>"
  have im3: "same_image s s3" using im by (simp add: same_image_def s3_def)
  note c = same_image_counts [OF im3] and p = same_image_program [OF im3 fs prog]
  have L: "28 \<le> file_length s ino" using prog by (simp add: program_def)
  have fb: "file_byte s3 ino k = file_byte s ino k" if "k < file_length s ino" for k
    using p(3) [of k 1] that by (simp add: file_data_def)
  have entry_eq: "program_entry s3 ino = program_entry s ino"
    using fb L by (simp add: program_entry_def entry_word_def)
  have "fs_ok s3" using c(5) fs by simp
  moreover have "disjoint_rng (frame s3) 136 (boot_block s3) (fs_size s3)"
    "disjoint_rng USER_PAGE UNIT_4_MB (boot_block s3) (fs_size s3)"
    using lay c flds2 by (simp_all add: exec_layout_def s3_def)
  ultimately obtain s4 where
    ld: "load_program (int ino) (int i) s3 = (program_entry s ino, s4)"
    and img: "\<And>k. k < file_length s ino \<Longrightarrow> mem s4 (0x08048000 + k) = file_byte s ino k"
    and out: "\<And>x. \<not> (USER_PAGE \<le> x \<and> x < USER_PAGE + UNIT_4_MB) \<Longrightarrow> \<not> (frame s \<le> x \<and> x < frame s + 136)
        \<Longrightarrow> mem s4 x = mem s2 x"
    and flds4: "tlb_user s4 = user_frame (int i) OR 0x87" "process_num s4 = (process_num s)[i := active_terminal s]"
      "terminals s4 = terminals s" "pcbs s4 = pcbs s" "active_terminal s4 = active_terminal s"
      "reg_ebp s4 = reg_ebp s" "reg_esp s4 = reg_esp s"
    and keep4: "statics s4 = statics s3" "others_kept s3 i s4"
    using load_program_eq [OF _ p(1) i] entry_eq fb p(2) flds2 by (auto simp: s3_def)
  have args4: "cstr (mem s4) (arg_buf s) (cmd_args cs)"
  proof (rule dstr_cong [OF arg])
    fix k assume "k \<le> length (cmd_args cs)"
    with len(2) lay show "mem s4 (arg_buf s + k) = mem s2 (arg_buf s + k)"
      by (intro out) (auto simp: exec_layout_def disjoint_rng_def)
  qed
  obtain q where q: "parent_slot s i q"
    and par: "i < 3 \<and> q = i \<or> 3 \<le> i \<and> find_parent_process (int i) (int a) s4 = Some (int q)"
    using parent_after_load [OF tab(1) slot flds4(2)] a(1) by auto
  have "active_terminal s4 = int a" "length (terminals s4) = 3" using flds4 a tab(2) by simp_all
  from enter_user_eq [OF this(1) a(2) this(2) par, of "program_entry s ino"] obtain s' where
    s': "enter_user (int i) (program_entry s ino) s4 = Some (Iret (program_entry s ino), s')"
    "main_process s' = int i" "pcbs s' = (pcbs s4)(return_pcb_parent (int i) := fresh_pcb i q s4)"
    "terminals s' = (terminals s4)[a := (terminals s4 ! a)\<lparr>curr_task := int i\<rparr>]"
    "process_num s' = process_num s4" "tss_esp0 s' = 0x800000 - 0x8000 * of_nat i - 4" "if_flag s'"
    "mem s' = mem s4" "tlb_user s' = tlb_user s4" "phys s' = phys s4" "statics s' = statics s4"
    by blast
  have keep: "exec_kept s i s'"
  proof -
    have st: "statics s3 = statics s" unfolding s3_def by (subst s2) (simp add: statics_def)
    have fr: "frame s3 = frame s" "tlb_user s3 = tlb_user s" "phys s3 = phys s" "mem s3 = mem s2"
      unfolding s3_def by (subst s2, simp)+
    have ub: "user_byte s' p o' = user_byte s4 p o'" for p o' by (rule user_byte_cong) (simp_all add: s')
    have u3: "user_byte s3 p o' = user_byte s p o'"
      if "o' < UNIT_4_MB" "disjoint_rng USER_PAGE UNIT_4_MB (frame s) 136" for p o'
      by (rule user_byte_cong [OF fr(2,3)], unfold fr(4), rule mem2)
        (use lay that in \<open>auto simp: exec_layout_def disjoint_rng_def\<close>)
    have "others_kept s i s'" using keep4(2) by (simp add: others_kept_def ub u3 fr)
    then show ?thesis using s' st keep4(1) out mem2 by (simp add: exec_kept_def)
  qed
  have fp: "fresh_pcb i q s4 = fresh_pcb i q s" by (simp add: fresh_pcb_def flds4)
  have fslot: "find_slot 0 s2 = Some (Some (int i))" by (rule find_slot_same [OF tab(1) slot flds2(1,2)])
  have pset: "aset (process_num s2) (int i) (active_terminal s2) = Some ((process_num s)[i := active_terminal s])"
    using i pn by (simp add: aset_def flds2)
  have "system_execute command s = Some (Iret (program_entry s ino), s')"
    unfolding system_execute_def Let_def
    using parse dent rd ex fslot pset ld s'(1) by (simp add: flds2 flip: s3_def)
  with q s' fp img args4 keep show ?thesis
    by (intro exI [of _ s'] exI [of _ q]) (simp add: flds4 flip: a_def)
qed

lemma system_execute_eq:
  assumes fs: "fs_ok s" and prog: "program s ino" and cs: "cstr (mem s) command cs"
    and len: "length (cmd_word cs) \<le> 32" "length (cmd_args cs) < 128" and ascii: "\<forall>x\<in>set (cmd_word cs). x < 128"
    and look: "lookup_name (cmd_word cs) s = Some d" "entry_inode s d = int ino"
    and lay: "exec_layout s command (length cs + 1)"
    and tab: "table_ok s" "length (terminals s) = 3" and slot: "List.find (slot_free s) [0..<6] = Some i"
  shows "\<exists>s' q. system_execute command s = Some (Iret (program_entry s ino), s') \<and> parent_slot s i q \<and>
    main_process s' = int i \<and> process_num s' = (process_num s)[i := active_terminal s] \<and>
    terminals s' = (terminals s)[nat (active_terminal s) :=
       (terminals s ! nat (active_terminal s))\<lparr>curr_task := int i\<rparr>] \<and>
    pcbs s' = (pcbs s)(return_pcb_parent (int i) := fresh_pcb i q s) \<and>
    tlb_user s' = user_frame (int i) OR 0x87 \<and> tss_esp0 s' = 0x800000 - 0x8000 * of_nat i - 4 \<and> if_flag s' \<and>
    (\<forall>k < file_length s ino. mem s' (0x08048000 + k) = file_byte s ino k) \<and>
    cstr (mem s') (arg_buf s) (cmd_args cs)"
  using system_execute_run [OF assms] by blast

end
