(* ===== verification/Scheduler.thy ===== *)
theory Scheduler
  imports Execute
begin

text \<open>
  The round-robin scheduler of \<open>student-distrib/scheduler.c\<close> and the timer interrupt
  of \<open>pit.c\<close> that calls it.  The handler runs on the kernel stack of the interrupted
  process; saving and loading \<open>ebp\<close> and \<open>esp\<close> is the context switch.
  The lemmas also cover \<open>switch_terminal\<close>: a terminal's screen and a process's
  registers come back unchanged when it is selected again.
\<close>

section \<open>Definitions\<close>

definition kernel_pcb :: "int \<Rightarrow> u32" where
  "kernel_pcb num = 0x800000 - (1 + word_of_int num) * 0x8000"

definition switch_task :: "int \<Rightarrow> kstate \<Rightarrow> (u32 \<times> kstate) option" where
  "switch_task num s = do {
     next \<leftarrow> check_tasks num s;
     if next = -1 then Some (-1, s)
     else Some (0, s\<lparr>curr_process := kernel_pcb next\<rparr>) }"

definition scheduler_handler :: "kstate \<Rightarrow> kstate option" where
  "scheduler_handler s = do {
     let s = send_eoi 0 s;
     let num = get_main_process s;
     let save_process = kernel_pcb num;
     (r, s) \<leftarrow> switch_task num s;
     if r = -1 then Some s
     else do {
       let s = set_main_process (pid (pcbs s (curr_process s))) s;
       let s = s\<lparr>pcbs := (pcbs s)(save_process :=
                  (pcbs s save_process)\<lparr>pit_ebp := reg_ebp s, pit_esp := reg_esp s\<rparr>)\<rparr>;
       let next_pid = pid (pcbs s (curr_process s));
       let s = map_page (user_frame next_pid) 0x8000000 s;
       vid_mem \<leftarrow> get_vid_mem s;
       let s = map_vid (of_nat vid_mem) s;
       let s = s\<lparr>tss := (tss s)\<lparr>ts_ss0 := 0x18, ts_esp0 := 0x800000 - 0x8000 * word_of_int next_pid - 4\<rparr>\<rparr>;
       Some (s\<lparr>reg_ebp := pit_ebp (pcbs s (curr_process s)),
               reg_esp := pit_esp (pcbs s (curr_process s))\<rparr>) } }"

definition scheduler_init :: "kstate \<Rightarrow> kstate" where
  "scheduler_init s = s\<lparr>curr_process := 0\<rparr>"

definition pit_handler :: "kstate \<Rightarrow> kstate option" where
  "pit_handler s = scheduler_handler s"



section \<open>Switching terminals\<close>

definition term_page :: "nat \<Rightarrow> addr" where
  "term_page i = VIDEO + UNIT_4_KB * (i + 1)"

lemma switch_terminal_eq:
  assumes ok: "terms_ok s" and a: "active_terminal s = int a" and t: "t < 3" "t \<noteq> a"
    and live: "curr_task (terminals s ! t) \<noteq> -1"
  defines "m1 \<equiv> blit (mem s) (term_page a) (bytes_at (mem s) VIDEO 4096)"
  shows "switch_terminal (int t) s = Some (Ret 0, s\<lparr>if_flag := True, text_color := 7,
     active_terminal := int t, screen_x := x_cursor (terminals s ! t), screen_y := y_cursor (terminals s ! t),
     mem := blit m1 VIDEO (bytes_at m1 (term_page t) 4096)\<rparr>)"
proof -
  have a3: "a < 3" and len: "length (terminals s) = 3"
    and pages: "video_addr (terminals s ! a) = term_page a" "video_addr (terminals s ! t) = term_page t"
    using ok a t by (auto simp: terms_ok_def term_page_def)
  have u: "to_u8 (int t) = int t" using t by (simp add: to_u8_id)
  have save: "memcpy (term_page a) VIDEO 4096 (mem s) = (term_page a, m1)"
    unfolding m1_def by (rule memcpy_blit) (simp add: term_page_def UNIT_4_KB_def)
  have load: "memcpy VIDEO (term_page t) 4096 m1 = (VIDEO, blit m1 VIDEO (bytes_at m1 (term_page t) 4096))"
    by (rule memcpy_blit) (simp add: term_page_def)
  show ?thesis
    using a a3 t len live
    by (simp add: switch_terminal_def switch_restore_def Let_def cli_def sti_def cycle_text_color_def
        x_set_screen_def y_set_screen_def pages save load u)
qed

lemma term_pages_disjoint:
  "i < 3 \<Longrightarrow> disjoint_rng (term_page i) 4096 VIDEO 4096"
  "i \<noteq> j \<Longrightarrow> disjoint_rng (term_page i) 4096 (term_page j) 4096"
  by (auto simp: term_page_def disjoint_rng_def UNIT_4_KB_def)

text \<open>Leaving a terminal and coming back to it shows the screen it had, if its page was left
  alone meanwhile.\<close>

lemma switch_terminal_back:
  assumes ok: "terms_ok s" and a: "active_terminal s = int a" and t: "t < 3" "t \<noteq> a"
    and live: "curr_task (terminals s ! t) \<noteq> -1"
    and s1: "switch_terminal (int t) s = Some (Ret 0, s1)"
    and ok': "terms_ok s1'" and a': "active_terminal s1' = int t" "curr_task (terminals s1' ! a) \<noteq> -1"
    and kept: "bytes_at (mem s1') (term_page a) 4096 = bytes_at (mem s1) (term_page a) 4096"
  shows "\<exists>s2. switch_terminal (int a) s1' = Some (Ret 0, s2) \<and> active_terminal s2 = int a \<and>
    bytes_at (mem s2) VIDEO 4096 = bytes_at (mem s) VIDEO 4096"
proof -
  let ?screen = "bytes_at (mem s) VIDEO 4096"
  let ?m1 = "blit (mem s) (term_page a) ?screen"
  let ?m2 = "blit (mem s1') (term_page t) (bytes_at (mem s1') VIDEO 4096)"
  have a3: "a < 3" using ok a by (simp add: terms_ok_def)
  have m1: "mem s1 = blit ?m1 VIDEO (bytes_at ?m1 (term_page t) 4096)"
    using switch_terminal_eq [OF ok a t live] s1 by simp
  have "bytes_at (mem s1) (term_page a) 4096 = bytes_at ?m1 (term_page a) 4096"
    unfolding m1 using term_pages_disjoint(1) [OF a3]
    by (intro bytes_at_blit_other) (auto simp: disjoint_rng_def)
  also have "\<dots> = ?screen" using bytes_at_blit_same [of "mem s" "term_page a" ?screen] by simp
  finally have saved: "bytes_at (mem s1') (term_page a) 4096 = ?screen" using kept by simp
  have "bytes_at ?m2 (term_page a) 4096 = bytes_at (mem s1') (term_page a) 4096"
    using term_pages_disjoint(2) [OF t(2)] by (intro bytes_at_blit_other) simp
  with saved have "bytes_at (blit ?m2 VIDEO (bytes_at ?m2 (term_page a) 4096)) VIDEO 4096 = ?screen"
    using bytes_at_blit_same [of ?m2 VIDEO ?screen] by simp
  with switch_terminal_eq [OF ok' a'(1) a3 t(2) [symmetric] a'(2)] show ?thesis by simp
qed


section \<open>The context switch\<close>

lemma kernel_pcb_eq: "kernel_pcb p = return_pcb_parent p"
  by (simp add: kernel_pcb_def return_pcb_parent_def)

lemma check_tasks_eoi: "check_tasks num (send_eoi n s) = check_tasks num s"
proof -
  have "check_from i k (send_eoi n s) = check_from i k s" for i k
  proof (induction i k s rule: check_from.induct)
    case (1 i k s)
    then show ?case
      by (subst (1 2) check_from.simps) (cases "aget (terminals s) (c_mod (k + i) 3)"; simp)
  qed
  then show ?thesis by (simp add: check_tasks_def)
qed


lemma map_vid_simps [simp]:
  "process_num (map_vid f s) = process_num s" "terminals (map_vid f s) = terminals s"
  "pcbs (map_vid f s) = pcbs s" "main_process (map_vid f s) = main_process s"
  "active_terminal (map_vid f s) = active_terminal s" "tlb_user (map_vid f s) = page_dir s 32"
  "curr_process (map_vid f s) = curr_process s"
  by (simp_all add: map_vid_def page_access_def Let_def)

lemma map_page_curr [simp]: "curr_process (map_page f v s) = curr_process s"
  by (simp add: map_page_def page_access_def Let_def)

lemma get_vid_mem_Some:
  assumes "aget (process_num s) (main_process s) = Some (int k)" and "k < 3" and "length (terminals s) = 3"
  shows "\<exists>v. get_vid_mem s = Some v"
  using assms by (simp add: get_vid_mem_def main_terminal_def)

lemma scheduler_switch:
  assumes nxt: "check_tasks (int p) s = Some (int q)" and main: "main_process s = int p"
    and pq: "p < 6" "q < 6" "p \<noteq> q" and pidq: "pid (pcbs s (return_pcb_parent (int q))) = int q"
    and own: "aget (process_num s) (int q) = Some (int k)" "k < 3" and len: "length (terminals s) = 3"
  shows "\<exists>s'. scheduler_handler s = Some s' \<and> main_process s' = int q \<and>
    pcbs s' = (pcbs s)(return_pcb_parent (int p) :=
       (pcbs s (return_pcb_parent (int p)))\<lparr>pit_ebp := reg_ebp s, pit_esp := reg_esp s\<rparr>) \<and>
    reg_ebp s' = pit_ebp (pcbs s (return_pcb_parent (int q))) \<and>
    reg_esp s' = pit_esp (pcbs s (return_pcb_parent (int q))) \<and>
    tlb_user s' = user_frame (int q) OR 0x87 \<and> tss_esp0 s' = 0x800000 - 0x8000 * of_nat q - 4 \<and>
    process_num s' = process_num s \<and> terminals s' = terminals s"
proof -
  have ne: "return_pcb_parent (int q) \<noteq> return_pcb_parent (int p)" using pcb_inj [of q p] pq by simp
  have q0: "int q \<noteq> -1" by simp
  have ct: "check_tasks (int p) (send_eoi 0 s) = Some (int q)" by (simp add: check_tasks_eoi nxt)
  define s1 where "s1 = (send_eoi 0 s)\<lparr>curr_process := return_pcb_parent (int q)\<rparr>"
  define s2 where "s2 = s1\<lparr>main_process := int q, pcbs := (pcbs s)(return_pcb_parent (int p) :=
       (pcbs s (return_pcb_parent (int p)))\<lparr>pit_ebp := reg_ebp s, pit_esp := reg_esp s\<rparr>)\<rparr>"
  define s3 where "s3 = map_page (user_frame (int q)) 0x8000000 s2"
  have sw: "switch_task (int p) (send_eoi 0 s) = Some (0, s1)"
    using ct q0 by (simp add: switch_task_def s1_def kernel_pcb_eq)
  have f3: "main_process s3 = int q" "process_num s3 = process_num s" "terminals s3 = terminals s"
    "pcbs s3 = pcbs s2" "curr_process s3 = return_pcb_parent (int q)" "page_dir s3 32 = user_frame (int q) OR 0x87"
    by (simp_all add: s3_def s2_def s1_def map_page_user)
  obtain v where v: "get_vid_mem s3 = Some v"
    using get_vid_mem_Some [of s3 k] own len f3 by auto
  have q8: "to_u8 (int q) = int q" using pq by (simp add: to_u8_id)
  have f1: "curr_process s1 = return_pcb_parent (int q)" "pcbs s1 = pcbs s" "reg_ebp s1 = reg_ebp s"
    "reg_esp s1 = reg_esp s" by (simp_all add: s1_def)
  have "scheduler_handler s = Some ((map_vid (of_nat v) s3)\<lparr>tss := (tss (map_vid (of_nat v) s3))\<lparr>ts_ss0 := 0x18,
      ts_esp0 := 0x800000 - 0x8000 * of_nat q - 4\<rparr>,
      reg_ebp := pit_ebp (pcbs s (return_pcb_parent (int q))), reg_esp := pit_esp (pcbs s (return_pcb_parent (int q)))\<rparr>)"
    unfolding scheduler_handler_def Let_def get_main_process_def send_eoi_simps main kernel_pcb_eq sw set_main_process_def
    using v ne pidq f3(4,5) by (simp add: f1 q8 flip: s2_def s3_def)
  with f3 show ?thesis by (simp add: s2_def)
qed

lemma scheduler_idle:
  assumes "check_tasks (main_process s) s = Some (-1)"
  shows "scheduler_handler s = Some (send_eoi 0 s)"
  using assms by (simp add: scheduler_handler_def switch_task_def get_main_process_def check_tasks_eoi)

text \<open>Two live terminals: after two ticks the first process runs again with the registers it
  was interrupted with, on its own page.\<close>

lemma scheduler_round_trip:
  assumes main: "main_process s = int p" and pq: "p < 6" "q < 6" "p \<noteq> q"
    and pids: "pid (pcbs s (return_pcb_parent (int p))) = int p" "pid (pcbs s (return_pcb_parent (int q))) = int q"
    and own: "aget (process_num s) (int p) = Some (int j)" "j < 3" "aget (process_num s) (int q) = Some (int k)" "k < 3"
    and len: "length (terminals s) = 3"
    and go: "check_tasks (int p) s = Some (int q)" "scheduler_handler s = Some s1"
    and run: "main_process s1' = int q" "pcbs s1' = pcbs s1" "process_num s1' = process_num s1"
      "terminals s1' = terminals s1" "check_tasks (int q) s1' = Some (int p)"
  shows "\<exists>s2. scheduler_handler s1' = Some s2 \<and> main_process s2 = int p \<and> reg_ebp s2 = reg_ebp s \<and>
    reg_esp s2 = reg_esp s \<and> tlb_user s2 = user_frame (int p) OR 0x87"
proof -
  from scheduler_switch [OF go(1) main pq pids(2) own(3,4) len] go(2)
  have s1: "pcbs s1 = (pcbs s)(return_pcb_parent (int p) :=
       (pcbs s (return_pcb_parent (int p)))\<lparr>pit_ebp := reg_ebp s, pit_esp := reg_esp s\<rparr>)"
    "process_num s1 = process_num s" "terminals s1 = terminals s" by auto
  have "pid (pcbs s1' (return_pcb_parent (int p))) = int p" using run(2) s1(1) pids(1) by simp
  from scheduler_switch [OF run(5,1) pq(2,1) pq(3) [symmetric] this, of j] own(1,2) len run s1
  show ?thesis by auto
qed

end
