(* ===== verification/Idt.thy ===== *)
theory Idt
  imports Keyboard Scheduler
begin

text \<open>
  The interrupt descriptor table of \<open>student-distrib/idt.c\<close>, the exception handlers,
  and the dispatch of an interrupt to the handler whose address its gate holds.  Handler
  addresses are fixed by the linker: a function \<open>haddr\<close> from handler names.  The
  theorems state which vectors are present, which one user code may call, and that the two
  halves of an offset give back the handler.
\<close>

section \<open>Handlers\<close>

datatype handler = DIVIDE_BY_ZERO | DB | NMI | BP | OF | BR | UD | NM | DF | CSO | TS | NP | SS | GP
  | PF | MF | AC | MC | XF | DEFAULT | syscall_wrapper | rtc_wrapper | keyboard_wrapper | pit_wrapper

text \<open>Print the message, halt the process with 255, never return.\<close>

definition exception_halt :: "string \<Rightarrow> kstate \<Rightarrow> (outcome \<times> kstate) option" where
  "exception_halt msg s = do {
     (n, s) \<leftarrow> printf (rodata s msg) [] s;
     system_halt 255 s }"

definition EXC_DIVIDE_BY_ZERO :: "kstate \<Rightarrow> (outcome \<times> kstate) option" where
  "EXC_DIVIDE_BY_ZERO s = exception_halt ''DIVIDE BY ZERO EXCEPTION\<newline>'' s"

definition EXC_DB :: "kstate \<Rightarrow> (outcome \<times> kstate) option" where
  "EXC_DB s = exception_halt ''DEBUG EXCEPTION\<newline>'' s"

definition EXC_NMI :: "kstate \<Rightarrow> (outcome \<times> kstate) option" where
  "EXC_NMI s = exception_halt ''NMI EXCEPTION\<newline>'' s"

definition EXC_BP :: "kstate \<Rightarrow> (outcome \<times> kstate) option" where
  "EXC_BP s = exception_halt ''BREAKPOINT_KGDB\<newline>'' s"

definition EXC_OF :: "kstate \<Rightarrow> (outcome \<times> kstate) option" where
  "EXC_OF s = exception_halt ''NMI OVERFLOW_EXCEPTION\<newline>'' s"

definition EXC_BR :: "kstate \<Rightarrow> (outcome \<times> kstate) option" where
  "EXC_BR s = exception_halt ''BOUND Range Exceeded Exception\<newline>'' s"

definition EXC_UD :: "kstate \<Rightarrow> (outcome \<times> kstate) option" where
  "EXC_UD s = exception_halt ''Invalid Opcode Exception\<newline>'' s"

definition EXC_NM :: "kstate \<Rightarrow> (outcome \<times> kstate) option" where
  "EXC_NM s = exception_halt ''Device Not Available Exception\<newline>'' s"

definition EXC_DF :: "kstate \<Rightarrow> (outcome \<times> kstate) option" where
  "EXC_DF s = exception_halt ''Double Fault Exception \<newline>'' s"

definition EXC_CSO :: "kstate \<Rightarrow> (outcome \<times> kstate) option" where
  "EXC_CSO s = exception_halt ''Coprocessor Segment Overrun\<newline>'' s"

definition EXC_TS :: "kstate \<Rightarrow> (outcome \<times> kstate) option" where
  "EXC_TS s = exception_halt ''Invalid TSS Exception\<newline>'' s"

definition EXC_NP :: "kstate \<Rightarrow> (outcome \<times> kstate) option" where
  "EXC_NP s = exception_halt ''Segment Not Present \<newline>'' s"

definition EXC_SS :: "kstate \<Rightarrow> (outcome \<times> kstate) option" where
  "EXC_SS s = exception_halt ''Stack Fault Exception\<newline>'' s"

definition EXC_GP :: "kstate \<Rightarrow> (outcome \<times> kstate) option" where
  "EXC_GP s = exception_halt ''General Protection Exception\<newline>'' s"

definition EXC_PF :: "kstate \<Rightarrow> (outcome \<times> kstate) option" where
  "EXC_PF s = exception_halt ''Page-Fault Exception\<newline>'' s"

definition EXC_MF :: "kstate \<Rightarrow> (outcome \<times> kstate) option" where
  "EXC_MF s = exception_halt ''FPU Floating-Point Error\<newline>'' s"

definition EXC_AC :: "kstate \<Rightarrow> (outcome \<times> kstate) option" where
  "EXC_AC s = exception_halt ''Alignment Check Exception\<newline>'' s"

definition EXC_MC :: "kstate \<Rightarrow> (outcome \<times> kstate) option" where
  "EXC_MC s = exception_halt ''Machine-Check Exception \<newline>'' s"

definition EXC_XF :: "kstate \<Rightarrow> (outcome \<times> kstate) option" where
  "EXC_XF s = exception_halt ''SIMD Floating-Point Exception \<newline>'' s"

text \<open>The default handler spins for ever in the state it gives.\<close>

definition EXC_DEFAULT :: "kstate \<Rightarrow> kstate option" where
  "EXC_DEFAULT s = do {
     (n, s) \<leftarrow> printf (rodata s ''default \<newline>'') [] (cli s);
     Some (sti s) }"


section \<open>The table\<close>

definition SET_IDT_ENTRY :: "nat \<Rightarrow> u32 \<Rightarrow> kstate \<Rightarrow> kstate" where
  "SET_IDT_ENTRY i handler s =
     s\<lparr>idt := (idt s)(i := (idt s i)\<lparr>offset_31_16 := ucast (drop_bit 16 (handler AND 0xFFFF0000)),
                                  offset_15_00 := ucast (handler AND 0xFFFF)\<rparr>)\<rparr>"

definition init_gate :: "nat \<Rightarrow> idt_desc_t \<Rightarrow> idt_desc_t" where
  "init_gate i d =
     (let d = d\<lparr>seg_selector := 0x10, dpl := 0, present := False, size_bit := True,
                reserved0 := False, reserved1 := True, reserved2 := True, reserved3 := False,
                reserved4 := 0\<rparr>
      in if i < 20 \<or> i = 33 \<or> i = 0x80 \<or> i = 0x28 \<or> i = 0x20 then d\<lparr>present := True\<rparr> else d)"

definition init_idt :: "(handler \<Rightarrow> u32) \<Rightarrow> kstate \<Rightarrow> kstate" where
  "init_idt haddr s =
     (let s = s\<lparr>idt := (\<lambda>i. if i < 256 then init_gate i (idt s i) else idt s i)\<rparr>;
          s = s\<lparr>idt := (idt s)(0x80 := (idt s 0x80)\<lparr>dpl := 3\<rparr>)\<rparr>;
          s = SET_IDT_ENTRY 0 (haddr DIVIDE_BY_ZERO) s;
          s = SET_IDT_ENTRY 1 (haddr DB) s;
          s = SET_IDT_ENTRY 2 (haddr NMI) s;
          s = SET_IDT_ENTRY 3 (haddr BP) s;
          s = SET_IDT_ENTRY 4 (haddr OF) s;
          s = SET_IDT_ENTRY 5 (haddr BR) s;
          s = SET_IDT_ENTRY 6 (haddr UD) s;
          s = SET_IDT_ENTRY 7 (haddr NM) s;
          s = SET_IDT_ENTRY 8 (haddr DF) s;
          s = SET_IDT_ENTRY 9 (haddr CSO) s;
          s = SET_IDT_ENTRY 10 (haddr TS) s;
          s = SET_IDT_ENTRY 11 (haddr NP) s;
          s = SET_IDT_ENTRY 12 (haddr SS) s;
          s = SET_IDT_ENTRY 13 (haddr GP) s;
          s = SET_IDT_ENTRY 14 (haddr PF) s;
          s = SET_IDT_ENTRY 15 (haddr DEFAULT) s;
          s = SET_IDT_ENTRY 16 (haddr MF) s;
          s = SET_IDT_ENTRY 17 (haddr AC) s;
          s = SET_IDT_ENTRY 18 (haddr MC) s;
          s = SET_IDT_ENTRY 19 (haddr XF) s;
          s = SET_IDT_ENTRY 0x80 (haddr syscall_wrapper) s;
          s = SET_IDT_ENTRY 0x28 (haddr rtc_wrapper) s;
          s = SET_IDT_ENTRY 33 (haddr keyboard_wrapper) s
      in SET_IDT_ENTRY 0x20 (haddr pit_wrapper) s)"


section \<open>Lemmas\<close>

text \<open>The address a gate leads to.\<close>

definition gate_offset :: "idt_desc_t \<Rightarrow> u32" where
  "gate_offset d = push_bit 16 (ucast (offset_31_16 d)) OR ucast (offset_15_00 d)"

lemma gate_halves:
  fixes h :: u32
  shows "push_bit 16 (ucast (ucast (drop_bit 16 (h AND 0xFFFF0000)) :: u16)) OR ucast (ucast (h AND 0xFFFF) :: u16) = h"
proof -
  have m: "(0xFFFF :: u32) = mask 16" "(0xFFFF0000 :: u32) = NOT (mask 16)" by (simp_all add: mask_numeral)
  show ?thesis unfolding m by (rule bit_word_eqI) (auto simp: bit_simps not_le)
qed

lemma gate_offset_set:
  "gate_offset (d\<lparr>offset_31_16 := ucast (drop_bit 16 (h AND 0xFFFF0000)), offset_15_00 := ucast (h AND 0xFFFF)\<rparr>) = h"
proof -
  have o': "offset_31_16 (d\<lparr>offset_31_16 := x, offset_15_00 := y\<rparr>) = x"
    "offset_15_00 (d\<lparr>offset_31_16 := x, offset_15_00 := y\<rparr>) = y" for x y by simp_all
  show ?thesis unfolding gate_offset_def o' gate_halves ..
qed

definition vector_handler :: "nat \<Rightarrow> handler option" where
  "vector_handler v =
     (if v < 20 then Some ([DIVIDE_BY_ZERO, DB, NMI, BP, OF, BR, UD, NM, DF, CSO, TS, NP, SS, GP, PF,
        DEFAULT, MF, AC, MC, XF] ! v)
      else if v = 0x20 then Some pit_wrapper else if v = 33 then Some keyboard_wrapper
      else if v = 0x28 then Some rtc_wrapper else if v = 0x80 then Some syscall_wrapper else None)"

lemma idt_set: "idt (SET_IDT_ENTRY i h s) =
   (idt s)(i := (idt s i)\<lparr>offset_31_16 := ucast (drop_bit 16 (h AND 0xFFFF0000)), offset_15_00 := ucast (h AND 0xFFFF)\<rparr>)"
  by (simp add: SET_IDT_ENTRY_def)

text \<open>Setting an offset leaves the other fields.\<close>

lemma set_gate:
  "present (idt (SET_IDT_ENTRY i h s) v) = present (idt s v)" "dpl (idt (SET_IDT_ENTRY i h s) v) = dpl (idt s v)"
  "seg_selector (idt (SET_IDT_ENTRY i h s) v) = seg_selector (idt s v)"
  "gate_offset (idt (SET_IDT_ENTRY i h s) v) = (if v = i then h else gate_offset (idt s v))"
  unfolding idt_set by (simp_all only: fun_upd_apply if_distrib [of gate_offset] gate_offset_set) simp_all

lemma init_idt_gate:
  assumes "v < 256"
  shows "present (idt (init_idt haddr s) v) \<longleftrightarrow> vector_handler v \<noteq> None"
    and "dpl (idt (init_idt haddr s) v) = (if v = 0x80 then 3 else 0)"
    and "seg_selector (idt (init_idt haddr s) v) = 0x10"
  using assms by (auto simp: init_idt_def Let_def set_gate init_gate_def vector_handler_def)

lemma init_idt_offset:
  assumes "vector_handler v = Some h"
  shows "gate_offset (idt (init_idt haddr s) v) = haddr h"
proof -
  have "v < 20 \<Longrightarrow> v \<in> {0, 1, 2, 3, 4, 5, 6, 7, 8, 9, 10, 11, 12, 13, 14, 15, 16, 17, 18, 19}"
    unfolding insert_iff empty_iff by presburger
  with assms show ?thesis
    by (auto simp: vector_handler_def init_idt_def Let_def set_gate split: if_splits)
qed

end
