(* ===== verification/Descriptors.thy ===== *)
theory Descriptors
  imports Kernel_State
begin

text \<open>
  The descriptor tables: \<open>x86_desc.S\<close>, which lays out the GDT and the task state segment, and the
  macros of \<open>x86_desc.h\<close> that fill in the descriptors the kernel completes at start-up.  A segment
  descriptor is the record of its bit fields; \<open>seg_quad\<close> is the packed eight bytes the processor
  reads, \<open>seg_of_quad\<close> reads the fields back.
\<close>

section \<open>The packed layout\<close>

text \<open>The fields of a packed structure, each with its width in bits, from the lowest bit up.\<close>

fun pack :: "(nat \<times> nat) list \<Rightarrow> nat" where
  "pack [] = 0"
| "pack ((w, v) # fs) = v + 2 ^ w * pack fs"

fun unpack :: "nat list \<Rightarrow> nat \<Rightarrow> nat list" where
  "unpack [] q = []"
| "unpack (w # ws) q = q mod 2 ^ w # unpack ws (q div 2 ^ w)"

lemma unpack_pack: "\<forall>(w, v) \<in> set fs. v < 2 ^ w \<Longrightarrow> unpack (map fst fs) (pack fs) = map snd fs"
  by (induction fs rule: pack.induct) auto

lemma pack_bound: "\<forall>(w, v) \<in> set fs. v < 2 ^ w \<Longrightarrow> pack fs < 2 ^ sum_list (map fst fs)"
proof (induction fs rule: pack.induct)
  case (2 w v fs)
  then have "v < 2 ^ w" "pack fs + 1 \<le> 2 ^ sum_list (map fst fs)" by auto
  then have "v + 2 ^ w * pack fs < 2 ^ w * (pack fs + 1)" "2 ^ w * (pack fs + 1) \<le> 2 ^ w * 2 ^ sum_list (map fst fs)"
    by (simp, intro mult_left_mono) auto
  then show ?case by (simp add: power_add)
qed simp

text \<open>\<open>union { uint32_t val[2]; struct { ... } }\<close> of a segment descriptor.\<close>

definition seg_fields :: "seg_desc_t \<Rightarrow> (nat \<times> nat) list" where
  "seg_fields d = [(16, unat (seg_lim_15_00 d)), (16, unat (base_15_00 d)), (8, unat (base_23_16 d)), (4, unat (seg_type d)),
     (1, unat (seg_sys d)), (2, unat (seg_dpl d)), (1, unat (seg_present d)), (4, unat (seg_lim_19_16 d)), (1, unat (seg_avail d)),
     (1, unat (seg_reserved d)), (1, unat (seg_opsize d)), (1, unat (seg_granularity d)), (8, unat (base_31_24 d))]"

definition seg_quad :: "seg_desc_t \<Rightarrow> 64 word" where
  "seg_quad d = of_nat (pack (seg_fields d))"

definition seg_of_quad :: "64 word \<Rightarrow> seg_desc_t" where
  "seg_of_quad q = (let f = unpack [16, 16, 8, 4, 1, 2, 1, 4, 1, 1, 1, 1, 8] (unat q) in
     \<lparr>seg_lim_15_00 = of_nat (f ! 0), base_15_00 = of_nat (f ! 1), base_23_16 = of_nat (f ! 2), seg_type = of_nat (f ! 3),
      seg_sys = of_nat (f ! 4), seg_dpl = of_nat (f ! 5), seg_present = of_nat (f ! 6), seg_lim_19_16 = of_nat (f ! 7),
      seg_avail = of_nat (f ! 8), seg_reserved = of_nat (f ! 9), seg_opsize = of_nat (f ! 10),
      seg_granularity = of_nat (f ! 11), base_31_24 = of_nat (f ! 12)\<rparr>)"

text \<open>Fields within their widths.\<close>

definition seg_fits :: "seg_desc_t \<Rightarrow> bool" where
  "seg_fits d \<longleftrightarrow> list_all (\<lambda>(w, v). v < 2 ^ w) (seg_fields d)"

text \<open>What the processor makes of a descriptor: the base and the last offset.\<close>

definition seg_base :: "seg_desc_t \<Rightarrow> u32" where
  "seg_base d = ucast (base_15_00 d) OR push_bit 16 (ucast (base_23_16 d)) OR push_bit 24 (ucast (base_31_24 d))"

definition seg_limit :: "seg_desc_t \<Rightarrow> u32" where
  "seg_limit d = (let l = ucast (seg_lim_15_00 d) OR push_bit 16 (ucast (seg_lim_19_16 d))
                  in if seg_granularity d = 1 then push_bit 12 l OR 0xFFF else l)"


section \<open>The tables of x86_desc.S\<close>

text \<open>\<open>.rept 104 .byte 0\<close>.\<close>

definition tss_init :: tss_t where
  "tss_init = \<lparr>ts_prev_task_link = 0, ts_prev_task_link_pad = 0, ts_esp0 = 0, ts_ss0 = 0, ts_ss0_pad = 0, ts_esp1 = 0, ts_ss1 = 0,
     ts_ss1_pad = 0, ts_esp2 = 0, ts_ss2 = 0, ts_ss2_pad = 0, ts_cr3 = 0, ts_eip = 0, ts_eflags = 0, ts_eax = 0, ts_ecx = 0,
     ts_edx = 0, ts_ebx = 0, ts_esp = 0, ts_ebp = 0, ts_esi = 0, ts_edi = 0, ts_es = 0, ts_es_pad = 0, ts_cs = 0, ts_cs_pad = 0,
     ts_ss = 0, ts_ss_pad = 0, ts_ds = 0, ts_ds_pad = 0, ts_fs = 0, ts_fs_pad = 0, ts_gs = 0, ts_gs_pad = 0,
     ts_ldt_segment_selector = 0, ts_ldt_pad = 0, ts_debug_trap = False, ts_io_pad = 0, ts_io_base_addr = 0\<rparr>"

text \<open>The eight entries of the GDT: the last two are the variables \<open>tss_desc_ptr\<close> and \<open>ldt_desc_ptr\<close>.\<close>

definition gdt :: "kstate \<Rightarrow> 64 word list" where
  "gdt s = [0, 0, 0x00CF9A000000FFFF, 0x00CF92000000FFFF, 0x00CFFA000000FFFF, 0x00CFF2000000FFFF,
     seg_quad (tss_desc_ptr s), seg_quad (ldt_desc_ptr s)]"

text \<open>A selector: the index above the three low bits, the privilege level in the two lowest.\<close>

definition gdt_entry :: "u16 \<Rightarrow> kstate \<Rightarrow> seg_desc_t option" where
  "gdt_entry sel s = (if drop_bit 3 sel < 8 \<and> \<not> bit sel 2 then Some (seg_of_quad (gdt s ! unat (drop_bit 3 sel))) else None)"

definition KERNEL_CS :: u16 where "KERNEL_CS = 0x0010"
definition KERNEL_DS :: u16 where "KERNEL_DS = 0x0018"
definition USER_CS :: u16 where "USER_CS = 0x0023"
definition USER_DS :: u16 where "USER_DS = 0x002B"
definition KERNEL_TSS :: u16 where "KERNEL_TSS = 0x0030"
definition KERNEL_LDT :: u16 where "KERNEL_LDT = 0x0038"
definition TSS_SIZE :: u32 where "TSS_SIZE = 104"

lemmas selector_defs = KERNEL_CS_def KERNEL_DS_def USER_CS_def USER_DS_def KERNEL_TSS_def KERNEL_LDT_def


section \<open>The macros of x86_desc.h\<close>

definition SET_LDT_PARAMS :: "u32 \<Rightarrow> u32 \<Rightarrow> seg_desc_t \<Rightarrow> seg_desc_t" where
  "SET_LDT_PARAMS a lim str =
     str\<lparr>base_31_24 := ucast (drop_bit 24 (a AND 0xFF000000)),
       base_23_16 := ucast (drop_bit 16 (a AND 0x00FF0000)),
       base_15_00 := ucast (a AND 0x0000FFFF),
       seg_lim_19_16 := ucast (drop_bit 16 (lim AND 0x000F0000)),
       seg_lim_15_00 := ucast (lim AND 0x0000FFFF)\<rparr>"

definition SET_TSS_PARAMS :: "u32 \<Rightarrow> u32 \<Rightarrow> seg_desc_t \<Rightarrow> seg_desc_t" where
  "SET_TSS_PARAMS a lim str =
     str\<lparr>base_31_24 := ucast (drop_bit 24 (a AND 0xFF000000)),
       base_23_16 := ucast (drop_bit 16 (a AND 0x00FF0000)),
       base_15_00 := ucast (a AND 0x0000FFFF),
       seg_lim_19_16 := ucast (drop_bit 16 (lim AND 0x000F0000)),
       seg_lim_15_00 := ucast (lim AND 0x0000FFFF)\<rparr>"

definition ltr :: "u16 \<Rightarrow> kstate \<Rightarrow> kstate" where
  "ltr desc s = s\<lparr>reg_tr := desc\<rparr>"

definition lldt :: "u16 \<Rightarrow> kstate \<Rightarrow> kstate" where
  "lldt desc s = s\<lparr>reg_ldtr := desc\<rparr>"


section \<open>Reading back\<close>

lemma seg_of_quad_of:
  assumes "seg_fits d"
  shows "seg_of_quad (seg_quad d) = d"
proof -
  have fits: "\<forall>(w, v) \<in> set (seg_fields d). v < 2 ^ w" using assms by (auto simp: seg_fits_def list_all_iff)
  have ws: "map fst (seg_fields d) = [16, 16, 8, 4, 1, 2, 1, 4, 1, 1, 1, 1, 8]" by (simp add: seg_fields_def)
  have "pack (seg_fields d) < 2 ^ 64" using pack_bound [OF fits] by (simp add: ws)
  then have "unpack [16, 16, 8, 4, 1, 2, 1, 4, 1, 1, 1, 1, 8] (unat (seg_quad d)) = map snd (seg_fields d)"
    using unpack_pack [OF fits] by (simp add: seg_quad_def ws unat_of_nat del: unpack.simps)
  then show ?thesis unfolding seg_of_quad_def Let_def by (simp add: seg_fields_def del: unpack.simps)
qed

lemma flat_segments:
  "gdt_entry KERNEL_CS s = Some (seg_of_quad 0x00CF9A000000FFFF)" "gdt_entry KERNEL_DS s = Some (seg_of_quad 0x00CF92000000FFFF)"
  "gdt_entry USER_CS s = Some (seg_of_quad 0x00CFFA000000FFFF)" "gdt_entry USER_DS s = Some (seg_of_quad 0x00CFF2000000FFFF)"
  "gdt_entry KERNEL_TSS s = Some (seg_of_quad (seg_quad (tss_desc_ptr s)))"
  "gdt_entry KERNEL_LDT s = Some (seg_of_quad (seg_quad (ldt_desc_ptr s)))"
  by (simp_all add: gdt_entry_def selector_defs gdt_def bit_simps)

lemma flat_fields:
  "seg_base (seg_of_quad 0x00CF9A000000FFFF) = 0" "seg_limit (seg_of_quad 0x00CF9A000000FFFF) = 0xFFFFFFFF"
  "seg_present (seg_of_quad 0x00CF9A000000FFFF) = 1" "seg_sys (seg_of_quad 0x00CF9A000000FFFF) = 1" "seg_dpl (seg_of_quad 0x00CF9A000000FFFF) = 0"
  "seg_base (seg_of_quad 0x00CF92000000FFFF) = 0" "seg_limit (seg_of_quad 0x00CF92000000FFFF) = 0xFFFFFFFF"
  "seg_present (seg_of_quad 0x00CF92000000FFFF) = 1" "seg_sys (seg_of_quad 0x00CF92000000FFFF) = 1" "seg_dpl (seg_of_quad 0x00CF92000000FFFF) = 0"
  "seg_base (seg_of_quad 0x00CFFA000000FFFF) = 0" "seg_limit (seg_of_quad 0x00CFFA000000FFFF) = 0xFFFFFFFF"
  "seg_present (seg_of_quad 0x00CFFA000000FFFF) = 1" "seg_sys (seg_of_quad 0x00CFFA000000FFFF) = 1" "seg_dpl (seg_of_quad 0x00CFFA000000FFFF) = 3"
  "seg_base (seg_of_quad 0x00CFF2000000FFFF) = 0" "seg_limit (seg_of_quad 0x00CFF2000000FFFF) = 0xFFFFFFFF"
  "seg_present (seg_of_quad 0x00CFF2000000FFFF) = 1" "seg_sys (seg_of_quad 0x00CFF2000000FFFF) = 1" "seg_dpl (seg_of_quad 0x00CFF2000000FFFF) = 3"
  by (simp_all add: seg_base_def seg_limit_def seg_of_quad_def Let_def)

lemma low_bits: "(a :: u32) AND 0xFFFF = take_bit 16 a" "(a :: u32) AND 0xFF = take_bit 8 a" "(a :: u32) AND 0xF = take_bit 4 a"
  by (simp_all add: take_bit_eq_mask mask_eq_exp_minus_1)

lemma field_bits:
  "drop_bit 24 (a AND 0xFF000000) = take_bit 8 (drop_bit 24 (a :: u32))" "drop_bit 16 (a AND 0xFF0000) = take_bit 8 (drop_bit 16 (a :: u32))"
  "drop_bit 16 (a AND 0xF0000) = take_bit 4 (drop_bit 16 (a :: u32))"
  by (simp_all add: drop_bit_and low_bits)

lemmas set_params = SET_LDT_PARAMS_def SET_TSS_PARAMS_def low_bits field_bits

lemma join_base:
  "(ucast (ucast (take_bit 16 a) :: u16) :: u32) OR push_bit 16 (ucast (ucast (take_bit 8 (drop_bit 16 a)) :: u8)) OR
     push_bit 24 (ucast (ucast (take_bit 8 (drop_bit 24 a)) :: u8)) = a"
proof (rule bit_word_eqI)
  fix n assume n: "n < LENGTH(32)"
  consider "n < 16" | m where "n = 16 + m" "m < 8" | m where "n = 24 + m" "m < 8"
  proof -
    have "n < 16 \<or> n = 16 + (n - 16) \<and> n - 16 < 8 \<or> n = 24 + (n - 24) \<and> n - 24 < 8" using n by simp linarith
    then show ?thesis using that by blast
  qed
  then show "bit ((ucast (ucast (take_bit 16 a) :: u16) :: u32) OR push_bit 16 (ucast (ucast (take_bit 8 (drop_bit 16 a)) :: u8)) OR
     push_bit 24 (ucast (ucast (take_bit 8 (drop_bit 24 a)) :: u8))) n = bit a n"
    by cases (simp_all add: bit_simps)
qed

lemma join_limit:
  assumes "(lim :: u32) < 2 ^ 20"
  shows "ucast (ucast (take_bit 16 lim) :: u16) OR push_bit 16 (ucast (ucast (take_bit 4 (drop_bit 16 lim)) :: u8)) = lim"
proof (rule bit_word_eqI)
  fix n assume n: "n < LENGTH(32)"
  have "take_bit 20 lim = lim" using assms by (simp add: take_bit_eq_mod mod_word_less)
  then have b: "\<not> bit lim n" if "20 \<le> n" for n using that by (metis bit_take_bit_iff not_less)
  consider "n < 16" | m where "n = 16 + m" "m < 4" | "20 \<le> n"
  proof -
    have "n < 16 \<or> n = 16 + (n - 16) \<and> n - 16 < 4 \<or> 20 \<le> n" by linarith
    then show ?thesis using that by blast
  qed
  then show "bit (ucast (ucast (take_bit 16 lim) :: u16) OR push_bit 16 (ucast (ucast (take_bit 4 (drop_bit 16 lim)) :: u8)) :: u32) n = bit lim n"
    by cases (use n in \<open>simp_all add: bit_simps b\<close>)
qed

lemma params_base: "seg_base (SET_LDT_PARAMS a lim d) = a" "seg_base (SET_TSS_PARAMS a lim d) = a"
  using join_base [of a] by (simp_all add: set_params seg_base_def)

lemma params_limit:
  assumes "lim < 2 ^ 20" "seg_granularity d = 0"
  shows "seg_limit (SET_LDT_PARAMS a lim d) = lim" "seg_limit (SET_TSS_PARAMS a lim d) = lim"
  using join_limit [OF assms(1)] assms(2) by (simp_all add: set_params seg_limit_def)

lemma params_fields:
  "seg_type (SET_LDT_PARAMS a lim d) = seg_type d" "seg_sys (SET_LDT_PARAMS a lim d) = seg_sys d"
  "seg_dpl (SET_LDT_PARAMS a lim d) = seg_dpl d" "seg_present (SET_LDT_PARAMS a lim d) = seg_present d"
  "seg_type (SET_TSS_PARAMS a lim d) = seg_type d" "seg_sys (SET_TSS_PARAMS a lim d) = seg_sys d"
  "seg_dpl (SET_TSS_PARAMS a lim d) = seg_dpl d" "seg_present (SET_TSS_PARAMS a lim d) = seg_present d"
  by (simp_all add: SET_LDT_PARAMS_def SET_TSS_PARAMS_def)

lemma params_fits:
  assumes "list_all (\<lambda>(w, v). v < 2 ^ w) [(4, unat (seg_type d)), (1, unat (seg_sys d)), (2, unat (seg_dpl d)),
     (1, unat (seg_present d)), (1, unat (seg_avail d)), (1, unat (seg_reserved d)), (1, unat (seg_opsize d)), (1, unat (seg_granularity d))]"
  shows "seg_fits (SET_LDT_PARAMS a lim d)" "seg_fits (SET_TSS_PARAMS a lim d)"
proof -
  have "unat (take_bit 4 (drop_bit 16 lim)) < 2 ^ 4" unfolding unsigned_take_bit_eq by (rule take_bit_nat_less_exp)
  moreover have "unat (ucast w :: u8) \<le> unat w" for w :: u32 by (simp add: unsigned_ucast_eq)
  ultimately have "unat (ucast (take_bit 4 (drop_bit 16 lim)) :: u8) < 16" using le_less_trans by fastforce
  moreover have b8: "unat (x :: u8) < 256" for x using unsigned_less [of x, where ?'a = nat] by simp
  moreover have b16: "unat (x :: u16) < 65536" for x using unsigned_less [of x, where ?'a = nat] by simp
  ultimately show "seg_fits (SET_LDT_PARAMS a lim d)" "seg_fits (SET_TSS_PARAMS a lim d)"
    using assms b8 b16 by (auto simp: seg_fits_def seg_fields_def set_params)
qed

end
