(* ===== verification/Kernel.thy ===== *)
theory Kernel
  imports Idt Descriptors
begin

text \<open>
  The C entry point of the kernel, \<open>student-distrib/kernel.c\<close>: the report of the
  Multiboot information, the descriptors of the LDT and the TSS, and the start-up sequence
  that ends in the first shell.  The Multiboot structures of \<open>multiboot.h\<close> are records, loaded
  from memory.
\<close>

section \<open>Multiboot structures\<close>

record elf_section_header_table_t =
  elf_num :: u32
  elf_size :: u32
  elf_addr :: u32
  elf_shndx :: u32

record multiboot_info_t =
  mbi_flags :: u32
  mem_lower :: u32
  mem_upper :: u32
  boot_device :: u32
  cmdline :: u32
  mods_count :: u32
  mods_addr :: u32
  elf_sec :: elf_section_header_table_t
  mmap_length :: u32
  mmap_addr :: u32

record module_t =
  mod_start :: u32
  mod_end :: u32
  mod_string :: u32
  mod_reserved :: u32

record memory_map_t =
  mmap_size :: u32
  base_addr_low :: u32
  base_addr_high :: u32
  length_low :: u32
  length_high :: u32
  mmap_type :: u32

text \<open>The structure at an address: its words one after the other.\<close>

definition multiboot_info :: "mem \<Rightarrow> addr \<Rightarrow> multiboot_info_t" where
  "multiboot_info m a =
     \<lparr>mbi_flags = ld32 m a, mem_lower = ld32 m (a + 4), mem_upper = ld32 m (a + 8), boot_device = ld32 m (a + 12),
      cmdline = ld32 m (a + 16), mods_count = ld32 m (a + 20), mods_addr = ld32 m (a + 24),
      elf_sec = \<lparr>elf_num = ld32 m (a + 28), elf_size = ld32 m (a + 32), elf_addr = ld32 m (a + 36), elf_shndx = ld32 m (a + 40)\<rparr>,
      mmap_length = ld32 m (a + 44), mmap_addr = ld32 m (a + 48)\<rparr>"

definition boot_module :: "mem \<Rightarrow> addr \<Rightarrow> module_t" where
  "boot_module m a =
     \<lparr>mod_start = ld32 m a, mod_end = ld32 m (a + 4), mod_string = ld32 m (a + 8), mod_reserved = ld32 m (a + 12)\<rparr>"

definition memory_map :: "mem \<Rightarrow> addr \<Rightarrow> memory_map_t" where
  "memory_map m a =
     \<lparr>mmap_size = ld32 m a, base_addr_low = ld32 m (a + 4), base_addr_high = ld32 m (a + 8), length_low = ld32 m (a + 12),
      length_high = ld32 m (a + 16), mmap_type = ld32 m (a + 20)\<rparr>"

lemma multiboot_simps [simp]:
  "mbi_flags (multiboot_info m a) = ld32 m a" "mem_lower (multiboot_info m a) = ld32 m (a + 4)"
  "mem_upper (multiboot_info m a) = ld32 m (a + 8)" "boot_device (multiboot_info m a) = ld32 m (a + 12)"
  "cmdline (multiboot_info m a) = ld32 m (a + 16)" "mods_count (multiboot_info m a) = ld32 m (a + 20)"
  "mods_addr (multiboot_info m a) = ld32 m (a + 24)" "elf_num (elf_sec (multiboot_info m a)) = ld32 m (a + 28)"
  "elf_size (elf_sec (multiboot_info m a)) = ld32 m (a + 32)" "elf_addr (elf_sec (multiboot_info m a)) = ld32 m (a + 36)"
  "elf_shndx (elf_sec (multiboot_info m a)) = ld32 m (a + 40)" "mmap_length (multiboot_info m a) = ld32 m (a + 44)"
  "mmap_addr (multiboot_info m a) = ld32 m (a + 48)" "mod_start (boot_module m b) = ld32 m b" "mod_end (boot_module m b) = ld32 m (b + 4)"
  by (simp_all add: multiboot_info_def boot_module_def)


section \<open>Multiboot report\<close>

definition CHECK_FLAG :: "u32 \<Rightarrow> nat \<Rightarrow> bool" where
  "CHECK_FLAG fl n \<longleftrightarrow> bit fl n"

definition say :: "string \<Rightarrow> u32 list \<Rightarrow> kstate \<Rightarrow> kstate option" where
  "say fmt args s = do { (n, s) \<leftarrow> printf (rodata s fmt) args s; Some s }"

text \<open>The sixteen bytes of a module, sign-extended by the conversion of \<open>char\<close>.\<close>

fun say_bytes :: "nat \<Rightarrow> addr \<Rightarrow> kstate \<Rightarrow> kstate option" where
  "say_bytes 0 a s = Some s"
| "say_bytes (Suc n) a s = do { s \<leftarrow> say ''0x%x '' [scast (mem s a)] s; say_bytes n (a + 1) s }"

partial_function (option) say_modules :: "addr \<Rightarrow> u32 \<Rightarrow> addr \<Rightarrow> kstate \<Rightarrow> kstate option" where
  "say_modules mbi mod_count md s =
     (if mod_count < mods_count (multiboot_info (mem s) mbi) then do {
        s \<leftarrow> say ''Module %d loaded at address: 0x%#x\<newline>'' [mod_count, mod_start (boot_module (mem s) md)] s;
        s \<leftarrow> say ''Module %d ends at address: 0x%#x\<newline>'' [mod_count, mod_end (boot_module (mem s) md)] s;
        let s = fs_set_start_end (unat (mod_start (boot_module (mem s) md))) (unat (mod_end (boot_module (mem s) md))) s;
        s \<leftarrow> say ''First few bytes of module:\<newline>'' [] s;
        s \<leftarrow> say_bytes 16 (unat (mod_start (boot_module (mem s) md))) s;
        s \<leftarrow> say ''\<newline>'' [] s;
        say_modules mbi (mod_count + 1) (md + 16) s }
      else Some s)"

partial_function (option) say_mmap :: "addr \<Rightarrow> u32 \<Rightarrow> kstate \<Rightarrow> kstate option" where
  "say_mmap mbi mm s =
     (if mm < mmap_addr (multiboot_info (mem s) mbi) + mmap_length (multiboot_info (mem s) mbi) then do {
        let e = memory_map (mem s) (unat mm);
        s \<leftarrow> say ''    size = 0x%x, base_addr = 0x%#x%#x\<newline>    type = 0x%x,  length    = 0x%#x%#x\<newline>''
              [mmap_size e, base_addr_high e, base_addr_low e, mmap_type e, length_high e, length_low e] s;
        say_mmap mbi (mm + mmap_size (memory_map (mem s) (unat mm)) + 4) s }
      else Some s)"

text \<open>The report; the flag says whether start-up goes on.\<close>

definition report_mbi :: "addr \<Rightarrow> kstate \<Rightarrow> (bool \<times> kstate) option" where
  "report_mbi mbi s = do {
     let i = (\<lambda>s. multiboot_info (mem s) mbi);
     s \<leftarrow> say ''flags = 0x%#x\<newline>'' [mbi_flags (i s)] s;
     s \<leftarrow> (if CHECK_FLAG (mbi_flags (i s)) 0
           then say ''mem_lower = %uKB, mem_upper = %uKB\<newline>'' [mem_lower (i s), mem_upper (i s)] s else Some s);
     s \<leftarrow> (if CHECK_FLAG (mbi_flags (i s)) 1 then say ''boot_device = 0x%#x\<newline>'' [boot_device (i s)] s else Some s);
     s \<leftarrow> (if CHECK_FLAG (mbi_flags (i s)) 2 then say ''cmdline = %s\<newline>'' [cmdline (i s)] s else Some s);
     s \<leftarrow> (if CHECK_FLAG (mbi_flags (i s)) 3 then say_modules mbi 0 (unat (mods_addr (i s))) s else Some s);
     if CHECK_FLAG (mbi_flags (i s)) 4 \<and> CHECK_FLAG (mbi_flags (i s)) 5 then do {
       s \<leftarrow> say ''Both bits 4 and 5 are set.\<newline>'' [] s;
       Some (False, s) }
     else do {
       s \<leftarrow> (if CHECK_FLAG (mbi_flags (i s)) 5
             then say ''elf_sec: num = %u, size = 0x%#x, addr = 0x%#x, shndx = 0x%#x\<newline>''
                    [elf_num (elf_sec (i s)), elf_size (elf_sec (i s)), elf_addr (elf_sec (i s)), elf_shndx (elf_sec (i s))] s
             else Some s);
       s \<leftarrow> (if CHECK_FLAG (mbi_flags (i s)) 6 then do {
               s \<leftarrow> say ''mmap_addr = 0x%#x, mmap_length = 0x%x\<newline>'' [mmap_addr (i s), mmap_length (i s)] s;
               say_mmap mbi (mmap_addr (i s)) s }
             else Some s);
       Some (True, s) } }"


section \<open>Descriptors\<close>

definition load_ldt :: "kstate \<Rightarrow> kstate" where
  "load_ldt s =
     (let the_ldt_desc = (ldt_desc_ptr s)
            \<lparr>seg_granularity := 0, seg_opsize := 1, seg_reserved := 0, seg_avail := 0,
             seg_present := 1, seg_dpl := 0, seg_sys := 0, seg_type := 2\<rparr>
      in lldt KERNEL_LDT (s\<lparr>ldt_desc_ptr := SET_LDT_PARAMS (ldt_at s) (ldt_size s) the_ldt_desc\<rparr>))"

definition load_tss :: "kstate \<Rightarrow> kstate" where
  "load_tss s =
     (let the_tss_desc = (tss_desc_ptr s)
            \<lparr>seg_granularity := 0, seg_opsize := 0, seg_reserved := 0, seg_avail := 0,
             seg_lim_19_16 := ucast (TSS_SIZE AND 0x000F0000),
             seg_present := 1, seg_dpl := 0, seg_sys := 0, seg_type := 9,
             seg_lim_15_00 := ucast (TSS_SIZE AND 0x0000FFFF)\<rparr>;
          s = s\<lparr>tss_desc_ptr := SET_TSS_PARAMS (tss_at s) (tss_size s) the_tss_desc,
            tss := (tss s)\<lparr>ts_ldt_segment_selector := KERNEL_LDT, ts_ss0 := KERNEL_DS, ts_esp0 := 0x800000\<rparr>\<rparr>
      in ltr KERNEL_TSS s)"


lemma start_regs:
  "reg_tr (load_tss (load_ldt s)) = KERNEL_TSS" "reg_ldtr (load_tss (load_ldt s)) = KERNEL_LDT"
  by (simp_all add: load_tss_def load_ldt_def ltr_def lldt_def Let_def)

lemma start_desc_fits: "seg_fits (tss_desc_ptr (load_tss (load_ldt s)))" "seg_fits (ldt_desc_ptr (load_tss (load_ldt s)))"
  by (simp_all add: load_tss_def load_ldt_def ltr_def lldt_def Let_def, rule params_fits, simp, rule params_fits, simp)

lemma start_desc_fields:
  assumes "ldt_size s < 2 ^ 20" "tss_size s < 2 ^ 20"
  defines "s' \<equiv> load_tss (load_ldt s)"
  shows "seg_base (tss_desc_ptr s') = tss_at s" "seg_limit (tss_desc_ptr s') = tss_size s" "seg_type (tss_desc_ptr s') = 9"
    "seg_sys (tss_desc_ptr s') = 0" "seg_dpl (tss_desc_ptr s') = 0" "seg_present (tss_desc_ptr s') = 1"
    "seg_base (ldt_desc_ptr s') = ldt_at s" "seg_limit (ldt_desc_ptr s') = ldt_size s" "seg_type (ldt_desc_ptr s') = 2"
    "seg_sys (ldt_desc_ptr s') = 0" "seg_dpl (ldt_desc_ptr s') = 0" "seg_present (ldt_desc_ptr s') = 1"
    "ts_ss0 (tss s') = KERNEL_DS" "ts_esp0 (tss s') = 0x800000"
  using assms(1,2) by (simp_all add: s'_def load_tss_def load_ldt_def ltr_def lldt_def Let_def params_base params_limit params_fields)


section \<open>Start-up\<close>

definition start_devices :: "(handler \<Rightarrow> u32) \<Rightarrow> kstate \<Rightarrow> kstate option" where
  "start_devices haddr s = do {
     let s = enable_irq 0 (enable_irq 1 (init_idt haddr (i8259_init s)));
     (r, s) \<leftarrow> rtc_open 0 (rtc_int s);
     (r, s) \<leftarrow> terminal_open 0 s;
     Some s }"

definition entry :: "(handler \<Rightarrow> u32) \<Rightarrow> u32 \<Rightarrow> addr \<Rightarrow> kstate \<Rightarrow> (outcome \<times> kstate) option" where
  "entry haddr magic mbi s = do {
     let s = clear s;
     if magic \<noteq> 0x2BADB002 then do {
       s \<leftarrow> say ''Invalid magic number: 0x%#x\<newline>'' [magic] s;
       Some (Ret 0, s) }
     else do {
       (go, s) \<leftarrow> report_mbi mbi s;
       if \<not> go then Some (Ret 0, s)
       else do {
         s \<leftarrow> start_devices haddr (load_tss (load_ldt s));
         s \<leftarrow> say ''Enabling Interrupts\<newline>'' [] s;
         let s = fs_init (setup_paging (sti s));
         s \<leftarrow> say ''Got to the end\<newline>'' [] s;
         s \<leftarrow> init_terminals (pit_init (my_clear s));
         system_execute (rodata s ''shell'') (scheduler_init s) } } }"

end
