(* ===== verification/Line_Discipline.thy ===== *)
theory Line_Discipline
  imports Keyboard
begin

text \<open>
  The keyboard handler as a line editor.  \<open>kb_ok s t xs\<close> says that the terminal
  \<open>t\<close> on screen has the unfinished line \<open>xs\<close> and no modifier is held.  In such
  a state a printable key appends its character (up to 127), backspace removes the last one,
  Enter hands the line to the terminal's line buffer, where \<open>terminal_read\<close> finds it.
\<close>

section \<open>What echoing a character leaves alone\<close>

definition kb_fields :: "kstate \<Rightarrow> kstate \<Rightarrow> bool" where
  "kb_fields s s' \<longleftrightarrow> kb_terminals s' = kb_terminals s \<and> kb_active_terminal s' = kb_active_terminal s \<and>
     keyboard_buf_idx s' = keyboard_buf_idx s \<and> pressed_flags s' = pressed_flags s \<and>
     caps_lock_check s' = caps_lock_check s \<and> save_buf_1 s' = save_buf_1 s \<and> save_buf_2 s' = save_buf_2 s \<and>
     save_buf_3 s' = save_buf_3 s \<and> last_buf s' = last_buf s \<and> active_terminal s' = active_terminal s \<and>
     process_num s' = process_num s \<and> main_process s' = main_process s"

lemma kb_fields_cursor: "kb_fields s (update_cursor (move_cursor i x y (s\<lparr>mem := m, screen_x := a, screen_y := b\<rparr>)))"
  by (simp add: kb_fields_def update_cursor_def move_cursor_def outb_def Let_def)

lemma send_eoi_kb [simp]:
  "kb_terminals (send_eoi n s) = kb_terminals s" "save_buf_1 (send_eoi n s) = save_buf_1 s"
  "save_buf_2 (send_eoi n s) = save_buf_2 s" "save_buf_3 (send_eoi n s) = save_buf_3 s"
  "last_buf (send_eoi n s) = last_buf s" "pressed_flags (send_eoi n s) = pressed_flags s"
  "caps_lock_check (send_eoi n s) = caps_lock_check s"
  by (simp_all add: send_eoi_def outb_def)

lemma key_putc_kb:
  assumes "terms_ok s"
  shows "\<exists>s'. key_putc c s = Some s' \<and> terms_ok s' \<and> same_outside VIDEO (mem s) (mem s') \<and> kb_fields s s'"
  using echo_sink.put_ok [OF assms, of c] key_putc_eq [OF assms, of c] kb_fields_cursor by auto


section \<open>The editing state\<close>

definition edit_addr :: "kstate \<Rightarrow> nat \<Rightarrow> addr" where
  "edit_addr s t = save_buf (kb_terminals s ! t)"

definition line_addr :: "kstate \<Rightarrow> nat \<Rightarrow> addr" where
  "line_addr s t = (if t = 0 then save_buf_1 s else if t = 1 then save_buf_2 s else save_buf_3 s)"

definition kb_layout :: "kstate \<Rightarrow> nat \<Rightarrow> bool" where
  "kb_layout s t \<longleftrightarrow>
     disjoint_rng (edit_addr s t) 128 VIDEO 4000 \<and> disjoint_rng (line_addr s t) 128 VIDEO 4000 \<and>
     disjoint_rng (line_addr s t) 128 (edit_addr s t) 128 \<and> disjoint_rng (last_buf s) 128 (edit_addr s t) 128 \<and>
     disjoint_rng (last_buf s) 128 (line_addr s t) 128"

definition no_modifiers :: "kstate \<Rightarrow> bool" where
  "no_modifiers s \<longleftrightarrow> length (pressed_flags s) = 86 \<and> pressed_flags s ! 0x1D = 0 \<and> pressed_flags s ! 0x2A = 0 \<and>
     pressed_flags s ! 0x36 = 0 \<and> pressed_flags s ! 0x38 = 0 \<and> caps_lock_check s \<noteq> 1"

definition kb_ok :: "kstate \<Rightarrow> nat \<Rightarrow> u8 list \<Rightarrow> bool" where
  "kb_ok s t xs \<longleftrightarrow> terms_ok s \<and> active_terminal s = int t \<and> t < 3 \<and> length (kb_terminals s) = 3 \<and>
     save_idx (kb_terminals s ! t) = int (length xs) \<and> length xs \<le> 127 \<and>
     bytes_at (mem s) (edit_addr s t) (length xs) = xs \<and> 0 \<notin> set xs \<and> 10 \<notin> set xs \<and>
     no_modifiers s \<and> kb_layout s t"

text \<open>What no key in this state changes: who runs, on which terminal, and where the line
  buffers are.\<close>

definition kb_env :: "kstate \<Rightarrow> int list \<times> int \<times> int \<times> addr \<times> addr \<times> addr" where
  "kb_env s = (process_num s, main_process s, active_terminal s, save_buf_1 s, save_buf_2 s, save_buf_3 s)"

text \<open>Scan codes of printable keys: below 86, not a modifier, Tab, Backspace, Enter or arrow.\<close>

definition plain_code :: "u8 \<Rightarrow> bool" where
  "plain_code c \<longleftrightarrow> c < 86 \<and> c \<notin> {0x0E, 0x0F, 0x1C, 0x1D, 0x2A, 0x36, 0x38, 0x3A, 0x48, 0x4B, 0x4D, 0x50} \<and>
     scancode ! unat c \<noteq> 0"

definition press :: "u8 \<Rightarrow> kstate \<Rightarrow> kstate" where
  "press c s = s\<lparr>inports := (inports s)(0x60 := c)\<rparr>"

lemma nth_around:
  assumes "k \<noteq> length A" and "k < length A + Suc (length B)"
  shows "(A @ x # B) ! k \<in> set A \<union> set B"
proof (cases "k < length A")
  case False
  with assms obtain j where "k = length A + Suc j" "j < length B"
    by (metis add_less_cancel_left less_imp_add_positive linorder_neqE_nat Suc_less_eq gr0_implies_Suc)
  then have "(A @ x # B) ! k = B ! j" by (simp add: nth_append)
  with \<open>j < length B\<close> show ?thesis by simp
qed (simp add: nth_append)

lemma scancode_other:
  assumes "k < 86" and "k \<noteq> 0x1C"
  shows "scancode ! k \<notin> {10, 0xFF}"
proof -
  let ?A = "[0, 0] @ str_bytes ''1234567890-='' @ [0, 0] @ str_bytes ''qwertyuiop[]''"
  let ?B = "[0] @ str_bytes ''asdfghjkl;'' @ [39, 96, 0, 92] @ str_bytes ''zxcvbnm,./'' @ [0] @ scancode_tail"
  have split: "scancode_lower = ?A @ 10 # ?B" by (simp add: scancode_lower_def)
  have A: "length ?A = 28" and B: "length ?B = 57" by (simp_all add: str_bytes_def scancode_tail_def)
  have sets: "set ?A \<inter> {10, 0xFF} = {}" "set ?B \<inter> {10, 0xFF} = {}"
    by (simp_all add: str_bytes_def chb_def scancode_tail_def)
  have k: "scancode ! k = (?A @ 10 # ?B) ! k" 
    unfolding split [symmetric] scancode_def using assms(1) by (simp add: nth_append)
  have "(?A @ 10 # ?B) ! k \<in> set ?A \<union> set ?B"
    by (rule nth_around) (use assms in \<open>simp_all only: A B, simp_all\<close>)
  with sets show ?thesis unfolding k by blast
qed

lemma plain_char:
  assumes "plain_code c"
  shows "unat c < 86" "scancode ! unat c \<noteq> 10" "scancode ! unat c \<noteq> 0" "scancode ! unat c \<noteq> 0xFF"
proof -
  show u: "unat c < 86" using assms by (simp add: plain_code_def word_less_nat_alt)
  have "unat c \<noteq> 0x1C" using assms by (auto simp: plain_code_def word_unat_eq_iff)
  from scancode_other [OF u this] show "scancode ! unat c \<noteq> 10" "scancode ! unat c \<noteq> 0xFF" by auto
  show "scancode ! unat c \<noteq> 0" using assms by (simp add: plain_code_def)
qed

lemma enter_char: "scancode ! 0x1C = 10"
  by (simp add: scancode_def scancode_lower_def nth_append str_bytes_def)



section \<open>Decoding without modifiers\<close>

lemma aset_flag:
  "no_modifiers s \<Longrightarrow> c < 86 \<Longrightarrow> set_pressed c v s = Some (s\<lparr>pressed_flags := (pressed_flags s)[unat c := v]\<rparr>)"
  by (simp add: set_pressed_def aset_def no_modifiers_def word_less_nat_alt uint_nat del: of_nat_unat)

lemma pressed_Some: "length (pressed_flags s) = 86 \<Longrightarrow> k < 86 \<Longrightarrow> pressed k s = Some (pressed_flags s ! k \<noteq> 0)"
  by (simp add: pressed_def)

lemma aget_uint: "aget xs (uint (c :: u8)) = (if unat c < length xs then Some (xs ! unat c) else None)"
proof -
  have u: "uint c = int (unat c)" by simp
  show ?thesis unfolding u by (rule aget_nat)
qed

lemma ucast_byte: "(ucast (ucast (c :: u8) :: u32) :: u8) = c"
  by (rule bit_word_eqI) (simp add: bit_simps)

lemma no_modifiers_press:
  fixes c :: u8
  assumes "no_modifiers s" and "c \<notin> {0x1D, 0x2A, 0x36, 0x38}"
  shows "no_modifiers (s\<lparr>pressed_flags := (pressed_flags s)[unat c := v]\<rparr>)"
proof -
  have "unat c \<noteq> 0x1D" "unat c \<noteq> 0x2A" "unat c \<noteq> 0x36" "unat c \<noteq> 0x38"
    using assms(2) by (auto simp: word_unat_eq_iff)
  with assms(1) show ?thesis by (simp add: no_modifiers_def)
qed

text \<open>A key that is neither a modifier, an arrow, Tab nor Backspace gives its table entry.\<close>

lemma getChar_plain:
  assumes mods: "no_modifiers s" and c: "getScancode s = c" "c < 86"
    and other: "c \<notin> {0x0E, 0x0F, 0x1D, 0x2A, 0x36, 0x38, 0x3A, 0x48, 0x4B, 0x4D, 0x50}"
    and ch: "scancode ! unat c \<noteq> 0"
  shows "getChar s = Some (Key (scancode ! unat c), s\<lparr>pressed_flags := (pressed_flags s)[unat c := 1]\<rparr>)"
proof -
  let ?s = "s\<lparr>pressed_flags := (pressed_flags s)[unat c := 1]\<rparr>"
  have m: "no_modifiers ?s" by (rule no_modifiers_press [OF mods]) (use other in auto)
  then have p: "pressed 0x1D ?s = Some False" "pressed 0x38 ?s = Some False" "pressed 0x2A ?s = Some False"
    "pressed 0x36 ?s = Some False"
    by (simp_all add: pressed_Some no_modifiers_def)
  have le: "c \<le> 0x58" using c(2) by (simp add: word_le_nat_alt word_less_nat_alt)
  have u: "unat c < 86" using c(2) by (simp add: word_less_nat_alt)
  have shift: "shift_code c ?s = Some c" using m p by (simp add: shift_code_def no_modifiers_def)
  have "plain_key c ?s = Some (Key (scancode ! unat c), ?s)"
    using other ch u by (simp add: plain_key_def shift aget_uint)
  with other p show ?thesis
    unfolding getChar_def Let_def c(1)
    by (simp add: le aset_flag [OF mods c(2)] ctl_key_def)
qed


section \<open>One key\<close>

lemma kb_ok_start:
  fixes c :: u8
  assumes "kb_ok s t xs"
  defines "s0 \<equiv> (press c s)\<lparr>kb_active_terminal := int t, keyboard_buf_idx := int (length xs)\<rparr>"
  shows "keyboard_handler (press c s) = do {
     (k, s) \<leftarrow> getChar s0;
     case k of
       Gone r \<Rightarrow> Some (r, s)
     | Key test \<Rightarrow>
         if test \<noteq> DONT_PRINT then
           (if keyboard_buf_idx s = 127 \<and> test \<noteq> 0x0A then do {
              b \<leftarrow> edit_buf s;
              let s = s\<lparr>mem := (mem s)(nat (int b + keyboard_buf_idx s) := 10)\<rparr>;
              Some (Ret 0, send_eoi 1 s) }
            else do {
              s \<leftarrow> store_key test s;
              s \<leftarrow> key_putc test s;
              s \<leftarrow> save_idx_eoi s;
              Some (Ret 0, s) })
         else do { s \<leftarrow> save_idx_eoi s; Some (Ret 0, s) } }"
    and "getScancode s0 = c" and "no_modifiers s0"
  using assms(1)
  by (simp_all add: keyboard_handler_def press_def return_active_terminal_def kb_ok_def s0_def
      getScancode_def inb_def no_modifiers_def ucast_byte)

lemma save_idx_eoi_eq:
  assumes "t < 3" "length (kb_terminals s) = 3" "kb_active_terminal s = int t"
  shows "save_idx_eoi s = Some (send_eoi 1 (s\<lparr>kb_terminals :=
    (kb_terminals s)[t := (kb_terminals s ! t)\<lparr>save_idx := keyboard_buf_idx s\<rparr>]\<rparr>))"
  using assms by (simp add: save_idx_eoi_def aset_def)

text \<open>\<open>kb_ok\<close> after a key, from what the handler did to the fields it reads.\<close>

lemma kb_ok_after:
  fixes c :: u8
  assumes "kb_ok s t xs" and "kb_fields s1 s'" and "terms_ok s'"
    and "pressed_flags s1 = (pressed_flags s)[unat c := v]" "c \<notin> {0x1D, 0x2A, 0x36, 0x38}"
    and "caps_lock_check s1 = caps_lock_check s" "active_terminal s1 = active_terminal s"
    and "save_buf_1 s1 = save_buf_1 s" "save_buf_2 s1 = save_buf_2 s" "save_buf_3 s1 = save_buf_3 s"
    and "last_buf s1 = last_buf s" "kb_terminals s1 = kb_terminals s"
    and "process_num s1 = process_num s" "main_process s1 = main_process s"
    and "length ys \<le> 127" "0 \<notin> set ys" "10 \<notin> set ys"
    and "bytes_at (mem s') (edit_addr s t) (length ys) = ys"
  defines "s2 \<equiv> send_eoi 1 (s'\<lparr>kb_terminals :=
    (kb_terminals s')[t := (kb_terminals s' ! t)\<lparr>save_idx := int (length ys)\<rparr>]\<rparr>)"
  shows "kb_ok s2 t ys" and "mem s2 = mem s'" and "line_addr s2 t = line_addr s t" and "edit_addr s2 t = edit_addr s t"
    and "kb_env s2 = kb_env s"
proof -
  have m: "no_modifiers (s\<lparr>pressed_flags := (pressed_flags s)[unat c := v]\<rparr>)"
    by (rule no_modifiers_press) (use assms(1,5) in \<open>simp_all add: kb_ok_def\<close>)
  have t: "t < 3" "length (kb_terminals s) = 3" using assms(1) by (simp_all add: kb_ok_def)
  have f: "pressed_flags s2 = (pressed_flags s)[unat c := v]" "caps_lock_check s2 = caps_lock_check s"
    "active_terminal s2 = active_terminal s" "save_buf_1 s2 = save_buf_1 s" "save_buf_2 s2 = save_buf_2 s"
    "save_buf_3 s2 = save_buf_3 s" "last_buf s2 = last_buf s"
    "kb_terminals s2 = (kb_terminals s)[t := (kb_terminals s ! t)\<lparr>save_idx := int (length ys)\<rparr>]"
    using assms(2-14) by (simp_all add: s2_def send_eoi_def outb_def kb_fields_def)
  show e: "edit_addr s2 t = edit_addr s t" using t by (simp add: edit_addr_def f)
  show l: "line_addr s2 t = line_addr s t" by (simp add: line_addr_def f)
  show mm: "mem s2 = mem s'" by (simp add: s2_def)
  show "kb_env s2 = kb_env s"
    using assms(2,13,14) f by (simp add: kb_env_def s2_def send_eoi_def outb_def kb_fields_def)
  have "terms_ok s2 = terms_ok s'" by (rule terms_ok_cong) (simp_all add: s2_def send_eoi_def outb_def)
  moreover have "no_modifiers s2" using m by (simp add: no_modifiers_def f)
  moreover have "kb_layout s2 t" using assms(1) by (simp add: kb_ok_def kb_layout_def e l f)
  ultimately show "kb_ok s2 t ys"
    using assms(1,3,15-18) t by (simp add: kb_ok_def f e mm)
qed


text \<open>A printable key.\<close>

lemma key_appends:
  assumes ok: "kb_ok s t xs" and c: "plain_code c" and room: "length xs < 127"
  shows "\<exists>s'. keyboard_handler (press c s) = Some (Ret 0, s') \<and> kb_ok s' t (xs @ [scancode ! unat c]) \<and> kb_env s' = kb_env s"
proof -
  let ?ch = "scancode ! unat c" and ?b = "edit_addr s t"
  let ?s0 = "(press c s)\<lparr>kb_active_terminal := int t, keyboard_buf_idx := int (length xs)\<rparr>"
  let ?s1 = "?s0\<lparr>pressed_flags := (pressed_flags s)[unat c := 1]\<rparr>"
  let ?s2 = "?s1\<lparr>mem := (mem s)(?b + length xs := ?ch), keyboard_buf_idx := int (length xs) + 1\<rparr>"
  note start = kb_ok_start [OF ok, of c] and ch = plain_char [OF c]
  have t: "t < 3" "length (kb_terminals s) = 3" "active_terminal s = int t" using ok by (simp_all add: kb_ok_def)
  have get: "getChar ?s0 = Some (Key ?ch, ?s1)"
    using getChar_plain [OF start(3,2)] c ch(3) by (simp add: plain_code_def press_def)
  have buf: "edit_buf ?s1 = Some ?b" using t by (simp add: edit_buf_def press_def edit_addr_def)
  define n2 where "n2 = (if int (length xs) + 1 > num_chars s then int (length xs) + 1 else num_chars s)"
  have store: "store_key ?ch ?s1 = Some (?s2\<lparr>num_chars := n2\<rparr>)"
    using ch(2) buf by (simp add: store_key_def n2_def press_def nat_int_add)
  have tok: "terms_ok (?s2\<lparr>num_chars := n2\<rparr>)"
    using ok by (simp add: kb_ok_def terms_ok_def press_def)
  from key_putc_kb [OF tok, of ?ch] obtain s3 where
    s3: "key_putc ?ch (?s2\<lparr>num_chars := n2\<rparr>) = Some s3" "terms_ok s3"
      "same_outside VIDEO (mem ?s2) (mem s3)" "kb_fields (?s2\<lparr>num_chars := n2\<rparr>) s3" by auto
  have f3: "keyboard_buf_idx s3 = int (length (xs @ [?ch]))" "kb_active_terminal s3 = int t" "length (kb_terminals s3) = 3"
    using s3(4) t by (simp_all add: kb_fields_def press_def)
  have lay: "disjoint_rng ?b 128 VIDEO 4000" using ok by (simp add: kb_ok_def kb_layout_def)
  have "bytes_at (mem s3) ?b (length (xs @ [?ch])) = bytes_at (mem ?s2) ?b (length (xs @ [?ch]))"
    by (rule same_outside_bytes [OF s3(3)]) (use lay room in \<open>auto simp: disjoint_rng_def\<close>)
  also have "\<dots> = xs @ [?ch]"
    using ok by (simp add: bytes_at_snoc bytes_at_upd_other kb_ok_def)
  finally have line: "bytes_at (mem s3) ?b (length (xs @ [?ch])) = xs @ [?ch]" .
  let ?s4 = "send_eoi 1 (s3\<lparr>kb_terminals :=
      (kb_terminals s3)[t := (kb_terminals s3 ! t)\<lparr>save_idx := int (length (xs @ [?ch]))\<rparr>]\<rparr>)"
  have "kb_ok ?s4 t (xs @ [?ch])" "kb_env ?s4 = kb_env s"
    by (rule kb_ok_after(1,5) [OF ok s3(4,2), where c = c and v = 1];
        use c ch ok room line in \<open>auto simp: press_def plain_code_def kb_ok_def\<close>)+
  moreover have "keyboard_handler (press c s) = Some (Ret 0, ?s4)"
    using start(1) get store s3(1) save_idx_eoi_eq [OF t(1) f3(3,2)] ch room
    by (simp add: f3(1) DONT_PRINT_def press_def)
  ultimately show ?thesis by blast
qed

text \<open>The line is full: the key is dropped.\<close>

lemma key_full:
  assumes ok: "kb_ok s t xs" and c: "plain_code c" and full: "length xs = 127"
  shows "\<exists>s'. keyboard_handler (press c s) = Some (Ret 0, s') \<and> kb_ok s' t xs \<and> kb_env s' = kb_env s"
proof -
  let ?ch = "scancode ! unat c" and ?b = "edit_addr s t"
  let ?s0 = "(press c s)\<lparr>kb_active_terminal := int t, keyboard_buf_idx := int (length xs)\<rparr>"
  let ?s1 = "?s0\<lparr>pressed_flags := (pressed_flags s)[unat c := 1]\<rparr>"
  let ?s2 = "?s1\<lparr>mem := (mem s)(?b + 127 := 10)\<rparr>"
  note start = kb_ok_start [OF ok, of c] and ch = plain_char [OF c]
  have t: "t < 3" "length (kb_terminals s) = 3" "active_terminal s = int t" using ok by (simp_all add: kb_ok_def)
  have get: "getChar ?s0 = Some (Key ?ch, ?s1)"
    using getChar_plain [OF start(3,2)] c ch(3) by (simp add: plain_code_def press_def)
  have buf: "edit_buf ?s1 = Some ?b" using t by (simp add: edit_buf_def press_def edit_addr_def)
  have n: "nat (int ?b + 127) = ?b + 127" by simp
  have h: "keyboard_handler (press c s) = Some (Ret 0, send_eoi 1 ?s2)"
    using start(1) get ch full buf by (simp add: DONT_PRINT_def press_def n)
  have "no_modifiers (s\<lparr>pressed_flags := (pressed_flags s)[unat c := 1]\<rparr>)"
    by (rule no_modifiers_press) (use ok c in \<open>auto simp: kb_ok_def plain_code_def\<close>)
  then have "no_modifiers (send_eoi 1 ?s2)" by (simp add: no_modifiers_def press_def)
  moreover have "terms_ok (send_eoi 1 ?s2) = terms_ok s"
    by (rule terms_ok_cong) (simp_all add: press_def)
  moreover have "bytes_at (mem (send_eoi 1 ?s2)) ?b (length xs) = xs"
    using ok full by (simp add: kb_ok_def bytes_at_upd_other)
  moreover have "edit_addr (send_eoi 1 ?s2) t = ?b" "line_addr (send_eoi 1 ?s2) t = line_addr s t"
    by (simp_all add: edit_addr_def line_addr_def press_def)
  ultimately have "kb_ok (send_eoi 1 ?s2) t xs"
    using ok by (simp add: kb_ok_def kb_layout_def) (simp add: press_def)
  moreover have "kb_env (send_eoi 1 ?s2) = kb_env s"
    by (simp add: kb_env_def press_def send_eoi_def outb_def)
  ultimately show ?thesis using h by blast
qed


text \<open>Enter: the line goes to the terminal's line buffer and a new one begins.\<close>

lemma deliver_line_eq:
  assumes line: "dstr 10 (mem s) b xs" and l: "length xs \<le> 127" and t: "t < 3" "kb_active_terminal s = int t"
    and d: "disjoint_rng (line_addr s t) 128 b 128" "disjoint_rng (last_buf s) 128 b 128"
  shows "deliver_line b s = Some (s\<lparr>
    mem := (blit (blit (mem s) (line_addr s t) (xs @ [10])) (last_buf s) (xs @ [10]))(b := 0),
    last_idx := keyboard_buf_idx s, keyboard_buf_idx := 0, num_chars := 0\<rparr>)"
proof -
  have lb: "line_buf (kb_active_terminal s) s = Some (line_addr s t)"
    using t by (auto simp: line_buf_def line_addr_def)
  have c1: "my_strcpy (line_addr s t) b (mem s) = Some (line_addr s t, blit (mem s) (line_addr s t) (xs @ [10]))"
    using d(1) l by (intro my_strcpy_blit [OF line]) (auto simp: disjoint_rng_def)
  have line1: "dstr 10 (blit (mem s) (line_addr s t) (xs @ [10])) b xs"
    by (rule dstr_cong [OF line]) (use d(1) l in \<open>auto simp: disjoint_rng_def blit_def\<close>)
  have c2: "my_strcpy (last_buf s) b (blit (mem s) (line_addr s t) (xs @ [10])) =
      Some (last_buf s, blit (blit (mem s) (line_addr s t) (xs @ [10])) (last_buf s) (xs @ [10]))"
    using d(2) l by (intro my_strcpy_blit [OF line1]) (auto simp: disjoint_rng_def)
  show ?thesis by (simp add: deliver_line_def lb c1 c2 del: fun_upd_apply)
qed

lemma key_enter:
  assumes ok: "kb_ok s t xs"
  shows "\<exists>s'. keyboard_handler (press 0x1C s) = Some (Ret 0, s') \<and> kb_ok s' t [] \<and> kb_env s' = kb_env s \<and>
    line_addr s' t = line_addr s t \<and> dstr 10 (mem s') (line_addr s t) xs \<and> mem s' (line_addr s t) \<noteq> 0"
proof -
  let ?b = "edit_addr s t" and ?d = "line_addr s t"
  let ?s0 = "(press 0x1C s)\<lparr>kb_active_terminal := int t, keyboard_buf_idx := int (length xs)\<rparr>"
  let ?s1 = "?s0\<lparr>pressed_flags := (pressed_flags s)[0x1C := 1]\<rparr>"
  let ?m = "(mem s)(?b + length xs := 10)"
  note start = kb_ok_start [OF ok, of "0x1C"]
  have t: "t < 3" "length (kb_terminals s) = 3" "active_terminal s = int t" and l: "length xs \<le> 127"
    using ok by (simp_all add: kb_ok_def)
  have lay: "disjoint_rng ?b 128 VIDEO 4000" "disjoint_rng ?d 128 VIDEO 4000" "disjoint_rng ?d 128 ?b 128"
    "disjoint_rng (last_buf s) 128 ?b 128" "disjoint_rng (last_buf s) 128 ?d 128"
    using ok by (simp_all add: kb_ok_def kb_layout_def)
  have get: "getChar ?s0 = Some (Key 10, ?s1)"
    using getChar_plain [OF start(3,2)] by (simp add: enter_char press_def)
  have buf: "edit_buf ?s1 = Some ?b" using t by (simp add: edit_buf_def press_def edit_addr_def)
  have line: "dstr 10 ?m ?b xs"
    using ok by (simp add: dstr_def kb_ok_def bytes_at_upd_other)
  define m2 where "m2 = (blit (blit ?m ?d (xs @ [10])) (last_buf s) (xs @ [10]))(?b := 0)"
  let ?s2 = "?s1\<lparr>mem := m2, last_idx := int (length xs), keyboard_buf_idx := 0, num_chars := 0\<rparr>"
  have la: "line_addr (?s1\<lparr>mem := ?m\<rparr>) t = ?d" by (simp add: line_addr_def press_def)
  have store: "store_key 10 ?s1 = Some ?s2"
    using deliver_line_eq [of "?s1\<lparr>mem := ?m\<rparr>" ?b xs t] line l t lay buf unfolding la
    by (simp add: store_key_def press_def nat_int_add m2_def del: fun_upd_apply)
  have tok: "terms_ok ?s2" using ok by (simp add: kb_ok_def terms_ok_def press_def)
  from key_putc_kb [OF tok, of 10] obtain s3 where
    s3: "key_putc 10 ?s2 = Some s3" "terms_ok s3" "same_outside VIDEO m2 (mem s3)" "kb_fields ?s2 s3" by auto
  have f3: "keyboard_buf_idx s3 = int (length ([] :: u8 list))" "kb_active_terminal s3 = int t" "length (kb_terminals s3) = 3"
    using s3(4) t by (simp_all add: kb_fields_def press_def)
  let ?s4 = "send_eoi 1 (s3\<lparr>kb_terminals :=
      (kb_terminals s3)[t := (kb_terminals s3 ! t)\<lparr>save_idx := int (length ([] :: u8 list))\<rparr>]\<rparr>)"
  have after: "kb_ok ?s4 t []" "mem ?s4 = mem s3" "line_addr ?s4 t = ?d" "kb_env ?s4 = kb_env s"
    using kb_ok_after(1,2,3,5) [OF ok s3(4,2), where c = "0x1C" and v = 1 and ys = "[]"]
    by (simp_all add: press_def)
  have "dstr 10 m2 ?d xs"
  proof (rule dstr_cong)
    show "dstr 10 (blit ?m ?d (xs @ [10])) ?d xs" using ok by (intro dstr_blit) (simp add: kb_ok_def)
    show "m2 (?d + k) = blit ?m ?d (xs @ [10]) (?d + k)" if "k \<le> length xs" for k
      using lay that l by (auto simp: m2_def disjoint_rng_def blit_def)
  qed
  then have got: "dstr 10 (mem s3) ?d xs"
    by (rule same_outside_dstr [OF s3(3), rotated]) (use lay(2) l in \<open>auto simp: disjoint_rng_def\<close>)
  have "mem s3 ?d \<noteq> 0"
  proof (cases xs)
    case Nil
    with got show ?thesis by simp
  next
    case (Cons x ys)
    with got ok show ?thesis by (auto simp: dstr_Cons kb_ok_def)
  qed
  moreover have "keyboard_handler (press 0x1C s) = Some (Ret 0, ?s4)"
    using start(1) get store s3(1) save_idx_eoi_eq [OF t(1) f3(3,2)]
    by (simp add: f3(1) DONT_PRINT_def press_def)
  ultimately show ?thesis using after got by (intro exI [of _ ?s4]) simp
qed


text \<open>Releasing a key other than a modifier.\<close>

lemma key_release:
  assumes ok: "kb_ok s t xs" and c: "c < 86" "c \<notin> {0x1D, 0x2A, 0x36, 0x38}"
  shows "\<exists>s'. keyboard_handler (press (c OR 0x80) s) = Some (Ret 0, s') \<and> kb_ok s' t xs \<and> kb_env s' = kb_env s"
proof -
  let ?c = "c OR 0x80"
  let ?s0 = "(press ?c s)\<lparr>kb_active_terminal := int t, keyboard_buf_idx := int (length xs)\<rparr>"
  let ?s1 = "?s0\<lparr>pressed_flags := (pressed_flags s)[unat c := 0]\<rparr>"
  note start = kb_ok_start [OF ok, of ?c]
  have t: "t < 3" "length (kb_terminals s) = 3" "active_terminal s = int t" using ok by (simp_all add: kb_ok_def)
  have c7: "c = take_bit 7 c"
  proof -
    have "unat c < 2 ^ 7" using c(1) by (simp add: word_less_nat_alt)
    then have "take_bit 7 c = c" by (simp add: word_unat_eq_iff unsigned_take_bit_eq take_bit_nat_eq_self_iff)
    then show ?thesis by simp
  qed
  have bk: "?c AND 0x7F = c"
  proof -
    have m: "(0x7F :: u8) = mask 7" by (simp add: mask_numeral)
    have "?c AND 0x7F = c AND 0x7F" by (simp add: bit.conj_disj_distrib2)
    also have "\<dots> = take_bit 7 c" by (simp add: m take_bit_eq_mask)
    finally have "?c AND 0x7F = take_bit 7 c" .
    with c7 show ?thesis by simp
  qed
  have u: "unat ?c = unat c + 128"
  proof -
    have "c AND 0x80 = 0"
    proof -
      have "c = c AND 0x7F" using c7 by (simp add: take_bit_eq_mask mask_numeral)
      then have "c AND 0x80 = (c AND 0x7F) AND 0x80" by (rule arg_cong)
      also have "\<dots> = 0" by (simp add: and.assoc)
      finally show ?thesis .
    qed
    then have "?c = c + 0x80" by (simp add: disjunctive_add_eq_or)
    moreover have "unat c + 128 < 256" using c(1) by (simp add: word_less_nat_alt)
    ultimately show ?thesis by (simp add: unat_word_ariths)
  qed
  have le: "\<not> ?c \<le> 0x58" "?c \<le> 0xD8"
    using u c(1) by (simp_all add: word_le_nat_alt word_less_nat_alt)
  have get: "getChar ?s0 = Some (Key DONT_PRINT, ?s1)"
    unfolding getChar_def Let_def start(2) using le bk aset_flag [OF start(3) c(1)]
    by (simp add: press_def)
  let ?s2 = "send_eoi 1 (?s1\<lparr>kb_terminals := (kb_terminals ?s1)[t := (kb_terminals ?s1 ! t)\<lparr>save_idx := int (length xs)\<rparr>]\<rparr>)"
  have "keyboard_handler (press ?c s) = Some (Ret 0, ?s2)"
    using start(1) get save_idx_eoi_eq [of t ?s1] t by (simp add: press_def)
  moreover have fr: "kb_fields ?s1 ?s1" by (simp add: kb_fields_def)
  have "terms_ok ?s1 = terms_ok s" by (rule terms_ok_cong) (simp_all add: press_def)
  with ok have tok: "terms_ok ?s1" by (simp add: kb_ok_def)
  have "kb_ok ?s2 t xs" "kb_env ?s2 = kb_env s"
    by (rule kb_ok_after(1,5) [OF ok fr tok, where c = c and v = 0];
        use ok c(2) in \<open>auto simp: press_def kb_ok_def\<close>)+
  ultimately show ?thesis by blast
qed


section \<open>Typing a line\<close>

text \<open>A key event: a press or a release; \<open>typed\<close> is the text of the presses.\<close>

fun type_keys :: "u8 list \<Rightarrow> kstate \<Rightarrow> kstate option" where
  "type_keys [] s = Some s"
| "type_keys (c # cs) s = do {
     (r, s) \<leftarrow> keyboard_handler (press c s);
     if r = Ret 0 then type_keys cs s else None }"

definition is_release :: "u8 \<Rightarrow> bool" where
  "is_release c \<longleftrightarrow> (\<exists>k < 86. k \<notin> {0x1D, 0x2A, 0x36, 0x38} \<and> c = k OR 0x80)"

definition typed :: "u8 list \<Rightarrow> u8 list" where
  "typed cs = map (\<lambda>c. scancode ! unat c) (filter plain_code cs)"

text \<open>Presses of printable keys and releases of keys, in any order (keys may overlap).\<close>

definition key_events :: "u8 list \<Rightarrow> bool" where
  "key_events cs \<longleftrightarrow> (\<forall>c \<in> set cs. plain_code c \<or> is_release c \<and> \<not> plain_code c)"

lemma type_keys_line:
  assumes "kb_ok s t xs" and "key_events cs"
  shows "\<exists>s'. type_keys cs s = Some s' \<and> kb_ok s' t (take 127 (xs @ typed cs)) \<and> kb_env s' = kb_env s"
  using assms
proof (induction cs arbitrary: s xs)
  case Nil
  then show ?case by (simp add: typed_def kb_ok_def)
next
  case (Cons c cs)
  have l: "length xs \<le> 127" and rest: "key_events cs"
    using Cons.prems by (simp_all add: kb_ok_def key_events_def)
  consider "plain_code c" "length xs < 127" | "plain_code c" "length xs = 127" | "is_release c" "\<not> plain_code c"
    using Cons.prems(2) l by (fastforce simp: key_events_def)
  then show ?case
  proof cases
    case 1
    from key_appends [OF Cons.prems(1) 1] obtain s1 where
      s1: "keyboard_handler (press c s) = Some (Ret 0, s1)" "kb_ok s1 t (xs @ [scancode ! unat c])"
        "kb_env s1 = kb_env s" by blast
    with Cons.IH [OF s1(2) rest] 1 show ?thesis by (simp add: typed_def)
  next
    case 2
    from key_full [OF Cons.prems(1) 2] obtain s1 where
      s1: "keyboard_handler (press c s) = Some (Ret 0, s1)" "kb_ok s1 t xs" "kb_env s1 = kb_env s" by blast
    with Cons.IH [OF s1(2) rest] 2 show ?thesis by (simp add: typed_def)
  next
    case 3
    then obtain k where k: "k < 86" "k \<notin> {0x1D, 0x2A, 0x36, 0x38}" "c = k OR 0x80" by (auto simp: is_release_def)
    from key_release [OF Cons.prems(1) k(1,2)] k(3) obtain s1 where
      s1: "keyboard_handler (press c s) = Some (Ret 0, s1)" "kb_ok s1 t xs" "kb_env s1 = kb_env s" by blast
    with Cons.IH [OF s1(2) rest] 3 show ?thesis by (simp add: typed_def)
  qed
qed

text \<open>From the keyboard to the reader: what was typed before Enter is what a read of the
  process on screen returns, with the newline.\<close>

lemma type_then_read:
  assumes ok: "kb_ok s t []" and cs: "key_events cs"
    and own: "pos_idx False s = t"
    and buf: "disjoint_rng buf 128 (line_addr s t) 128"
  defines "xs \<equiv> take 127 (typed cs)"
  shows "\<exists>s1 s2 s3. type_keys cs s = Some s1 \<and> keyboard_handler (press 0x1C s1) = Some (Ret 0, s2) \<and>
    terminal_read hs 0 buf nbytes s2 = Some (int (length xs) + 1, s3) \<and>
    bytes_at (mem s3) buf (length xs + 1) = xs @ [10] \<and> mem s3 (line_addr s t) = 0"
proof -
  have t: "t < 3" and l: "length xs \<le> 127" using ok by (simp_all add: kb_ok_def xs_def)
  from type_keys_line [OF ok cs] obtain s1 where
    s1: "type_keys cs s = Some s1" "kb_ok s1 t xs" "kb_env s1 = kb_env s" by (auto simp: xs_def)
  from key_enter [OF s1(2)] obtain s2 where
    s2: "keyboard_handler (press 0x1C s1) = Some (Ret 0, s2)" "kb_ok s2 t []" "kb_env s2 = kb_env s"
      "dstr 10 (mem s2) (line_addr s1 t) xs" "mem s2 (line_addr s1 t) \<noteq> 0" using s1(3) by auto
  let ?d = "line_addr s t"
  have d: "line_addr s1 t = ?d" using s1(3) by (simp add: line_addr_def kb_env_def)
  have act: "active_terminal s2 = int t" "active_terminal s = int t" using s2(2) ok by (simp_all add: kb_ok_def)
  have "pos_idx False s2 = t" "pos_idx True s2 = t" "line_buf (active_terminal s2) s2 = Some ?d"
    using own s2(3) t act by (simp_all add: pos_idx_def kb_env_def line_buf_def line_addr_def)
  then have "line_ready s2 ?d xs"
    using s2 by (simp add: line_ready_def kb_ok_def d)
  moreover have "disjoint_rng buf (length xs + 1) ?d (length xs + 1)"
    using buf l by (auto simp: disjoint_rng_def)
  ultimately have "terminal_read hs 0 buf nbytes s2 =
      Some (int (length xs + 1), s2\<lparr>mem := (blit (mem s2) buf (xs @ [10]))(?d := 0)\<rparr>)"
    by (rule terminal_read_eq)
  moreover have "bytes_at ((blit (mem s2) buf (xs @ [10]))(?d := 0)) buf (length xs + 1) = xs @ [10]"
  proof -
    have "?d < buf \<or> buf + (length xs + 1) \<le> ?d" using buf l by (auto simp: disjoint_rng_def)
    then show ?thesis using bytes_at_blit_same [of "mem s2" buf "xs @ [10]"]
      by (auto simp: bytes_at_upd_other)
  qed
  ultimately show ?thesis using s1(1) s2(1) by auto
qed

end
