(* ===== verification/Example_State.thy ===== *)
theory Example_State
  imports Kernel Line_Discipline Syscall
begin

text \<open>
  A small concrete system on which the theorems are instantiated: two shells on the first two
  terminals, a file system with a directory entry, the device file and one program, empty
  keyboard buffers.  It shows that the well-formedness predicates of the components hold
  together in one state.
\<close>

section \<open>Memory\<close>

text \<open>A memory that is zero but for some areas.\<close>

fun areas :: "(addr \<times> u8 list) list \<Rightarrow> mem" where
  "areas [] a = 0"
| "areas ((d, xs) # ps) a = (if d \<le> a \<and> a < d + length xs then xs ! (a - d) else areas ps a)"

text \<open>A table of string literals, 256 bytes apart.\<close>

fun position :: "'a \<Rightarrow> 'a list \<Rightarrow> nat" where
  "position x [] = 0"
| "position x (y # ys) = (if x = y then 0 else Suc (position x ys))"

lemma position_nth: "x \<in> set xs \<Longrightarrow> position x xs < length xs \<and> xs ! position x xs = x"
  by (induction xs) auto

definition byte_at :: "u8 list \<Rightarrow> nat \<Rightarrow> u8" where
  "byte_at xs k = (if k < length xs then xs ! k else 0)"

definition table_byte :: "string list \<Rightarrow> nat \<Rightarrow> u8" where
  "table_byte ls k = byte_at (str_bytes (ls ! (k div 256))) (k mod 256)"

lemma table_cstr:
  assumes l: "l \<in> set ls" "0 \<notin> set (str_bytes l)" "length l < 256"
    and m: "\<And>k. k < 256 * length ls \<Longrightarrow> m (base + k) = table_byte ls k"
  shows "cstr m (base + 256 * position l ls) (str_bytes l)"
proof -
  let ?p = "position l ls"
  have p: "?p < length ls" "ls ! ?p = l" using position_nth [OF l(1)] by simp_all
  have len: "length (str_bytes l) = length l" by (simp add: str_bytes_def)
  have b: "m (base + 256 * ?p + k) = byte_at (str_bytes l) k" if "k \<le> length l" for k
    using that p l m [of "256 * ?p + k"] by (simp add: table_byte_def add.assoc)
  have "bytes_at m (base + 256 * ?p) (length (str_bytes l)) = str_bytes l"
    by (rule nth_equalityI) (simp_all add: b byte_at_def len)
  then show ?thesis using b [of "length l"] l by (simp add: dstr_def byte_at_def len)
qed

text \<open>The image at \<open>0x420000\<close>: three directory entries, two inodes, two data blocks; the
  program \<open>cat\<close> has inode 1, 32 bytes in block 1, and starts at \<open>0x08048100\<close>.
  A command line is at \<open>0x440000\<close>.\<close>

definition sample_mem :: mem where
  "sample_mem = areas
     [(0x420000, [3, 0, 0, 0, 2, 0, 0, 0, 2, 0, 0, 0]),
      (0x420040, [46]), (0x420060, [1, 0, 0, 0, 0, 0, 0, 0]),
      (0x420080, [114, 116, 99]),
      (0x4200C0, [99, 97, 116]), (0x4200E0, [2, 0, 0, 0, 1, 0, 0, 0]),
      (0x422000, [32, 0, 0, 0, 1, 0, 0, 0]),
      (0x424000, [0x7f, 0x45, 0x4c, 0x46, 1, 1, 1, 0, 0, 0, 0, 0, 0, 0, 0, 0,
                  2, 0, 3, 0, 1, 0, 0, 0, 0, 0x81, 0x04, 0x08, 52, 0, 0, 0]),
      (0x440000, [99, 97, 116, 32, 102])]"


section \<open>State\<close>

definition sample_fd :: "int \<Rightarrow> fdt_t" where
  "sample_fd used = \<lparr>f_ops = (if used = 1 then Some terminal_table else None), inode_num = -1, file_pos = 0, flags = used\<rparr>"

definition sample_pcb :: "int \<Rightarrow> pcb_t" where
  "sample_pcb i = \<lparr>fdt = sample_fd 1 # sample_fd 1 # replicate 6 (sample_fd 0), pid = i, ebp = 0, esp = 0,
     parent_pcb = return_pcb_parent i, status_retval = 0, pit_ebp = 0x7F7F00, pit_esp = 0x7F7E00\<rparr>"

definition sample_terminal :: "nat \<Rightarrow> int \<Rightarrow> addr \<Rightarrow> terminal_t" where
  "sample_terminal i task buf = \<lparr>terminal_idx = int i, x_cursor = 0, y_cursor = 0, color = 7, save_buf = buf,
     save_idx = 0, curr_task = task, video_addr = VIDEO + UNIT_4_KB * (i + 1)\<rparr>"

definition sample_desc :: seg_desc_t where
  "sample_desc = \<lparr>seg_lim_15_00 = 0, base_15_00 = 0, base_23_16 = 0, seg_type = 0, seg_sys = 0, seg_dpl = 0,
     seg_present = 0, seg_lim_19_16 = 0, seg_avail = 0, seg_reserved = 0, seg_opsize = 0, seg_granularity = 0,
     base_31_24 = 0\<rparr>"

definition sample_gate :: idt_desc_t where
  "sample_gate = \<lparr>offset_15_00 = 0, seg_selector = 0, reserved4 = 0, reserved3 = False, reserved2 = False,
     reserved1 = False, size_bit = False, reserved0 = False, dpl = 0, present = False, offset_31_16 = 0\<rparr>"

definition sample :: kstate where
  "sample = \<lparr>mem = sample_mem, phys = (\<lambda>a. 0), tlb_user = user_frame 0 OR 0x87, port_log = [], inports = (\<lambda>p. 0),
     if_flag = True, reg_ebp = 0x7FFF00, reg_esp = 0x7FFE00, cr0 = 0, cr3 = 0x401000, cr4 = 0,
     tss = tss_init\<lparr>ts_ss0 := 0x18, ts_esp0 := 0x7FFFFC\<rparr>, ldt_desc_ptr = sample_desc, tss_desc_ptr = sample_desc,
     ldt_at = 0x403000, ldt_size = 31, tss_at = 0x403100, tss_size = 103, reg_ldtr = 0, reg_tr = 0,
     idt = (\<lambda>v. sample_gate), text_color = 7, screen_x = 0, screen_y = 0,
     page_dir = (\<lambda>i. 0), page_table = (\<lambda>i. 0), page_dir_at = 0x401000, page_table_at = 0x402000,
     curr_pcb = return_pcb_parent 0, boot_block = 0x420000,
     cur_dentry = \<lparr>filename = replicate 32 0, filetype = 0, d_inode_num = 0\<rparr>,
     FS_START_ADDR = 0x420000, FS_END_ADDR = 0x425000,
     pcbs = (\<lambda>a. sample_pcb (if a = return_pcb_parent 1 then 1 else 0)),
     process_num = [0, 1, -1, -1, -1, -1], arg_buf = 0x410000, active_terminal = 0, main_process = 0,
     terminals = [sample_terminal 0 0 0, sample_terminal 1 1 0, sample_terminal 2 (-1) 0],
     frame = 0x7FF000, rodata = (\<lambda>l. 0x450000),
     kb_terminals = [sample_terminal 0 0 0x411000, sample_terminal 1 0 0x411100, sample_terminal 2 0 0x411200],
     kb_active_terminal = 0, keyboard_buf = 0x411300, last_buf = 0x411400, kb_save_buf = 0x411500,
     save_buf_1 = 0x411600, save_buf_2 = 0x411700, save_buf_3 = 0x411800,
     last_idx = 0, keyboard_buf_idx = 0, num_chars = 0, caps_lock_check = -1, pressed_flags = replicate 86 0,
     rtc_flag = 0, curr_process = 0\<rparr>"

lemma sample_simps [simp]:
  "mem sample = sample_mem" "boot_block sample = 0x420000" "FS_START_ADDR sample = 0x420000"
  "process_num sample = [0, 1, -1, -1, -1, -1]" "active_terminal sample = 0" "main_process sample = 0"
  "arg_buf sample = 0x410000" "frame sample = 0x7FF000" "curr_pcb sample = return_pcb_parent 0"
  "pcbs sample = (\<lambda>a. sample_pcb (if a = return_pcb_parent 1 then 1 else 0))"
  "terminals sample = [sample_terminal 0 0 0, sample_terminal 1 1 0, sample_terminal 2 (-1) 0]"
  "kb_terminals sample = [sample_terminal 0 0 0x411000, sample_terminal 1 0 0x411100, sample_terminal 2 0 0x411200]"
  "save_buf_1 sample = 0x411600" "save_buf_2 sample = 0x411700" "save_buf_3 sample = 0x411800"
  "last_buf sample = 0x411400" "pressed_flags sample = replicate 86 0" "caps_lock_check sample = -1"
  "tlb_user sample = user_frame 0 OR 0x87" "page_table_at sample = 0x402000" "text_color sample = 7"
  "reg_ebp sample = 0x7FFF00" "reg_esp sample = 0x7FFE00" "inports sample = (\<lambda>p. 0)" "port_log sample = []"
  by (simp_all add: sample_def)


section \<open>The predicates hold\<close>

lemma sample_terms: "terms_ok sample"
  by (simp add: terms_ok_def sample_terminal_def cursor_ok_def less_Suc_eq numeral_3_eq_3)

lemma sample_pos [simp]: "pos_idx t sample = 0" "main_page sample = VIDEO"
  by (simp_all add: pos_idx_def main_page_def)

lemma sample_table: "table_ok sample"
  by (auto simp: table_ok_def less_Suc_eq numeral_eq_Suc)

lemma sample_fds: "fds_ok sample"
  by (simp add: fds_ok_def sample_pcb_def)

lemma sample_image:
  "dir_count sample = 3" "inode_count sample = 2" "data_count sample = 2" "fs_size sample = 20480" "fs_ok sample"
proof -
  show "dir_count sample = 3" and i: "inode_count sample = 2" and d: "data_count sample = 2"
    by (simp_all add: dir_count_def inode_count_def data_count_def lds32_def ld32_def sample_mem_def)
  show "fs_size sample = 20480" "fs_ok sample" by (simp_all add: fs_size_def fs_ok_def i d)
qed

lemma sample_file:
  "inode_addr sample 1 = 0x422000" "file_length sample 1 = 32" "data_block sample 1 0 = 1" "inode_ok sample 1"
  "k < 32 \<Longrightarrow> file_byte sample 1 k = sample_mem (0x424000 + k)"
proof -
  show a: "inode_addr sample 1 = 0x422000" by (simp add: inode_addr_def del: One_nat_def)
  show l: "file_length sample 1 = 32" by (simp add: file_length_def a ld32_def sample_mem_def del: One_nat_def)
  show d: "data_block sample 1 0 = 1" by (simp add: data_block_def a lds32_def ld32_def sample_mem_def del: One_nat_def)
  show "inode_ok sample 1" by (simp add: inode_ok_def l d sample_image num_blocks_def del: One_nat_def)
  show "file_byte sample 1 k = sample_mem (0x424000 + k)" if "k < 32"
    using that by (simp add: file_byte_def d block_addr_def sample_image del: One_nat_def)
qed

lemma sample_program: "program sample 1"
proof -
  have "file_data sample 1 0 4 = map sample_mem [0x424000, 0x424001, 0x424002, 0x424003]"
    by (simp add: file_data_def sample_file upt_rec del: One_nat_def)
  then show ?thesis by (simp add: program_def sample_file del: One_nat_def) (simp add: sample_mem_def)
qed

lemma sample_keys: "kb_ok sample 0 []"
  by (simp add: kb_ok_def sample_terms no_modifiers_def kb_layout_def edit_addr_def line_addr_def
      disjoint_rng_def VIDEO_def) (simp add: sample_terminal_def)


section \<open>Looking up the program and starting it\<close>

lemma sample_names:
  "entry_name sample 0 = [46]" "entry_name sample 1 = [114, 116, 99]" "entry_name sample 2 = [99, 97, 116]"
  by (simp_all add: entry_name_def direntry_def bytes_at_def upt_rec sample_mem_def)

lemma sample_lookup:
  "lookup_name [99, 97, 116] sample = Some 2" "entry_inode sample 2 = 1" "entry_filetype sample 2 = 2"
proof -
  have "[0..<63] = 0 # 1 # 2 # [3..<63]" by (simp add: upt_rec)
  then show "lookup_name [99, 97, 116] sample = Some 2" by (simp add: lookup_name_def sample_names del: One_nat_def)
  show "entry_inode sample 2 = 1" "entry_filetype sample 2 = 2"
    by (simp_all add: entry_inode_def entry_filetype_def direntry_def lds32_def ld32_def sample_mem_def)
qed

lemma sample_entry: "program_entry sample 1 = 0x08048100"
  by (simp add: program_entry_def entry_word_def sample_file del: One_nat_def) (simp add: sample_mem_def)

lemma sample_slot: "List.find (slot_free sample) [0..<6] = Some 3" "slot_free sample 3"
  by (simp_all add: slot_free_def upt_rec)

lemma sample_command:
  "cstr sample_mem 0x440000 [99, 97, 116, 32, 102]" "cmd_word [99, 97, 116, 32, 102] = [99, 97, 116]"
  "cmd_args [99, 97, 116, 32, 102] = [102]" "exec_layout sample 0x440000 (length [99 :: u8, 97, 116, 32, 102] + 1)"
  by (simp_all add: dstr_Cons cmd_word_def cmd_args_def sample_mem_def exec_layout_def sample_image
      disjoint_rng_def USER_PAGE_def UNIT_4_MB_def)

lemma sample_pids:
  "\<forall>q<6. process_num sample ! q \<noteq> -1 \<longrightarrow> pid (pcbs sample (return_pcb_parent (int q))) = int q"
proof (intro allI impI)
  fix q :: nat assume "q < 6" "process_num sample ! q \<noteq> -1"
  then have "q = 0 \<or> q = 1" by (auto simp: less_Suc_eq numeral_eq_Suc)
  with pcb_inj [of 0 1] show "pid (pcbs sample (return_pcb_parent (int q))) = int q"
    by (auto simp: sample_pcb_def)
qed

text \<open>Another command line, \<open>f\<close>, and the same system with a full process table.\<close>

lemma sample_other:
  "cstr sample_mem 0x440004 [102]" "cmd_word [102] = [102]" "cmd_args [102] = []"
  "exec_layout sample 0x440004 (length [102 :: u8] + 1)" "lookup_name [102] sample = None"
proof -
  show "cstr sample_mem 0x440004 [102]" "cmd_word [102] = [102]" "cmd_args [102] = []"
    "exec_layout sample 0x440004 (length [102 :: u8] + 1)"
    by (simp_all add: dstr_Cons cmd_word_def cmd_args_def sample_mem_def exec_layout_def sample_image
        disjoint_rng_def USER_PAGE_def UNIT_4_MB_def)
  have "entry_name sample i \<noteq> [102]" if "i < 63" for i
  proof -
    have "mem sample (direntry sample i) \<noteq> 102"
      using that by (simp add: direntry_def sample_mem_def)
    moreover have "bytes_at (mem sample) (direntry sample i) 32 =
        mem sample (direntry sample i) # bytes_at (mem sample) (Suc (direntry sample i)) 31"
      using bytes_at_Suc [of "mem sample" "direntry sample i" 31] by simp
    ultimately show ?thesis by (auto simp: entry_name_def)
  qed
  then show "lookup_name [102] sample = None" by (simp add: lookup_name_def find_None_iff)
qed

definition busy :: kstate where
  "busy = sample\<lparr>process_num := [0, 1, 2, 0, 0, 0]\<rparr>"

lemma busy_facts:
  "fs_ok busy" "program busy 1" "cstr (mem busy) 0x440000 [99, 97, 116, 32, 102]"
  "lookup_name [99, 97, 116] busy = Some 2" "entry_inode busy 2 = 1"
  "exec_layout busy 0x440000 (length [99 :: u8, 97, 116, 32, 102] + 1)"
  "table_ok busy" "terms_ok busy" "\<forall>i<6. \<not> slot_free busy i"
  "disjoint_rng (main_page busy) 4000 (rodata busy ''Max processes.\<newline>'') 15"
proof -
  have im: "same_image sample busy" by (simp add: same_image_def busy_def)
  note c = same_image_counts [OF im]
  show "fs_ok busy" using c sample_image by simp
  show "program busy 1" by (rule same_image_program(1) [OF im sample_image(5) sample_program])
  show "cstr (mem busy) 0x440000 [99, 97, 116, 32, 102]" using sample_command by (simp add: busy_def)
  show "lookup_name [99, 97, 116] busy = Some 2" "entry_inode busy 2 = 1"
    using same_image_lookup [OF im] sample_lookup by simp_all
  show "exec_layout busy 0x440000 (length [99 :: u8, 97, 116, 32, 102] + 1)"
    using sample_command(4) c by (simp add: exec_layout_def busy_def)
  show "table_ok busy" "terms_ok busy" "\<forall>i<6. \<not> slot_free busy i"
    by (auto simp: table_ok_def terms_ok_def slot_free_def busy_def sample_terminal_def cursor_ok_def
        less_Suc_eq numeral_eq_Suc)
  show "disjoint_rng (main_page busy) 4000 (rodata busy ''Max processes.\<newline>'') 15"
    by (simp add: busy_def main_page_def pos_idx_def disjoint_rng_def VIDEO_def) (simp add: sample_def)
qed

lemma sample_name: "cstr sample_mem 0x4200C0 [99, 97, 116]"
  by (simp add: dstr_Cons sample_mem_def)


section \<open>A process with an open file\<close>

definition reading :: kstate where
  "reading = put_fd 2 \<lparr>f_ops = Some file_table, inode_num = 1, file_pos = 0, flags = 1\<rparr> sample"

lemma reading_facts:
  "fs_ok reading" "inode_ok reading 1" "fd_on reading 2 1 0" "file_length reading 1 = 32"
  "boot_block reading = 0x420000" "fs_size reading = 20480"
proof -
  have im: "same_image sample reading" by (simp add: same_image_def reading_def)
  note c = same_image_counts [OF im] and f = same_image_inode [OF im sample_image(5) sample_file(4)]
  show "fs_ok reading" "boot_block reading = 0x420000" "fs_size reading = 20480"
    using c sample_image by simp_all
  show "inode_ok reading 1" "file_length reading 1 = 32" using f sample_file(2) by simp_all
  show "fd_on reading 2 1 0"
    using sample_fds fd_table_put_nat [OF sample_fds, of 2] by (simp add: fd_on_def reading_def fd_used_put)
qed

text \<open>Opening the program file of the sample system.\<close>

lemma sample_used: "fd_used sample fd \<longleftrightarrow> fd = 0 \<or> fd = 1"
  by (auto simp: fd_used_def sample_pcb_def sample_fd_def nth_Cons' nth_replicate)

lemma sample_free: "first_free sample = Some 2"
  by (simp add: first_free_def sample_used upt_rec)

lemma sample_fresh: "\<forall>j<8. fd_used sample (int j) \<longrightarrow> inode_num (fd_table sample ! j) \<noteq> 1"
  by (auto simp: sample_used sample_pcb_def sample_fd_def nth_Cons')

lemma sample_open: "\<exists>s1. file_open 0x4200C0 sample = Some (2, s1)"
  using file_open_new [OF sample_fds sample_free, of "0x4200C0" "[99, 97, 116]" 2] sample_name sample_lookup sample_fresh
  by simp

lemma sample_main_pcb: "use_main_pcb sample = sample"
  by (simp add: use_main_pcb_def set_filesys_pcb_def)

lemma sample_open_dir: "\<exists>s1. dir_open 0x420040 sample = Some (2, s1)"
proof -
  have name: "cstr sample_mem 0x420040 [46]" by (simp add: dstr_Cons sample_mem_def)
  have look: "lookup_name [46] sample = Some 0"
    using sample_names(1) by (simp add: lookup_name_def upt_rec [of 0])
  have ft: "entry_filetype sample 0 = 1"
    by (simp add: entry_filetype_def direntry_def lds32_def ld32_def sample_mem_def)
  let ?s1 = "sample\<lparr>cur_dentry := read_entry sample 0 (cur_dentry sample)\<rparr>"
  have "load_cur_dentry 0x420040 sample = Some (0, ?s1)"
    using read_dentry_by_name_lookup [of sample "0x420040" "[46]"] name look by (simp add: load_cur_dentry_def)
  moreover have "strncmp sample_mem (direntry sample 0) 0x420040 32 = 0"
    using strncmp_cstr_zero_iff [OF name name, of 32] by (simp add: direntry_def)
  moreover have st: "same_table sample ?s1" by (simp add: same_table_def)
  have "\<exists>s1. fill_slot upd 0 ?s1 = Some (2, s1)" for upd
    using fill_slot_eq [of ?s1] sample_fds sample_free by (simp add: same_table_used [OF st])
  ultimately show ?thesis by (simp add: dir_open_def read_entry_def ft)
qed

lemma reading_again:
  "get_filetype 0x4200C0 (use_main_pcb reading) = Some 2" "\<exists>s'. file_open 0x4200C0 (use_main_pcb reading) = Some (-1, s')"
proof -
  have pcb: "use_main_pcb reading = reading"
    by (simp add: reading_def use_main_pcb_def set_filesys_pcb_def) (simp add: put_fd_def)
  have im: "same_image sample reading" by (simp add: same_image_def reading_def)
  note look = same_image_lookup [OF im]
  have m: "mem reading = sample_mem" "direntry reading 2 = direntry sample 2"
    by (simp_all add: reading_def direntry_def)
  have ent: "lookup_name [99, 97, 116] reading = Some 2" "entry_inode reading 2 = 1" "entry_filetype reading 2 = 2"
    using look sample_lookup by (simp_all add: entry_filetype_def m)
  have name: "cstr (mem reading) 0x4200C0 [99, 97, 116]" using sample_name by (simp add: m)
  show "get_filetype 0x4200C0 (use_main_pcb reading) = Some 2"
    using get_filetype_lookup [OF name] ent by (simp add: pcb)
  let ?s1 = "reading\<lparr>cur_dentry := read_entry reading 2 (cur_dentry reading)\<rparr>"
  have "load_cur_dentry 0x4200C0 reading = Some (0, ?s1)"
    using read_dentry_by_name_lookup [OF name] ent by (simp add: load_cur_dentry_def)
  moreover have st: "same_table reading ?s1" by (simp add: same_table_def)
  have ok: "fds_ok reading" "fd_used reading 2" "inode_num (fd_table reading ! 2) = 1"
    using reading_facts(3) by (simp_all add: fd_on_def)
  have "already_open 1 0 ?s1 = Some True"
    using already_open_from [of ?s1 1 0] ok same_table_used [OF st] by (auto intro!: exI [of _ 2])
  ultimately show "\<exists>s'. file_open 0x4200C0 (use_main_pcb reading) = Some (-1, s')"
    by (simp add: pcb file_open_def read_entry_def ent)
qed


section \<open>Typing\<close>

lemma sample_events:
  "key_events [0x23, 0xA3, 0x17]" "take 127 ([] @ typed [0x23, 0xA3, 0x17]) = [104, 105]"
proof -
  have p: "plain_code 0x23" "plain_code 0x17" "\<not> plain_code 0xA3"
    by (simp_all add: plain_code_def scancode_def scancode_lower_def nth_append str_bytes_def chb_def)
  have "is_release 0xA3" unfolding is_release_def by (intro exI [of _ "0x23"]) simp
  with p show "key_events [0x23, 0xA3, 0x17]" by (simp add: key_events_def)
  show "take 127 ([] @ typed [0x23, 0xA3, 0x17]) = [104, 105]"
    using p by (simp add: typed_def) (simp add: scancode_def scancode_lower_def nth_append str_bytes_def chb_def)
qed

end
