(* ===== verification/Process_Life.thy ===== *)
theory Process_Life
  imports Scheduler
begin

text \<open>
  The life of a process across system calls: a process that \<open>system_execute\<close> starts,
  runs, and ends with \<open>system_halt\<close> returns to the stack frame of its caller and leaves
  the process table as it was.  While it runs, other code may change the control blocks'
  descriptors and scheduler fields, the cursors and memory; \<open>child_ran\<close> lists what it
  leaves alone.
\<close>

section \<open>Execute, then halt\<close>

definition child_ran :: "kstate \<Rightarrow> kstate \<Rightarrow> bool" where
  "child_ran s1 s2 \<longleftrightarrow> main_process s2 = main_process s1 \<and> process_num s2 = process_num s1 \<and>
     map curr_task (terminals s2) = map curr_task (terminals s1) \<and>
     (\<forall>a. pid (pcbs s2 a) = pid (pcbs s1 a) \<and> parent_pcb (pcbs s2 a) = parent_pcb (pcbs s1 a) \<and>
          ebp (pcbs s2 a) = ebp (pcbs s1 a) \<and> esp (pcbs s2 a) = esp (pcbs s1 a))"

lemma halt_curr_task:
  assumes "map curr_task ts = map curr_task (us[a := (us ! a)\<lparr>curr_task := c\<rparr>])" and "a < length us"
  shows "curr_task (halt_tasks c q ts ! a) = q"
proof -
  have l: "length ts = length us" using arg_cong [OF assms(1), of length] by simp
  have "map curr_task ts ! a = c" unfolding assms(1) using assms(2) by simp
  with l assms(2) show ?thesis by (simp add: halt_tasks_def)
qed

lemma halt_after_execute:
  assumes i: "3 \<le> i" "i < 6" and q: "q < i" and len: "length (process_num s) = 6" "length (terminals s) = 3"
    and free: "process_num s ! i = -1" and a: "a < 3"
    and par: "pid (pcbs s (return_pcb_parent (int q))) = int q"
    and s1: "main_process s1 = int i" "process_num s1 = (process_num s)[i := t]"
      "terminals s1 = (terminals s)[a := (terminals s ! a)\<lparr>curr_task := int i\<rparr>]"
      "pcbs s1 = (pcbs s)(return_pcb_parent (int i) := fresh_pcb i q s)"
    and run: "child_ran s1 s2"
  shows "\<exists>s3. system_halt status s2 = Some (RetFromHalt (reg_ebp s) (reg_esp s) (ucast status), s3) \<and>
    process_num s3 = process_num s \<and> main_process s3 = int q \<and> curr_task (terminals s3 ! a) = int q \<and>
    tlb_user s3 = user_frame (int q) OR 0x87 \<and> status_retval (pcbs s3 (return_pcb_parent (int q))) = ucast status"
proof -
  let ?own = "return_pcb_parent (int i)" and ?par = "return_pcb_parent (int q)"
  have ne: "?par \<noteq> ?own" using pcb_inj [of q i] i q by simp
  have own: "pid (pcbs s2 ?own) = int i" "parent_pcb (pcbs s2 ?own) = ?par"
    "ebp (pcbs s2 ?own) = reg_ebp s" "esp (pcbs s2 ?own) = reg_esp s" "pid (pcbs s2 ?par) = int q"
    using run s1(4) ne par by (simp_all add: child_ran_def fresh_pcb_def)
  have pn: "process_num s2 = (process_num s)[i := t]" "main_process s2 = int i"
    and ts: "map curr_task (terminals s2) = map curr_task ((terminals s)[a := (terminals s ! a)\<lparr>curr_task := int i\<rparr>])"
    using run s1 by (simp_all add: child_ran_def)
  have len2: "length (process_num s2) = 6" using pn len by simp
  have frees: "(process_num s2)[i := -1] = process_num s" using pn free by (simp flip: free)
  from system_halt_eq [of i q s2 status] i q own pn(2) len2 obtain s3 where
    "system_halt status s2 = Some (RetFromHalt (reg_ebp s) (reg_esp s) (ucast status), s3)"
    "main_process s3 = int q" "process_num s3 = process_num s" "terminals s3 = halt_tasks (int i) (int q) (terminals s2)"
    "tlb_user s3 = user_frame (int q) OR 0x87"
    "pcbs s3 = (pcbs s2)(?par := (pcbs s2 ?par)\<lparr>status_retval := ucast status\<rparr>)"
    unfolding frees by auto
  moreover have "curr_task (halt_tasks (int i) (int q) (terminals s2) ! a) = int q"
    by (rule halt_curr_task [OF ts]) (use a len in simp)
  ultimately show ?thesis by auto
qed

lemma execute_then_halt:
  assumes fs: "fs_ok s" and prog: "program s ino" and cs: "cstr (mem s) command cs"
    and len: "length (cmd_word cs) \<le> 32" "length (cmd_args cs) < 128" and ascii: "\<forall>x\<in>set (cmd_word cs). x < 128"
    and look: "lookup_name (cmd_word cs) s = Some d" "entry_inode s d = int ino"
    and lay: "exec_layout s command (length cs + 1)"
    and tab: "table_ok s" "length (terminals s) = 3" and slot: "List.find (slot_free s) [0..<6] = Some i" "3 \<le> i"
    and pids: "\<forall>q<6. process_num s ! q \<noteq> -1 \<longrightarrow> pid (pcbs s (return_pcb_parent (int q))) = int q"
  shows "\<exists>s1 q. system_execute command s = Some (Iret (program_entry s ino), s1) \<and> parent_slot s i q \<and>
    (\<forall>s2 status. child_ran s1 s2 \<longrightarrow>
      (\<exists>s3. system_halt status s2 = Some (RetFromHalt (reg_ebp s) (reg_esp s) (ucast status), s3) \<and>
        process_num s3 = process_num s \<and> main_process s3 = int q \<and>
        curr_task (terminals s3 ! nat (active_terminal s)) = int q \<and>
        tlb_user s3 = user_frame (int q) OR 0x87 \<and> status_retval (pcbs s3 (return_pcb_parent (int q))) = ucast status))"
proof -
  from system_execute_eq [OF fs prog cs len ascii look lay tab slot(1)] obtain s1 q where
    ex: "system_execute command s = Some (Iret (program_entry s ino), s1)" and q: "parent_slot s i q"
    and s1: "main_process s1 = int i" "process_num s1 = (process_num s)[i := active_terminal s]"
      "terminals s1 = (terminals s)[nat (active_terminal s) :=
         (terminals s ! nat (active_terminal s))\<lparr>curr_task := int i\<rparr>]"
      "pcbs s1 = (pcbs s)(return_pcb_parent (int i) := fresh_pcb i q s)"
    by blast
  have i: "i < 6" "process_num s ! i = -1" using slot(1) by (auto simp: find_Some_iff slot_free_def)
  have qi: "q < i" "process_num s ! q = active_terminal s" using q slot(2) by (simp_all add: parent_slot_def)
  have a: "length (process_num s) = 6" "0 \<le> active_terminal s" "active_terminal s < 3" using tab(1) by (simp_all add: table_ok_def)
  have par: "pid (pcbs s (return_pcb_parent (int q))) = int q" using pids qi i(1) a by simp
  have na: "nat (active_terminal s) < 3" using a by simp
  note halt = halt_after_execute [OF slot(2) i(1) qi(1) a(1) tab(2) i(2) na par s1]
  show ?thesis using ex q halt by blast
qed

end
