(* ===== verification/Console_Frame.thy ===== *)
theory Console_Frame
  imports Console
begin

text \<open>
  What output leaves alone.  A view of the kernel state that does not depend on the memory, the
  ports, the cursor of the screen and the cursors of the terminals is the same after any output
  routine of \<open>lib.c\<close>, formatted output included.
\<close>

locale console_frame =
  fixes view :: "kstate \<Rightarrow> 'v"
  assumes mem_frame [simp]: "view (s\<lparr>mem := m\<rparr>) = view s"
    and screen_frame [simp]: "view (s\<lparr>screen_x := x\<rparr>) = view s" "view (s\<lparr>screen_y := y\<rparr>) = view s"
    and outb_frame [simp]: "view (outb v p s) = view s"
    and terminal_frame: "set_terminal_pos x y t s = Some s' \<Longrightarrow> view s' = view s"
begin

lemma update_cursor_frame [simp]: "view (update_cursor s) = view s"
  by (simp add: update_cursor_def Let_def)

lemma my_clear_frame [simp]: "view (my_clear s) = view s"
proof -
  have "view (s\<lparr>screen_x := x, screen_y := y, mem := m\<rparr>) = view s" for x y m
    by (simp add: mem_frame [where s = "s\<lparr>screen_x := x, screen_y := y\<rparr>"])
  then show ?thesis by (simp add: my_clear_def)
qed

lemma char_out_frame: "char_out base c x y s = (x', y', s') \<Longrightarrow> view s' = view s"
  by (auto simp: char_out_def scroll_down_at_def Let_def split: if_splits)

lemma key_putc_frame: "key_putc c s = Some s' \<Longrightarrow> view s' = view s"
  by (auto simp: key_putc_def Let_def split: bind_splits prod.splits dest!: terminal_frame char_out_frame)

lemma backspace_frame: "backspace s = Some s' \<Longrightarrow> view s' = view s"
  by (auto simp: backspace_def set_pos_here_def Let_def split: bind_splits if_splits dest!: terminal_frame key_putc_frame)

lemma my_putc_frame: "my_putc c s = Some s' \<Longrightarrow> view s' = view s"
  by (auto simp: my_putc_def Let_def split: bind_splits prod.splits
      dest!: terminal_frame char_out_frame)

lemma my_puts_loop_frame:
  assumes "my_puts_loop str n i s = Some r"
  shows "view (snd r) = view s"
proof (rule my_puts_loop.raw_induct [where P = "\<lambda>str n i s r. view (snd r) = view s", OF _ assms])
  fix f :: "nat \<Rightarrow> int \<Rightarrow> int \<Rightarrow> kstate \<Rightarrow> (int \<times> kstate) option" and str n i s r
  assume IH: "\<And>str n i s r. f str n i s = Some r \<Longrightarrow> view (snd r) = view s"
    and eq: "(if i = n then Some (i, s)
      else do { s \<leftarrow> my_putc (mem s (nat (int str + i))) s; f str n (i + 1) s }) = Some r"
  then show "view (snd r) = view s"
    by (auto simp: bind_Some_iff split: if_splits dest!: IH my_putc_frame)
qed

lemma my_puts_frame: "my_puts str n s = Some (k, s') \<Longrightarrow> view s' = view s"
  using my_puts_loop_frame by (fastforce simp: my_puts_def)

lemma putc_frame [simp]: "view (putc c s) = view s"
proof -
  obtain x y s1 where c: "char_out VIDEO c (screen_x s) (screen_y s) s = (x, y, s1)" by (metis prod_cases3)
  have "view (s1\<lparr>screen_x := x, screen_y := y\<rparr>) = view s1" by simp
  with char_out_frame [OF c] c show ?thesis by (simp add: putc_def)
qed

lemma puts_loop_frame:
  assumes "puts_loop str i s = Some r"
  shows "view (snd r) = view s"
proof (rule puts_loop.raw_induct [where P = "\<lambda>str i s r. view (snd r) = view s", OF _ assms])
  fix f :: "nat \<Rightarrow> nat \<Rightarrow> kstate \<Rightarrow> (nat \<times> kstate) option" and str i s r
  assume IH: "\<And>str i s r. f str i s = Some r \<Longrightarrow> view (snd r) = view s"
    and eq: "(if mem s (str + i) \<noteq> 0 then f str (i + 1) (putc (mem s (str + i)) s) else Some (i, s)) = Some r"
  then show "view (snd r) = view s" by (auto split: if_splits dest!: IH)
qed

lemma puts_frame: "puts str s = Some (n, s') \<Longrightarrow> view s' = view s"
  using puts_loop_frame by (fastforce simp: puts_def)

lemma print_frame:
  "print_hex v s = Some s' \<Longrightarrow> view s' = view s"
  "print_hex_alt v s = Some s' \<Longrightarrow> view s' = view s"
  "print_unsigned v s = Some s' \<Longrightarrow> view s' = view s"
  "print_signed v s = Some s' \<Longrightarrow> view s' = view s"
  by (auto simp: print_hex_def print_hex_alt_def print_unsigned_def print_signed_def
      split: bind_splits dest!: puts_frame)

lemma fmt_conv_frame:
  assumes put: "\<And>a s n s'. put_str a s = Some (n, s') \<Longrightarrow> view s' = view s"
    and go: "fmt_conv put_str alt buf args s = Some r"
  shows "view (snd (snd r)) = view s"
proof -
  let ?P = "\<lambda>p alt buf args s r. p = put_str \<longrightarrow> view (snd (snd r)) = view s"
  have "?P put_str alt buf args s r"
  proof (rule fmt_conv.raw_induct [where P = "?P", OF _ go], intro impI)
    fix f :: "(addr \<Rightarrow> kstate \<Rightarrow> (nat \<times> kstate) option) \<Rightarrow> bool \<Rightarrow> addr \<Rightarrow> u32 list \<Rightarrow> kstate \<Rightarrow> (addr \<times> u32 list \<times> kstate) option"
      and p alt buf args s r
    assume IH: "\<And>p alt buf args s r. f p alt buf args s = Some r \<Longrightarrow> p = put_str \<longrightarrow> view (snd (snd r)) = view s"
      and p: "p = put_str"
      and eq: "(if mem s buf = 37 then Some (buf, args, putc 37 s)
      else if mem s buf = 35 then f p True (buf + 1) args s
      else if mem s buf = 120 then
        (case args of [] \<Rightarrow> None | v # vs \<Rightarrow> do {
           s \<leftarrow> (if alt then print_hex_alt v s else print_hex v s); Some (buf, vs, s) })
      else if mem s buf = 117 then
        (case args of [] \<Rightarrow> None | v # vs \<Rightarrow> do { s \<leftarrow> print_unsigned v s; Some (buf, vs, s) })
      else if mem s buf = 100 then
        (case args of [] \<Rightarrow> None | v # vs \<Rightarrow> do { s \<leftarrow> print_signed v s; Some (buf, vs, s) })
      else if mem s buf = 99 then
        (case args of [] \<Rightarrow> None | v # vs \<Rightarrow> Some (buf, vs, putc (ucast v) s))
      else if mem s buf = 115 then
        (case args of [] \<Rightarrow> None | v # vs \<Rightarrow> do { (n, s) \<leftarrow> p (unat v) s; Some (buf, vs, s) })
      else Some (buf, args, s)) = Some r"
    have put': "\<And>a s n s'. p a s = Some (n, s') \<Longrightarrow> view s' = view s" using put p by blast
    show "view (snd (snd r)) = view s"
    proof (cases "mem s buf = 35")
      case True
      then have "f p True (buf + 1) args s = Some r" using eq by simp
      from IH [OF this] p show ?thesis by simp
    next
      case False
      with eq show ?thesis
        by (auto split: if_splits list.splits bind_splits dest!: print_frame put')
    qed
  qed
  then show ?thesis by simp
qed

lemma printf_loop_frame:
  assumes put: "\<And>a s n s'. put_str a s = Some (n, s') \<Longrightarrow> view s' = view s"
    and go: "printf_loop put_str buf args s = Some r"
  shows "view (snd r) = view s"
proof -
  let ?P = "\<lambda>p buf args s r. p = put_str \<longrightarrow> view (snd r) = view s"
  have "?P put_str buf args s r"
  proof (rule printf_loop.raw_induct [where P = "?P", OF _ go], intro impI)
    fix f :: "(addr \<Rightarrow> kstate \<Rightarrow> (nat \<times> kstate) option) \<Rightarrow> addr \<Rightarrow> u32 list \<Rightarrow> kstate \<Rightarrow> (addr \<times> kstate) option"
      and p buf args s r
    assume IH: "\<And>p buf args s r. f p buf args s = Some r \<Longrightarrow> p = put_str \<longrightarrow> view (snd r) = view s"
      and p: "p = put_str"
      and eq: "(if mem s buf \<noteq> 0 then
        (if mem s buf = 37 then do {
           (buf, args, s) \<leftarrow> fmt_conv p False (buf + 1) args s;
           f p (buf + 1) args s }
         else f p (buf + 1) args (putc (mem s buf) s))
      else Some (buf, s)) = Some r"
    have IH': "f p buf args s = Some r \<Longrightarrow> view (snd r) = view s" for buf args s r
      using IH p by blast
    show "view (snd r) = view s"
    proof (cases "mem s buf = 37")
      case True
      with eq obtain b as s1 where "fmt_conv p False (buf + 1) args s = Some (b, as, s1)" "f p (b + 1) as s1 = Some r"
        by (auto simp: bind_Some_iff)
      moreover have "view s1 = view s" using fmt_conv_frame [OF put] calculation(1) p by fastforce
      ultimately show ?thesis using IH' by simp
    next
      case False
      with eq show ?thesis by (auto split: if_splits dest!: IH')
    qed
  qed
  then show ?thesis by simp
qed

lemma printf_frame: "printf fmt args s = Some (n, s') \<Longrightarrow> view s' = view s"
  using printf_loop_frame [of puts] puts_frame by (fastforce simp: printf_def bind_Some_iff)

end

end
