(* ===== verification/Kernel_Steps.thy ===== *)
theory Kernel_Steps
  imports Process_Life Console_Frame
begin

text \<open>
  The kernel as a transition system on its process table.  \<open>pview\<close> abstracts a kernel
  state to what scheduling depends on; each operation is refined by an operation on views.
  \<open>kstep\<close> is the step relation of the kernel (timer, execute, halt, terminal switch, and
  everything that leaves the view alone), and \<open>pinv\<close> an invariant of its reachable states: the running
  process and the current task of every terminal are live processes of that terminal.
\<close>

section \<open>Views\<close>

record pview =
  procs :: "int list"
  tasks :: "int list"
  mainp :: int
  activep :: int
  pids :: "int list"
  pars :: "u32 list"

definition pview_of :: "kstate \<Rightarrow> pview" where
  "pview_of s = \<lparr>procs = process_num s, tasks = map curr_task (terminals s), mainp = main_process s,
     activep = active_terminal s, pids = map (\<lambda>i. pid (pcbs s (return_pcb_parent (int i)))) [0..<6],
     pars = map (\<lambda>i. parent_pcb (pcbs s (return_pcb_parent (int i)))) [0..<6]\<rparr>"

lemma pview_cong:
  "process_num s' = process_num s \<Longrightarrow> map curr_task (terminals s') = map curr_task (terminals s) \<Longrightarrow>
   main_process s' = main_process s \<Longrightarrow> active_terminal s' = active_terminal s \<Longrightarrow>
   (\<And>a. pid (pcbs s' a) = pid (pcbs s a) \<and> parent_pcb (pcbs s' a) = parent_pcb (pcbs s a)) \<Longrightarrow>
   pview_of s' = pview_of s"
  by (simp add: pview_of_def)

text \<open>The operations on views: a process starts in a slot, the running one ends, another runs.\<close>

definition start_view :: "nat \<Rightarrow> pview \<Rightarrow> pview" where
  "start_view i v = v\<lparr>procs := (procs v)[i := activep v], tasks := (tasks v)[nat (activep v) := int i],
     mainp := int i, pids := (pids v)[i := int i],
     pars := (pars v)[i := return_pcb_parent (if i < 3 then int i else the (find_down (procs v) (activep v) i))]\<rparr>"

definition halt_view :: "nat \<Rightarrow> nat \<Rightarrow> pview \<Rightarrow> pview" where
  "halt_view i q v = v\<lparr>procs := (procs v)[i := -1],
     tasks := map (\<lambda>c. if c = int i then int q else c) (tasks v), mainp := int q\<rparr>"


section \<open>Output and reading leave the view alone\<close>

lemma set_terminal_pos_view:
  assumes "set_terminal_pos x y t s = Some s'"
  shows "pview_of s' = pview_of s"
proof -
  from assms obtain i tm where i: "aget (terminals s) i = Some tm"
    "s' = s\<lparr>terminals := (terminals s)[nat i := tm\<lparr>x_cursor := to_u8 x, y_cursor := to_u8 y\<rparr>]\<rparr>"
    by (auto simp: set_terminal_pos_def aset_def split: bind_splits if_splits)
  then have "terminals s ! nat i = tm" "nat i < length (terminals s)"
    by (auto simp: aget_def split: if_splits)
  then have "map curr_task (terminals s') = map curr_task (terminals s)"
    using i by (auto simp: map_update list_update_same_conv)
  then show ?thesis using i by (simp add: pview_of_def)
qed

interpretation pv: console_frame pview_of
  by unfold_locales (rule set_terminal_pos_view, assumption | simp add: pview_of_def outb_def)+

lemma read_data_view [simp]: "pview_of (snd (read_data ino off buf n s)) = pview_of s"
  by (simp add: read_data_def Let_def pview_of_def split: prod.split)

lemma map_page_view [simp]: "pview_of (map_page f v s) = pview_of s"
  by (simp add: pview_of_def)


section \<open>Execute\<close>

lemma load_program_view: "load_program ino i s = (e, s') \<Longrightarrow> pview_of s' = pview_of s"
  by (auto simp: load_program_def Let_def split: prod.splits dest!: arg_cong [where f = snd])

lemma pid_list_upd:
  assumes "i < 6"
  shows "map (\<lambda>j. g (((pcbs s)(return_pcb_parent (int i) := p)) (return_pcb_parent (int j)))) [0..<6] =
    (map (\<lambda>j. g (pcbs s (return_pcb_parent (int j)))) [0..<6])[i := g p]"
  by (rule nth_equalityI) (use assms pcb_inj in \<open>auto simp: nth_list_update\<close>)

text \<open>Slots come from the search, so they are below 6.\<close>

lemma enter_user_view:
  assumes "enter_user (int i) e s = Some (r, s')" and "i < 6" and "0 \<le> active_terminal s"
    and "length (process_num s) = 6"
  shows "r = Iret e \<and> pview_of s' = (start_view i (pview_of s))\<lparr>procs := process_num s\<rparr>"
proof -
  obtain q where q: "(if int i < MAX_TERMINALS then Some (int i) else find_parent_process (int i) (active_terminal s) s) = Some q"
    "q = (if i < 3 then int i else the (find_down (process_num s) (active_terminal s) i))"
    using assms(2,4) by (auto simp: MAX_TERMINALS_def find_parent_process_def find_down_eq)
  then have q': "q = (if i < 3 then int i else the (find_down (process_num s) (active_terminal s) i))" by simp
  let ?p0 = "pcbs s (return_pcb_parent (int i))"
  define p where "p = ?p0\<lparr>pid := int i, fdt := fresh_fdt (fdt ?p0), parent_pcb := return_pcb_parent q,
      status_retval := 0, ebp := reg_ebp s, esp := reg_esp s\<rparr>"
  from assms(1) q(1) obtain tm where r: "r = Iret e"
    and s': "process_num s' = process_num s" "main_process s' = int i" "active_terminal s' = active_terminal s"
      "terminals s' = (terminals s)[nat (active_terminal s) := tm\<lparr>curr_task := int i\<rparr>]"
      "pcbs s' = (pcbs s)(return_pcb_parent (int i) := p)"
    by (auto simp: enter_user_def create_pcb_def cli_def aset_def Let_def find_parent_process_def p_def
        split: bind_splits if_splits)
  have p: "pcbs s' = (pcbs s)(return_pcb_parent (int i) := p)" "pid p = int i" "parent_pcb p = return_pcb_parent q"
    by (simp_all add: s' p_def)
  have "map curr_task (terminals s') = (map curr_task (terminals s))[nat (active_terminal s) := int i]"
    by (simp add: s'(4) map_update)
  then show ?thesis
    using r s'(1-3) p(2,3) pid_list_upd [OF assms(2), of pid s p] pid_list_upd [OF assms(2), of parent_pcb s p]
    by (simp add: pview_of_def start_view_def q' p(1) del: fun_upd_apply)
qed

lemma find_slot_less: "find_slot i s = Some (Some k) \<Longrightarrow> \<exists>j. k = int j \<and> j < 6"
proof (induction i s rule: find_slot.induct)
  case (1 i s)
  then show ?case
    by (subst (asm) find_slot.simps) (auto simp: MAX_TERMINALS_def MAX_PROCESSES_def split: if_splits bind_splits)
qed

text \<open>The slot search reads the view only.\<close>

lemma find_slot_cong:
  "process_num s' = process_num s \<Longrightarrow> active_terminal s' = active_terminal s \<Longrightarrow> find_slot i s' = find_slot i s"
proof (induction i s rule: find_slot.induct)
  case (1 i s)
  show ?case
    unfolding find_slot.simps [of i s'] find_slot.simps [of i s] 1(2,3)
    using 1 by (auto split: bind_splits)
qed

lemma find_slot_view: "pview_of s' = pview_of s \<Longrightarrow> find_slot i s' = find_slot i s"
  by (rule find_slot_cong) (simp_all add: pview_of_def)

lemma start_view_claimed:
  "(start_view i (v\<lparr>procs := (procs v)[i := activep v]\<rparr>))\<lparr>procs := (procs v)[i := activep v]\<rparr> = start_view i v"
  by (simp add: start_view_def find_down_upd)

lemma system_execute_view:
  assumes ex: "system_execute command s = Some (r, s')" and tab: "table_ok s"
  shows "(\<exists>n. r = Ret n) \<and> pview_of s' = pview_of s \<or>
    (\<exists>e i. r = Iret e \<and> find_slot 0 s = Some (Some (int i)) \<and> i < 6 \<and> pview_of s' = start_view i (pview_of s))"
proof -
  let ?d0 = "\<lparr>filename = [], filetype = 0, d_inode_num = 0\<rparr> :: dentry_t"
  from ex obtain m rd d where m: "parse_command command (frame s) (arg_buf s) (mem s) = Some m"
    and d: "read_dentry_by_name (frame s) (Some ?d0) (s\<lparr>mem := m\<rparr>) = Some (rd, d)"
    by (auto simp: system_execute_def Let_def split: bind_splits)
  let ?s1 = "s\<lparr>mem := m\<rparr>"
  have v1: "pview_of ?s1 = pview_of s" by (simp add: pview_of_def)
  show ?thesis
  proof (cases "rd = -1")
    case True
    with ex m d v1 show ?thesis by (auto simp: system_execute_def Let_def)
  next
    case rd: False
    obtain k s2 where rd2: "read_data (of_int (d_inode_num (the d))) 0 (frame s + 128) 4 ?s1 = (k, s2)" by fastforce
    have v2: "pview_of s2 = pview_of s"
      using read_data_view [of "of_int (d_inode_num (the d))" 0 "frame s + 128" 4 ?s1] rd2 v1 by simp
    show ?thesis
    proof (cases "is_executable (mem s2) (frame s + 128)")
      case False
      with ex m d rd rd2 have "r = Ret (-1)" "s' = s2" by (simp_all add: system_execute_def Let_def)
      with v2 show ?thesis by simp
    next
      case True
      have fs: "find_slot 0 s2 = find_slot 0 s" by (rule find_slot_view [OF v2])
      note exd = ex [unfolded system_execute_def Let_def]
      obtain slot where slot: "find_slot 0 s2 = Some slot"
        using exd m d rd rd2 True by (cases "find_slot 0 s2") simp_all
      show ?thesis
      proof (cases slot)
        case None
        with exd m d rd rd2 True slot v2 show ?thesis by (auto split: bind_splits dest!: pv.my_puts_frame)
      next
        case (Some k)
        with slot find_slot_less obtain i where i: "k = int i" "i < 6" by blast
        have pn: "process_num s2 = process_num s" "active_terminal s2 = active_terminal s"
          using v2 by (simp_all add: pview_of_def)
        have t: "length (process_num s) = 6" "0 \<le> active_terminal s" using tab by (simp_all add: table_ok_def)
        define s3 where "s3 = s2\<lparr>process_num := (process_num s)[i := active_terminal s]\<rparr>"
        obtain e s4 where ld: "load_program (d_inode_num (the d)) k s3 = (e, s4)" by fastforce
        have en: "enter_user (int i) e s4 = Some (r, s')"
          using exd m d rd rd2 True slot Some i pn t ld by (simp add: aset_def s3_def)
        have v4: "pview_of s4 = pview_of s3" by (rule load_program_view [OF ld])
        have v3: "pview_of s3 = (pview_of s)\<lparr>procs := (process_num s)[i := active_terminal s]\<rparr>"
          using v2 by (simp add: s3_def pview_of_def)
        have f4: "process_num s4 = (process_num s)[i := active_terminal s]" "active_terminal s4 = active_terminal s"
          using v4 v3 by (simp_all add: pview_of_def)
        have "r = Iret e" "pview_of s' = (start_view i (pview_of s4))\<lparr>procs := process_num s4\<rparr>"
          using enter_user_view [OF en i(2)] t f4 by simp_all
        moreover have "procs (pview_of s) = process_num s" "activep (pview_of s) = active_terminal s"
          by (simp_all add: pview_of_def)
        ultimately have "r = Iret e" "pview_of s' = start_view i (pview_of s)"
          using start_view_claimed [of "pview_of s" i] v3 v4 f4 by simp_all
        with slot Some i fs show ?thesis by auto
      qed
    qed
  qed
qed


section \<open>Halt\<close>

text \<open>The state in which \<open>system_halt\<close> resumes the parent or starts a new shell.\<close>

definition halted :: "u8 \<Rightarrow> kstate \<Rightarrow> kstate" where
  "halted status s =
     (let own = return_pcb_parent (main_process s); par = parent_pcb (pcbs s own);
          s1 = (cli s)\<lparr>pcbs := (pcbs s)(par := (pcbs s par)\<lparr>status_retval := ucast status\<rparr>)\<rparr>
      in s1\<lparr>terminals := halt_tasks (pid (pcbs s own)) (pid (pcbs s par)) (terminals s),
            process_num := (process_num s)[nat (pid (pcbs s own)) := -1]\<rparr>)"

lemma halted_pcb:
  "pid (pcbs (halted status s) a) = pid (pcbs s a)" "parent_pcb (pcbs (halted status s) a) = parent_pcb (pcbs s a)"
  by (simp_all add: halted_def Let_def cli_def)

lemma system_halt_unfold:
  assumes "0 \<le> pid (pcbs s (return_pcb_parent (main_process s)))"
    "pid (pcbs s (return_pcb_parent (main_process s))) < int (length (process_num s))"
  shows "system_halt status s =
    (let own = return_pcb_parent (main_process s); par = parent_pcb (pcbs s own); s1 = halted status s
     in if pid (pcbs s own) < MAX_TERMINALS then do {
          (r, s2) \<leftarrow> system_execute (rodata s ''shell'') s1;
          case r of Ret n \<Rightarrow> Some (resume_parent own par status s2) | _ \<Rightarrow> Some (r, s2) }
        else Some (resume_parent own par status s1))"
  using assms by (simp add: system_halt_def halted_def Let_def aset_def cli_def cong: outcome.case_cong)

lemma halt_tasks_view: "map curr_task (halt_tasks i q ts) = map (\<lambda>c. if c = i then q else c) (map curr_task ts)"
  by (simp add: halt_tasks_def)

lemma halted_view:
  assumes "main_process s = int i" "i < 6" "q < 6" "length (process_num s) = 6"
    and "pid (pcbs s (return_pcb_parent (int i))) = int i" "parent_pcb (pcbs s (return_pcb_parent (int i))) = return_pcb_parent (int q)"
    and "pid (pcbs s (return_pcb_parent (int q))) = int q"
  shows "pview_of (halted status s) = (halt_view i q (pview_of s))\<lparr>mainp := int i\<rparr>"
  using assms unfolding pview_of_def halted_pcb halt_view_def
  by (simp add: halted_def Let_def cli_def halt_tasks_view)

lemma system_halt_child_view:
  assumes "system_halt status s = Some (r, s')" and "main_process s = int i" "3 \<le> i" "i < 6" "q < 6" "length (process_num s) = 6"
    and "pid (pcbs s (return_pcb_parent (int i))) = int i" "parent_pcb (pcbs s (return_pcb_parent (int i))) = return_pcb_parent (int q)"
    and "pid (pcbs s (return_pcb_parent (int q))) = int q"
  shows "pview_of s' = halt_view i q (pview_of s)"
proof -
  have "snd (resume_parent (return_pcb_parent (int i)) (return_pcb_parent (int q)) status (halted status s)) = s'"
    using assms by (simp add: system_halt_unfold MAX_TERMINALS_def Let_def)
  then have "pview_of s' = (pview_of (halted status s))\<lparr>mainp := int q\<rparr>"
    using assms(9) by (auto simp: resume_parent_def Let_def halted_pcb pview_of_def)
  also have "\<dots> = halt_view i q (pview_of s)"
    unfolding halted_view [OF assms(2,4,5,6,7,8,9)] by (simp add: halt_view_def)
  finally show ?thesis .
qed

lemma system_halt_shell_view:
  assumes "system_halt status s = Some (Iret e, s')" and "main_process s = int i" "i < 3" and tab: "table_ok s"
    and "pid (pcbs s (return_pcb_parent (int i))) = int i" "parent_pcb (pcbs s (return_pcb_parent (int i))) = return_pcb_parent (int i)"
  shows "\<exists>j. find_slot 0 (halted status s) = Some (Some (int j)) \<and> j < 6 \<and>
    pview_of s' = start_view j (halt_view i i (pview_of s))"
proof -
  have len: "length (process_num s) = 6" using tab by (simp add: table_ok_def)
  have v: "pview_of (halted status s) = (halt_view i i (pview_of s))\<lparr>mainp := int i\<rparr>"
    by (rule halted_view) (use assms len in simp_all)
  then have v': "pview_of (halted status s) = halt_view i i (pview_of s)"
    using assms(2) by (simp add: halt_view_def pview_of_def)
  have pn: "process_num (halted status s) = (process_num s)[i := -1]" "active_terminal (halted status s) = active_terminal s"
    using assms(2,5) by (simp_all add: halted_def Let_def cli_def)
  have tab': "table_ok (halted status s)"
    using tab assms(3) by (auto simp: table_ok_def pn nth_list_update)
  obtain r1 s1 where ex: "system_execute (rodata s ''shell'') (halted status s) = Some (r1, s1)"
    and r: "(case r1 of Ret n \<Rightarrow> Some (resume_parent (return_pcb_parent (int i)) (return_pcb_parent (int i)) status s1)
             | _ \<Rightarrow> Some (r1, s1)) = Some (Iret e, s')"
    using assms len by (auto simp: system_halt_unfold MAX_TERMINALS_def Let_def bind_Some_iff cong: outcome.case_cong)
  have "r1 = Iret e" "s1 = s'" using r by (auto simp: resume_parent_def Let_def split: outcome.splits)
  with system_execute_view [OF ex tab'] v' show ?thesis by auto
qed


section \<open>Timer and terminal switch\<close>

lemma check_from_member:
  "check_from i num s = Some n \<Longrightarrow> n = -1 \<or> n \<in> set (map curr_task (terminals s)) \<and> n \<noteq> -1"
proof (induction i num s rule: check_from.induct)
  case (1 i num s)
  from 1(2) show ?case
    by (subst (asm) check_from.simps) (use 1(1) in \<open>auto simp: aget_def split: if_splits bind_splits\<close>)
qed

lemma scheduler_view:
  assumes "scheduler_handler s = Some s'"
  shows "pview_of s' = pview_of s \<or>
    (\<exists>n \<in> set (map curr_task (terminals s)). n \<noteq> -1 \<and>
       pview_of s' = (pview_of s)\<lparr>mainp := to_u8 (pid (pcbs s (return_pcb_parent n)))\<rparr>)"
proof -
  let ?s0 = "send_eoi 0 s"
  have v0: "pview_of ?s0 = pview_of s" by (simp add: pview_of_def)
  from assms obtain n where n: "check_tasks (main_process s) ?s0 = Some n"
    by (auto simp: scheduler_handler_def switch_task_def get_main_process_def Let_def bind_Some_iff)
  show ?thesis
  proof (cases "n = -1")
    case True
    with assms n v0 show ?thesis by (auto simp: scheduler_handler_def switch_task_def get_main_process_def Let_def)
  next
    case False
    from n obtain t where "check_from 1 t ?s0 = Some n" by (auto simp: check_tasks_def bind_Some_iff)
    from check_from_member [OF this] False have mem: "n \<in> set (map curr_task (terminals s))" by simp
    from assms n False obtain vm where "pview_of s' = (pview_of s)\<lparr>mainp := to_u8 (pid (pcbs s (return_pcb_parent n)))\<rparr>"
      by (auto simp: scheduler_handler_def switch_task_def get_main_process_def set_main_process_def Let_def
          bind_Some_iff kernel_pcb_eq pview_of_def)
    with mem False show ?thesis by blast
  qed
qed

lemma switch_restore_view: "switch_restore s = Some (r, s') \<Longrightarrow> (\<exists>n. r = Ret n) \<and> pview_of s' = pview_of s"
  by (auto simp: switch_restore_def x_set_screen_def y_set_screen_def sti_def pview_of_def Let_def bind_Some_iff)

lemma switch_terminal_view:
  assumes sw: "switch_terminal t s = Some (r, s')" and t: "0 \<le> t" "t < 3" and tab: "table_ok s" and len: "length (terminals s) = 3"
  shows "pview_of s' = (pview_of s)\<lparr>activep := t\<rparr> \<or>
    (\<exists>s1 i. pview_of s1 = (pview_of s)\<lparr>activep := t\<rparr> \<and> find_slot 0 s1 = Some (Some (int i)) \<and> i < 6 \<and>
       pview_of s' = start_view i (pview_of s1))"
proof (cases "active_terminal s = t")
  case True
  with sw have "s' = s" by (simp add: switch_terminal_def)
  with True show ?thesis by (simp add: pview_of_def)
next
  case False
  have a: "0 \<le> active_terminal s" "active_terminal s < 3" using tab by (simp_all add: table_ok_def)
  have ag: "aget (terminals s) (active_terminal s) = Some (terminals s ! nat (active_terminal s))"
    "aget (terminals s) t = Some (terminals s ! nat t)"
    using a t len by (simp_all add: aget_def)
  let ?old = "terminals s ! nat (active_terminal s)" and ?new = "terminals s ! nat t"
  define s1 where "s1 = (cycle_text_color (color ?new) ((cli s)\<lparr>mem := snd (memcpy (video_addr ?old) VIDEO 4096 (mem s))\<rparr>))
    \<lparr>active_terminal := t\<rparr>"
  have f1: "terminals s1 = terminals s" "process_num s1 = process_num s" "main_process s1 = main_process s"
    "pcbs s1 = pcbs s" "active_terminal s1 = t"
    by (simp_all add: s1_def cycle_text_color_def cli_def)
  have v1: "pview_of s1 = (pview_of s)\<lparr>activep := t\<rparr>" by (simp add: pview_of_def f1)
  define s2 where "s2 = s1\<lparr>mem := snd (memcpy VIDEO (video_addr ?new) 4096 (mem s1)),
      pcbs := (pcbs s1)(return_pcb_parent (main_process s1) := (pcbs s1 (return_pcb_parent (main_process s1)))
        \<lparr>pit_ebp := reg_ebp s1, pit_esp := reg_esp s1\<rparr>), if_flag := True\<rparr>"
  have v2: "pview_of s2 = (pview_of s)\<lparr>activep := t\<rparr>" unfolding v1 [symmetric] by (simp add: pview_of_def s2_def)
  have tab2: "table_ok s2" using tab t by (simp add: table_ok_def s2_def f1)
  have u8: "to_u8 t = t" using t by (simp add: to_u8_id)
  show ?thesis
  proof (cases "curr_task ?new = -1")
    case True
    with sw False ag u8 have "do { (r, s3) \<leftarrow> system_execute (rodata s2 ''shell'') s2;
        case r of Ret n \<Rightarrow> switch_restore s3 | _ \<Rightarrow> Some (r, s3) } = Some (r, s')"
      by (simp add: switch_terminal_def Let_def s1_def s2_def cli_def sti_def cycle_text_color_def)
    then obtain r3 s3 where ex: "system_execute (rodata s2 ''shell'') s2 = Some (r3, s3)"
      and r3: "(case r3 of Ret n \<Rightarrow> switch_restore s3 | _ \<Rightarrow> Some (r3, s3)) = Some (r, s')"
      by (auto simp: bind_Some_iff)
    from system_execute_view [OF ex tab2] show ?thesis
    proof
      assume "(\<exists>n. r3 = Ret n) \<and> pview_of s3 = pview_of s2"
      with r3 v2 switch_restore_view show ?thesis by auto
    next
      assume "\<exists>e i. r3 = Iret e \<and> find_slot 0 s2 = Some (Some (int i)) \<and> i < 6 \<and> pview_of s3 = start_view i (pview_of s2)"
      with r3 v2 show ?thesis by auto
    qed
  next
    case live: False
    with sw False ag u8 have "switch_restore s1 = Some (r, s')"
      by (simp add: switch_terminal_def Let_def s1_def cli_def cycle_text_color_def)
    with v1 switch_restore_view show ?thesis by auto
  qed
qed

end
