(* ===== verification/Process_Invariant.thy ===== *)
theory Process_Invariant
  imports Kernel_Steps
begin

text \<open>
  The invariant of the process table, on the views of \<open>Kernel_Steps\<close>.  The table is well
  formed, every terminal's current task is one of its own live processes, the running process
  is a current task, and the chain of parents that \<open>system_halt\<close> follows leads to live
  processes of the same terminal.  A process in the background may start a child on the
  terminal in front, so a slot may outlive its parent; the last two clauses say exactly which
  slots can, which is what keeps the chain of every current task intact.
\<close>

section \<open>The invariant\<close>

definition shape_ok :: "pview \<Rightarrow> bool" where
  "shape_ok v \<longleftrightarrow> length (procs v) = 6 \<and> length (tasks v) = 3 \<and> length (pids v) = 6 \<and> length (pars v) = 6 \<and>
     0 \<le> activep v \<and> activep v < 3 \<and>
     (\<forall>i<6. procs v ! i \<in> {-1, 0, 1, 2}) \<and> (\<forall>i<3. procs v ! i \<in> {-1, int i})"

definition tasks_ok :: "pview \<Rightarrow> bool" where
  "tasks_ok v \<longleftrightarrow> (\<forall>t<3. tasks v ! t = -1 \<or> (\<exists>c<6. tasks v ! t = int c \<and> procs v ! c = int t))"

definition main_ok :: "pview \<Rightarrow> bool" where
  "main_ok v \<longleftrightarrow> (\<exists>t<3. tasks v ! t = mainp v) \<and> mainp v \<noteq> -1"

definition blocks_ok :: "pview \<Rightarrow> bool" where
  "blocks_ok v \<longleftrightarrow> (\<forall>i<6. procs v ! i \<noteq> -1 \<longrightarrow> pids v ! i = int i) \<and>
     (\<forall>i<3. procs v ! i \<noteq> -1 \<longrightarrow> pars v ! i = return_pcb_parent (int i)) \<and>
     (\<forall>t<3. \<forall>i<6. procs v ! i = int t \<longrightarrow> procs v ! t = int t)"

definition parents_ok :: "pview \<Rightarrow> bool" where
  "parents_ok v \<longleftrightarrow> (\<forall>t<3. \<forall>i<6. 3 \<le> i \<longrightarrow> procs v ! i = int t \<longrightarrow> (i \<le> 4 \<or> tasks v ! t = 5) \<longrightarrow>
       (\<exists>q<i. pars v ! i = return_pcb_parent (int q) \<and> procs v ! q = int t))"

definition chain_ok :: "pview \<Rightarrow> bool" where
  "chain_ok v \<longleftrightarrow> (\<forall>t<3. procs v ! 4 = int t \<longrightarrow> pars v ! 4 = return_pcb_parent 3 \<longrightarrow>
       tasks v ! t = 4 \<or> tasks v ! t = 5 \<and> pars v ! 5 = return_pcb_parent 4)"

definition pinv :: "pview \<Rightarrow> bool" where
  "pinv v \<longleftrightarrow> shape_ok v \<and> tasks_ok v \<and> main_ok v \<and> blocks_ok v \<and> parents_ok v \<and> chain_ok v"

lemma rpp_inj: "i < 6 \<Longrightarrow> j < 6 \<Longrightarrow> return_pcb_parent (int i) = return_pcb_parent (int j) \<longleftrightarrow> i = j"
  using pcb_inj [of i j] by auto

lemma rpp_numeral [simp]:
  "i < 6 \<Longrightarrow> return_pcb_parent (int i) = return_pcb_parent 3 \<longleftrightarrow> i = 3"
  "i < 6 \<Longrightarrow> return_pcb_parent (int i) = return_pcb_parent 4 \<longleftrightarrow> i = 4"
  using rpp_inj [of i 3] rpp_inj [of i 4] by simp_all


section \<open>Starting a process\<close>

text \<open>What the slot search promises: the slot is free and usable on the terminal, and the
  parent is the nearest slot below that the terminal owns.\<close>

definition slot_for :: "pview \<Rightarrow> nat \<Rightarrow> nat \<Rightarrow> bool" where
  "slot_for v i q \<longleftrightarrow> i < 6 \<and> procs v ! i = -1 \<and>
     (if i < 3 then activep v = int i \<and> q = i
      else q < i \<and> procs v ! q = activep v \<and> (\<forall>j. q < j \<and> j < i \<longrightarrow> procs v ! j \<noteq> activep v))"

lemma table_ok_view: "shape_ok (pview_of s) \<Longrightarrow> table_ok s"
  by (simp add: shape_ok_def table_ok_def pview_of_def)

lemma find_slot_for:
  assumes sh: "shape_ok (pview_of s)" and slot: "find_slot 0 s = Some (Some (int i))"
  shows "\<exists>q. slot_for (pview_of s) i q \<and>
    start_view i (pview_of s) = (pview_of s)\<lparr>procs := (process_num s)[i := active_terminal s],
      tasks := (tasks (pview_of s))[nat (active_terminal s) := int i], mainp := int i,
      pids := (pids (pview_of s))[i := int i], pars := (pars (pview_of s))[i := return_pcb_parent (int q)]\<rparr>"
proof -
  have tab: "table_ok s" using sh by (rule table_ok_view)
  have f: "List.find (slot_free s) [0..<6] = Some i" using slot find_slot_eq [OF tab] by simp
  then have i: "i < 6" "slot_free s i" by (auto simp: find_Some_iff)
  show ?thesis
  proof (cases "i < 3")
    case True
    with i show ?thesis by (auto simp: slot_for_def slot_free_def start_view_def pview_of_def)
  next
    case False
    then obtain q where q: "find_parent_process (int i) (active_terminal s) s = Some (int q)" "q < i"
      "process_num s ! q = active_terminal s" "\<forall>j. q < j \<and> j < i \<longrightarrow> process_num s ! j \<noteq> active_terminal s"
      using find_slot_parent [OF tab f] by auto
    have "the (find_down (process_num s) (active_terminal s) i) = int q"
      using q(1) False by (simp add: find_parent_process_def MAX_TERMINALS_def)
    with False i q show ?thesis by (auto simp: slot_for_def slot_free_def start_view_def pview_of_def)
  qed
qed

lemma parents_okD:
  assumes "parents_ok v" "t < 3" "i < 6" "3 \<le> i" "procs v ! i = int t" "i \<le> 4 \<or> tasks v ! t = 5"
  obtains q where "q < i" "pars v ! i = return_pcb_parent (int q)" "procs v ! q = int t"
  using assms unfolding parents_ok_def by blast

lemma tasks_okD:
  "tasks_ok v \<Longrightarrow> t < 3 \<Longrightarrow> tasks v ! t \<noteq> -1 \<Longrightarrow> \<exists>c<6. tasks v ! t = int c \<and> procs v ! c = int t"
  unfolding tasks_ok_def by blast

lemma blocks_okD: "blocks_ok v \<Longrightarrow> t < 3 \<Longrightarrow> i < 6 \<Longrightarrow> procs v ! i = int t \<Longrightarrow> procs v ! t = int t"
  unfolding blocks_ok_def by blast

lemma chain_parent:
  assumes "parents_ok v" "t < 3" "procs v ! 4 = int t" "pars v ! 4 = return_pcb_parent 3"
  shows "procs v ! 3 = int t"
proof -
  obtain p where "p < 4" "pars v ! 4 = return_pcb_parent (int p)" "procs v ! p = int t"
    by (rule parents_okD [OF assms(1,2) _ _ assms(3)]) simp_all
  then show ?thesis using assms(4) rpp_numeral(1) [of p] by auto
qed

lemma start_chain:
  assumes inv: "blocks_ok v" "parents_ok v" "chain_ok v"
    and l: "length (procs v) = 6" "length (tasks v) = 3" "length (pids v) = 6" "length (pars v) = 6" "a < 3"
    and i: "i < 6" "procs v ! i = -1" "i < 3 \<Longrightarrow> i = a \<and> q = i"
      "3 \<le> i \<Longrightarrow> q < i \<and> procs v ! q = int a \<and> (\<forall>j. q < j \<and> j < i \<longrightarrow> procs v ! j \<noteq> int a)"
    and task: "\<And>t. t < 3 \<Longrightarrow> tasks v ! t \<noteq> int i"
  shows "chain_ok (v\<lparr>procs := (procs v)[i := int a], tasks := (tasks v)[a := int i], mainp := int i,
      pids := (pids v)[i := int i], pars := (pars v)[i := return_pcb_parent (int q)]\<rparr>)" (is "chain_ok ?w")
  unfolding chain_ok_def
proof (intro allI impI)
  fix t :: nat assume t: "t < 3" and c: "procs ?w ! 4 = int t" "pars ?w ! 4 = return_pcb_parent 3"
  show "tasks ?w ! t = 4 \<or> tasks ?w ! t = 5 \<and> pars ?w ! 5 = return_pcb_parent 4"
  proof (cases "i = 4")
    case True
    with c l show ?thesis by simp
  next
    case False
    with c l have p4: "procs v ! 4 = int t" "pars v ! 4 = return_pcb_parent 3" by simp_all
    have p3: "procs v ! 3 = int t" by (rule chain_parent [OF inv(2) t p4])
    have pt: "procs v ! t = int t" by (rule blocks_okD [OF inv(1) t _ p4(1)]) simp
    have old: "tasks v ! t = 4 \<or> tasks v ! t = 5 \<and> pars v ! 5 = return_pcb_parent 4"
      using inv(3) t p4 by (simp add: chain_ok_def)
    have "i \<noteq> 3" using p3 i by auto
    with False i(1) consider "i < 3" | "i = 5" by linarith
    then show ?thesis
    proof cases
      case 1
      with pt i have "t \<noteq> a" by auto
      with 1 old show ?thesis by simp
    next
      case 2
      have "\<not> q < 4" if "t = a" using i(4) p4(1) that 2 by auto
      with i(4) 2 have "q = 4" if "t = a" using that by fastforce
      with 2 old task [OF t] l t show ?thesis by (cases "t = a") auto
    qed
  qed
qed

lemma start_pinv:
  assumes inv: "shape_ok v" "tasks_ok v" "blocks_ok v" "parents_ok v" "chain_ok v" and slot: "slot_for v i q" and a: "activep v = int a"
  shows "pinv (v\<lparr>procs := (procs v)[i := int a], tasks := (tasks v)[a := int i], mainp := int i,
      pids := (pids v)[i := int i], pars := (pars v)[i := return_pcb_parent (int q)]\<rparr>)" (is "pinv ?w")
proof -
  have l: "length (procs v) = 6" "length (tasks v) = 3" "length (pids v) = 6" "length (pars v) = 6" "a < 3"
    using inv(1) a by (auto simp: shape_ok_def)
  have i: "i < 6" "procs v ! i = -1" "i < 3 \<Longrightarrow> i = a \<and> q = i"
    "3 \<le> i \<Longrightarrow> q < i \<and> procs v ! q = int a \<and> (\<forall>j. q < j \<and> j < i \<longrightarrow> procs v ! j \<noteq> int a)"
    using slot a by (auto simp: slot_for_def split: if_splits)
  have task: "tasks v ! t \<noteq> int i" if "t < 3" for t
    using inv(2) i(1,2) that by (fastforce simp: tasks_ok_def)
  have "shape_ok ?w" using inv(1) i l a by (auto simp: shape_ok_def nth_list_update less_Suc_eq numeral_eq_Suc)
  moreover have "tasks_ok ?w"
    unfolding tasks_ok_def
  proof (intro allI impI)
    fix t :: nat assume t: "t < 3"
    show "tasks ?w ! t = -1 \<or> (\<exists>c<6. tasks ?w ! t = int c \<and> procs ?w ! c = int t)"
      using inv(2) i(1,2) l t task [OF t] by (cases "t = a") (auto simp: tasks_ok_def nth_list_update)
  qed
  moreover have "main_ok ?w" using l by (auto simp: main_ok_def intro!: exI [of _ a])
  moreover have "procs v ! a = int a" if "3 \<le> i"
    by (rule blocks_okD [OF inv(3), of a q]) (use i(1,4) l(5) that in auto)
  then have "blocks_ok ?w" using inv(3) i(1-3) l by (cases "3 \<le> i") (auto simp: blocks_ok_def nth_list_update)
  moreover have "parents_ok ?w"
    unfolding parents_ok_def
  proof (intro allI impI)
    fix t k :: nat assume t: "t < 3" and k: "k < 6" "3 \<le> k" "procs ?w ! k = int t" "k \<le> 4 \<or> tasks ?w ! t = 5"
    show "\<exists>q<k. pars ?w ! k = return_pcb_parent (int q) \<and> procs ?w ! q = int t"
    proof (cases "k = i")
      case True
      with i l k show ?thesis by (auto intro!: exI [of _ q])
    next
      case False
      with k l have pk: "procs v ! k = int t" by simp
      have "k \<le> 4 \<or> tasks v ! t = 5"
        using k False l i by (cases "t = a") auto
      then obtain p where p: "p < k" "pars v ! k = return_pcb_parent (int p)" "procs v ! p = int t"
        by (rule parents_okD [OF inv(4) t k(1,2) pk])
      then have "p \<noteq> i" using i by auto
      with p False show ?thesis by auto
    qed
  qed
  moreover have "chain_ok ?w" by (rule start_chain [OF inv(3-5) l i task])
  ultimately show ?thesis by (simp add: pinv_def)
qed


section \<open>Ending a process\<close>

lemma main_task:
  assumes "pinv v" and "mainp v = int i"
  obtains t where "t < 3" "tasks v ! t = int i" "i < 6" "procs v ! i = int t"
proof -
  from assms obtain t where t: "t < 3" "tasks v ! t = int i" by (auto simp: pinv_def main_ok_def)
  moreover from t assms(1) obtain c where "c < 6" "tasks v ! t = int c" "procs v ! c = int t"
    by (auto simp: pinv_def tasks_ok_def)
  ultimately show ?thesis using that by auto
qed

text \<open>The parent of a running child is a live process of the same terminal.\<close>

lemma main_parent:
  assumes inv: "pinv v" and main: "mainp v = int i" "3 \<le> i"
  obtains t q where "t < 3" "tasks v ! t = int i" "i < 6" "procs v ! i = int t" "q < i"
    "pars v ! i = return_pcb_parent (int q)" "procs v ! q = int t" "pids v ! i = int i" "pids v ! q = int q"
proof -
  obtain t where t: "t < 3" "tasks v ! t = int i" "i < 6" "procs v ! i = int t"
    by (rule main_task [OF inv main(1)])
  have "i \<le> 4 \<or> tasks v ! t = 5" using t by (cases "i = 5") auto
  then obtain q where q: "q < i" "pars v ! i = return_pcb_parent (int q)" "procs v ! q = int t"
    using inv t main(2) by (auto simp: pinv_def elim: parents_okD)
  have "pids v ! i = int i" "pids v ! q = int q"
    using inv t q by (auto simp: pinv_def blocks_ok_def)
  with t q show ?thesis by (rule that)
qed

lemma halt_pinv:
  assumes inv: "pinv v" and t: "t < 3" "tasks v ! t = int i" "i < 6" "procs v ! i = int t" "3 \<le> i"
    and q: "q < i" "pars v ! i = return_pcb_parent (int q)" "procs v ! q = int t"
  shows "pinv (halt_view i q v)" (is "pinv ?w")
proof -
  have parts: "shape_ok v" "tasks_ok v" "blocks_ok v" "parents_ok v" "chain_ok v" using inv by (simp_all add: pinv_def)
  have l: "length (procs v) = 6" "length (tasks v) = 3" using parts(1) by (simp_all add: shape_ok_def)
  have other: "tasks v ! u \<noteq> int i" if "u < 3" "u \<noteq> t" for u
    using parts(2) that t(4) by (fastforce simp: tasks_ok_def)
  have w: "procs ?w = (procs v)[i := -1]" "mainp ?w = int q" "pids ?w = pids v" "pars ?w = pars v" "activep ?w = activep v"
    "\<And>u. u < 3 \<Longrightarrow> tasks ?w ! u = (if u = t then int q else tasks v ! u)" "length (tasks ?w) = 3"
    using l t other by (auto simp: halt_view_def)
  have "shape_ok ?w" using parts(1) t l w(7) by (auto simp: shape_ok_def w(1-5) nth_list_update)
  moreover have "tasks_ok ?w"
    unfolding tasks_ok_def
  proof (intro allI impI)
    fix u :: nat assume u: "u < 3"
    show "tasks ?w ! u = -1 \<or> (\<exists>c<6. tasks ?w ! u = int c \<and> procs ?w ! c = int u)"
    proof (cases "u = t")
      case True
      with q t w(1) w(6) [OF u] show ?thesis by (auto intro!: exI [of _ q])
    next
      case False
      with parts(2) u other [OF u False] w(1) w(6) [OF u] show ?thesis by (auto simp: tasks_ok_def)
    qed
  qed
  moreover have "main_ok ?w" using t(1) w(2) w(6) [OF t(1)] by (auto simp: main_ok_def)
  moreover have "blocks_ok ?w" using parts(3) t(3,5) l by (auto simp: blocks_ok_def w nth_list_update)
  moreover have "parents_ok ?w"
    unfolding parents_ok_def
  proof (intro allI impI)
    fix u k :: nat assume u: "u < 3" and k: "k < 6" "3 \<le> k" "procs ?w ! k = int u" "k \<le> 4 \<or> tasks ?w ! u = 5"
    have ki: "k \<noteq> i" "procs v ! k = int u" using k(1,3) l t(3) by (auto simp: w(1) nth_list_update split: if_splits)
    have k5: "k \<le> 4 \<or> tasks v ! u = 5 \<and> u \<noteq> t" using k(4) q(1) t(3) w(6) [OF u] by (auto split: if_splits)
    then obtain p where p: "p < k" "pars v ! k = return_pcb_parent (int p)" "procs v ! p = int u"
      using parents_okD [OF parts(4) u k(1,2) ki(2)] by blast
    have "p \<noteq> i"
    proof
      assume pi: "p = i"
      with p(3) t(4) have ut: "u = t" by simp
      with k5 k(2) p(1) pi t(5) have "k = 4" "i = 3" by linarith+
      with parts(5) t ut ki(2) p(2) pi show False by (auto simp: chain_ok_def)
    qed
    with p show "\<exists>q<k. pars ?w ! k = return_pcb_parent (int q) \<and> procs ?w ! q = int u" by (auto simp: w)
  qed
  moreover have "chain_ok ?w"
    unfolding chain_ok_def
  proof (intro allI impI)
    fix u :: nat assume u: "u < 3" and c: "procs ?w ! 4 = int u" "pars ?w ! 4 = return_pcb_parent 3"
    have i4: "i \<noteq> 4" "procs v ! 4 = int u" "pars v ! 4 = return_pcb_parent 3"
      using c l t(3) by (auto simp: w nth_list_update split: if_splits)
    have old: "tasks v ! u = 4 \<or> tasks v ! u = 5 \<and> pars v ! 5 = return_pcb_parent 4"
      using parts(5) u i4 by (simp add: chain_ok_def)
    have q4: "q = 4" if "u = t"
    proof -
      from old that t(2) i4(1) have "i = 5" "pars v ! 5 = return_pcb_parent 4" by auto
      with q(2) have "return_pcb_parent (int q) = return_pcb_parent 4" by metis
      then show "q = 4" using q(1) t(3) by simp
    qed
    show "tasks ?w ! u = 4 \<or> tasks ?w ! u = 5 \<and> pars ?w ! 5 = return_pcb_parent 4"
      unfolding w(6) [OF u] w(4) using old by (cases "u = t") (simp_all add: q4)
  qed
  ultimately show ?thesis by (simp add: pinv_def)
qed

text \<open>A shell that ends on the terminal in front is started again in the same slot.\<close>

lemma restart_view:
  assumes inv: "pinv v" and main: "mainp v = int i" "i < 3" "activep v = int i"
  shows "start_view i (halt_view i i v) = v"
proof -
  obtain t where t: "t < 3" "tasks v ! t = int i" "procs v ! i = int t" by (rule main_task [OF inv main(1)])
  have l: "length (procs v) = 6" "length (tasks v) = 3" "length (pids v) = 6" "length (pars v) = 6"
    and own: "procs v ! i \<in> {-1, int i}" "pids v ! i = int i" "pars v ! i = return_pcb_parent (int i)"
    using inv main(2) t(3) unfolding pinv_def shape_ok_def blocks_ok_def by auto
  from own t have ti: "t = i" by auto
  have "(tasks v)[i := int i] = tasks v" "(procs v)[i := int i] = procs v" "(pids v)[i := int i] = pids v"
    "(pars v)[i := return_pcb_parent (int i)] = pars v"
    using t own ti list_update_id [of "tasks v" i] list_update_id [of "procs v" i]
      list_update_id [of "pids v" i] list_update_id [of "pars v" i] by simp_all
  moreover have "map (\<lambda>c. if c = int i then int i else c) (tasks v) = tasks v" by (simp add: map_idI)
  ultimately show ?thesis using main by (simp add: start_view_def halt_view_def)
qed


section \<open>The abstract machine\<close>

text \<open>The process table on its own: a process starts on the terminal in front, the running one
  ends and its parent runs, the timer picks a current task, another terminal comes to the front.\<close>

inductive vstep :: "pview \<Rightarrow> pview \<Rightarrow> bool" where
  start: "slot_for v i q \<Longrightarrow> vstep v (v\<lparr>procs := (procs v)[i := activep v],
     tasks := (tasks v)[nat (activep v) := int i], mainp := int i, pids := (pids v)[i := int i],
     pars := (pars v)[i := return_pcb_parent (int q)]\<rparr>)"
| finish: "mainp v = int i \<Longrightarrow> 3 \<le> i \<Longrightarrow> q < i \<Longrightarrow> pars v ! i = return_pcb_parent (int q) \<Longrightarrow>
     procs v ! q = procs v ! i \<Longrightarrow> vstep v (halt_view i q v)"
| pick: "n \<in> set (tasks v) \<Longrightarrow> n \<noteq> -1 \<Longrightarrow> vstep v (v\<lparr>mainp := n\<rparr>)"
| front: "0 \<le> t \<Longrightarrow> t < 3 \<Longrightarrow> vstep v (v\<lparr>activep := t\<rparr>)"

lemma vstep_pinv: "vstep v w \<Longrightarrow> pinv v \<Longrightarrow> pinv w"
proof (induction rule: vstep.induct)
  case (start v i q)
  then have "activep v = int (nat (activep v))" by (simp add: pinv_def shape_ok_def)
  with start start_pinv [of v i q "nat (activep v)"] show ?case by (simp add: pinv_def)
next
  case (finish v i q)
  obtain t where t: "t < 3" "tasks v ! t = int i" "i < 6" "procs v ! i = int t"
    by (rule main_task [OF finish(6,1)])
  show ?case by (rule halt_pinv [OF finish(6) t finish(2-4)]) (simp add: finish(5) t(4))
next
  case (pick n v)
  then show ?case
    by (auto simp: pinv_def shape_ok_def tasks_ok_def main_ok_def blocks_ok_def parents_ok_def chain_ok_def in_set_conv_nth)
next
  case (front t v)
  then show ?case
    by (auto simp: pinv_def shape_ok_def tasks_ok_def main_ok_def blocks_ok_def parents_ok_def chain_ok_def)
qed

lemma vsteps_pinv: "vstep\<^sup>*\<^sup>* v w \<Longrightarrow> pinv v \<Longrightarrow> pinv w"
  by (induction rule: rtranclp_induct) (auto intro: vstep_pinv)

end
