(* ===== verification/Kernel_Reach.thy ===== *)
theory Kernel_Reach
  imports Process_Invariant
begin

text \<open>
  The steps of the kernel and its reachable states.  Every step is simulated by steps of the
  abstract process table, so the invariant holds in every reachable state; from it follow that
  the timer interrupt always finds a process to run and that a child always returns to a live
  process of its own terminal.
\<close>

section \<open>Steps\<close>

text \<open>A shell may end only on the terminal in front and when it can be started again: the
  handler starts the new shell on the terminal in front, whichever ran the old one.\<close>

inductive kstep :: "kstate \<Rightarrow> kstate \<Rightarrow> bool" where
  tick: "scheduler_handler s = Some s' \<Longrightarrow> kstep s s'"
| exec: "system_execute command s = Some (r, s') \<Longrightarrow> kstep s s'"
| halt_child: "system_halt status s = Some (r, s') \<Longrightarrow> 3 \<le> main_process s \<Longrightarrow> kstep s s'"
| halt_shell: "system_halt status s = Some (Iret e, s') \<Longrightarrow> main_process s < 3 \<Longrightarrow>
    active_terminal s = main_process s \<Longrightarrow> kstep s s'"
| switch: "switch_terminal t s = Some (r, s') \<Longrightarrow> 0 \<le> t \<Longrightarrow> t < 3 \<Longrightarrow> kstep s s'"
| work: "pview_of s' = pview_of s \<Longrightarrow> kstep s s'"

lemma view_simps:
  "procs (pview_of s) = process_num s" "tasks (pview_of s) = map curr_task (terminals s)"
  "mainp (pview_of s) = main_process s" "activep (pview_of s) = active_terminal s"
  "i < 6 \<Longrightarrow> pids (pview_of s) ! i = pid (pcbs s (return_pcb_parent (int i)))"
  "i < 6 \<Longrightarrow> pars (pview_of s) ! i = parent_pcb (pcbs s (return_pcb_parent (int i)))"
  by (simp_all add: pview_of_def)

lemma start_vstep:
  assumes "shape_ok (pview_of s)" and "find_slot 0 s = Some (Some (int i))"
  shows "vstep (pview_of s) (start_view i (pview_of s))"
proof -
  obtain q where "slot_for (pview_of s) i q"
    "start_view i (pview_of s) = (pview_of s)\<lparr>procs := (process_num s)[i := active_terminal s],
      tasks := (tasks (pview_of s))[nat (active_terminal s) := int i], mainp := int i,
      pids := (pids (pview_of s))[i := int i], pars := (pars (pview_of s))[i := return_pcb_parent (int q)]\<rparr>"
    using find_slot_for [OF assms] by blast
  with vstep.start [of "pview_of s" i q] show ?thesis by (simp add: view_simps)
qed

lemma main_nat:
  assumes "pinv (pview_of s)"
  obtains i where "main_process s = int i" "i < 6"
proof -
  from assms obtain t where "t < 3" "tasks (pview_of s) ! t = main_process s" "main_process s \<noteq> -1"
    by (auto simp: pinv_def main_ok_def view_simps)
  moreover with assms obtain c where "c < 6" "tasks (pview_of s) ! t = int c"
    using tasks_okD [of "pview_of s" t] by (auto simp: pinv_def)
  ultimately show ?thesis using that [of c] by simp
qed

lemma execute_vstep:
  assumes inv: "pinv (pview_of s)" and ex: "system_execute command s = Some (r, s')"
  shows "vstep\<^sup>*\<^sup>* (pview_of s) (pview_of s')"
proof -
  have sh: "shape_ok (pview_of s)" using inv by (simp add: pinv_def)
  from system_execute_view [OF ex table_ok_view [OF sh]] start_vstep [OF sh] show ?thesis by auto
qed

lemma task_pid:
  assumes inv: "pinv (pview_of s)" and n: "n \<in> set (map curr_task (terminals s))" "n \<noteq> -1"
  shows "to_u8 (pid (pcbs s (return_pcb_parent n))) = n \<and> (\<exists>c t. n = int c \<and> c < 6 \<and> t < 3 \<and> process_num s ! c = int t)"
proof -
  have len: "length (terminals s) = 3" using inv by (simp add: pinv_def shape_ok_def view_simps)
  from n(1) obtain t where "t < length (map curr_task (terminals s))" "map curr_task (terminals s) ! t = n"
    by (auto simp only: in_set_conv_nth)
  with n(2) len inv obtain c where "c < 6" "n = int c" "process_num s ! c = int t" "t < 3"
    by (auto simp: pinv_def tasks_ok_def view_simps)
  moreover with inv have "pid (pcbs s (return_pcb_parent n)) = n"
    by (auto simp: pinv_def blocks_ok_def view_simps)
  ultimately show ?thesis by (auto simp: to_u8_id)
qed

lemma tick_vstep:
  assumes inv: "pinv (pview_of s)" and go: "scheduler_handler s = Some s'"
  shows "vstep\<^sup>*\<^sup>* (pview_of s) (pview_of s')"
  using scheduler_view [OF go]
proof
  assume "\<exists>n\<in>set (map curr_task (terminals s)). n \<noteq> -1 \<and>
    pview_of s' = (pview_of s)\<lparr>mainp := to_u8 (pid (pcbs s (return_pcb_parent n)))\<rparr>"
  then obtain n where n: "n \<in> set (map curr_task (terminals s))" "n \<noteq> -1"
    "pview_of s' = (pview_of s)\<lparr>mainp := to_u8 (pid (pcbs s (return_pcb_parent n)))\<rparr>" by blast
  then have "vstep (pview_of s) (pview_of s')"
    using task_pid [OF inv n(1,2)] vstep.pick [of n "pview_of s"] by (simp add: view_simps)
  then show ?thesis by auto
qed simp

lemma halt_child_vstep:
  assumes inv: "pinv (pview_of s)" and go: "system_halt status s = Some (r, s')" and main: "3 \<le> main_process s"
  shows "vstep\<^sup>*\<^sup>* (pview_of s) (pview_of s')"
proof -
  obtain i where i: "main_process s = int i" using main_nat [OF inv] by blast
  have i3: "3 \<le> i" using i main by simp
  have mi: "mainp (pview_of s) = int i" by (simp add: view_simps i)
  obtain t q where t: "t < 3" "tasks (pview_of s) ! t = int i" "i < 6" "procs (pview_of s) ! i = int t" "q < i"
    "pars (pview_of s) ! i = return_pcb_parent (int q)" "procs (pview_of s) ! q = int t"
    "pids (pview_of s) ! i = int i" "pids (pview_of s) ! q = int q"
    by (rule main_parent [OF inv mi i3])
  have len: "length (process_num s) = 6" using inv by (simp add: pinv_def shape_ok_def view_simps)
  have "pview_of s' = halt_view i q (pview_of s)"
    by (rule system_halt_child_view [OF go i i3]) (use t len in \<open>simp_all add: view_simps\<close>)
  moreover have "vstep (pview_of s) (halt_view i q (pview_of s))"
    by (rule vstep.finish [OF mi i3 t(5,6)]) (simp add: t(4,7))
  ultimately show ?thesis by auto
qed

lemma halt_shell_view:
  assumes inv: "pinv (pview_of s)" and go: "system_halt status s = Some (Iret e, s')"
    and main: "main_process s < 3" "active_terminal s = main_process s"
  shows "pview_of s' = pview_of s"
proof -
  obtain i where i: "main_process s = int i" using main_nat [OF inv] by blast
  have i3: "i < 3" using i main by simp
  have mi: "mainp (pview_of s) = int i" by (simp add: view_simps i)
  obtain t where t: "t < 3" "tasks (pview_of s) ! t = int i" "i < 6" "procs (pview_of s) ! i = int t"
    by (rule main_task [OF inv mi])
  have own: "pid (pcbs s (return_pcb_parent (int i))) = int i" "parent_pcb (pcbs s (return_pcb_parent (int i))) = return_pcb_parent (int i)"
    using inv t(3,4) i3 unfolding pinv_def blocks_ok_def by (auto simp: view_simps)
  have tab: "table_ok s" using inv by (simp add: pinv_def table_ok_view)
  obtain j where j: "find_slot 0 (halted status s) = Some (Some (int j))"
    "pview_of s' = start_view j (halt_view i i (pview_of s))"
    using system_halt_shell_view [OF go i i3 tab own] by blast
  have pn: "process_num (halted status s) = (process_num s)[i := -1]" "active_terminal (halted status s) = int i"
    using i own(1) main(2) by (simp_all add: halted_def Let_def cli_def)
  have len: "length (process_num s) = 6" using tab by (simp add: table_ok_def)
  have tab': "table_ok (halted status s)"
    using tab i3 by (auto simp: table_ok_def pn nth_list_update)
  have "\<not> slot_free (halted status s) k" if "k < i" for k
    using that i3 by (simp add: slot_free_def pn)
  moreover have "slot_free (halted status s) i" using i3 len by (simp add: slot_free_def pn)
  ultimately have "List.find (slot_free (halted status s)) [0..<6] = Some i"
    using t(3) by (auto simp: find_Some_iff)
  with j(1) find_slot_eq [OF tab'] have "j = i" by simp
  with j(2) restart_view [OF inv mi i3] main(2) show ?thesis by (simp add: view_simps i)
qed

lemma switch_vstep:
  assumes inv: "pinv (pview_of s)" and go: "switch_terminal t s = Some (r, s')" "0 \<le> t" "t < 3"
  shows "vstep\<^sup>*\<^sup>* (pview_of s) (pview_of s')"
proof -
  have sh: "shape_ok (pview_of s)" using inv by (simp add: pinv_def)
  then have len: "length (terminals s) = 3" by (simp add: shape_ok_def view_simps)
  have f: "vstep (pview_of s) ((pview_of s)\<lparr>activep := t\<rparr>)" by (rule vstep.front [OF go(2,3)])
  from switch_terminal_view [OF go table_ok_view [OF sh] len] show ?thesis
  proof
    assume "pview_of s' = (pview_of s)\<lparr>activep := t\<rparr>"
    with f show ?thesis by auto
  next
    assume "\<exists>s1 i. pview_of s1 = (pview_of s)\<lparr>activep := t\<rparr> \<and> find_slot 0 s1 = Some (Some (int i)) \<and> i < 6 \<and>
       pview_of s' = start_view i (pview_of s1)"
    then obtain s1 i where s1: "pview_of s1 = (pview_of s)\<lparr>activep := t\<rparr>" "find_slot 0 s1 = Some (Some (int i))"
      "pview_of s' = start_view i (pview_of s1)" by blast
    have "shape_ok (pview_of s1)" using vstep_pinv [OF f inv] by (simp add: s1 pinv_def)
    from start_vstep [OF this s1(2)] f show ?thesis by (simp add: s1)
  qed
qed

lemma kstep_vstep: "kstep s s' \<Longrightarrow> pinv (pview_of s) \<Longrightarrow> vstep\<^sup>*\<^sup>* (pview_of s) (pview_of s')"
proof (induction rule: kstep.induct)
  case (halt_shell status s e s')
  then show ?case using halt_shell_view by simp
qed (auto intro: execute_vstep tick_vstep halt_child_vstep switch_vstep)


section \<open>Reachable states\<close>

text \<open>The state in which \<open>entry\<close> starts the first shell.\<close>

definition boot_state :: "kstate \<Rightarrow> bool" where
  "boot_state s \<longleftrightarrow> process_num s = replicate 6 (-1) \<and> map curr_task (terminals s) = replicate 3 (-1) \<and>
     active_terminal s = 0"

inductive reachable :: "kstate \<Rightarrow> bool" where
  boot: "boot_state s \<Longrightarrow> system_execute command s = Some (Iret e, s') \<Longrightarrow> reachable s'"
| step: "reachable s \<Longrightarrow> kstep s s' \<Longrightarrow> reachable s'"

lemma boot_pinv:
  assumes b: "boot_state s" and ex: "system_execute command s = Some (Iret e, s')"
  shows "pinv (pview_of s')"
proof -
  let ?v = "pview_of s"
  have parts: "shape_ok ?v" "tasks_ok ?v" "blocks_ok ?v" "parents_ok ?v" "chain_ok ?v"
    using b by (auto simp: boot_state_def shape_ok_def tasks_ok_def blocks_ok_def parents_ok_def chain_ok_def
        pview_of_def numeral_eq_Suc less_Suc_eq)
  from system_execute_view [OF ex table_ok_view [OF parts(1)]] obtain i where
    i: "find_slot 0 s = Some (Some (int i))" "pview_of s' = start_view i ?v" by auto
  obtain q where q: "slot_for ?v i q"
    "start_view i ?v = ?v\<lparr>procs := (process_num s)[i := active_terminal s],
      tasks := (tasks ?v)[nat (active_terminal s) := int i], mainp := int i,
      pids := (pids ?v)[i := int i], pars := (pars ?v)[i := return_pcb_parent (int q)]\<rparr>"
    using find_slot_for [OF parts(1) i(1)] by blast
  have "activep ?v = int 0" "active_terminal s = 0" using b by (simp_all add: boot_state_def view_simps)
  with start_pinv [OF parts q(1), of 0] q(2) i(2) show ?thesis by (simp add: view_simps)
qed

lemma reachable_inv: "reachable s \<Longrightarrow> pinv (pview_of s)"
proof (induction rule: reachable.induct)
  case (boot s command e s')
  then show ?case by (rule boot_pinv)
next
  case (step s s')
  then show ?case using vsteps_pinv kstep_vstep by blast
qed


section \<open>What the invariant gives\<close>

lemma running_process:
  assumes inv: "pinv (pview_of s)"
  obtains i t where "i < 6" "t < 3" "main_process s = int i" "process_num s ! i = int t"
    "curr_task (terminals s ! t) = int i" "length (process_num s) = 6" "length (terminals s) = 3"
    "pid (pcbs s (return_pcb_parent (int i))) = int i"
proof -
  obtain i where i: "main_process s = int i" using main_nat [OF inv] by blast
  then have mi: "mainp (pview_of s) = int i" by (simp add: view_simps)
  obtain t where t: "t < 3" "tasks (pview_of s) ! t = int i" "i < 6" "procs (pview_of s) ! i = int t"
    by (rule main_task [OF inv mi])
  have len: "length (process_num s) = 6" "length (terminals s) = 3"
    using inv by (simp_all add: pinv_def shape_ok_def view_simps)
  have "pids (pview_of s) ! i = int i" using inv t by (auto simp: pinv_def blocks_ok_def)
  with t i len that show ?thesis by (simp add: view_simps)
qed

text \<open>The timer picks the current task of the next terminal that has one; it stays with the
  running process only if no other terminal has a task.\<close>

lemma tick_progress:
  assumes inv: "pinv (pview_of s)" and main: "main_process s = int i" "process_num s ! i = int n" "i < 6" "n < 3"
  shows "\<exists>s'. scheduler_handler s = Some s' \<and> main_process s' =
    (if curr_task (terminals s ! ((n + 1) mod 3)) \<noteq> -1 then curr_task (terminals s ! ((n + 1) mod 3))
     else if curr_task (terminals s ! ((n + 2) mod 3)) \<noteq> -1 then curr_task (terminals s ! ((n + 2) mod 3))
     else int i)"
proof -
  have len: "length (process_num s) = 6" "length (terminals s) = 3"
    using inv by (simp_all add: pinv_def shape_ok_def view_simps)
  obtain t where t: "t < 3" "curr_task (terminals s ! t) = int i" "process_num s ! i = int t"
    by (rule main_task [OF inv, of i]) (use main(1) len in \<open>simp_all add: view_simps\<close>)
  with main have own: "curr_task (terminals s ! n) = main_process s" by simp
  have ag: "aget (process_num s) (int i) = Some (int n)" using main(2,3) len by simp
  have task: "\<exists>c<6. curr_task (terminals s ! u) = int c \<and> process_num s ! c = int u" if "u < 3" "curr_task (terminals s ! u) \<noteq> -1" for u
    using inv that len tasks_okD [of "pview_of s" u] by (simp add: pinv_def view_simps)
  have run: "runnable s u \<longleftrightarrow> curr_task (terminals s ! u) \<noteq> -1" if "u < 3" "u \<noteq> n" for u
    using task [OF that(1)] that main(1,2) by (auto simp: runnable_def)
  let ?u = "(n + 1) mod 3" and ?w = "(n + 2) mod 3"
  have uw: "?u < 3" "?w < 3" "?u \<noteq> n" "?w \<noteq> n" using main(4) by presburger+
  note pick = check_tasks_round_robin [OF len(2) ag main(4) own, unfolded run [OF uw(1,3)] run [OF uw(2,4)]]
  have sw: "\<exists>s'. scheduler_handler s = Some s' \<and> main_process s' = curr_task (terminals s ! u)"
    if u: "u < 3" "u \<noteq> n" "curr_task (terminals s ! u) \<noteq> -1" "check_tasks (int i) s = Some (curr_task (terminals s ! u))" for u
  proof -
    obtain c where c: "c < 6" "curr_task (terminals s ! u) = int c" "process_num s ! c = int u" using task [OF u(1,3)] by blast
    have "pid (pcbs s (return_pcb_parent (int c))) = int c" using inv c by (auto simp: pinv_def blocks_ok_def view_simps)
    moreover have "i \<noteq> c" using c(3) main(2) u(2) by auto
    ultimately show ?thesis
      using scheduler_switch [of i s c u] u(1,4) c main(1,3) len by auto
  qed
  show ?thesis
  proof (cases "curr_task (terminals s ! ?u) \<noteq> -1")
    case True
    with sw [OF uw(1,3)] pick show ?thesis by simp
  next
    case no: False
    show ?thesis
    proof (cases "curr_task (terminals s ! ?w) \<noteq> -1")
      case True
      with no sw [OF uw(2,4)] pick show ?thesis by simp
    next
      case False
      with no pick main(1) have "scheduler_handler s = Some (send_eoi 0 s)" by (intro scheduler_idle) simp
      with no False main(1) show ?thesis by simp
    qed
  qed
qed

lemma halt_progress:
  assumes inv: "pinv (pview_of s)" and main: "main_process s = int i" "3 \<le> i"
  obtains q s' where "q < i" "process_num s ! q = process_num s ! i" "process_num s ! i \<noteq> -1"
    "system_halt status s = Some (RetFromHalt (ebp (pcbs s (return_pcb_parent (int i))))
       (esp (pcbs s (return_pcb_parent (int i)))) (ucast status), s')"
    "main_process s' = int q" "process_num s' = (process_num s)[i := -1]" "tlb_user s' = user_frame (int q) OR 0x87"
proof -
  have mi: "mainp (pview_of s) = int i" by (simp add: view_simps main)
  obtain t q where t: "i < 6" "procs (pview_of s) ! i = int t" "q < i"
    "pars (pview_of s) ! i = return_pcb_parent (int q)" "procs (pview_of s) ! q = int t"
    "pids (pview_of s) ! i = int i" "pids (pview_of s) ! q = int q"
    by (rule main_parent [OF inv mi main(2)])
  have len: "length (process_num s) = 6" using inv by (simp add: pinv_def shape_ok_def view_simps)
  from system_halt_eq [OF main(2) t(1), of q s status] t main len that [of q] show ?thesis
    by (auto simp: view_simps)
qed

end
