(* ===== verification/Boot.thy ===== *)
theory Boot
  imports Kernel Kernel_Reach
begin

text \<open>
  Start-up leads into the reachable states: nothing that \<open>entry\<close> does before the first
  \<open>system_execute\<close> touches the process table, and \<open>init_terminals\<close> leaves every
  terminal without a task.  Formatted output, the devices, paging and the descriptor tables are
  shown to keep the view of the process table on the way.
\<close>

section \<open>The report and the devices\<close>

lemma say_view: "say fmt args s = Some s' \<Longrightarrow> pview_of s' = pview_of s"
  by (auto simp: say_def bind_Some_iff dest!: pv.printf_frame)

lemma say_bytes_view: "say_bytes n a s = Some s' \<Longrightarrow> pview_of s' = pview_of s"
  by (induction n a s rule: say_bytes.induct) (fastforce simp: bind_Some_iff dest: say_view)+

lemma fs_view [simp]: "pview_of (fs_set_start_end b e s) = pview_of s" "pview_of (fs_init s) = pview_of s"
  by (simp_all add: fs_set_start_end_def fs_init_def init_cur_dentry_def init_boot_block_def pview_of_def)

lemma say_modules_view:
  assumes "say_modules mbi k md s = Some s'"
  shows "pview_of s' = pview_of s"
proof (rule say_modules.raw_induct [where P = "\<lambda>mbi k md s s'. pview_of s' = pview_of s", OF _ assms])
  fix f :: "addr \<Rightarrow> u32 \<Rightarrow> addr \<Rightarrow> kstate \<Rightarrow> kstate option" and mbi k md s s'
  assume IH: "\<And>mbi k md s s'. f mbi k md s = Some s' \<Longrightarrow> pview_of s' = pview_of s"
    and eq: "(if k < mods_count (multiboot_info (mem s) mbi) then do {
        s \<leftarrow> say ''Module %d loaded at address: 0x%#x\<newline>'' [k, mod_start (boot_module (mem s) md)] s;
        s \<leftarrow> say ''Module %d ends at address: 0x%#x\<newline>'' [k, mod_end (boot_module (mem s) md)] s;
        let s = fs_set_start_end (unat (mod_start (boot_module (mem s) md))) (unat (mod_end (boot_module (mem s) md))) s;
        s \<leftarrow> say ''First few bytes of module:\<newline>'' [] s;
        s \<leftarrow> say_bytes 16 (unat (mod_start (boot_module (mem s) md))) s;
        s \<leftarrow> say ''\<newline>'' [] s;
        f mbi (k + 1) (md + 16) s }
      else Some s) = Some s'"
  then show "pview_of s' = pview_of s"
    by (auto simp: bind_Some_iff Let_def split: if_splits dest!: IH say_view say_bytes_view)
qed

lemma say_mmap_view:
  assumes "say_mmap mbi mm s = Some s'"
  shows "pview_of s' = pview_of s"
proof (rule say_mmap.raw_induct [where P = "\<lambda>mbi mm s s'. pview_of s' = pview_of s", OF _ assms])
  fix f :: "addr \<Rightarrow> u32 \<Rightarrow> kstate \<Rightarrow> kstate option" and mbi mm s s'
  assume IH: "\<And>mbi mm s s'. f mbi mm s = Some s' \<Longrightarrow> pview_of s' = pview_of s"
    and eq: "(if mm < mmap_addr (multiboot_info (mem s) mbi) + mmap_length (multiboot_info (mem s) mbi) then do {
        let e = memory_map (mem s) (unat mm);
        s \<leftarrow> say ''    size = 0x%x, base_addr = 0x%#x%#x\<newline>    type = 0x%x,  length    = 0x%#x%#x\<newline>''
              [mmap_size e, base_addr_high e, base_addr_low e, mmap_type e, length_high e, length_low e] s;
        f mbi (mm + mmap_size (memory_map (mem s) (unat mm)) + 4) s }
      else Some s) = Some s'"
  then show "pview_of s' = pview_of s"
    by (auto simp: bind_Some_iff Let_def split: if_splits dest!: IH say_view)
qed

lemma if_view:
  assumes "(if b then m else Some s) = Some s'" and "\<And>s'. m = Some s' \<Longrightarrow> pview_of s' = pview_of s"
  shows "pview_of s' = pview_of s"
  using assms by (auto split: if_splits)

lemmas say_if_view = if_view [where m = "say _ _ _", OF _ say_view]
  if_view [where m = "say_modules _ _ _ _", OF _ say_modules_view]

lemma report_view:
  assumes "report_mbi mbi s = Some (go, s')"
  shows "pview_of s' = pview_of s"
proof -
  let ?i = "\<lambda>s. multiboot_info (mem s) mbi"
  from assms obtain s0 s1 s2 s3 s4 where
    h: "say ''flags = 0x%#x\<newline>'' [mbi_flags (?i s)] s = Some s0"
      "(if CHECK_FLAG (mbi_flags (?i s0)) 0 then say ''mem_lower = %uKB, mem_upper = %uKB\<newline>'' [mem_lower (?i s0), mem_upper (?i s0)] s0 else Some s0) = Some s1"
      "(if CHECK_FLAG (mbi_flags (?i s1)) 1 then say ''boot_device = 0x%#x\<newline>'' [boot_device (?i s1)] s1 else Some s1) = Some s2"
      "(if CHECK_FLAG (mbi_flags (?i s2)) 2 then say ''cmdline = %s\<newline>'' [cmdline (?i s2)] s2 else Some s2) = Some s3"
      "(if CHECK_FLAG (mbi_flags (?i s3)) 3 then say_modules mbi 0 (unat (mods_addr (?i s3))) s3 else Some s3) = Some s4"
    and rest: "(if CHECK_FLAG (mbi_flags (?i s4)) 4 \<and> CHECK_FLAG (mbi_flags (?i s4)) 5 then do {
       s \<leftarrow> say ''Both bits 4 and 5 are set.\<newline>'' [] s4;
       Some (False, s) }
     else do {
       s \<leftarrow> (if CHECK_FLAG (mbi_flags (?i s4)) 5
             then say ''elf_sec: num = %u, size = 0x%#x, addr = 0x%#x, shndx = 0x%#x\<newline>''
                    [elf_num (elf_sec (?i s4)), elf_size (elf_sec (?i s4)), elf_addr (elf_sec (?i s4)), elf_shndx (elf_sec (?i s4))] s4
             else Some s4);
       s \<leftarrow> (if CHECK_FLAG (mbi_flags (?i s)) 6 then do {
               s \<leftarrow> say ''mmap_addr = 0x%#x, mmap_length = 0x%x\<newline>'' [mmap_addr (?i s), mmap_length (?i s)] s;
               say_mmap mbi (mmap_addr (?i s)) s }
             else Some s);
       Some (True, s) }) = Some (go, s')"
    unfolding report_mbi_def Let_def bind_Some_iff by (elim exE conjE) (rule that)
  have v4: "pview_of s4 = pview_of s"
    using say_view [OF h(1)] say_if_view(1) [OF h(2)] say_if_view(1) [OF h(3)] say_if_view(1) [OF h(4)] say_if_view(2) [OF h(5)]
    by simp
  show ?thesis
  proof (cases "CHECK_FLAG (mbi_flags (?i s4)) 4 \<and> CHECK_FLAG (mbi_flags (?i s4)) 5")
    case True
    with rest v4 show ?thesis by (auto simp: bind_Some_iff dest!: say_view)
  next
    case False
    with rest obtain s5 where s5: "(if CHECK_FLAG (mbi_flags (?i s4)) 5
             then say ''elf_sec: num = %u, size = 0x%#x, addr = 0x%#x, shndx = 0x%#x\<newline>''
                    [elf_num (elf_sec (?i s4)), elf_size (elf_sec (?i s4)), elf_addr (elf_sec (?i s4)), elf_shndx (elf_sec (?i s4))] s4
             else Some s4) = Some s5"
      and s': "(if CHECK_FLAG (mbi_flags (?i s5)) 6 then do {
               s \<leftarrow> say ''mmap_addr = 0x%#x, mmap_length = 0x%x\<newline>'' [mmap_addr (?i s5), mmap_length (?i s5)] s5;
               say_mmap mbi (mmap_addr (?i s)) s }
             else Some s5) = Some s'"
      unfolding if_not_P [OF False] bind_Some_iff by auto
    have "pview_of s' = pview_of s5"
      by (rule if_view [OF s']) (auto simp: bind_Some_iff dest!: say_view say_mmap_view)
    with say_if_view(1) [OF s5] v4 show ?thesis by simp
  qed
qed

lemma device_view [simp]:
  "pview_of (outb d p s) = pview_of s" "pview_of (enable_irq i s) = pview_of s"
  "pview_of (i8259_init s) = pview_of s" "pview_of (rtc_int s) = pview_of s"
  "pview_of (pit_init s) = pview_of s" "pview_of (init_idt haddr s) = pview_of s"
  by (simp_all add: outb_def enable_irq_def i8259_init_def rtc_int_def pit_init_def init_idt_def SET_IDT_ENTRY_def
      Let_def pview_of_def)

lemma start_devices_view: "start_devices haddr s = Some s' \<Longrightarrow> pview_of s' = pview_of s"
  by (auto simp: start_devices_def rtc_open_def terminal_open_def Let_def)

lemma setup_view [simp]:
  "pview_of (clear s) = pview_of s" "pview_of (my_clear s) = pview_of s" "pview_of (sti s) = pview_of s"
  "pview_of (setup_paging s) = pview_of s" "pview_of (load_ldt s) = pview_of s" "pview_of (load_tss s) = pview_of s"
  "pview_of (scheduler_init s) = pview_of s"
  by (simp_all add: clear_def my_clear_def sti_def setup_paging_def page_enable_def page_enable_size_extend_def
      page_access_def init_page_map_def init_page_table_def init_page_directory_def load_ldt_def load_tss_def lldt_def ltr_def
      scheduler_init_def update_cursor_def outb_def Let_def pview_of_def)

lemma init_terminals_boot:
  assumes "init_terminals s = Some s'" and "length (terminals s) = 3" "process_num s = replicate 6 (-1)" "active_terminal s = 0"
  shows "boot_state s'"
proof -
  obtain a b c where ts: "terminals s = [a, b, c]"
    using assms(2) by (auto simp: numeral_eq_Suc length_Suc_conv)
  show ?thesis
    using assms(1,3,4) unfolding boot_state_def
    by (auto simp: init_terminals_def init_terminals_step_def init_terminal_def aget_def aset_def ts Let_def
        bind_Some_iff numeral_eq_Suc split: if_splits)
qed

text \<open>From the initial values of the globals the entry point reaches the first shell in a
  reachable state.\<close>

lemma entry_reachable:
  assumes go: "entry haddr magic mbi s = Some (Iret e, s')"
    and init: "process_num s = replicate 6 (-1)" "active_terminal s = 0" "length (terminals s) = 3"
  shows "reachable s'"
proof -
  have magic: "magic = 0x2BADB002"
    using go by (rule contrapos_pp) (auto simp: entry_def Let_def bind_Some_iff)
  define shell where "shell s = (do {
      s \<leftarrow> start_devices haddr (load_tss (load_ldt s));
      s \<leftarrow> say ''Enabling Interrupts\<newline>'' [] s;
      s \<leftarrow> say ''Got to the end\<newline>'' [] (fs_init (setup_paging (sti s)));
      s \<leftarrow> init_terminals (pit_init (my_clear s));
      system_execute (rodata s ''shell'') (scheduler_init s) })" for s
  have "do { (go, s) \<leftarrow> report_mbi mbi (clear s); if \<not> go then Some (Ret 0, s) else shell s } = Some (Iret e, s')"
    using go unfolding entry_def Let_def shell_def magic by simp
  then obtain s1 where r: "report_mbi mbi (clear s) = Some (True, s1)" and sh: "shell s1 = Some (Iret e, s')"
    by (auto simp: bind_Some_iff split: if_splits)
  from sh obtain s2 s3 s4 s5 where d: "start_devices haddr (load_tss (load_ldt s1)) = Some s2"
    and m: "say ''Enabling Interrupts\<newline>'' [] s2 = Some s3"
    and g: "say ''Got to the end\<newline>'' [] (fs_init (setup_paging (sti s3))) = Some s4"
    and t: "init_terminals (pit_init (my_clear s4)) = Some s5"
    and x: "system_execute (rodata s5 ''shell'') (scheduler_init s5) = Some (Iret e, s')"
    unfolding shell_def bind_Some_iff by blast
  have v: "pview_of (pit_init (my_clear s4)) = pview_of s"
    using report_view [OF r] start_devices_view [OF d] say_view [OF m] say_view [OF g] by simp
  have len: "length (terminals (pit_init (my_clear s4))) = 3"
    using arg_cong [OF v, of "\<lambda>v. length (tasks v)"] init(3) by (simp add: view_simps del: device_view setup_view)
  have "boot_state s5"
    by (rule init_terminals_boot [OF t len]) (use arg_cong [OF v, of procs] arg_cong [OF v, of activep] init(1,2) in
        \<open>simp_all add: view_simps del: device_view setup_view\<close>)
  then have "boot_state (scheduler_init s5)" by (simp add: boot_state_def scheduler_init_def)
  with x show ?thesis by (auto intro: reachable.boot)
qed

end
