(* ===== verification/Syscall_Gate.thy ===== *)
theory Syscall_Gate
  imports Syscall Execute
begin

text \<open>
  The system call gate: \<open>syscall_wrapper\<close> of \<open>student-distrib/syscall_wrapper.S\<close>, which
  checks the call number in \<open>eax\<close>, pushes \<open>edx\<close>, \<open>ecx\<close> and \<open>ebx\<close> as the three
  arguments and jumps through its table.  The table has the entries 0 to 8; the range check lets 9
  and 10 through as well, which take the words behind the table as addresses of code and have no
  defined result.  The user-side stubs of \<open>syscalls/ece391syscall.S\<close> load the registers and
  return what the gate leaves in \<open>eax\<close>.
\<close>

section \<open>The gate\<close>

definition as_ret :: "(int \<times> kstate) option \<Rightarrow> (outcome \<times> kstate) option" where
  "as_ret r = do { (n, s) \<leftarrow> r; Some (Ret n, s) }"

text \<open>\<open>sti\<close> runs before the jump; the low byte of \<open>ebx\<close> is the status of \<open>halt\<close>.\<close>

definition syscall_wrapper_call :: "interrupts \<Rightarrow> u32 \<Rightarrow> u32 \<Rightarrow> u32 \<Rightarrow> u32 \<Rightarrow> kstate \<Rightarrow> (outcome \<times> kstate) option" where
  "syscall_wrapper_call hs eax ebx ecx edx s =
     (if eax > 10 \<or> eax < 1 then Some (Ret (-1), s)
      else (let s = sti s
            in if eax = 1 then system_halt (ucast ebx) s
               else if eax = 2 then system_execute (unat ebx) s
               else if eax = 3 then as_ret (system_read hs (sint ebx) (unat ecx) (sint edx) s)
               else if eax = 4 then as_ret (system_write (sint ebx) (unat ecx) (sint edx) s)
               else if eax = 5 then as_ret (system_open (unat ebx) s)
               else if eax = 6 then as_ret (system_close (sint ebx) s)
               else if eax = 7 then as_ret (system_getargs (unat ebx) (sint ecx) s)
               else if eax = 8 then as_ret (system_vidmap (unat ebx) s)
               else None))"

text \<open>A stub: the call returns to its caller with a value, or leaves it.  It always loads three
  registers; those that the call has no argument for are ignored by the gate and are 0 here.\<close>

definition DO_CALL :: "interrupts \<Rightarrow> u32 \<Rightarrow> u32 \<Rightarrow> u32 \<Rightarrow> u32 \<Rightarrow> kstate \<Rightarrow> (int \<times> kstate) option" where
  "DO_CALL hs num a b c s = do {
     (r, s) \<leftarrow> syscall_wrapper_call hs num a b c s;
     case r of Ret n \<Rightarrow> Some (n, s) | _ \<Rightarrow> None }"

definition ece391_read :: "interrupts \<Rightarrow> int \<Rightarrow> addr \<Rightarrow> int \<Rightarrow> kstate \<Rightarrow> (int \<times> kstate) option" where
  "ece391_read hs fd buf nbytes = DO_CALL hs 3 (of_int fd) (of_nat buf) (of_int nbytes)"

definition ece391_write :: "int \<Rightarrow> addr \<Rightarrow> int \<Rightarrow> kstate \<Rightarrow> (int \<times> kstate) option" where
  "ece391_write fd buf nbytes = DO_CALL [] 4 (of_int fd) (of_nat buf) (of_int nbytes)"

definition ece391_open :: "addr \<Rightarrow> kstate \<Rightarrow> (int \<times> kstate) option" where
  "ece391_open fname = DO_CALL [] 5 (of_nat fname) 0 0"

definition ece391_close :: "int \<Rightarrow> kstate \<Rightarrow> (int \<times> kstate) option" where
  "ece391_close fd = DO_CALL [] 6 (of_int fd) 0 0"

definition ece391_getargs :: "addr \<Rightarrow> int \<Rightarrow> kstate \<Rightarrow> (int \<times> kstate) option" where
  "ece391_getargs buf nbytes = DO_CALL [] 7 (of_nat buf) (of_int nbytes) 0"

definition ece391_vidmap :: "addr \<Rightarrow> kstate \<Rightarrow> (int \<times> kstate) option" where
  "ece391_vidmap screen_start = DO_CALL [] 8 (of_nat screen_start) 0 0"

text \<open>\<open>_start\<close>: a program is its \<open>main\<close>, then \<open>halt\<close> with the value it returns.\<close>

definition user_start :: "(kstate \<Rightarrow> (int \<times> kstate) option) \<Rightarrow> kstate \<Rightarrow> (outcome \<times> kstate) option" where
  "user_start main s = do { (r, s) \<leftarrow> main s; syscall_wrapper_call [] 1 (of_int r) 0 0 s }"

text \<open>\<open>ece391_execute\<close>, from the caller's side.  A program that was entered runs to its
  \<open>halt\<close>, which continues in the frame of \<open>system_execute\<close> that the control block recorded and
  returns the status from there; it is the caller's call that returns if that frame is the caller's.
  \<open>code\<close> gives the \<open>main\<close> of the program at an entry point.\<close>

definition ece391_execute :: "(u32 \<Rightarrow> kstate \<Rightarrow> (int \<times> kstate) option) \<Rightarrow> addr \<Rightarrow> kstate \<Rightarrow> (int \<times> kstate) option" where
  "ece391_execute code command s = do {
     (r, s1) \<leftarrow> syscall_wrapper_call [] 2 (of_nat command) 0 0 s;
     case r of
       Ret n \<Rightarrow> Some (n, s1)
     | Iret e \<Rightarrow> do {
         (r, s2) \<leftarrow> user_start (code e) s1;
         case r of
           RetFromHalt b p status \<Rightarrow> if b = reg_ebp s \<and> p = reg_esp s then Some (sint status, s2) else None
         | _ \<Rightarrow> None }
     | _ \<Rightarrow> None }"


section \<open>Calls reach their handlers\<close>

text \<open>Values that a register carries unchanged.\<close>

abbreviation i32 :: "int \<Rightarrow> bool" where "i32 n \<equiv> - (2 ^ 31) \<le> n \<and> n < 2 ^ 31"
abbreviation adr32 :: "addr \<Rightarrow> bool" where "adr32 a \<equiv> a < 2 ^ 32"

lemma reg_int: "i32 n \<Longrightarrow> sint (of_int n :: u32) = n"
  by (simp add: signed_of_int signed_take_bit_int_eq_self)

lemma reg_addr: "adr32 a \<Longrightarrow> unat (of_nat a :: u32) = a"
  by (simp add: unat_of_nat)

lemma as_ret_value:
  "do { (x, s) \<leftarrow> as_ret r; case x of Ret n \<Rightarrow> Some (n, s) | _ \<Rightarrow> None } = r"
  by (cases r) (auto simp: as_ret_def)

lemma call_eq:
  "i32 fd \<Longrightarrow> adr32 buf \<Longrightarrow> i32 n \<Longrightarrow> ece391_read hs fd buf n s = system_read hs fd buf n (sti s)"
  "i32 fd \<Longrightarrow> adr32 buf \<Longrightarrow> i32 n \<Longrightarrow> ece391_write fd buf n s = system_write fd buf n (sti s)"
  "adr32 buf \<Longrightarrow> ece391_open buf s = system_open buf (sti s)"
  "i32 fd \<Longrightarrow> ece391_close fd s = system_close fd (sti s)"
  "adr32 buf \<Longrightarrow> i32 n \<Longrightarrow> ece391_getargs buf n s = system_getargs buf n (sti s)"
  "adr32 buf \<Longrightarrow> ece391_vidmap buf s = system_vidmap buf (sti s)"
  by (simp_all add: ece391_read_def ece391_write_def ece391_open_def ece391_close_def ece391_getargs_def
      ece391_vidmap_def DO_CALL_def syscall_wrapper_call_def as_ret_value reg_int reg_addr Let_def word_less_nat_alt)

lemma bad_number:
  "eax = 0 \<or> 10 < eax \<Longrightarrow> DO_CALL hs eax a b c s = Some (-1, s)"
  "eax = 9 \<or> eax = 10 \<Longrightarrow> DO_CALL hs eax a b c s = None"
  by (auto simp: DO_CALL_def syscall_wrapper_call_def word_less_nat_alt Let_def)

end
