(* ===== verification/Syscall_Frame.thy ===== *)
theory Syscall_Frame
  imports Syscall_Gate Console_Frame Keyboard
begin

text \<open>
  What the system calls and the keyboard leave alone.  A view of the state that does not see the
  open files, the memory, the devices and the page tables is the same after every system call but
  \<open>execute\<close> and \<open>halt\<close>; one that does not see the line editor either is the same after every key
  but Ctrl-C and a change of the terminal.  A call that waits is interrupted: what the interrupts
  keep and only depends on the view is kept by the call.
\<close>

section \<open>System calls\<close>

named_theorems view_kept \<open>operations that keep a view\<close>

locale syscall_frame = console_frame +
  assumes flag_frame [simp]: "view (sti s) = view s" "view (cli s) = view s"
    and dentry_frame [simp]: "view (s\<lparr>cur_dentry := d\<rparr>) = view s"
    and pcb_frame [simp]: "view (use_main_pcb s) = view s"
    and rtc_frame [simp]: "view (s\<lparr>rtc_flag := n\<rparr>) = view s"
    and page_frame [simp]: "view (page_access s) = view s" "view (s\<lparr>page_dir := pd\<rparr>) = view s" "view (s\<lparr>page_table := pt\<rparr>) = view s"
    and fd_frame [view_kept]: "fd_set fd e s = Some s' \<Longrightarrow> view s' = view s"
begin

declare terminal_frame [view_kept] char_out_frame [view_kept] my_putc_frame [view_kept] my_puts_frame [view_kept]
  key_putc_frame [view_kept] backspace_frame [view_kept] printf_frame [view_kept]

lemma bitmap_frame [view_kept]: "fill_bitmap i s = Some s' \<Longrightarrow> view s' = view s" "free_bitmap i s = Some s' \<Longrightarrow> view s' = view s"
  by (auto simp: fill_bitmap_def free_bitmap_def split: if_splits bind_splits dest!: fd_frame)

lemma fill_slot_frame [view_kept]: "fill_slot upd i s = Some (r, s') \<Longrightarrow> view s' = view s"
proof (induction upd i s rule: fill_slot.induct)
  case (1 upd i s)
  then show ?case
    by (subst (asm) (2) fill_slot.simps) (auto split: if_splits bind_splits dest!: view_kept)
qed

lemma fill_open_fd_frame [view_kept]: "fill_open_fd i s = Some (r, s') \<Longrightarrow> view s' = view s"
proof (induction i s rule: fill_open_fd.induct)
  case (1 i s)
  then show ?case
    by (subst (asm) (2) fill_open_fd.simps) (auto split: if_splits bind_splits dest!: view_kept)
qed

lemma load_cur_dentry_frame [view_kept]: "load_cur_dentry f s = Some (r, s') \<Longrightarrow> view s' = view s"
  by (auto simp: load_cur_dentry_def split: bind_splits)

lemma read_data_snd [simp]: "view (snd (read_data ino off buf n s)) = view s"
  by (simp add: read_data_def Let_def split: prod.split)

lemma read_data_frame [view_kept]: "read_data ino off buf n s = (r, s') \<Longrightarrow> view s' = view s"
  using read_data_snd [of ino off buf n s] by simp

lemma open_frame [view_kept]:
  "file_open f s = Some (r, s') \<Longrightarrow> view s' = view s" "dir_open f s = Some (r, s') \<Longrightarrow> view s' = view s"
  "set_f_ops fd t s = Some s' \<Longrightarrow> view s' = view s"
  by (auto simp: file_open_def dir_open_def set_f_ops_def split: if_splits bind_splits dest!: view_kept)

lemma close_frame [view_kept]: "table_close t fd s = Some (r, s') \<Longrightarrow> view s' = view s"
  by (cases t) (auto simp: file_close_def dir_close_def rtc_close_def terminal_close_def split: if_splits bind_splits dest!: view_kept)

lemma file_read_frame [view_kept]: "file_read fd buf n s = Some (r, s') \<Longrightarrow> view s' = view s"
  by (auto simp: file_read_def Let_def split: if_splits bind_splits prod.splits dest!: view_kept arg_cong [where f = "view \<circ> snd"])

lemma dir_read_frame [view_kept]: "dir_read fd buf n s = Some (r, s') \<Longrightarrow> view s' = view s"
  by (auto simp: dir_read_def Let_def split: if_splits bind_splits dest!: view_kept)

lemma table_write_frame [view_kept]: "table_write t fd buf n s = Some (r, s') \<Longrightarrow> view s' = view s"
  by (cases t) (auto simp: file_write_def dir_write_def rtc_write_def terminal_write_def
      split: if_splits bind_splits option.splits dest!: view_kept)

lemma terminal_write_frame [view_kept]: "terminal_write fd b n s = Some (r, s') \<Longrightarrow> view s' = view s"
  by (auto simp: terminal_write_def split: if_splits bind_splits dest!: view_kept)

lemma simple_call_frame [view_kept]:
  "system_write fd buf n s = Some (k, s') \<Longrightarrow> view s' = view s" "system_close fd s = Some (k, s') \<Longrightarrow> view s' = view s"
  "system_open f s = Some (k, s') \<Longrightarrow> view s' = view s" "system_getargs buf m s = Some (k, s') \<Longrightarrow> view s' = view s"
  by (auto simp: system_write_def system_close_def system_open_def system_getargs_def Let_def
      split: if_splits bind_splits dest!: view_kept)

lemma vidmap_frame [view_kept]: "system_vidmap buf s = Some (k, s') \<Longrightarrow> view s' = view s"
proof -
  have "view (snd (get_vidmap_page t s)) = view s" for t
    unfolding get_vidmap_page_def Let_def by (simp del: kstate.update_convs)
  then show "system_vidmap buf s = Some (k, s') \<Longrightarrow> view s' = view s"
    by (auto simp: system_vidmap_def Let_def get_vidmap_page_def split: if_splits)
qed

text \<open>A call that waits, with what its interrupts keep.\<close>

definition only_view :: "(kstate \<Rightarrow> bool) \<Rightarrow> bool" where
  "only_view P \<longleftrightarrow> (\<forall>s s'. view s' = view s \<longrightarrow> P s \<longrightarrow> P s')"

lemma only_viewD: "only_view P \<Longrightarrow> P s \<Longrightarrow> view s' = view s \<Longrightarrow> P s'"
  by (auto simp: only_view_def)

lemma read_poll_frame [view_kept]: "read_poll buf s = Some (b, s') \<Longrightarrow> view s' = view s"
  by (auto simp: read_poll_def split: option.splits if_splits bind_splits)

lemma read_wait_keeps:
  assumes P: "only_view P"
  shows "\<forall>h \<in> set hs. \<forall>s s'. h s = Some s' \<longrightarrow> P s \<longrightarrow> P s' \<Longrightarrow> read_wait hs buf s = Some s' \<Longrightarrow> P s \<Longrightarrow> P s'"
proof (induction hs arbitrary: s)
  case Nil
  then show ?case using only_viewD [OF P] by (auto split: if_splits bind_splits dest!: read_poll_frame)
next
  case (Cons h hs)
  from Cons.prems(2) obtain b s1 where s1: "read_poll buf s = Some (b, s1)"
    "(if b then Some s1 else h s1 \<bind> read_wait hs buf) = Some s'" by (auto split: bind_splits)
  have "P s1" using only_viewD [OF P Cons.prems(3) read_poll_frame [OF s1(1)]] .
  then show ?case using Cons.prems(1) Cons.IH s1(2) by (auto split: if_splits bind_splits)
qed

lemma rtc_wait_keeps:
  "\<forall>h \<in> set hs. \<forall>s s'. h s = Some s' \<longrightarrow> P s \<longrightarrow> P s' \<Longrightarrow> rtc_wait hs s = Some (r, s') \<Longrightarrow> P s \<Longrightarrow> P s'"
proof (induction hs arbitrary: s)
  case (Cons h hs)
  then show ?case by (auto split: if_splits bind_splits)
qed (auto split: if_splits)

lemma table_read_keeps:
  assumes P: "only_view P" and hs: "\<forall>h \<in> set hs. \<forall>s s'. h s = Some s' \<longrightarrow> P s \<longrightarrow> P s'"
    and rd: "table_read t hs fd buf n s = Some (r, s')" "P s"
  shows "P s'"
proof -
  have v: "P s'" if "view s' = view s" for s' using only_viewD [OF P rd(2) that] .
  show ?thesis
  proof (cases t)
    case rtc_table
    have "P (s\<lparr>rtc_flag := 0\<rparr>)" by (rule v) simp
    with rd(1) rtc_table rtc_wait_keeps [OF hs] show ?thesis by (auto simp: rtc_read_def)
  next
    case terminal_table
    with rd show ?thesis by (auto simp: terminal_read_def split: if_splits bind_splits dest!: read_wait_keeps [OF P hs])
  qed (use rd(1) in \<open>auto intro!: v dest!: view_kept\<close>)
qed

lemma gate_keeps:
  assumes P: "only_view P" and hs: "\<forall>h \<in> set hs. \<forall>s s'. h s = Some s' \<longrightarrow> P s \<longrightarrow> P s'"
    and go: "syscall_wrapper_call hs eax ebx ecx edx s = Some (r, s')" "eax \<noteq> 1" "eax \<noteq> 2" and s: "P s"
  shows "P s'"
proof -
  have v: "P s'" if "view s' = view s" for s' using only_viewD [OF P s that] .
  have rd: "P s2" if "system_read hs fd buf n (sti s) = Some (k, s2)" for fd buf n k s2
  proof -
    have "P (use_main_pcb (sti s))" "P (sti s)" by (rule v, simp)+
    with that table_read_keeps [OF P hs] show ?thesis by (auto simp: system_read_def Let_def split: if_splits bind_splits)
  qed
  show ?thesis
  proof (cases "eax = 3")
    case True
    with go(1) rd show ?thesis by (auto simp: syscall_wrapper_call_def as_ret_def Let_def split: if_splits bind_splits)
  next
    case False
    have "view s' = view s"
      using go False by (auto simp: syscall_wrapper_call_def as_ret_def Let_def split: if_splits bind_splits dest!: view_kept)
    then show ?thesis by (rule v)
  qed
qed

end


section \<open>Interrupts\<close>

text \<open>Ctrl-C, the only key that ends a process.\<close>

definition ctrl_c :: "kstate \<Rightarrow> bool" where
  "ctrl_c s \<longleftrightarrow> getScancode s = 0x2E \<and> (case set_pressed 0x2E 1 s of None \<Rightarrow> False | Some s1 \<Rightarrow> pressed 0x1D s1 = Some True)"

locale input_frame = syscall_frame +
  assumes editor_frame [simp]: "view (s\<lparr>keyboard_buf_idx := n\<rparr>) = view s" "view (s\<lparr>num_chars := n\<rparr>) = view s"
      "view (s\<lparr>kb_active_terminal := n\<rparr>) = view s" "view (s\<lparr>caps_lock_check := n\<rparr>) = view s" "view (s\<lparr>last_idx := n\<rparr>) = view s"
    and key_frame [view_kept]: "set_pressed c x s = Some s' \<Longrightarrow> view s' = view s"
    and save_frame [view_kept]: "save_idx_eoi s = Some s' \<Longrightarrow> view s' = view s"
begin

lemma eoi_frame [simp]: "view (send_eoi i s) = view s"
  by (simp add: send_eoi_def Let_def)

lemma rtc_handler_frame [simp]: "view (rtc_handler s) = view s"
  by (simp add: rtc_handler_def)

lemma fs_complete_frame [view_kept]: "fs_complete c b k i s = (j, s') \<Longrightarrow> view s' = view s"
proof (induction c b k i s rule: fs_complete.induct)
  case (1 c b k i s)
  then show ?case by (subst (asm) (2) fs_complete.simps) (auto simp: Let_def split: if_splits)
qed

lemma fs_scan_frame [view_kept]: "fs_scan b st i k n s = (j, s') \<Longrightarrow> view s' = view s"
proof (induction b st i k n s rule: fs_scan.induct)
  case (1 b st i k n s)
  then show ?case by (subst (asm) (2) fs_scan.simps) (auto split: if_splits option.splits dest!: fs_complete_frame)
qed

lemma fs_search_frame [view_kept]: "fs_search b n s = (i, s') \<Longrightarrow> view s' = view s"
  by (auto simp: fs_search_def split: if_splits prod.splits dest!: fs_scan_frame)

lemma plain_key_frame [view_kept]: "plain_key c s = Some (k, s') \<Longrightarrow> view s' = view s \<and> (\<exists>x. k = Key x)"
  by (auto simp: plain_key_def Let_def split: if_splits bind_splits prod.splits dest!: view_kept)

lemma deliver_line_frame [view_kept]: "deliver_line b s = Some s' \<Longrightarrow> view s' = view s"
proof -
  have "view (s\<lparr>mem := m, last_idx := i, keyboard_buf_idx := j, num_chars := n\<rparr>) = view s" for s m i j n
    using editor_frame(2) [where s = "s\<lparr>mem := m, last_idx := i, keyboard_buf_idx := j\<rparr>"]
      editor_frame(1) [where s = "s\<lparr>mem := m, last_idx := i\<rparr>"] editor_frame(5) [where s = "s\<lparr>mem := m\<rparr>"] by simp
  then show "deliver_line b s = Some s' \<Longrightarrow> view s' = view s"
    by (auto simp: deliver_line_def split: bind_splits option.splits)
qed

lemma store_key_frame [view_kept]: "store_key k s = Some s' \<Longrightarrow> view s' = view s"
  by (auto simp: store_key_def Let_def split: bind_splits if_splits dest!: deliver_line_frame)

lemma ctl_key_frame:
  assumes "ctl_key c s = Some (k, s')"
  shows "(\<exists>x. k = None \<or> k = Some (Key x)) \<and> view s' = view s \<or>
    (\<exists>s1 r. view s1 = view s \<and> system_halt 255 s1 = Some (r, s') \<and> k = Some (Gone r) \<and> c = 0x2E \<and> pressed 0x1D s = Some True)"
proof -
  obtain ctl where ctl: "pressed 0x1D s = Some ctl" using assms by (auto simp: ctl_key_def split: bind_splits)
  show ?thesis
  proof (cases "ctl \<and> c = 0x2E")
    case True
    with assms ctl obtain n s1 b r where s1: "printf (rodata s ''\<newline>Keyboard interrupt!\<newline>'') [] s = Some (n, s1)"
      "system_halt 255 (send_eoi 1 (s1\<lparr>mem := (mem s1)(nat (int b + keyboard_buf_idx s1) := 10)\<rparr>)) = Some (r, s')" "k = Some (Gone r)"
      by (auto simp: ctl_key_def Let_def split: bind_splits)
    moreover have "view (send_eoi 1 (s1\<lparr>mem := (mem s1)(nat (int b + keyboard_buf_idx s1) := 10)\<rparr>)) = view s"
      using printf_frame [OF s1(1)] by simp
    moreover have "pressed 0x1D s = Some True" using True ctl by simp
    ultimately show ?thesis using True by blast
  next
    case False
    with assms ctl show ?thesis by (auto simp: ctl_key_def Let_def split: if_splits bind_splits dest!: terminal_write_frame)
  qed
qed

lemma getChar_frame:
  assumes "getChar s = Some (k, s')"
  shows "(\<exists>x. k = Key x) \<and> view s' = view s \<or>
    (\<exists>s1 r. view s1 = view s \<and> system_halt 255 s1 = Some (r, s') \<and> k = Gone r \<and> ctrl_c s) \<or>
    (\<exists>t s1 r. view s1 = view s \<and> 0 \<le> t \<and> t < 3 \<and> switch_terminal t s1 = Some (r, s') \<and> k \<in> {Key DONT_PRINT, Gone r})"
proof (cases "getScancode s \<le> 0x58 \<and> getScancode s \<noteq> 0x3A")
  case False
  with assms show ?thesis by (auto simp: getChar_def Let_def split: if_splits bind_splits dest!: key_frame)
next
  case True
  let ?c = "getScancode s"
  from True assms obtain s1 k1 s2 where s1: "set_pressed ?c 1 s = Some s1" and k1: "ctl_key ?c s1 = Some (k1, s2)"
    by (auto simp: getChar_def Let_def split: bind_splits)
  note v1 = key_frame [OF s1]
  show ?thesis
  proof (cases k1)
    case (Some k2)
    with True s1 k1 assms have k: "k = k2" "s' = s2" by (auto simp: getChar_def Let_def)
    from ctl_key_frame [OF k1] show ?thesis
    proof
      assume "\<exists>s3 r. view s3 = view s1 \<and> system_halt 255 s3 = Some (r, s2) \<and> k1 = Some (Gone r) \<and> ?c = 0x2E \<and> pressed 0x1D s1 = Some True"
      then show ?thesis using Some k v1 s1 by (auto simp: ctrl_c_def)
    qed (use Some k v1 in auto)
  next
    case None
    with ctl_key_frame [OF k1] have v2: "view s2 = view s" using v1 by auto
    from None True s1 k1 assms obtain alt where alt: "(if alt \<and> ?c \<ge> 0x3B \<and> ?c < 0x3B + 3 then do {
          (r, s) \<leftarrow> switch_terminal (uint (?c - 0x3B)) (send_eoi 1 s2);
          case r of Ret n \<Rightarrow> Some (Key DONT_PRINT, s) | _ \<Rightarrow> Some (Gone r, s) }
        else if ?c = 0x4B \<or> ?c = 0x4D \<or> ?c = 0x48 \<or> ?c = 0x50 then Some (Key DONT_PRINT, s2)
        else plain_key ?c s2) = Some (k, s')"
      by (auto simp: getChar_def Let_def split: bind_splits)
    show ?thesis
    proof (cases "alt \<and> ?c \<ge> 0x3B \<and> ?c < 0x3B + 3")
      case True
      with alt obtain r where r: "switch_terminal (uint (?c - 0x3B)) (send_eoi 1 s2) = Some (r, s')" "k = Key DONT_PRINT \<or> k = Gone r"
        by (auto split: bind_splits outcome.splits)
      have "uint (?c - 0x3B) < 3"
      proof -
        have "?c - 0x3B < 3" using True by unat_arith
        then show ?thesis by (simp add: word_less_def)
      qed
      then show ?thesis using r v2 by (intro disjI2) (force intro!: exI [where x = "send_eoi 1 s2"])
    next
      case False
      with alt v2 show ?thesis by (auto split: if_splits dest!: plain_key_frame)
    qed
  qed
qed

lemma keyboard_frame:
  assumes "keyboard_handler s = Some (r, s')"
  shows "view s' = view s \<or> (\<exists>s1. view s1 = view s \<and> system_halt 255 s1 = Some (r, s') \<and> ctrl_c s) \<or>
    (\<exists>t s1 q s2. view s1 = view s \<and> 0 \<le> t \<and> t < 3 \<and> switch_terminal t s1 = Some (q, s2) \<and> view s' = view s2)"
proof -
  define rest where "rest k s1 = (case k of Gone r \<Rightarrow> Some (r, s1)
     | Key test \<Rightarrow> if test \<noteq> DONT_PRINT then
           (if keyboard_buf_idx s1 = 127 \<and> test \<noteq> 0x0A then do {
              b \<leftarrow> edit_buf s1;
              let s = s1\<lparr>mem := (mem s1)(nat (int b + keyboard_buf_idx s1) := 10)\<rparr>;
              Some (Ret 0, send_eoi 1 s) }
            else do { s \<leftarrow> store_key test s1; s \<leftarrow> key_putc test s; s \<leftarrow> save_idx_eoi s; Some (Ret 0, s) })
         else do { s \<leftarrow> save_idx_eoi s1; Some (Ret 0, s) })" for k s1
  have "do { t \<leftarrow> aget (kb_terminals s) (return_active_terminal s);
       (k, s1) \<leftarrow> getChar (s\<lparr>kb_active_terminal := return_active_terminal s, keyboard_buf_idx := save_idx t\<rparr>);
       rest k s1 } = Some (r, s')"
    using assms unfolding keyboard_handler_def rest_def by (simp add: Let_def cong: key_result.case_cong)
  then obtain t :: terminal_t and k s1 where s1: "getChar (s\<lparr>kb_active_terminal := return_active_terminal s, keyboard_buf_idx := save_idx t\<rparr>) = Some (k, s1)"
    and rest: "rest k s1 = Some (r, s')" by (auto split: bind_splits)
  let ?s = "s\<lparr>kb_active_terminal := return_active_terminal s, keyboard_buf_idx := save_idx t\<rparr>"
  have v: "view ?s = view s"
    using editor_frame(1) [where s = "s\<lparr>kb_active_terminal := return_active_terminal s\<rparr>"] by simp
  have key: "view s' = view s1" if "k = Key x" for x
    using rest that by (auto simp: rest_def Let_def split: if_splits bind_splits dest!: view_kept)
  have gone: "s' = s1 \<and> r = q" if "k = Gone q" for q using rest that by (simp add: rest_def)
  have cc: "ctrl_c ?s = ctrl_c s"
    by (auto simp: ctrl_c_def getScancode_def inb_def set_pressed_def pressed_def split: bind_splits)
  from getChar_frame [OF s1] show ?thesis
  proof (elim disjE exE conjE)
    fix x assume "k = Key x" "view s1 = view ?s" then show ?thesis using key v by simp
  next
    fix s3 q assume "view s3 = view ?s" "system_halt 255 s3 = Some (q, s1)" "k = Gone q" "ctrl_c ?s"
    then show ?thesis using gone v cc by auto
  next
    fix t s3 q assume h: "view s3 = view ?s" "0 \<le> t" "t < 3" "switch_terminal t s3 = Some (q, s1)" "k \<in> {Key DONT_PRINT, Gone q}"
    then have "view s' = view s1" using key gone by auto
    moreover have "view s3 = view s" using h v by simp
    ultimately show ?thesis using h by blast
  qed
qed

end

end
