(* ===== verification/Machine.thy ===== *)
theory Machine
  imports Syscall_Frame Kernel_Reach Idt
begin

text \<open>
  The kernel as the hardware enters it: the interrupts of the timer, the clock and the keyboard, the
  exceptions, the system call gate with the interrupts that arrive while a call waits, and in between
  the programs, which change the memory.  Every such step is a step of the process table, so the
  states of the machine stay reachable.
\<close>

section \<open>Steps\<close>

text \<open>The halt that the process table survives: of a child, or of the shell of the terminal in front
  when a new shell could be started in its place.\<close>

fun shell_back :: "outcome \<Rightarrow> bool" where
  "shell_back (Iret e) = True"
| "shell_back _ = False"

definition restarts :: "kstate \<Rightarrow> outcome \<Rightarrow> bool" where
  "restarts s r \<longleftrightarrow> 3 \<le> main_process s \<or> active_terminal s = main_process s \<and> shell_back r"

text \<open>The keyboard interrupt, with that condition on Ctrl-C.\<close>

definition key_interrupt :: "kstate \<Rightarrow> kstate option" where
  "key_interrupt s = do {
     (r, s') \<leftarrow> keyboard_handler s;
     if ctrl_c s \<and> \<not> restarts s r then None else Some s' }"

definition machine_interrupts :: "(kstate \<Rightarrow> kstate option) set" where
  "machine_interrupts = {pit_handler, \<lambda>s. Some (rtc_handler s), key_interrupt}"

inductive machine_step :: "kstate \<Rightarrow> kstate \<Rightarrow> bool" where
  interrupt: "h \<in> machine_interrupts \<Longrightarrow> h s = Some s' \<Longrightarrow> machine_step s s'"
| exception: "exception_halt msg s = Some (r, s') \<Longrightarrow> restarts s r \<Longrightarrow> machine_step s s'"
| call: "set hs \<subseteq> machine_interrupts \<Longrightarrow> syscall_wrapper_call hs eax ebx ecx edx s = Some (r, s') \<Longrightarrow>
    (eax = 1 \<Longrightarrow> restarts s r) \<Longrightarrow> machine_step s s'"
| program: "machine_step s (s\<lparr>mem := m\<rparr>)"


section \<open>The process table\<close>

interpretation pvi: input_frame pview_of
proof
  show "fd_set fd e s = Some s' \<Longrightarrow> pview_of s' = pview_of s" for fd e s s'
    by (auto simp: fd_set_def aset_def pview_of_def fun_eq_iff split: bind_splits if_splits)
  show "set_pressed c x s = Some s' \<Longrightarrow> pview_of s' = pview_of s" for c x s s'
    by (auto simp: set_pressed_def aset_def pview_of_def split: bind_splits if_splits)
  show "save_idx_eoi s = Some s' \<Longrightarrow> pview_of s' = pview_of s" for s s'
    by (auto simp: save_idx_eoi_def aset_def pview_of_def send_eoi_def outb_def Let_def split: bind_splits if_splits)
qed (simp_all add: pview_of_def outb_def sti_def cli_def use_main_pcb_def set_filesys_pcb_def page_access_def Let_def)

lemma view_main: "pview_of s' = pview_of s \<Longrightarrow> main_process s' = main_process s \<and> active_terminal s' = active_terminal s"
  using arg_cong [where f = mainp] arg_cong [where f = activep] by (metis view_simps(3,4))

lemma reachable_view: "reachable s \<Longrightarrow> pview_of s' = pview_of s \<Longrightarrow> reachable s'"
  by (blast intro: reachable.step kstep.work)

lemma reachable_only: "pvi.only_view reachable"
  by (auto simp: pvi.only_view_def intro: reachable_view)

lemma halt_reachable:
  assumes s: "reachable s" "pview_of s1 = pview_of s" and h: "system_halt status s1 = Some (r, s')" "restarts s r"
  shows "reachable s'"
proof -
  have s1: "reachable s1" using s by (rule reachable_view)
  have m: "main_process s1 = main_process s" "active_terminal s1 = active_terminal s" using view_main [OF s(2)] by simp_all
  show ?thesis
  proof (cases "3 \<le> main_process s1")
    case True
    with h(1) s1 show ?thesis by (blast intro: reachable.step kstep.halt_child)
  next
    case False
    with h(2) m obtain e where "r = Iret e" "active_terminal s1 = main_process s1" by (cases r) (auto simp: restarts_def)
    then have "kstep s1 s'" using kstep.halt_shell [of status s1 e s'] h(1) False by simp
    with s1 show ?thesis by (rule reachable.step)
  qed
qed

lemma key_reachable:
  assumes "reachable s" "key_interrupt s = Some s'"
  shows "reachable s'"
proof -
  from assms(2) obtain r where k: "keyboard_handler s = Some (r, s')" "ctrl_c s \<Longrightarrow> restarts s r"
    by (auto simp: key_interrupt_def split: bind_splits if_splits)
  from pvi.keyboard_frame [OF k(1)] consider "pview_of s' = pview_of s"
    | s1 where "pview_of s1 = pview_of s" "system_halt 255 s1 = Some (r, s')" "ctrl_c s"
    | t s1 q s2 where "pview_of s1 = pview_of s" "0 \<le> t" "t < 3" "switch_terminal t s1 = Some (q, s2)" "pview_of s' = pview_of s2"
    by blast
  then show ?thesis
  proof cases
    case 1
    with assms(1) show ?thesis by (rule reachable_view)
  next
    case 2
    then show ?thesis using halt_reachable [OF assms(1) 2(1,2)] k(2) by simp
  next
    case 3
    have "reachable s2"
      by (rule reachable.step [OF reachable_view [OF assms(1) 3(1)] kstep.switch [OF 3(4,2,3)]])
    then show ?thesis using 3(5) by (rule reachable_view)
  qed
qed

lemma interrupt_reachable:
  assumes "h \<in> machine_interrupts" "h s = Some s'" "reachable s"
  shows "reachable s'"
proof -
  consider "scheduler_handler s = Some s'" | "s' = rtc_handler s" | "key_interrupt s = Some s'"
    using assms(1,2) by (auto simp: machine_interrupts_def pit_handler_def)
  then show ?thesis
  proof cases
    case 1
    show ?thesis by (rule reachable.step [OF assms(3) kstep.tick [OF 1]])
  next
    case 2
    have "pview_of (rtc_handler s) = pview_of s" by simp
    then show ?thesis unfolding 2 by (rule reachable_view [OF assms(3)])
  next
    case 3
    show ?thesis by (rule key_reachable [OF assms(3) 3])
  qed
qed

lemma gate_reachable:
  assumes hs: "set hs \<subseteq> machine_interrupts" and go: "syscall_wrapper_call hs eax ebx ecx edx s = Some (r, s')"
    and halt: "eax = 1 \<Longrightarrow> restarts s r" and s: "reachable s"
  shows "reachable s'"
proof -
  have sti: "pview_of (sti s) = pview_of s" by simp
  consider "eax = 1" | "eax = 2" | "eax \<noteq> 1" "eax \<noteq> 2" by blast
  then show ?thesis
  proof cases
    case 1
    then have "system_halt (ucast ebx) (sti s) = Some (r, s')" using go by (simp add: syscall_wrapper_call_def Let_def)
    then show ?thesis using halt_reachable [OF s sti] halt 1 by simp
  next
    case 2
    then have "system_execute (unat ebx) (sti s) = Some (r, s')" using go by (simp add: syscall_wrapper_call_def Let_def)
    then show ?thesis using reachable_view [OF s sti] by (blast intro: reachable.step kstep.exec)
  next
    case 3
    have "\<forall>h \<in> set hs. \<forall>s s'. h s = Some s' \<longrightarrow> reachable s \<longrightarrow> reachable s'"
      using hs interrupt_reachable by blast
    then show ?thesis using pvi.gate_keeps [OF reachable_only _ go 3 s] by simp
  qed
qed

lemma machine_reachable: "machine_step s s' \<Longrightarrow> reachable s \<Longrightarrow> reachable s'"
proof (induction rule: machine_step.induct)
  case (interrupt h s s')
  then show ?case by (rule interrupt_reachable)
next
  case (exception msg s r s')
  then obtain n s1 where e: "printf (rodata s msg) [] s = Some (n, s1)" and h: "system_halt 255 s1 = Some (r, s')"
    by (auto simp: exception_halt_def split: bind_splits)
  then show ?case using halt_reachable [OF exception(3) pv.printf_frame [OF e] h] exception(2) by simp
next
  case (call hs eax ebx ecx edx s r s')
  then show ?case by (rule gate_reachable)
next
  case (program s m)
  then show ?case by (rule reachable_view) simp
qed

lemma machine_run_reachable: "machine_step\<^sup>*\<^sup>* s s' \<Longrightarrow> reachable s \<Longrightarrow> reachable s'"
  by (induction rule: rtranclp_induct) (simp_all add: machine_reachable)

end
