(* ===== verification/Reach_Theorems.thy ===== *)
theory Reach_Theorems
  imports Example_State Boot Machine
begin

text \<open>
  The theorems on the kernel as a transition system, with reachable states of the concrete
  system of \<open>Example_State\<close>: before the first shell, in the shell, and in a child of it.
\<close>

section \<open>Three states\<close>

definition at :: "int list \<Rightarrow> int \<Rightarrow> int \<Rightarrow> (u32 \<Rightarrow> pcb_t) \<Rightarrow> kstate" where
  "at pn c m p = sample\<lparr>pcbs := p, process_num := pn, main_process := m,
     terminals := [sample_terminal 0 c 0, sample_terminal 1 (-1) 0, sample_terminal 2 (-1) 0]\<rparr>"

definition child_pcbs :: "u32 \<Rightarrow> pcb_t" where
  "child_pcbs = (pcbs sample)(return_pcb_parent 3 := (sample_pcb 3)\<lparr>parent_pcb := return_pcb_parent 0\<rparr>)"

definition at_boot :: kstate where "at_boot = at [-1, -1, -1, -1, -1, -1] (-1) 0 (pcbs sample)"
definition at_shell :: kstate where "at_shell = at [0, -1, -1, -1, -1, -1] 0 0 (pcbs sample)"
definition at_child :: kstate where "at_child = at [0, -1, -1, 0, -1, -1] 3 3 child_pcbs"

lemma at_runs:
  assumes "table_ok (at pn c m p)" and "List.find (slot_free (at pn c m p)) [0..<6] = Some i"
  shows "\<exists>e s'. system_execute 0x440000 (at pn c m p) = Some (Iret e, s') \<and>
    pview_of s' = start_view i (pview_of (at pn c m p))"
proof -
  let ?s = "at pn c m p"
  have im: "same_image sample ?s" by (simp add: same_image_def at_def)
  note k = same_image_counts [OF im] and pr = same_image_program [OF im sample_image(5) sample_program]
  have fs: "fs_ok ?s" using k sample_image by simp
  have cs: "cstr (mem ?s) 0x440000 [99, 97, 116, 32, 102]" using sample_command by (simp add: at_def)
  have look: "lookup_name [99, 97, 116] ?s = Some 2" "entry_inode ?s 2 = 1"
    using same_image_lookup [OF im] sample_lookup by simp_all
  have lay: "exec_layout ?s 0x440000 (length [99 :: u8, 97, 116, 32, 102] + 1)"
    using sample_command(4) k by (simp add: exec_layout_def at_def)
  have ts: "length (terminals ?s) = 3" by (simp add: at_def)
  obtain s' where s': "system_execute 0x440000 ?s = Some (Iret (program_entry ?s 1), s')"
    using system_execute_eq [OF fs pr(1) cs _ _ _ _ _ lay assms(1) ts assms(2), of 2] look sample_command by auto
  with system_execute_view [OF s' assms(1)] find_slot_eq [OF assms(1)] assms(2) show ?thesis by auto
qed

lemma at_shell_reachable: "reachable at_shell"
proof -
  have "table_ok at_boot" "List.find (slot_free at_boot) [0..<6] = Some 0"
    by (auto simp: table_ok_def slot_free_def at_boot_def at_def upt_rec less_Suc_eq numeral_eq_Suc)
  then obtain e s where s: "system_execute 0x440000 at_boot = Some (Iret e, s)"
    "pview_of s = start_view 0 (pview_of at_boot)" using at_runs unfolding at_boot_def by blast
  have "boot_state at_boot"
    by (simp add: boot_state_def at_boot_def at_def sample_terminal_def numeral_eq_Suc)
  then have "reachable s" using s(1) by (rule reachable.boot)
  moreover have "pview_of at_shell = pview_of s"
    unfolding s(2) by (simp add: start_view_def pview_of_def at_boot_def at_shell_def at_def sample_pcb_def sample_terminal_def
      return_pcb_parent_def upt_rec)
  ultimately show ?thesis by (auto intro: reachable.step kstep.work)
qed

lemma at_child_reachable: "reachable at_child"
proof -
  have "table_ok at_shell" "List.find (slot_free at_shell) [0..<6] = Some 3"
    by (auto simp: table_ok_def slot_free_def at_shell_def at_def upt_rec less_Suc_eq numeral_eq_Suc)
  then obtain e s where s: "system_execute 0x440000 at_shell = Some (Iret e, s)"
    "pview_of s = start_view 3 (pview_of at_shell)" using at_runs unfolding at_shell_def by blast
  have "reachable s" by (rule reachable.step [OF at_shell_reachable kstep.exec [OF s(1)]])
  moreover have "pview_of at_child = pview_of s"
    unfolding s(2) by (simp add: start_view_def pview_of_def at_shell_def at_child_def at_def sample_pcb_def
      sample_terminal_def child_pcbs_def upt_rec find_down_eq return_pcb_parent_def)
  ultimately show ?thesis by (auto intro: reachable.step kstep.work)
qed


section \<open>The process table in every reachable state\<close>









text \<open>C6: a child always returns to a live process of its own terminal.  In a reachable state where a
  process above the shells runs, \<open>system_halt\<close> succeeds, frees its slot, and resumes a lower slot of
  the same terminal at the stack frame stored in the ended process, with that slot's page mapped.\<close>

theorem child_returns_home:
  assumes "reachable s" and "main_process s = int i" "3 \<le> i"
  shows "\<exists>q s'. q < i \<and> process_num s ! q = process_num s ! i \<and> process_num s ! i \<noteq> -1 \<and>
    system_halt status s = Some (RetFromHalt (ebp (pcbs s (return_pcb_parent (int i))))
       (esp (pcbs s (return_pcb_parent (int i)))) (ucast status), s') \<and>
    main_process s' = int q \<and> process_num s' = (process_num s)[i := -1] \<and>
    tlb_user s' = user_frame (int q) OR 0x87 \<and> reachable s'"
proof -
  obtain q s' where q: "q < i" "process_num s ! q = process_num s ! i" "process_num s ! i \<noteq> -1"
    "system_halt status s = Some (RetFromHalt (ebp (pcbs s (return_pcb_parent (int i))))
       (esp (pcbs s (return_pcb_parent (int i)))) (ucast status), s')"
    "main_process s' = int q" "process_num s' = (process_num s)[i := -1]" "tlb_user s' = user_frame (int q) OR 0x87"
    by (rule halt_progress [OF reachable_inv [OF assms(1)] assms(2,3)])
  have "reachable s'"
    by (rule reachable.step [OF assms(1) kstep.halt_child [OF q(4)]]) (use assms in simp)
  with q show ?thesis by blast
qed

theorem child_returns_home_witness:
  "\<exists>q s'. q < 3 \<and> system_halt 7 at_child = Some (RetFromHalt 0 0 7, s') \<and> main_process s' = int q \<and> reachable s'"
  using child_returns_home [OF at_child_reachable, of 3 7]
  by (auto simp: at_child_def at_def child_pcbs_def sample_pcb_def)

end
