(* ===== verification/Screen.thy ===== *)
theory Screen
  imports Terminal_IO Process_Life
begin

text \<open>
  An abstract text screen: 4000 bytes of cells, a cursor and a colour, with the effect of one
  character on it.  The three output routines of \<open>lib.c\<close> (\<open>putc\<close>, \<open>my_putc\<close>,
  \<open>key_putc\<close>) refine it, each on its own page and cursor; the locale \<open>screen_sink\<close> extends the
  contract of a character sink by this refinement and carries it over to strings.
\<close>

section \<open>The abstract screen\<close>

record screen =
  cells :: "u8 list"
  cur_x :: int
  cur_y :: int
  colour :: u8

definition scroll_cells :: "u8 list \<Rightarrow> u8 list" where
  "scroll_cells xs = map (\<lambda>k. if odd k then xs ! k else if k < 3840 then xs ! (k + 160) else 32) [0..<4000]"

definition newline :: "screen \<Rightarrow> screen" where
  "newline sc = (if cur_y sc = 24 then sc\<lparr>cells := scroll_cells (cells sc), cur_x := 0\<rparr>
                 else sc\<lparr>cur_x := 0, cur_y := cur_y sc + 1\<rparr>)"

definition show_byte :: "u8 \<Rightarrow> screen \<Rightarrow> screen" where
  "show_byte c sc =
     (if c = 10 \<or> c = 13 then newline sc
      else (let i = 2 * (80 * nat (cur_y sc) + nat (cur_x sc));
                sc = sc\<lparr>cells := (cells sc)[i := c, Suc i := colour sc]\<rparr>
            in if cur_x sc = 79 then newline sc else sc\<lparr>cur_x := cur_x sc + 1\<rparr>))"

definition screen_at :: "mem \<Rightarrow> addr \<Rightarrow> int \<Rightarrow> int \<Rightarrow> u8 \<Rightarrow> screen" where
  "screen_at m base x y col = \<lparr>cells = bytes_at m base 4000, cur_x = x, cur_y = y, colour = col\<rparr>"

lemma scroll_bytes: "bytes_at (scroll_page base m) base 4000 = scroll_cells (bytes_at m base 4000)"
  by (rule nth_equalityI) (auto simp: scroll_cells_def scroll_page_nth add.assoc)

lemma bytes_at_upd2:
  "i + 1 < n \<Longrightarrow> bytes_at (m(base + i := a, base + i + 1 := b)) base n = (bytes_at m base n)[i := a, Suc i := b]"
  by (rule nth_equalityI) (auto simp: nth_list_update)

lemma page_out_screen:
  assumes "cursor_ok x y"
  shows "screen_at (page_out base col c x y m) base (next_x c x) (next_y c x y) col =
    show_byte c (screen_at m base x y col)"
proof -
  let ?i = "2 * (80 * nat y + nat x)"
  have v: "vaddr base x y = base + ?i" using assms by (simp add: vaddr_nat cursor_ok_def)
  have i: "?i + 1 < 4000" using assms by (auto simp: cursor_ok_def)
  have "bytes_at (m(vaddr base x y := c, vaddr base x y + 1 := col)) base 4000 = (bytes_at m base 4000)[?i := c, Suc ?i := col]"
    unfolding v by (rule bytes_at_upd2 [OF i])
  with assms show ?thesis
    by (auto simp: screen_at_def show_byte_def newline_def page_out_def next_x_def next_y_def wrap_row_def
        scroll_bytes Let_def cursor_ok_def)
qed


section \<open>Output routines refine the screen\<close>

locale screen_sink = char_sink +
  fixes view :: "kstate \<Rightarrow> screen"
  assumes put_view: "ok s \<Longrightarrow> put c s = Some s' \<Longrightarrow> view s' = show_byte c (view s)"
begin

lemma emit_view: "ok s \<Longrightarrow> emit put cs s = Some s' \<Longrightarrow> view s' = fold show_byte cs (view s)"
proof (induction cs arbitrary: s)
  case (Cons c cs)
  from put_ok [OF Cons.prems(1), of c] obtain s1 where s1: "put c s = Some s1" "ok s1" by blast
  with Cons.prems Cons.IH [of s1] put_view [OF Cons.prems(1) s1(1)] show ?case by simp
qed simp

end

definition kernel_screen :: "kstate \<Rightarrow> screen" where
  "kernel_screen s = screen_at (mem s) VIDEO (screen_x s) (screen_y s) (text_color s)"

definition process_screen :: "kstate \<Rightarrow> screen" where
  "process_screen s = (let t = terminals s ! pos_idx False s
     in screen_at (mem s) (main_page s) (x_cursor t) (y_cursor t) (text_color s))"

definition echo_screen :: "kstate \<Rightarrow> screen" where
  "echo_screen s = (let t = terminals s ! pos_idx True s
     in screen_at (mem s) VIDEO (x_cursor t) (y_cursor t) (text_color s))"

interpretation kernel_screen: screen_sink "\<lambda>c s. Some (putc c s)"
  "\<lambda>s. cursor_ok (screen_x s) (screen_y s)" "\<lambda>s. VIDEO" kernel_screen
  by unfold_locales (auto simp: putc_eq kernel_screen_def page_out_screen)

interpretation process_screen: screen_sink my_putc terms_ok main_page process_screen
proof
  fix s c s' assume ok: "terms_ok s" and put: "my_putc c s = Some s'"
  have i: "pos_idx False s < length (terminals s)" using pos_idx_less [OF ok, of False] ok by (simp add: terms_ok_def)
  have pg: "main_page (s\<lparr>mem := m\<rparr>) = main_page s" "pos_idx t (s\<lparr>mem := m\<rparr>) = pos_idx t s" for m t
    by (simp_all add: main_page_def pos_idx_def)
  show "process_screen s' = show_byte c (process_screen s)"
    using put page_out_screen [OF terms_ok_cursor [OF ok, of False]] i
    by (auto simp: my_putc_eq [OF ok] process_screen_def Let_def pg move_cursor_nth)
qed

interpretation echo_screen: screen_sink key_putc terms_ok "\<lambda>s. VIDEO" echo_screen
proof
  fix s c s' assume ok: "terms_ok s" and put: "key_putc c s = Some s'"
  have i: "pos_idx True s < length (terminals s)" using pos_idx_less [OF ok, of True] ok by (simp add: terms_ok_def)
  have pg: "pos_idx t (s\<lparr>mem := m, screen_x := x, screen_y := y\<rparr>) = pos_idx t s" for m t x y
    by (simp add: pos_idx_def)
  show "echo_screen s' = show_byte c (echo_screen s)"
    using put page_out_screen [OF terms_ok_cursor [OF ok, of True]] i
    by (auto simp: key_putc_eq [OF ok] echo_screen_def Let_def pg move_cursor_nth)
qed


section \<open>Writing to the terminal\<close>

text \<open>What the calls of a process leave alone: the owner of the screen, the process table, the
  mapped page and the frames behind it, and the place of the image.  Output leaves the control blocks
  alone too.\<close>

definition alike :: "kstate \<Rightarrow> kstate \<Rightarrow> bool" where
  "alike s s' \<longleftrightarrow> process_num s' = process_num s \<and> main_process s' = main_process s \<and>
     active_terminal s' = active_terminal s \<and> curr_pcb s' = curr_pcb s \<and> boot_block s' = boot_block s \<and>
     FS_START_ADDR s' = FS_START_ADDR s \<and> arg_buf s' = arg_buf s \<and> rodata s' = rodata s \<and> text_color s' = text_color s \<and>
     save_buf_1 s' = save_buf_1 s \<and> save_buf_2 s' = save_buf_2 s \<and> save_buf_3 s' = save_buf_3 s \<and>
     frame s' = frame s \<and> tlb_user s' = tlb_user s \<and> phys s' = phys s \<and> child_ran s s' \<and>
     page_dir s' = page_dir s \<and> page_table s' = page_table s \<and> page_table_at s' = page_table_at s \<and>
     (\<forall>a. a \<noteq> curr_pcb s \<longrightarrow> pcbs s' a = pcbs s a)"

definition kept :: "kstate \<Rightarrow> kstate \<Rightarrow> bool" where
  "kept s s' \<longleftrightarrow> alike s s' \<and> pcbs s' = pcbs s"

lemma kept_refl [simp]: "kept s s" "kept s (s\<lparr>mem := m\<rparr>)" "kept s (sti s)" "kept s (cli s)"
  by (simp_all add: kept_def alike_def child_ran_def sti_def cli_def)

lemma kept_trans [trans]: "kept s s' \<Longrightarrow> kept s' s'' \<Longrightarrow> kept s s''"
  by (simp add: kept_def alike_def child_ran_def)

lemma alike_trans [trans]: "alike s s' \<Longrightarrow> alike s' s'' \<Longrightarrow> alike s s''"
  by (simp add: alike_def child_ran_def)

lemma kept_alike: "kept s s' \<Longrightarrow> alike s s'"
  by (simp add: kept_def)

lemma curr_task_cursor [simp]:
  "map curr_task (ts[i := (ts ! i)\<lparr>x_cursor := x, y_cursor := y\<rparr>]) = map curr_task ts"
  by (cases "i < length ts") (auto intro!: nth_equalityI simp: nth_list_update)

lemma my_putc_kept: "terms_ok s \<Longrightarrow> my_putc c s = Some s' \<Longrightarrow> kept s s'"
  by (auto simp: my_putc_eq kept_def alike_def child_ran_def move_cursor_def update_cursor_def outb_def Let_def)

lemma emit_kept: "terms_ok s \<Longrightarrow> emit my_putc cs s = Some s' \<Longrightarrow> kept s s'"
proof (induction cs arbitrary: s)
  case (Cons c cs)
  from process_sink.put_ok [OF Cons.prems(1), of c] obtain s1 where s1: "my_putc c s = Some s1" "terms_ok s1" by blast
  with Cons my_putc_kept [OF Cons.prems(1) s1(1)] show ?case by (auto intro: kept_trans)
qed simp

lemma process_screen_flag [simp]: "process_screen (sti s) = process_screen s" "process_screen (cli s) = process_screen s"
  by (simp_all add: process_screen_def sti_def cli_def main_page_def pos_idx_def)

lemma terminal_write_shows:
  assumes "terms_ok s" and "disjoint_rng (main_page s) 4000 buf n"
  shows "\<exists>s'. terminal_write 1 buf (int n) s = Some (int n, s') \<and> terms_ok s' \<and> kept s s' \<and>
    main_page s' = main_page s \<and> same_outside (main_page s) (mem s) (mem s') \<and>
    process_screen s' = fold show_byte (bytes_at (mem s) buf n) (process_screen s)"
proof -
  from terminal_write_eq [OF assms] obtain s1 where s1: "terminal_write 1 buf (int n) s = Some (int n, sti s1)"
    "emit my_putc (bytes_at (mem s) buf n) (cli s) = Some s1" "terms_ok s1" "same_outside (main_page s) (mem s) (mem s1)"
    by blast
  have c: "terms_ok (cli s)" using assms(1) by simp
  have "kept s (sti s1)" using emit_kept [OF c s1(2)] by (simp add: kept_def alike_def child_ran_def cli_def sti_def)
  moreover have "main_page s1 = main_page s"
    using process_sink.emit_ok [OF c, of "bytes_at (mem s) buf n"] s1(2) by simp
  moreover have "process_screen s1 = fold show_byte (bytes_at (mem s) buf n) (process_screen s)"
    using process_screen.emit_view [OF c s1(2)] by simp
  ultimately show ?thesis using s1 by auto
qed

end
