(* ===== verification/Printf.thy ===== *)
theory Printf
  imports Screen
begin

text \<open>
  What \<open>printf\<close> of \<open>lib.c\<close> prints.  \<open>formatted\<close> is the text that a format and its arguments stand
  for; \<open>printf\<close> shows it on the abstract screen of \<open>Screen\<close>, advances by the length of the format
  and touches nothing but the screen, its cursor and the conversion buffer on its stack.
\<close>

section \<open>The text of a format\<close>

text \<open>Outside of a conversion, or after a percent sign, with or without a number sign.\<close>

datatype fmt_mode = Plain | Conversion bool

definition signed_text :: "u32 \<Rightarrow> u8 list" where
  "signed_text v = (if sint v < 0 then 45 # itoa_spec 10 (unat (- v)) else itoa_spec 10 (unat v))"

definition hex8_text :: "u32 \<Rightarrow> u8 list" where
  "hex8_text v = (let ds = itoa_spec 16 (unat v) in replicate (8 - length ds) 48 @ ds)"

text \<open>The text of one argument; \<open>str\<close> gives the string at an address, if there is one.\<close>

definition arg_text :: "(u32 \<Rightarrow> u8 list option) \<Rightarrow> bool \<Rightarrow> u8 \<Rightarrow> u32 \<Rightarrow> u8 list option" where
  "arg_text str alt c v =
     (if c = 120 then Some (if alt then hex8_text v else itoa_spec 16 (unat v))
      else if c = 117 then Some (itoa_spec 10 (unat v))
      else if c = 100 then Some (signed_text v)
      else if c = 99 then Some [ucast v]
      else str v)"

text \<open>A format that ends inside a conversion, or takes more arguments than there are, has no text.\<close>

fun formatted :: "(u32 \<Rightarrow> u8 list option) \<Rightarrow> fmt_mode \<Rightarrow> u8 list \<Rightarrow> u32 list \<Rightarrow> u8 list option" where
  "formatted str Plain [] vs = Some []"
| "formatted str (Conversion alt) [] vs = None"
| "formatted str Plain (c # cs) vs =
     (if c = 37 then formatted str (Conversion False) cs vs else map_option ((#) c) (formatted str Plain cs vs))"
| "formatted str (Conversion alt) (c # cs) vs =
     (if c = 37 then map_option ((#) c) (formatted str Plain cs vs)
      else if c = 35 then formatted str (Conversion True) cs vs
      else if c \<in> {120, 117, 100, 99, 115} then
        (case vs of [] \<Rightarrow> None
         | v # vs \<Rightarrow> do { t \<leftarrow> arg_text str alt c v; map_option ((@) t) (formatted str Plain cs vs) })
      else formatted str Plain cs vs)"

lemma formatted_literal: "37 \<notin> set cs \<Longrightarrow> formatted str Plain cs [] = Some cs"
  by (induction cs) auto


section \<open>Printing\<close>

text \<open>Where \<open>printf\<close> writes: the screen and the 64 bytes of its conversion buffer.\<close>

definition printf_area :: "kstate \<Rightarrow> addr \<Rightarrow> bool" where
  "printf_area s a \<longleftrightarrow> VIDEO \<le> a \<and> a < VIDEO + 4000 \<or> frame s \<le> a \<and> a < frame s + 64"

definition print_ok :: "kstate \<Rightarrow> bool" where
  "print_ok s \<longleftrightarrow> cursor_ok (screen_x s) (screen_y s) \<and> disjoint_rng VIDEO 4000 (frame s) 64"

definition prints :: "u8 list \<Rightarrow> kstate \<Rightarrow> kstate \<Rightarrow> bool" where
  "prints bs s s' \<longleftrightarrow> print_ok s' \<and> kernel_screen s' = fold show_byte bs (kernel_screen s) \<and>
     (\<forall>a. \<not> printf_area s a \<longrightarrow> mem s' a = mem s a) \<and>
     (\<exists>m x y l. s' = s\<lparr>mem := m, screen_x := x, screen_y := y, port_log := l\<rparr>)"

lemma prints_frame: "prints bs s s' \<Longrightarrow> frame s' = frame s"
  by (auto simp: prints_def)

lemma prints_trans:
  assumes "prints xs s s1" and "prints ys s1 s2"
  shows "prints (xs @ ys) s s2"
proof -
  from assms(1) have "printf_area s1 a = printf_area s a" for a by (simp add: printf_area_def prints_frame)
  with assms show ?thesis by (force simp: prints_def)
qed

lemma prints_putc: "print_ok s \<Longrightarrow> prints [c] s (putc c s)"
proof -
  assume ok: "print_ok s"
  then have cur: "cursor_ok (screen_x s) (screen_y s)" by (simp add: print_ok_def)
  have "kernel_screen (putc c s) = show_byte c (kernel_screen s)" using kernel_screen.put_view [OF cur] by simp
  moreover have "\<exists>m x y l. putc c s = s\<lparr>mem := m, screen_x := x, screen_y := y, port_log := l\<rparr>"
    by (simp add: putc_eq [OF cur] update_cursor_def outb_def Let_def) (metis kstate.surjective kstate.update_convs)
  ultimately show ?thesis using putc_keeps [OF cur, of c] ok
    by (simp add: prints_def print_ok_def printf_area_def same_outside_def)
qed

lemma prints_fold: "print_ok s \<Longrightarrow> prints cs s (fold putc cs s)"
proof (induction cs arbitrary: s)
  case Nil
  have "s = s\<lparr>mem := mem s, screen_x := screen_x s, screen_y := screen_y s, port_log := port_log s\<rparr>" by simp
  then have "\<exists>m x y l. s = s\<lparr>mem := m, screen_x := x, screen_y := y, port_log := l\<rparr>" by blast
  with Nil show ?case by (simp add: prints_def)
next
  case (Cons c cs)
  note c = prints_putc [OF Cons.prems, of c]
  then have "print_ok (putc c s)" by (simp add: prints_def)
  from prints_trans [OF c Cons.IH [OF this]] show ?case by simp
qed

text \<open>Text of the conversion buffer.\<close>

lemma buffer_prints:
  assumes ok: "print_ok s" and m: "\<And>a. \<not> (frame s \<le> a \<and> a < frame s + 64) \<Longrightarrow> m a = mem s a"
    and str: "cstr m a xs" and a: "frame s \<le> a" "a + length xs < frame s + 64"
  shows "\<exists>n s'. puts a (s\<lparr>mem := m\<rparr>) = Some (n, s') \<and> prints xs s s'"
proof -
  let ?s = "s\<lparr>mem := m\<rparr>"
  have ok': "print_ok ?s" using ok by (simp add: print_ok_def)
  then have p: "prints xs ?s (fold putc xs ?s)" by (rule prints_fold)
  have "disjoint_rng VIDEO 4000 a (length xs + 1)" using ok a by (auto simp: print_ok_def disjoint_rng_def)
  with ok' str have "puts a ?s = Some (length xs, fold putc xs ?s)" by (intro puts_eq) (simp_all add: print_ok_def)
  moreover have "bytes_at m VIDEO 4000 = bytes_at (mem s) VIDEO 4000"
    by (rule bytes_at_eqI) (use ok in \<open>auto simp: print_ok_def disjoint_rng_def intro!: m\<close>)
  then have "kernel_screen ?s = kernel_screen s" by (simp add: kernel_screen_def screen_at_def)
  with p m have "prints xs s (fold putc xs ?s)" by (force simp: prints_def printf_area_def)
  ultimately show ?thesis by blast
qed

lemma itoa_text_length:
  "length (itoa_spec 16 (unat (v :: u32))) \<le> 8" "length (itoa_spec 10 (unat v)) \<le> 10"
proof -
  have "unat v < 2 ^ LENGTH(32)" by (rule unsigned_less)
  then show "length (itoa_spec 16 (unat v)) \<le> 8" "length (itoa_spec 10 (unat v)) \<le> 10"
    using digits_le_length [of 16 "unat v" 8] digits_le_length [of 10 "unat v" 10] by (simp_all add: itoa_spec_def)
qed

lemma number_prints:
  assumes ok: "print_ok s" and r: "2 \<le> unat r" "unat r \<le> 36" and n: "length (itoa_spec (unat r) (unat v)) \<le> 10"
  shows "\<exists>b m n s'. itoa v (frame s) r (mem s) = Some (b, m) \<and> puts (frame s) (s\<lparr>mem := m\<rparr>) = Some (n, s') \<and>
    prints (itoa_spec (unat r) (unat v)) s s'"
proof -
  let ?ds = "itoa_spec (unat r) (unat v)"
  let ?m = "blit (mem s) (frame s) (?ds @ [0])"
  have "cstr ?m (frame s) ?ds" by (rule dstr_blit) (use r itoa_spec_nonzero in blast)
  moreover have "?m a = mem s a" if "\<not> (frame s \<le> a \<and> a < frame s + 64)" for a
    using that n by (auto simp: blit_def)
  ultimately have "\<exists>n s'. puts (frame s) (s\<lparr>mem := ?m\<rparr>) = Some (n, s') \<and> prints ?ds s s'"
    by (intro buffer_prints) (use ok n in auto)
  then show ?thesis using r by (simp add: itoa_blit)
qed

lemma print_number:
  assumes "print_ok s"
  shows "\<exists>s'. print_hex v s = Some s' \<and> prints (itoa_spec 16 (unat v)) s s'"
    and "\<exists>s'. print_unsigned v s = Some s' \<and> prints (itoa_spec 10 (unat v)) s s'"
  using number_prints [OF assms, of 16 v] number_prints [OF assms, of 10 v] itoa_text_length [of v]
  by (auto simp: print_hex_def print_unsigned_def)

lemma print_signed_text:
  assumes ok: "print_ok s"
  shows "\<exists>s'. print_signed v s = Some s' \<and> prints (signed_text v) s s'"
proof (cases "sint v < 0")
  case True
  let ?ds = "itoa_spec 10 (unat (- v))"
  let ?m = "blit (mem s) (frame s) ((45 # ?ds) @ [0])"
  have n: "length ?ds \<le> 10" by (rule itoa_text_length)
  have "cstr ?m (frame s) (45 # ?ds)" by (rule dstr_blit) (use itoa_spec_nonzero [of 10] in simp)
  moreover have "?m a = mem s a" if "\<not> (frame s \<le> a \<and> a < frame s + 64)" for a
    using that n by (auto simp: blit_def)
  ultimately have "\<exists>n s'. puts (frame s) (s\<lparr>mem := ?m\<rparr>) = Some (n, s') \<and> prints (45 # ?ds) s s'"
    by (intro buffer_prints) (use ok n in auto)
  moreover have "itoa (- v) (frame s + 1) 10 ((mem s)(frame s := 45)) = Some (frame s + 1, ?m)"
    by (simp add: itoa_blit blit_Cons)
  ultimately show ?thesis using True by (auto simp: print_signed_def signed_text_def)
next
  case False
  with number_prints [OF ok, of 10 v] itoa_text_length [of v] show ?thesis
    by (auto simp: print_signed_def signed_text_def)
qed

lemma pad_zeros_blit: "pad_zeros cb i m = blit m (cb + i) (replicate (8 - i) 48)"
proof (induction cb i m rule: pad_zeros.induct)
  case (1 cb i m)
  show ?case
  proof (cases "i < 8")
    case True
    then have "8 - i = Suc (8 - (i + 1))" by simp
    with True 1 [OF True] show ?thesis by (subst pad_zeros.simps) (simp add: blit_Cons del: fun_upd_apply)
  qed (simp add: pad_zeros.simps)
qed

lemma print_hex_alt_text:
  assumes ok: "print_ok s"
  shows "\<exists>s'. print_hex_alt v s = Some s' \<and> prints (hex8_text v) s s'"
proof -
  let ?ds = "itoa_spec 16 (unat v)"
  let ?n = "length ?ds"
  let ?m1 = "blit (mem s) (frame s + 8) (?ds @ [0])"
  let ?m = "blit ?m1 (frame s + ?n) (replicate (8 - ?n) 48)"
  have n: "?n \<le> 8" by (rule itoa_text_length)
  have nz: "0 \<notin> set ?ds" using itoa_spec_nonzero [of 16] by simp
  have c1: "cstr ?m1 (frame s + 8) ?ds" by (rule dstr_blit) (rule nz)
  have "?m = blit (mem s) (frame s + ?n) ((replicate (8 - ?n) 48 @ ?ds) @ [0])"
    using n by (auto simp: blit_def fun_eq_iff nth_append)
  then have "cstr ?m (frame s + ?n) (hex8_text v)"
    using nz dstr_blit [of 0 "replicate (8 - ?n) 48 @ ?ds" "mem s" "frame s + ?n"] by (simp add: hex8_text_def Let_def)
  moreover have "?m a = mem s a" if "\<not> (frame s \<le> a \<and> a < frame s + 64)" for a
    using that n by (auto simp: blit_def)
  ultimately have "\<exists>k s'. puts (frame s + ?n) (s\<lparr>mem := ?m\<rparr>) = Some (k, s') \<and> prints (hex8_text v) s s'"
    by (intro buffer_prints) (use ok n in \<open>auto simp: hex8_text_def Let_def\<close>)
  then show ?thesis using strlen_cstr [OF c1] by (auto simp: print_hex_alt_def itoa_blit pad_zeros_blit)
qed


section \<open>Formatted output\<close>

text \<open>A string that output leaves alone.\<close>

definition readable :: "kstate \<Rightarrow> addr \<Rightarrow> u8 list \<Rightarrow> bool" where
  "readable s a xs \<longleftrightarrow> cstr (mem s) a xs \<and> (\<forall>i \<le> length xs. \<not> printf_area s (a + i))"

lemma prints_readable:
  assumes "prints bs s s'" and "readable s a xs"
  shows "readable s' a xs"
proof -
  have same: "printf_area s' = printf_area s" using prints_frame [OF assms(1)] by (auto simp: printf_area_def fun_eq_iff)
  have "cstr (mem s) a xs" using assms(2) by (simp add: readable_def)
  then have "cstr (mem s') a xs"
    by (rule dstr_cong) (use assms in \<open>auto simp: prints_def readable_def\<close>)
  with assms(2) same show ?thesis by (simp add: readable_def)
qed

lemma readable_tl: "readable s a (c # cs) \<Longrightarrow> mem s a = c \<and> c \<noteq> 0 \<and> readable s (a + 1) cs"
  by (auto simp: readable_def dstr_Cons)

lemma puts_prints: "print_ok s \<Longrightarrow> readable s a xs \<Longrightarrow> \<exists>n s'. puts a s = Some (n, s') \<and> prints xs s s'"
proof -
  assume ok: "print_ok s" and r: "readable s a xs"
  have "disjoint_rng VIDEO 4000 a (length xs + 1)"
  proof (rule ccontr)
    assume "\<not> ?thesis"
    then have "VIDEO \<le> a + (VIDEO - a) \<and> a + (VIDEO - a) < VIDEO + 4000 \<and> VIDEO - a \<le> length xs"
      by (auto simp: disjoint_rng_def)
    with r show False by (auto simp: readable_def printf_area_def)
  qed
  with ok r have "puts a s = Some (length xs, fold putc xs s)" by (intro puts_eq) (simp_all add: print_ok_def readable_def)
  with prints_fold [OF ok, of xs] show ?thesis by blast
qed

text \<open>One argument.\<close>

lemma arg_prints:
  assumes ok: "print_ok s" and str: "\<And>v xs. str v = Some xs \<Longrightarrow> readable s (unat v) xs"
    and c: "c \<in> {120, 117, 100, 99, 115}" "mem s buf = c" and t: "arg_text str alt c v = Some t"
  shows "\<exists>s'. fmt_conv puts alt buf (v # vs) s = Some (buf, vs, s') \<and> prints t s s'"
proof -
  have s: "\<exists>n s'. puts (unat v) s = Some (n, s') \<and> prints t s s'" if "c = 115"
    using that t puts_prints [OF ok str] by (simp add: arg_text_def)
  show ?thesis
    using c t s print_number [OF ok, of v] print_signed_text [OF ok, of v] print_hex_alt_text [OF ok, of v]
      prints_putc [OF ok, of "ucast v"]
    by (subst fmt_conv.simps) (auto simp: arg_text_def)
qed

definition from_mode :: "fmt_mode \<Rightarrow> addr \<Rightarrow> u32 list \<Rightarrow> kstate \<Rightarrow> (addr \<times> kstate) option" where
  "from_mode md buf vs s = (case md of
     Plain \<Rightarrow> printf_loop puts buf vs s
   | Conversion alt \<Rightarrow> do { (buf, vs, s) \<leftarrow> fmt_conv puts alt buf vs s; printf_loop puts (buf + 1) vs s })"

lemma printf_loop_prints:
  assumes "print_ok s" and "readable s buf cs" and "\<And>v xs. str v = Some xs \<Longrightarrow> readable s (unat v) xs"
    and "formatted str md cs vs = Some t"
  shows "\<exists>s'. from_mode md buf vs s = Some (buf + length cs, s') \<and> prints t s s'"
  using assms
proof (induction str md cs vs arbitrary: buf s t rule: formatted.induct)
  case (1 str vs)
  then show ?case using prints_fold [OF 1(1), of "[]"]
    by (auto simp: from_mode_def printf_loop.simps readable_def dstr_def)
next
  case (2 str alt vs)
  then show ?case by simp
next
  case (3 str c cs vs)
  note tl = readable_tl [OF "3.prems"(2)]
  show ?case
  proof (cases "c = 37")
    case True
    with "3.IH"(1) [OF True "3.prems"(1) _ "3.prems"(3), of "buf + 1"] "3.prems"(4) tl show ?thesis
      by (simp add: from_mode_def printf_loop.simps [of _ buf])
  next
    case False
    with "3.prems"(4) obtain u where u: "formatted str Plain cs vs = Some u" "t = c # u" by auto
    note p = prints_putc [OF "3.prems"(1), of c]
    then have ok: "print_ok (putc c s)" by (simp add: prints_def)
    from "3.IH"(2) [OF False ok prints_readable [OF p] prints_readable [OF p] u(1), of "buf + 1"] tl "3.prems"(3)
    obtain s' where s': "printf_loop puts (buf + 1) vs (putc c s) = Some (buf + 1 + length cs, s')" "prints u (putc c s) s'"
      by (auto simp: from_mode_def)
    with False tl prints_trans [OF p s'(2)] u(2) show ?thesis
      by (auto simp: from_mode_def printf_loop.simps [of _ buf])
  qed
next
  case (4 str alt c cs vs)
  note tl = readable_tl [OF "4.prems"(2)]
  consider "c = 37" | "c = 35" | "c \<in> {120, 117, 100, 99, 115}" | "c \<notin> {37, 35, 120, 117, 100, 99, 115}" by blast
  then show ?case
  proof cases
    case 1
    with "4.prems"(4) obtain u where u: "formatted str Plain cs vs = Some u" "t = c # u" by auto
    note p = prints_putc [OF "4.prems"(1), of c]
    then have ok: "print_ok (putc c s)" by (simp add: prints_def)
    from "4.IH"(1) [OF 1 ok prints_readable [OF p] prints_readable [OF p] u(1), of "buf + 1"] tl "4.prems"(3)
    obtain s' where s': "printf_loop puts (buf + 1) vs (putc c s) = Some (buf + 1 + length cs, s')" "prints u (putc c s) s'"
      by (auto simp: from_mode_def)
    with 1 tl prints_trans [OF p s'(2)] u(2) show ?thesis by (auto simp: from_mode_def fmt_conv.simps)
  next
    case 2
    then have "c \<noteq> 37" by simp
    from "4.IH"(2) [OF this 2 "4.prems"(1) _ "4.prems"(3), of "buf + 1"] "4.prems"(4) 2 tl show ?thesis
      by (simp add: from_mode_def fmt_conv.simps [of _ _ buf])
  next
    case 3
    then have c: "c \<noteq> 37" "c \<noteq> 35" by auto
    with 3 "4.prems"(4) obtain v ws x u where u: "vs = v # ws" "arg_text str alt c v = Some x"
      "formatted str Plain cs ws = Some u" "t = x @ u" by (auto split: list.splits bind_splits)
    from arg_prints [OF "4.prems"(1) "4.prems"(3) 3 _ u(2), of buf ws] tl obtain s1 where
      s1: "fmt_conv puts alt buf vs s = Some (buf, ws, s1)" "prints x s s1" using u(1) by auto
    then have ok: "print_ok s1" by (simp add: prints_def)
    from "4.IH"(3) [OF c 3 u(1,2) ok prints_readable [OF s1(2)] prints_readable [OF s1(2)] u(3), of "buf + 1"] tl "4.prems"(3)
    obtain s' where s': "printf_loop puts (buf + 1) ws s1 = Some (buf + 1 + length cs, s')" "prints u s1 s'"
      by (auto simp: from_mode_def)
    with s1(1) prints_trans [OF s1(2) s'(2)] u(4) show ?thesis by (auto simp: from_mode_def)
  next
    case 4
    then have c: "c \<noteq> 37" "c \<noteq> 35" "c \<notin> {120, 117, 100, 99, 115}" by auto
    from "4.IH"(4) [OF c "4.prems"(1) _ "4.prems"(3), of "buf + 1"] "4.prems"(4) c tl show ?thesis
      by (simp add: from_mode_def fmt_conv.simps [of _ _ buf])
  qed
qed


lemma printf_prints:
  assumes "print_ok s" and "readable s fmt cs" and "\<And>v xs. str v = Some xs \<Longrightarrow> readable s (unat v) xs"
    and "formatted str Plain cs vs = Some t"
  shows "\<exists>s'. printf fmt vs s = Some (int (length cs), s') \<and> prints t s s'"
  using printf_loop_prints [OF assms] by (auto simp: printf_def from_mode_def)

end
