(* ===== verification/Boot_Live.thy ===== *)
theory Boot_Live
  imports Boot Printf
begin

text \<open>
  Start-up succeeds: on a machine whose boot loader has set up the Multiboot information, one module
  with the file system and a program for the first shell, \<open>entry\<close> reaches the first instruction
  of the shell.  \<open>during\<close> says what the steps before that leave of the initial state; every message
  of the report returns by the correctness of \<open>printf\<close>.
\<close>

section \<open>What start-up writes\<close>

definition boot_area :: "kstate \<Rightarrow> addr \<Rightarrow> bool" where
  "boot_area s a \<longleftrightarrow> printf_area s a \<or>
     a \<in> {keyboard_buf s, last_buf s, kb_save_buf s, save_buf_1 s, save_buf_2 s, save_buf_3 s} \<or>
     a \<in> set (map save_buf (terminals s)) \<or> USER_PAGE \<le> a \<and> a < USER_PAGE + UNIT_4_MB"

definition boot_fields :: "kstate \<Rightarrow> (addr \<times> (string \<Rightarrow> addr) \<times> addr \<times> int list \<times> int) \<times> addr list \<times> addr list \<times> addr \<times> addr" where
  "boot_fields s = ((frame s, rodata s, arg_buf s, process_num s, active_terminal s),
     [keyboard_buf s, last_buf s, kb_save_buf s, save_buf_1 s, save_buf_2 s, save_buf_3 s],
     map save_buf (terminals s), FS_START_ADDR s, boot_block s)"

definition during :: "kstate \<Rightarrow> kstate \<Rightarrow> bool" where
  "during s0 s \<longleftrightarrow> (\<forall>a. \<not> boot_area s0 a \<longrightarrow> mem s a = mem s0 a) \<and> boot_fields s = boot_fields s0 \<and> print_ok s"

interpretation bf: console_frame boot_fields
proof
  fix x y t s s' assume "set_terminal_pos x y t s = Some s'"
  then obtain i tm where i: "aget (terminals s) i = Some tm"
    "s' = s\<lparr>terminals := (terminals s)[nat i := tm\<lparr>x_cursor := to_u8 x, y_cursor := to_u8 y\<rparr>]\<rparr>"
    by (auto simp: set_terminal_pos_def aset_def split: bind_splits if_splits)
  then have "terminals s ! nat i = tm" "nat i < length (terminals s)" by (auto simp: aget_def split: if_splits)
  then have "map save_buf (terminals s') = map save_buf (terminals s)"
    using i by (auto simp: map_update list_update_same_conv)
  then show "boot_fields s' = boot_fields s" using i by (simp add: boot_fields_def)
qed (simp_all add: boot_fields_def outb_def)

lemma during_area: "during s0 s \<Longrightarrow> printf_area s a = printf_area s0 a"
  by (simp add: during_def boot_fields_def printf_area_def)

text \<open>A string that start-up leaves alone.\<close>

definition held :: "kstate \<Rightarrow> addr \<Rightarrow> u8 list \<Rightarrow> bool" where
  "held s a xs \<longleftrightarrow> cstr (mem s) a xs \<and> (\<forall>i \<le> length xs. \<not> boot_area s (a + i))"

lemma held_readable:
  assumes "during s0 s" and "held s0 a xs"
  shows "readable s a xs"
proof -
  have "cstr (mem s0) a xs" using assms(2) by (simp add: held_def)
  then have "cstr (mem s) a xs" by (rule dstr_cong) (use assms in \<open>auto simp: during_def held_def\<close>)
  with assms during_area [OF assms(1)] show ?thesis by (auto simp: readable_def held_def boot_area_def)
qed

lemma during_prints:
  assumes "during s0 s" and "prints t s s'"
  shows "during s0 s'"
proof -
  have "boot_fields s' = boot_fields s" using assms(2) by (auto simp: prints_def boot_fields_def)
  moreover have "mem s' a = mem s a" if "\<not> boot_area s0 a" for a
    using that assms during_area [OF assms(1)] by (simp add: prints_def boot_area_def)
  ultimately show ?thesis using assms by (simp add: during_def prints_def)
qed

text \<open>A message whose text exists is printed.\<close>

lemma say_runs:
  assumes d: "during s0 s" and f: "held s0 (rodata s0 fmt) (str_bytes fmt)"
    and str: "\<And>v xs. str v = Some xs \<Longrightarrow> held s0 (unat v) xs" and t: "formatted str Plain (str_bytes fmt) vs \<noteq> None"
  shows "\<exists>s'. say fmt vs s = Some s' \<and> during s0 s'"
proof -
  have ok: "print_ok s" and ro: "rodata s = rodata s0" using d by (auto simp: during_def boot_fields_def)
  from t obtain u where u: "formatted str Plain (str_bytes fmt) vs = Some u" by blast
  have "\<exists>s'. printf (rodata s fmt) vs s = Some (int (length (str_bytes fmt)), s') \<and> prints u s s'"
    by (rule printf_prints [OF ok _ _ u]) (use held_readable [OF d] f str ro in auto)
  with during_prints [OF d] show ?thesis by (auto simp: say_def)
qed

lemmas say_numbers = say_runs [where str = "\<lambda>v. None", simplified]

lemma during_ld32: "during s0 s \<Longrightarrow> (\<And>i. i < 4 \<Longrightarrow> \<not> boot_area s0 (a + i)) \<Longrightarrow> ld32 (mem s) a = ld32 (mem s0) a"
  by (rule ld32_cong) (simp add: during_def)

lemma during_module:
  "during s0 s \<Longrightarrow> during (fs_set_start_end b e s0) (fs_set_start_end b e s)"
  by (auto simp: during_def fs_set_start_end_def boot_fields_def boot_area_def printf_area_def print_ok_def)


section \<open>The report\<close>

definition boot_messages :: "string list" where
  "boot_messages = [''flags = 0x%#x\<newline>'', ''mem_lower = %uKB, mem_upper = %uKB\<newline>'', ''boot_device = 0x%#x\<newline>'',
     ''cmdline = %s\<newline>'', ''Module %d loaded at address: 0x%#x\<newline>'', ''Module %d ends at address: 0x%#x\<newline>'',
     ''First few bytes of module:\<newline>'', ''0x%x '', ''\<newline>'',
     ''elf_sec: num = %u, size = 0x%#x, addr = 0x%#x, shndx = 0x%#x\<newline>'',
     ''mmap_addr = 0x%#x, mmap_length = 0x%x\<newline>'',
     ''    size = 0x%x, base_addr = 0x%#x%#x\<newline>    type = 0x%x,  length    = 0x%#x%#x\<newline>'',
     ''Enabling Interrupts\<newline>'', ''Got to the end\<newline>'']"

definition messages_held :: "kstate \<Rightarrow> bool" where
  "messages_held s \<longleftrightarrow> (\<forall>fmt \<in> set boot_messages. held s (rodata s fmt) (str_bytes fmt))"

text \<open>The number of arguments of the messages.\<close>

lemma message_texts:
  "formatted str Plain (str_bytes ''flags = 0x%#x\<newline>'') [a] \<noteq> None"
  "formatted str Plain (str_bytes ''mem_lower = %uKB, mem_upper = %uKB\<newline>'') [a, b] \<noteq> None"
  "formatted str Plain (str_bytes ''boot_device = 0x%#x\<newline>'') [a] \<noteq> None"
  "str a \<noteq> None \<Longrightarrow> formatted str Plain (str_bytes ''cmdline = %s\<newline>'') [a] \<noteq> None"
  "formatted str Plain (str_bytes ''Module %d loaded at address: 0x%#x\<newline>'') [a, b] \<noteq> None"
  "formatted str Plain (str_bytes ''Module %d ends at address: 0x%#x\<newline>'') [a, b] \<noteq> None"
  "formatted str Plain (str_bytes ''First few bytes of module:\<newline>'') [] \<noteq> None"
  "formatted str Plain (str_bytes ''0x%x '') [a] \<noteq> None"
  "formatted str Plain (str_bytes ''\<newline>'') [] \<noteq> None"
  "formatted str Plain (str_bytes ''elf_sec: num = %u, size = 0x%#x, addr = 0x%#x, shndx = 0x%#x\<newline>'') [a, b, c, d] \<noteq> None"
  "formatted str Plain (str_bytes ''mmap_addr = 0x%#x, mmap_length = 0x%x\<newline>'') [a, b] \<noteq> None"
  "formatted str Plain (str_bytes ''    size = 0x%x, base_addr = 0x%#x%#x\<newline>    type = 0x%x,  length    = 0x%#x%#x\<newline>'')
     [a, b, c, d, e, f] \<noteq> None"
  "formatted str Plain (str_bytes ''Enabling Interrupts\<newline>'') [] \<noteq> None"
  "formatted str Plain (str_bytes ''Got to the end\<newline>'') [] \<noteq> None"
  by (auto simp: str_bytes_def chb_def arg_text_def)

lemma message_members:
  "''flags = 0x%#x\<newline>'' \<in> set boot_messages"
  "''mem_lower = %uKB, mem_upper = %uKB\<newline>'' \<in> set boot_messages"
  "''boot_device = 0x%#x\<newline>'' \<in> set boot_messages"
  "''cmdline = %s\<newline>'' \<in> set boot_messages"
  "''Module %d loaded at address: 0x%#x\<newline>'' \<in> set boot_messages"
  "''Module %d ends at address: 0x%#x\<newline>'' \<in> set boot_messages"
  "''First few bytes of module:\<newline>'' \<in> set boot_messages"
  "''0x%x '' \<in> set boot_messages"
  "''\<newline>'' \<in> set boot_messages"
  "''elf_sec: num = %u, size = 0x%#x, addr = 0x%#x, shndx = 0x%#x\<newline>'' \<in> set boot_messages"
  "''mmap_addr = 0x%#x, mmap_length = 0x%x\<newline>'' \<in> set boot_messages"
  "''    size = 0x%x, base_addr = 0x%#x%#x\<newline>    type = 0x%x,  length    = 0x%#x%#x\<newline>'' \<in> set boot_messages"
  "''Enabling Interrupts\<newline>'' \<in> set boot_messages"
  "''Got to the end\<newline>'' \<in> set boot_messages"
  by (simp_all add: boot_messages_def)

lemma say_message:
  assumes "during s0 s" "messages_held s0" "fmt \<in> set boot_messages" "formatted (\<lambda>v. None) Plain (str_bytes fmt) vs \<noteq> None"
  shows "\<exists>s'. say fmt vs s = Some s' \<and> during s0 s'"
  using say_numbers assms by (simp add: messages_held_def)

lemma module_keeps [simp]:
  "held (fs_set_start_end b e s) = held s" "messages_held (fs_set_start_end b e s) = messages_held s"
  "boot_area (fs_set_start_end b e s) = boot_area s" "mem (fs_set_start_end b e s) = mem s"
  by (auto simp: messages_held_def held_def fs_set_start_end_def boot_area_def printf_area_def fun_eq_iff)

lemma say_bytes_runs:
  assumes "during s0 s" "messages_held s0"
  shows "\<exists>s'. say_bytes n a s = Some s' \<and> during s0 s'"
  using assms(1)
proof (induction n arbitrary: a s)
  case (Suc n)
  obtain s1 where "say ''0x%x '' [scast (mem s a)] s = Some s1" "during s0 s1"
    using say_message [OF Suc.prems assms(2) message_members(8) message_texts(8)] by blast
  with Suc.IH [of s1 "a + 1"] show ?case by simp
qed simp

text \<open>The chain of the memory map, from one entry to the next.\<close>

inductive mmap_chain :: "kstate \<Rightarrow> u32 \<Rightarrow> u32 \<Rightarrow> bool" for s0 hi where
  last: "\<not> mm < hi \<Longrightarrow> mmap_chain s0 hi mm"
| link: "mm < hi \<Longrightarrow> (\<And>i. i < 4 \<Longrightarrow> \<not> boot_area s0 (unat mm + i)) \<Longrightarrow>
    mmap_chain s0 hi (mm + ld32 (mem s0) (unat mm) + 4) \<Longrightarrow> mmap_chain s0 hi mm"

text \<open>What the boot loader provides: one module, the two kinds of symbol table not both present, a
  readable command line and memory map if they are present.\<close>

definition mbi_ok :: "kstate \<Rightarrow> addr \<Rightarrow> bool" where
  "mbi_ok s mbi \<longleftrightarrow> (let w = (\<lambda>k. ld32 (mem s) (mbi + k)) in
     (\<forall>i < 52. \<not> boot_area s (mbi + i)) \<and> CHECK_FLAG (w 0) 3 \<and> w 20 = 1 \<and> (\<forall>i < 16. \<not> boot_area s (unat (w 24) + i)) \<and>
     \<not> (CHECK_FLAG (w 0) 4 \<and> CHECK_FLAG (w 0) 5) \<and> (CHECK_FLAG (w 0) 2 \<longrightarrow> (\<exists>xs. held s (unat (w 16)) xs)) \<and>
     (CHECK_FLAG (w 0) 6 \<longrightarrow> mmap_chain s (w 48 + w 44) (w 48)))"

definition module_start :: "kstate \<Rightarrow> addr \<Rightarrow> addr" where
  "module_start s mbi = unat (ld32 (mem s) (unat (ld32 (mem s) (mbi + 24))))"

definition module_end :: "kstate \<Rightarrow> addr \<Rightarrow> addr" where
  "module_end s mbi = unat (ld32 (mem s) (unat (ld32 (mem s) (mbi + 24)) + 4))"

lemma mbi_word:
  assumes "mbi_ok s0 mbi" "during s0 s" "k + 4 \<le> 52"
  shows "ld32 (mem s) (mbi + k) = ld32 (mem s0) (mbi + k)"
  by (rule during_ld32 [OF assms(2)]) (use assms(1,3) in \<open>auto simp: mbi_ok_def Let_def add.assoc\<close>)

lemma say_mmap_runs:
  assumes "mmap_chain s0 (ld32 (mem s0) (mbi + 48) + ld32 (mem s0) (mbi + 44)) mm" "mbi_ok s0 mbi" "messages_held s0" "during s0 s"
  shows "\<exists>s'. say_mmap mbi mm s = Some s' \<and> during s0 s'"
  using assms(1,4)
proof (induction mm arbitrary: s rule: mmap_chain.induct)
  case (last mm)
  note w = mbi_word [OF assms(2) last(2), of 48] mbi_word [OF assms(2) last(2), of 44]
  with last show ?case by (subst say_mmap.simps) simp
next
  case (link mm)
  note w = mbi_word [OF assms(2) link.prems, of 48] mbi_word [OF assms(2) link.prems, of 44]
  let ?w = "\<lambda>k. ld32 (mem s) (unat mm + k)"
  let ?fmt = "''    size = 0x%x, base_addr = 0x%#x%#x\<newline>    type = 0x%x,  length    = 0x%#x%#x\<newline>''"
  have "?fmt \<in> set boot_messages" by (simp add: boot_messages_def)
  from say_message [OF link.prems assms(3) this message_texts(12)]
  obtain s1 where s1: "say ?fmt [?w 0, ?w 8, ?w 4, ?w 20, ?w 16, ?w 12] s = Some s1" "during s0 s1" by blast
  have "ld32 (mem s1) (unat mm) = ld32 (mem s0) (unat mm)" by (rule during_ld32 [OF s1(2) link.hyps(2)])
  with link.IH [OF s1(2)] obtain s2 where "say_mmap mbi (mm + ld32 (mem s1) (unat mm) + 4) s1 = Some s2" "during s0 s2" by auto
  with s1 w link.hyps(1) show ?case by (subst say_mmap.simps) (simp add: Let_def memory_map_def)
qed

lemma say_modules_runs:
  assumes ok: "mbi_ok s0 mbi" "messages_held s0" and d: "during s0 s"
  shows "\<exists>s'. say_modules mbi 0 (unat (ld32 (mem s0) (mbi + 24))) s = Some s' \<and>
    during (fs_set_start_end (module_start s0 mbi) (module_end s0 mbi) s0) s'"
proof -
  let ?md = "unat (ld32 (mem s0) (mbi + 24))"
  let ?R = "fs_set_start_end (module_start s0 mbi) (module_end s0 mbi)"
  have one: "ld32 (mem s) (mbi + 20) = 1" if "during s0 s" for s
    using mbi_word [OF ok(1) that, of 20] ok(1) by (simp add: mbi_ok_def Let_def)
  have md: "ld32 (mem s) ?md = ld32 (mem s0) ?md" "ld32 (mem s) (?md + 4) = ld32 (mem s0) (?md + 4)" if "during s0 s" for s
    by (rule during_ld32 [OF that]; use ok(1) in \<open>auto simp: mbi_ok_def Let_def add.assoc\<close>)+
  have say: "\<exists>s'. say ''Module %d loaded at address: 0x%#x\<newline>'' [a, b] s = Some s' \<and> during s0 s'"
    "\<exists>s'. say ''Module %d ends at address: 0x%#x\<newline>'' [a, b] s = Some s' \<and> during s0 s'" if "during s0 s" for a b s
    by (rule say_message [OF that ok(2)]; simp add: boot_messages_def message_texts)+
  have ok': "messages_held (?R s0)" using ok(2) by simp
  have say': "\<exists>s'. say ''First few bytes of module:\<newline>'' [] s = Some s' \<and> during (?R s0) s'"
    "\<exists>s'. say ''\<newline>'' [] s = Some s' \<and> during (?R s0) s'" if "during (?R s0) s" for s
    by (rule say_message [OF that ok']; simp add: boot_messages_def message_texts)+
  from say(1) [OF d] obtain s1 where s1: "say ''Module %d loaded at address: 0x%#x\<newline>'' [0, ld32 (mem s) ?md] s = Some s1" "during s0 s1" by blast
  from say(2) [OF s1(2)] obtain s2 where s2: "say ''Module %d ends at address: 0x%#x\<newline>'' [0, ld32 (mem s1) (?md + 4)] s1 = Some s2" "during s0 s2" by blast
  have d2: "during (?R s0) (?R s2)" by (rule during_module [OF s2(2)])
  from say'(1) [OF d2] obtain s3 where s3: "say ''First few bytes of module:\<newline>'' [] (?R s2) = Some s3" "during (?R s0) s3" by blast
  from say_bytes_runs [OF s3(2) ok'] obtain s4 where s4: "say_bytes 16 (unat (ld32 (mem s3) ?md)) s3 = Some s4" "during (?R s0) s4" by blast
  from say'(2) [OF s4(2)] obtain s5 where s5: "say ''\<newline>'' [] s4 = Some s5" "during (?R s0) s5" by blast
  have "ld32 (mem s5) (mbi + 20) = 1"
    using during_ld32 [OF s5(2), of "mbi + 20"] one [OF d] mbi_word [OF ok(1) d, of 20] ok(1)
    by (simp add: mbi_ok_def Let_def add.assoc)
  then have "say_modules mbi 1 (?md + 16) s5 = Some s5" by (subst say_modules.simps) simp
  then have "say_modules mbi 0 ?md s = Some s5"
    using s1 s2 s3 s4 s5 one [OF d] md(1) [OF s2(2)] md(2) [OF s2(2)]
    by (subst say_modules.simps) (simp add: Let_def module_start_def module_end_def)
  with s5(2) show ?thesis by blast
qed


text \<open>The condition of the boot loader does not depend on where the module is recorded.\<close>

lemma mbi_ok_module: "mbi_ok (fs_set_start_end b e s) mbi = mbi_ok s mbi"
proof -
  have "mmap_chain (fs_set_start_end b e s) hi mm = mmap_chain s hi mm" for hi mm
  proof
    show "mmap_chain (fs_set_start_end b e s) hi mm \<Longrightarrow> mmap_chain s hi mm"
      by (induction rule: mmap_chain.induct) (auto intro: mmap_chain.intros)
    show "mmap_chain s hi mm \<Longrightarrow> mmap_chain (fs_set_start_end b e s) hi mm"
      by (induction rule: mmap_chain.induct) (auto intro: mmap_chain.intros)
  qed
  then show ?thesis by (simp add: mbi_ok_def)
qed

lemma if_runs:
  "(b \<Longrightarrow> \<exists>s'. f = Some s' \<and> P s') \<Longrightarrow> P s \<Longrightarrow> \<exists>s'. (if b then f else Some s) = Some s' \<and> P s'"
  by simp

lemma report_runs:
  assumes ok: "mbi_ok s0 mbi" "messages_held s0" and d: "during s0 s"
  defines "R \<equiv> fs_set_start_end (module_start s0 mbi) (module_end s0 mbi) s0"
  shows "\<exists>s'. report_mbi mbi s = Some (True, s') \<and> during R s'"
proof -
  let ?w = "\<lambda>k s. ld32 (mem s) (mbi + k)"
  have okR: "mbi_ok R mbi" "messages_held R" using ok by (simp_all add: R_def mbi_ok_module)
  have w: "?w k s = ?w k s0" if "during s0 s" "k + 4 \<le> 52" for k s using mbi_word [OF ok(1) that] .
  have wR: "?w k s = ?w k s0" if "during R s" "k + 4 \<le> 52" for k s
    using mbi_word [OF okR(1) that] by (simp add: R_def)
  have say: "\<exists>s'. say fmt vs s = Some s' \<and> during s0 s'"
    if "during s0 s" "fmt \<in> set boot_messages" "formatted (\<lambda>v. None) Plain (str_bytes fmt) vs \<noteq> None" for fmt vs s
    by (rule say_message [OF that(1) ok(2) that(2,3)])
  have sayR: "\<exists>s'. say fmt vs s = Some s' \<and> during R s'"
    if "during R s" "fmt \<in> set boot_messages" "formatted (\<lambda>v. None) Plain (str_bytes fmt) vs \<noteq> None" for fmt vs s
    by (rule say_message [OF that(1) okR(2) that(2,3)])
  obtain s1 where s1: "say ''flags = 0x%#x\<newline>'' [?w 0 s] s = Some s1" "during s0 s1"
    using say [OF d message_members(1) message_texts(1)] by blast
  from if_runs [OF say [OF s1(2) message_members(2) message_texts(2)] s1(2)]
  obtain s2 where s2: "(if CHECK_FLAG (?w 0 s1) 0 then say ''mem_lower = %uKB, mem_upper = %uKB\<newline>'' [?w 4 s1, ?w 8 s1] s1 else Some s1) = Some s2"
    "during s0 s2" by blast
  from if_runs [OF say [OF s2(2) message_members(3) message_texts(3)] s2(2)]
  obtain s3 where s3: "(if CHECK_FLAG (?w 0 s2) 1 then say ''boot_device = 0x%#x\<newline>'' [?w 12 s2] s2 else Some s2) = Some s3"
    "during s0 s3" by blast
  have cmd: "\<exists>s'. say ''cmdline = %s\<newline>'' [?w 16 s3] s3 = Some s' \<and> during s0 s'" if "CHECK_FLAG (?w 0 s3) 2"
  proof -
    from that w [OF s3(2), of 0] w [OF s3(2), of 16] ok(1) obtain xs where xs: "held s0 (unat (?w 16 s3)) xs"
      by (auto simp: mbi_ok_def Let_def)
    have "''cmdline = %s\<newline>'' \<in> set boot_messages" by (simp add: boot_messages_def)
    then have "held s0 (rodata s0 ''cmdline = %s\<newline>'') (str_bytes ''cmdline = %s\<newline>'')" using ok(2) by (simp add: messages_held_def)
    then show ?thesis
      by (rule say_runs [OF s3(2), where str = "\<lambda>v. if v = ?w 16 s3 then Some xs else None"])
        (use xs message_texts(4) in \<open>auto split: if_splits\<close>)
  qed
  from if_runs [OF this s3(2)] obtain s4 where s4: "(if CHECK_FLAG (?w 0 s3) 2 then say ''cmdline = %s\<newline>'' [?w 16 s3] s3 else Some s3) = Some s4" "during s0 s4"
    by blast
  obtain s5 where s5: "say_modules mbi 0 (unat (?w 24 s4)) s4 = Some s5" "during R s5"
    using say_modules_runs [OF ok s4(2)] w [OF s4(2), of 24] by (auto simp: R_def)
  have f3: "CHECK_FLAG (?w 0 s4) 3" and f45: "\<not> (CHECK_FLAG (?w 0 s5) 4 \<and> CHECK_FLAG (?w 0 s5) 5)"
    using ok(1) w [OF s4(2), of 0] wR [OF s5(2), of 0] by (simp_all add: mbi_ok_def Let_def)
  from if_runs [OF sayR [OF s5(2) message_members(10) message_texts(10)] s5(2)]
  obtain s6 where s6: "(if CHECK_FLAG (?w 0 s5) 5 then say ''elf_sec: num = %u, size = 0x%#x, addr = 0x%#x, shndx = 0x%#x\<newline>''
      [?w 28 s5, ?w 32 s5, ?w 36 s5, ?w 40 s5] s5 else Some s5) = Some s6" "during R s6"
    by blast
  obtain s7 where s7: "say ''mmap_addr = 0x%#x, mmap_length = 0x%x\<newline>'' [?w 48 s6, ?w 44 s6] s6 = Some s7" "during R s7"
    using sayR [OF s6(2) message_members(11) message_texts(11)] by blast
  have "\<exists>s'. say_mmap mbi (?w 48 s7) s7 = Some s' \<and> during R s'" if "CHECK_FLAG (?w 0 s6) 6"
    by (rule say_mmap_runs [OF _ okR s7(2)])
      (use that okR(1) wR [OF s6(2), of 0] wR [OF s7(2), of 48] in \<open>auto simp: mbi_ok_def Let_def R_def\<close>)
  then have "\<exists>s'. do { s \<leftarrow> say ''mmap_addr = 0x%#x, mmap_length = 0x%x\<newline>'' [?w 48 s6, ?w 44 s6] s6; say_mmap mbi (?w 48 s) s } =
      Some s' \<and> during R s'" if "CHECK_FLAG (?w 0 s6) 6" using that s7(1) by simp
  from if_runs [OF this s6(2)] obtain s8 where s8: "(if CHECK_FLAG (?w 0 s6) 6 then do {
      s \<leftarrow> say ''mmap_addr = 0x%#x, mmap_length = 0x%x\<newline>'' [?w 48 s6, ?w 44 s6] s6; say_mmap mbi (?w 48 s) s } else Some s6) = Some s8" "during R s8"
    by blast
  have "report_mbi mbi s = Some (True, s8)"
    unfolding report_mbi_def Let_def multiboot_simps
    using s1 s2 s3 s4 s5 f3 f45 s6 s8 by (cases "CHECK_FLAG (ld32 (mem s5) mbi) 4") simp_all
  with s8(2) show ?thesis by blast
qed


section \<open>Start-up\<close>

lemma clear_cells_during: "\<not> (VIDEO \<le> a \<and> a < VIDEO + 4000) \<Longrightarrow> n \<le> 2000 \<Longrightarrow> fold (clear_cell c) [0..<n] m a = m a"
  by (induction n) (auto simp: clear_cell_def)

lemma during_mem:
  assumes "during s0 s" and "\<And>a. \<not> boot_area s0 a \<Longrightarrow> mem s' a = mem s a" and "boot_fields s' = boot_fields s" and "print_ok s'"
  shows "during s0 s'"
  using assms by (simp add: during_def)

lemma page_access_during: "\<not> boot_area s0 a \<Longrightarrow> mem (page_access s) a = mem s a"
  by (auto simp: boot_area_def page_access_def load_page_def Let_def)

lemma during_steps:
  assumes d: "during s0 s"
  shows "during s0 (clear s)" "during s0 (my_clear s)" "during s0 (sti s)" "during s0 (setup_paging s)"
    "during s0 (load_ldt s)" "during s0 (load_tss s)" "during s0 (scheduler_init s)" "during s0 (pit_init s)"
proof -
  have ok: "print_ok s" using d by (simp add: during_def)
  have v: "\<not> (VIDEO \<le> a \<and> a < VIDEO + 4000)" if "\<not> boot_area s0 a" for a
    using that by (auto simp: boot_area_def printf_area_def)
  show "during s0 (clear s)"
    by (rule during_mem [OF d]) (use ok v in \<open>auto simp: clear_def clear_cells_during boot_fields_def print_ok_def\<close>)
  show "during s0 (my_clear s)"
    by (rule during_mem [OF d]) (use ok v in \<open>auto simp: my_clear_def update_cursor_def outb_def Let_def clear_cells_during
        boot_fields_def print_ok_def cursor_ok_def\<close>)
  show "during s0 (setup_paging s)"
  proof (rule during_mem [OF d])
    show "mem (setup_paging s) a = mem s a" if "\<not> boot_area s0 a" for a
      using page_access_during [OF that]
      by (simp add: setup_paging_def page_enable_def page_enable_size_extend_def init_page_map_def init_page_table_def
          init_page_directory_def)
  qed (use ok in \<open>simp_all add: setup_paging_def page_enable_def page_enable_size_extend_def page_access_def init_page_map_def
      init_page_table_def init_page_directory_def boot_fields_def print_ok_def Let_def\<close>)
  show "during s0 (sti s)" "during s0 (load_ldt s)" "during s0 (load_tss s)" "during s0 (scheduler_init s)" "during s0 (pit_init s)"
    by (rule during_mem [OF d]; use ok in \<open>simp add: sti_def load_ldt_def load_tss_def lldt_def ltr_def scheduler_init_def pit_init_def outb_def
        boot_fields_def print_ok_def Let_def\<close>)+
qed

lemma start_devices_runs:
  assumes d: "during s0 s"
  shows "\<exists>s'. start_devices haddr s = Some s' \<and> during s0 s'"
proof -
  define s1 where "s1 = outb 0x2F 0x71 (outb 0x8A 0x70 (rtc_int (enable_irq 0 (enable_irq 1 (init_idt haddr (i8259_init s))))))"
  have same: "mem s1 = mem s" "boot_fields s1 = boot_fields s" "screen_x s1 = screen_x s" "screen_y s1 = screen_y s" "frame s1 = frame s"
    by (simp_all add: s1_def rtc_int_def enable_irq_def init_idt_def SET_IDT_ENTRY_def i8259_init_def outb_def boot_fields_def Let_def)
  have b: "boot_fields s1 = boot_fields s0" using d same by (simp add: during_def)
  let ?s = "s1\<lparr>mem := (mem s1)(keyboard_buf s1 := 0, last_buf s1 := 0, kb_save_buf s1 := 0,
        save_buf_1 s1 := 0, save_buf_2 s1 := 0, save_buf_3 s1 := 0)\<rparr>"
  have "start_devices haddr s = Some ?s"
    by (simp add: start_devices_def rtc_open_def terminal_open_def s1_def Let_def)
  moreover have "during s0 ?s"
    by (rule during_mem [OF d]) (use b same d in \<open>auto simp: boot_area_def boot_fields_def print_ok_def during_def\<close>)
  ultimately show ?thesis by blast
qed

lemma init_terminals_runs:
  assumes d: "during s0 s" and len: "length (terminals s0) = 3"
  shows "\<exists>s'. init_terminals s = Some s' \<and> during s0 s' \<and> length (terminals s') = 3"
proof -
  have sb: "map save_buf (terminals s) = map save_buf (terminals s0)" using d by (simp add: during_def boot_fields_def)
  then have "length (terminals s) = 3" using len by (metis length_map)
  then obtain a b c where ts: "terminals s = [a, b, c]" by (auto simp: numeral_3_eq_3 length_Suc_conv)
  with sb have area: "boot_area s0 (save_buf a)" "boot_area s0 (save_buf b)" "boot_area s0 (save_buf c)"
    by (simp_all add: boot_area_def flip: sb)
  show ?thesis
    using ts d area by (simp add: init_terminals_def init_terminals_step_def init_terminal_def aget_def aset_def Let_def)
      (auto simp: during_def boot_fields_def print_ok_def)
qed


text \<open>The state in which the first shell is looked up: the initial one with the module recorded and
  the file system set up.\<close>

definition boot_view :: "kstate \<Rightarrow> addr \<Rightarrow> kstate" where
  "boot_view s mbi = fs_init (fs_set_start_end (module_start s mbi) (module_end s mbi) s)"

lemma during_fs_init: "during R s \<Longrightarrow> during (fs_init R) (fs_init s)"
  by (auto simp: during_def fs_init_def init_cur_dentry_def init_boot_block_def boot_fields_def boot_area_def printf_area_def
      print_ok_def)

lemma fs_init_keeps [simp]:
  "held (fs_init s) = held s" "messages_held (fs_init s) = messages_held s"
  "boot_area (fs_init s) = boot_area s" "mem (fs_init s) = mem s"
  by (auto simp: messages_held_def held_def fs_init_def init_cur_dentry_def init_boot_block_def boot_area_def printf_area_def
      fun_eq_iff)

lemma boot_view_keeps [simp]:
  "held (boot_view s mbi) = held s" "messages_held (boot_view s mbi) = messages_held s"
  "boot_area (boot_view s mbi) = boot_area s" "mem (boot_view s mbi) = mem s"
  "frame (boot_view s mbi) = frame s" "rodata (boot_view s mbi) = rodata s" "arg_buf (boot_view s mbi) = arg_buf s"
  "process_num (boot_view s mbi) = process_num s" "active_terminal (boot_view s mbi) = active_terminal s"
  "terminals (boot_view s mbi) = terminals s"
  by (simp_all add: boot_view_def) (simp_all add: fs_init_def init_cur_dentry_def init_boot_block_def fs_set_start_end_def)

text \<open>The steps up to the first shell.\<close>

lemma entry_prepares:
  assumes ok: "mbi_ok s0 mbi" "messages_held s0" and init: "print_ok s0" "length (terminals s0) = 3"
  shows "\<exists>s. entry haddr 0x2BADB002 mbi s0 = system_execute (rodata s0 ''shell'') s \<and> during (boot_view s0 mbi) s \<and>
    length (terminals s) = 3"
proof -
  let ?R = "fs_set_start_end (module_start s0 mbi) (module_end s0 mbi) s0"
  have "during s0 s0" using init by (simp add: during_def)
  then obtain s1 where s1: "report_mbi mbi (clear s0) = Some (True, s1)" "during ?R s1"
    using report_runs [OF ok during_steps(1)] by blast
  have okR: "messages_held ?R" using ok(2) by simp
  obtain s2 where s2: "start_devices haddr (load_tss (load_ldt s1)) = Some s2" "during ?R s2"
    using start_devices_runs [OF during_steps(6) [OF during_steps(5) [OF s1(2)]]] by blast
  obtain s3 where s3: "say ''Enabling Interrupts\<newline>'' [] s2 = Some s3" "during ?R s3"
    using say_message [OF s2(2) okR message_members(13) message_texts(13)] by blast
  have d: "during (boot_view s0 mbi) (fs_init (setup_paging (sti s3)))"
    unfolding boot_view_def by (rule during_fs_init [OF during_steps(4) [OF during_steps(3) [OF s3(2)]]])
  have okV: "messages_held (boot_view s0 mbi)" using ok(2) by simp
  obtain s4 where s4: "say ''Got to the end\<newline>'' [] (fs_init (setup_paging (sti s3))) = Some s4" "during (boot_view s0 mbi) s4"
    using say_message [OF d okV message_members(14) message_texts(14)] by blast
  obtain s5 where s5: "init_terminals (pit_init (my_clear s4)) = Some s5" "during (boot_view s0 mbi) s5" "length (terminals s5) = 3"
    using init_terminals_runs [OF during_steps(8) [OF during_steps(2) [OF s4(2)]]] init(2) by auto
  have "rodata s5 = rodata s0" using s5(2) by (simp add: during_def boot_fields_def)
  then have "entry haddr 0x2BADB002 mbi s0 = system_execute (rodata s0 ''shell'') (scheduler_init s5)"
    unfolding entry_def Let_def using s1 s2 s3 s4 s5 by simp
  moreover have "during (boot_view s0 mbi) (scheduler_init s5)" by (rule during_steps(7) [OF s5(2)])
  moreover have "length (terminals (scheduler_init s5)) = 3" using s5(3) by (simp add: scheduler_init_def)
  ultimately show ?thesis by blast
qed

text \<open>The image of the file system lies outside of what start-up writes.\<close>

definition boot_image :: "kstate \<Rightarrow> addr \<Rightarrow> bool" where
  "boot_image s mbi \<longleftrightarrow> fs_ok (boot_view s mbi) \<and>
     (\<forall>i < fs_size (boot_view s mbi). \<not> boot_area s (module_start s mbi + i))"

lemma during_image: "boot_image s0 mbi \<Longrightarrow> during (boot_view s0 mbi) s \<Longrightarrow> same_image (boot_view s0 mbi) s"
proof -
  assume im: "boot_image s0 mbi" and d: "during (boot_view s0 mbi) s"
  let ?V = "boot_view s0 mbi"
  have bb: "boot_block ?V = module_start s0 mbi"
    by (simp add: boot_view_def fs_init_def init_cur_dentry_def init_boot_block_def fs_set_start_end_def)
  have "mem s a = mem ?V a" if "boot_block ?V \<le> a" "a < boot_block ?V + fs_size ?V" for a
  proof -
    have "a = module_start s0 mbi + (a - boot_block ?V)" "a - boot_block ?V < fs_size ?V" using that bb by simp_all
    then have "\<not> boot_area s0 a" using im by (metis boot_image_def)
    then show ?thesis using d by (simp add: during_def)
  qed
  then show ?thesis using d by (simp add: same_image_def during_def boot_fields_def)
qed

lemma entry_starts:
  assumes ok: "mbi_ok s mbi" "messages_held s" "boot_image s mbi" and init: "print_ok s" "length (terminals s) = 3"
    and table: "process_num s = replicate 6 (-1)" "active_terminal s = 0"
    and cmd: "held s (rodata s ''shell'') (str_bytes ''shell'')" "exec_layout (boot_view s mbi) (rodata s ''shell'') 6"
    and prog: "lookup_name (str_bytes ''shell'') (boot_view s mbi) = Some d" "d < 63" "entry_inode (boot_view s mbi) d = int ino"
      "program (boot_view s mbi) ino"
  defines "V \<equiv> boot_view s mbi"
  shows "\<exists>s'. entry haddr 0x2BADB002 mbi s = Some (Iret (program_entry V ino), s') \<and> main_process s' = 0 \<and>
    process_num s' = [0, -1, -1, -1, -1, -1] \<and> tlb_user s' = user_frame 0 OR 0x87 \<and> if_flag s' \<and>
    (\<forall>k < file_length V ino. mem s' (0x08048000 + k) = file_byte V ino k) \<and> reachable s'"
proof -
  obtain s1 where s1: "entry haddr 0x2BADB002 mbi s = system_execute (rodata s ''shell'') s1" "during V s1" "length (terminals s1) = 3"
    using entry_prepares [OF ok(1,2) init] unfolding V_def by blast
  have im: "same_image V s1" unfolding V_def by (rule during_image [OF ok(3)]) (use s1(2) V_def in simp)
  note k = same_image_counts [OF im]
  have fsV: "fs_ok V" using ok(3) by (simp add: boot_image_def V_def)
  note pr = same_image_program [OF im fsV prog(4) [folded V_def]]
  have fields: "process_num s1 = replicate 6 (-1)" "active_terminal s1 = 0" "frame s1 = frame V" "arg_buf s1 = arg_buf V"
    using s1(2) table by (auto simp: during_def boot_fields_def V_def)
  have cs: "cstr (mem s1) (rodata s ''shell'') (str_bytes ''shell'')"
    using held_readable [OF s1(2)] cmd(1) by (simp add: V_def readable_def)
  have word: "cmd_word (str_bytes ''shell'') = str_bytes ''shell''" "cmd_args (str_bytes ''shell'') = []"
    by (simp_all add: cmd_word_def cmd_args_def str_bytes_def chb_def)
  have short: "length (cmd_word (str_bytes ''shell'')) \<le> 32" "length (cmd_args (str_bytes ''shell'')) < 128"
    "\<forall>x \<in> set (cmd_word (str_bytes ''shell'')). x < 128"
    unfolding word by (simp_all add: str_bytes_def chb_def)
  have look: "lookup_name (cmd_word (str_bytes ''shell'')) s1 = Some d" "entry_inode s1 d = int ino"
    using same_image_lookup [OF im] prog word by (simp_all add: V_def)
  have lay: "exec_layout s1 (rodata s ''shell'') (length (str_bytes ''shell'') + 1)"
  proof -
    have "length (str_bytes ''shell'') + 1 = 6" by (simp add: str_bytes_def)
    then show ?thesis unfolding \<open>length (str_bytes ''shell'') + 1 = 6\<close> using cmd(2) k fields by (simp add: exec_layout_def V_def)
  qed
  have tab: "table_ok s1" "List.find (slot_free s1) [0..<6] = Some 0"
    using fields by (auto simp: table_ok_def slot_free_def upt_rec)
  from system_execute_eq [OF k(5) [THEN iffD2, OF fsV] pr(1) cs short look lay tab(1) s1(3) tab(2)]
  have x: "\<exists>s'. system_execute (rodata s ''shell'') s1 = Some (Iret (program_entry s1 ino), s') \<and> main_process s' = 0 \<and>
      process_num s' = (process_num s1)[0 := active_terminal s1] \<and> tlb_user s' = user_frame 0 OR 0x87 \<and> if_flag s' \<and>
      (\<forall>k < file_length s1 ino. mem s' (0x08048000 + k) = file_byte s1 ino k)"
    by auto
  have fb: "file_byte s1 ino k = file_byte V ino k" if "k < file_length V ino" for k
    using pr(3) [of k 1] that by (simp add: file_data_def)
  have "28 \<le> file_length V ino" using prog(4) by (simp add: program_def V_def)
  then have "program_entry s1 ino = program_entry V ino" using fb by (simp add: program_entry_def entry_word_def)
  moreover have "(process_num s1)[0 := active_terminal s1] = [0, -1, -1, -1, -1, -1]"
    using fields by (simp add: eval_nat_numeral)
  ultimately obtain s' where s': "entry haddr 0x2BADB002 mbi s = Some (Iret (program_entry V ino), s')"
    "main_process s' = 0" "process_num s' = [0, -1, -1, -1, -1, -1]" "tlb_user s' = user_frame 0 OR 0x87" "if_flag s'"
    "\<forall>k < file_length V ino. mem s' (0x08048000 + k) = file_byte V ino k" using x pr(2) fb s1(1) by metis
  moreover have "reachable s'" by (rule entry_reachable [OF s'(1) table init(2)])
  ultimately show ?thesis by blast
qed

end
