(* ===== verification/Boot_Theorem.thy ===== *)
theory Boot_Theorem
  imports Example_State Boot_Live
begin

text \<open>
  The start-up theorems, and their instance: a concrete machine with the Multiboot information, the
  messages of the kernel and a file system with a program \<open>shell\<close> in memory boots, from \<open>entry\<close> to
  the first instruction of the shell.
\<close>

section \<open>A machine\<close>

text \<open>The information at \<open>0x450100\<close> has memory sizes, a command line, one module and a memory map
  with one entry; the image is the one of \<open>Example_State\<close> with the program named \<open>shell\<close>; the
  messages are at \<open>0x460000\<close>, the name of the shell last.\<close>

definition machine_literals :: "string list" where
  "machine_literals = boot_messages @ [''shell'']"

definition machine_mem :: mem where
  "machine_mem a =
     (if 0x460000 \<le> a \<and> a < 0x470000 then table_byte machine_literals (a - 0x460000)
      else areas
        [(0x420000, [3, 0, 0, 0, 2, 0, 0, 0, 2, 0, 0, 0]),
         (0x420040, [46]), (0x420060, [1, 0, 0, 0, 0, 0, 0, 0]), (0x420080, [114, 116, 99]),
         (0x4200C0, [115, 104, 101, 108, 108]), (0x4200E0, [2, 0, 0, 0, 1, 0, 0, 0]),
         (0x422000, [32, 0, 0, 0, 1, 0, 0, 0]),
         (0x424000, [0x7f, 0x45, 0x4c, 0x46, 1, 1, 1, 0, 0, 0, 0, 0, 0, 0, 0, 0,
                     2, 0, 3, 0, 1, 0, 0, 0, 0, 0x81, 0x04, 0x08, 52, 0, 0, 0]),
         (0x450100, [0x4D, 0, 0, 0]), (0x450110, [0, 3, 0x45, 0, 1, 0, 0, 0, 0, 2, 0x45, 0]),
         (0x45012C, [24, 0, 0, 0, 0, 4, 0x45, 0]),
         (0x450200, [0, 0, 0x42, 0, 0, 0x50, 0x42, 0]), (0x450300, [45, 118]), (0x450400, [20, 0, 0, 0])] a)"

definition machine :: kstate where
  "machine = sample\<lparr>mem := machine_mem, process_num := replicate 6 (-1), boot_block := 0, FS_START_ADDR := 0,
     rodata := (\<lambda>l. 0x460000 + 256 * position l machine_literals)\<rparr>"

lemma machine_simps [simp]:
  "mem machine = machine_mem" "process_num machine = replicate 6 (-1)" "active_terminal machine = 0"
  "frame machine = 0x7FF000" "arg_buf machine = 0x410000" "length (terminals machine) = 3"
  "rodata machine l = 0x460000 + 256 * position l machine_literals"
  by (simp_all add: machine_def)

lemma machine_area: "0x412000 \<le> a \<Longrightarrow> a < 0x7FF000 \<Longrightarrow> \<not> boot_area machine a"
  by (simp add: boot_area_def printf_area_def VIDEO_def USER_PAGE_def) (simp add: machine_def sample_def sample_terminal_def)

lemma machine_literals_good: "l \<in> set machine_literals \<Longrightarrow> 0 \<notin> set (str_bytes l) \<and> length l < 256"
proof -
  have "list_all (\<lambda>l. 0 \<notin> set (str_bytes l) \<and> length l < 256) machine_literals"
    by (simp add: machine_literals_def boot_messages_def str_bytes_def chb_def)
  then show "l \<in> set machine_literals \<Longrightarrow> ?thesis" by (simp add: list_all_iff)
qed

lemma machine_held: "l \<in> set machine_literals \<Longrightarrow> held machine (rodata machine l) (str_bytes l)"
proof -
  assume l: "l \<in> set machine_literals"
  note g = machine_literals_good [OF l]
  have n: "length machine_literals = 15" by (simp add: machine_literals_def boot_messages_def)
  have p: "position l machine_literals < 15" using position_nth [OF l] n by simp
  have "cstr machine_mem (0x460000 + 256 * position l machine_literals) (str_bytes l)"
    by (rule table_cstr [OF l]) (use g n in \<open>simp_all add: machine_mem_def\<close>)
  moreover have "\<not> boot_area machine (0x460000 + 256 * position l machine_literals + i)" if "i \<le> length (str_bytes l)" for i
    by (rule machine_area) (use that g p in \<open>simp_all add: str_bytes_def\<close>)
  ultimately show ?thesis by (simp add: held_def)
qed

lemma machine_words:
  "ld32 machine_mem 0x450100 = 0x4D" "ld32 machine_mem 0x450110 = 0x450300" "ld32 machine_mem 0x450114 = 1"
  "ld32 machine_mem 0x450118 = 0x450200" "ld32 machine_mem 0x45012C = 24" "ld32 machine_mem 0x450130 = 0x450400"
  "ld32 machine_mem 0x450200 = 0x420000" "ld32 machine_mem 0x450204 = 0x425000" "ld32 machine_mem 0x450400 = 20"
  by (simp_all add: ld32_def machine_mem_def)

lemma machine_mbi: "mbi_ok machine 0x450100"
proof -
  have "held machine 0x450300 [45, 118]"
    using machine_area by (simp add: held_def dstr_Cons) (simp add: machine_mem_def)
  moreover have "mmap_chain machine (0x450400 + 24) 0x450400"
    by (rule mmap_chain.link) (use machine_area machine_words in \<open>auto intro: mmap_chain.last\<close>)
  ultimately show ?thesis
    using machine_area machine_words by (auto simp: mbi_ok_def CHECK_FLAG_def Let_def)
qed

text \<open>The image of the file system.\<close>

definition machine_view :: kstate where
  "machine_view = boot_view machine 0x450100"

lemma machine_module: "module_start machine 0x450100 = 0x420000" "module_end machine 0x450100 = 0x425000"
  by (simp_all add: module_start_def module_end_def machine_words)

lemma machine_view_simps [simp]:
  "mem machine_view = machine_mem" "boot_block machine_view = 0x420000" "FS_START_ADDR machine_view = 0x420000"
  "frame machine_view = 0x7FF000" "arg_buf machine_view = 0x410000"
  by (simp_all add: machine_view_def)
    (simp_all add: boot_view_def fs_init_def init_cur_dentry_def init_boot_block_def fs_set_start_end_def machine_module)

lemma machine_counts:
  "inode_count machine_view = 2" "data_count machine_view = 2" "fs_size machine_view = 20480" "fs_ok machine_view"
proof -
  show i: "inode_count machine_view = 2" and d: "data_count machine_view = 2"
    by (simp_all add: inode_count_def data_count_def lds32_def ld32_def machine_mem_def)
  show "fs_size machine_view = 20480" "fs_ok machine_view" by (simp_all add: fs_size_def fs_ok_def i d)
qed

lemma machine_image: "boot_image machine 0x450100"
  using machine_counts machine_area by (simp add: boot_image_def machine_module flip: machine_view_def)

lemma machine_shell:
  "lookup_name (str_bytes ''shell'') machine_view = Some 2" "entry_inode machine_view 2 = int 1" "program machine_view 1"
  "program_entry machine_view 1 = 0x08048100" "file_length machine_view 1 = 32"
proof -
  have "entry_name machine_view 0 = [46]" "entry_name machine_view 1 = [114, 116, 99]"
    "entry_name machine_view 2 = [115, 104, 101, 108, 108]"
    by (simp_all add: entry_name_def direntry_def bytes_at_def upt_rec machine_mem_def)
  moreover have "[0..<63] = 0 # 1 # 2 # [3..<63]" by (simp add: upt_rec)
  ultimately show "lookup_name (str_bytes ''shell'') machine_view = Some 2"
    by (simp add: lookup_name_def str_bytes_def chb_def del: One_nat_def)
  show "entry_inode machine_view 2 = int 1" by (simp add: entry_inode_def direntry_def lds32_def ld32_def machine_mem_def)
  have a: "inode_addr machine_view 1 = 0x422000" by (simp add: inode_addr_def del: One_nat_def)
  show l: "file_length machine_view 1 = 32" by (simp add: file_length_def a ld32_def machine_mem_def del: One_nat_def)
  have d: "data_block machine_view 1 0 = 1" by (simp add: data_block_def a lds32_def ld32_def machine_mem_def del: One_nat_def)
  have ino: "inode_ok machine_view 1" by (simp add: inode_ok_def l d machine_counts num_blocks_def del: One_nat_def)
  have b: "file_byte machine_view 1 k = machine_mem (0x424000 + k)" if "k < 32" for k
    using that by (simp add: file_byte_def d block_addr_def machine_counts del: One_nat_def)
  have "file_data machine_view 1 0 4 = map machine_mem [0x424000, 0x424001, 0x424002, 0x424003]"
    by (simp add: file_data_def b upt_rec del: One_nat_def)
  then show "program machine_view 1" by (simp add: program_def l ino del: One_nat_def) (simp add: machine_mem_def)
  show "program_entry machine_view 1 = 0x08048100"
    by (simp add: program_entry_def entry_word_def b del: One_nat_def) (simp add: machine_mem_def)
qed

lemma machine_print: "print_ok machine"
  by (simp add: print_ok_def disjoint_rng_def VIDEO_def) (simp add: machine_def sample_def cursor_ok_def)

lemma machine_messages: "messages_held machine" "held machine (rodata machine ''shell'') (str_bytes ''shell'')"
  using machine_held by (auto simp: messages_held_def machine_literals_def)

lemma machine_layout: "exec_layout machine_view (rodata machine ''shell'') 6"
  using machine_counts by (simp add: exec_layout_def disjoint_rng_def USER_PAGE_def UNIT_4_MB_def machine_literals_def boot_messages_def)


section \<open>Start-up\<close>

text \<open>C4: the kernel boots.  Given the information of the boot loader with one module, the messages
  of the kernel and the image of the file system outside of what start-up writes, a cursor on the
  screen, and in the image an executable file named \<open>shell\<close>, \<open>entry\<close> gets through the
  report, the descriptor tables, the devices, paging, the file system and the terminals and enters
  the shell at its entry point: process 0 on terminal 0, its file loaded byte for byte at its
  address, its page mapped, interrupts on, in a reachable state.\<close>

theorem entry_boots_shell:
  assumes "mbi_ok s mbi" "messages_held s" "boot_image s mbi" and "print_ok s" "length (terminals s) = 3"
    and "process_num s = replicate 6 (-1)" "active_terminal s = 0"
    and "held s (rodata s ''shell'') (str_bytes ''shell'')" "exec_layout (boot_view s mbi) (rodata s ''shell'') 6"
    and "lookup_name (str_bytes ''shell'') (boot_view s mbi) = Some d" "d < 63" "entry_inode (boot_view s mbi) d = int ino"
      "program (boot_view s mbi) ino"
  shows "\<exists>s'. entry haddr 0x2BADB002 mbi s = Some (Iret (program_entry (boot_view s mbi) ino), s') \<and> main_process s' = 0 \<and>
    process_num s' = [0, -1, -1, -1, -1, -1] \<and> tlb_user s' = user_frame 0 OR 0x87 \<and> if_flag s' \<and>
    (\<forall>k < file_length (boot_view s mbi) ino. mem s' (0x08048000 + k) = file_byte (boot_view s mbi) ino k) \<and> reachable s'"
  by (rule entry_starts [OF assms])

theorem entry_boots_shell_witness:
  "\<exists>s'. entry (\<lambda>h. 0) 0x2BADB002 0x450100 machine = Some (Iret 0x08048100, s') \<and> main_process s' = 0 \<and>
    process_num s' = [0, -1, -1, -1, -1, -1] \<and> reachable s'"
proof -
  note v = machine_view_def
  have "(2 :: nat) < 63" by simp
  from entry_boots_shell [OF machine_mbi machine_messages(1) machine_image machine_print _ _ _ machine_messages(2)
      machine_layout [unfolded v] machine_shell(1) [unfolded v] this machine_shell(2,3) [unfolded v], of "\<lambda>h. 0"]
  show ?thesis using machine_shell(4) [unfolded v] by auto
qed

text \<open>C5: the entry point of the kernel, from the initial values of the process table and the
  terminal array, whatever the Multiboot information and the devices hold: if it reaches user code it
  does so in a reachable state, so the invariant of the process table holds from the first
  instruction of the first shell on.\<close>

theorem entry_reaches_shell:
  assumes "entry haddr magic mbi s = Some (Iret e, s')"
    and "process_num s = replicate 6 (-1)" "active_terminal s = 0" "length (terminals s) = 3"
  shows "reachable s' \<and> pinv (pview_of s') \<and> magic = 0x2BADB002"
proof -
  have "magic = 0x2BADB002"
    using assms(1) by (rule contrapos_pp) (auto simp: entry_def Let_def bind_Some_iff)
  with entry_reachable [OF assms] reachable_inv show ?thesis by blast
qed

theorem entry_reaches_shell_witness:
  "\<exists>e s'. entry (\<lambda>h. 0) 0x2BADB002 0x450100 machine = Some (Iret e, s') \<and> reachable s' \<and> pinv (pview_of s')"
proof -
  note v = machine_view_def
  have "(2 :: nat) < 63" by simp
  from entry_starts [OF machine_mbi machine_messages(1) machine_image machine_print _ _ _ machine_messages(2)
      machine_layout [unfolded v] machine_shell(1) [unfolded v] this machine_shell(2,3) [unfolded v], of "\<lambda>h. 0"]
  obtain e s' where "entry (\<lambda>h. 0) 0x2BADB002 0x450100 machine = Some (Iret e, s')" by auto
  moreover from entry_reaches_shell [OF this] have "reachable s' \<and> pinv (pview_of s')" by simp
  ultimately show ?thesis by blast
qed

end
