(* ===== verification/Array_Sizes.thy ===== *)
theory Array_Sizes
  imports Syscall_Frame Kernel_Steps Idt
begin

text \<open>
  The typing of the kernel's arrays: whatever a system call does, the tables keep the sizes of their
  declarations, eight descriptors in every control block (\<open>syscall.h\<close>), six processes and three
  terminals (\<open>syscall.c\<close>).  \<open>sizes\<close> collects the lengths; each operation that returns leaves them as
  they were.
\<close>

definition sizes :: "kstate \<Rightarrow> (u32 \<Rightarrow> nat) \<times> nat \<times> nat \<times> nat \<times> nat" where
  "sizes s = (\<lambda>a. length (fdt (pcbs s a)), length (process_num s), length (terminals s), length (kb_terminals s),
     length (pressed_flags s))"

definition well_typed :: "kstate \<Rightarrow> bool" where
  "well_typed s \<longleftrightarrow> (\<forall>a. length (fdt (pcbs s a)) = 8) \<and> length (process_num s) = 6 \<and> length (terminals s) = 3 \<and>
     length (kb_terminals s) = 3 \<and> length (pressed_flags s) = 86"

named_theorems sizes_kept \<open>operations that keep the sizes of the arrays\<close>

lemma well_typed_sizes: "sizes s' = sizes s \<Longrightarrow> well_typed s \<Longrightarrow> well_typed s'"
  by (simp add: sizes_def well_typed_def fun_eq_iff)


section \<open>Calls and keys\<close>

interpretation sz: input_frame sizes
proof
  show "set_terminal_pos x y t s = Some s' \<Longrightarrow> sizes s' = sizes s" for x y t s s'
    by (auto simp: set_terminal_pos_def aset_def sizes_def split: bind_splits if_splits)
  show "fd_set fd e s = Some s' \<Longrightarrow> sizes s' = sizes s" for fd e s s'
    by (auto simp: fd_set_def aset_def sizes_def fun_eq_iff split: bind_splits if_splits)
  show "set_pressed c x s = Some s' \<Longrightarrow> sizes s' = sizes s" for c x s s'
    by (auto simp: set_pressed_def aset_def sizes_def split: bind_splits if_splits)
  show "save_idx_eoi s = Some s' \<Longrightarrow> sizes s' = sizes s" for s s'
    by (auto simp: save_idx_eoi_def aset_def sizes_def send_eoi_def outb_def Let_def split: bind_splits if_splits)
qed (simp_all add: sizes_def outb_def sti_def cli_def use_main_pcb_def set_filesys_pcb_def page_access_def Let_def)

lemmas [sizes_kept] = sz.read_data_frame sz.printf_frame sz.my_puts_frame sz.load_cur_dentry_frame

lemma sizes_simps [simp]:
  "sizes (map_page f a s) = sizes s" "sizes (s\<lparr>main_process := i\<rparr>) = sizes s" "sizes (s\<lparr>tss := e\<rparr>) = sizes s"
  by (simp_all add: sizes_def page_access_def map_page_def Let_def)

section \<open>Processes\<close>

lemma length_fresh_fdt [simp]: "length (fresh_fdt t) = length t"
  by (simp add: fresh_fdt_def Let_def)

lemma create_pcb_sizes [sizes_kept]: "create_pcb i s = Some (p, s') \<Longrightarrow> sizes s' = sizes s"
  by (auto simp: create_pcb_def sizes_def aset_def fun_eq_iff Let_def split: bind_splits if_splits)

lemma enter_user_sizes [sizes_kept]: "enter_user i e s = Some (r, s') \<Longrightarrow> sizes s' = sizes s"
proof -
  assume "enter_user i e s = Some (r, s')"
  then obtain p s1 where s1: "create_pcb i (cli s) = Some (p, s1)" and s': "sizes s' = sizes s1"
    by (auto simp: enter_user_def sizes_def fun_eq_iff cli_def Let_def split: bind_splits)
  from create_pcb_sizes [OF s1] s' show ?thesis by simp
qed

lemma load_program_sizes [sizes_kept]: "load_program ino i s = (e, s') \<Longrightarrow> sizes s' = sizes s"
  by (auto simp: load_program_def Let_def split: prod.splits dest!: arg_cong [where f = snd])

lemma process_num_sizes [sizes_kept]: "aset (process_num s) i v = Some pn \<Longrightarrow> sizes (s\<lparr>process_num := pn\<rparr>) = sizes s"
  by (auto simp: aset_def sizes_def split: if_splits)

lemma system_execute_sizes [sizes_kept]: "system_execute c s = Some (r, s') \<Longrightarrow> sizes s' = sizes s"
  by (auto simp: system_execute_def Let_def split: if_splits bind_splits option.splits prod.splits dest!: sizes_kept)

lemma resume_parent_sizes [sizes_kept]: "resume_parent own par st s = (r, s') \<Longrightarrow> sizes s' = sizes s"
  by (auto simp: resume_parent_def Let_def)

lemma system_halt_sizes [sizes_kept]: "system_halt st s = Some (r, s') \<Longrightarrow> sizes s' = sizes s"
proof -
  assume h: "system_halt st s = Some (r, s')"
  let ?own = "return_pcb_parent (main_process s)"
  have "aset (process_num s) (pid (pcbs s ?own)) (-1) \<noteq> None"
    using h by (auto simp: system_halt_def Let_def cli_def split: bind_splits if_splits)
  then have p: "0 \<le> pid (pcbs s ?own)" "pid (pcbs s ?own) < int (length (process_num s))" by (auto simp: aset_def split: if_splits)
  have "sizes (halted st s) = sizes s" by (simp add: halted_def sizes_def halt_tasks_def fun_eq_iff cli_def Let_def)
  with h [unfolded system_halt_unfold [OF p]] show ?thesis
    by (auto simp: Let_def split: bind_splits if_splits prod.splits outcome.splits dest!: sizes_kept)
qed


section \<open>Interrupts\<close>

lemma scheduler_sizes [sizes_kept]: "scheduler_handler s = Some s' \<Longrightarrow> sizes s' = sizes s"
  by (auto simp: scheduler_handler_def switch_task_def Let_def sizes_def fun_eq_iff set_main_process_def map_vid_def page_access_def
      send_eoi_def outb_def map_page_def split: bind_splits if_splits)

lemma switch_restore_sizes [sizes_kept]: "switch_restore s = Some (r, s') \<Longrightarrow> sizes s' = sizes s"
  by (auto simp: switch_restore_def x_set_screen_def y_set_screen_def sizes_def Let_def sti_def split: bind_splits)

lemma saved_regs_sizes [simp]:
  "sizes (s\<lparr>text_color := c, active_terminal := t, mem := m, pcbs := (pcbs s)(a := (pcbs s a)\<lparr>pit_ebp := b, pit_esp := e\<rparr>)\<rparr>) = sizes s"
  "sizes (s\<lparr>text_color := c, active_terminal := t, mem := m\<rparr>) = sizes s"
  by (simp_all add: sizes_def fun_eq_iff)

lemma switch_terminal_sizes [sizes_kept]: "switch_terminal t s = Some (r, s') \<Longrightarrow> sizes s' = sizes s"
  by (auto simp: switch_terminal_def cycle_text_color_def cli_def Let_def split: bind_splits if_splits outcome.splits dest!: sizes_kept)
    (simp_all add: sizes_def fun_eq_iff)

lemma keyboard_sizes [sizes_kept]: "keyboard_handler s = Some (r, s') \<Longrightarrow> sizes s' = sizes s"
  using sz.keyboard_frame [of s r s'] switch_terminal_sizes system_halt_sizes by metis

definition device_interrupts :: "(kstate \<Rightarrow> kstate option) set" where
  "device_interrupts = {\<lambda>s. Some (rtc_handler s), pit_handler, \<lambda>s. map_option snd (keyboard_handler s)}"

lemma handlers_keep:
  assumes "h \<in> device_interrupts" "h s = Some s'"
  shows "sizes s' = sizes s"
  using assms sz.rtc_handler_frame [of s] by (auto simp: device_interrupts_def pit_handler_def dest!: sizes_kept)

lemma exception_sizes [sizes_kept]: "exception_halt msg s = Some (r, s') \<Longrightarrow> sizes s' = sizes s"
  by (auto simp: exception_halt_def split: bind_splits dest!: sizes_kept)


section \<open>Every entry to the kernel\<close>

text \<open>The kernel is entered by an interrupt, an exception or a system call, during which further
  interrupts may arrive; in between a program changes the memory.\<close>

inductive kernel_event :: "kstate \<Rightarrow> kstate \<Rightarrow> bool" where
  interrupt: "h \<in> device_interrupts \<Longrightarrow> h s = Some s' \<Longrightarrow> kernel_event s s'"
| exception: "exception_halt msg s = Some (r, s') \<Longrightarrow> kernel_event s s'"
| system_call: "set hs \<subseteq> device_interrupts \<Longrightarrow> syscall_wrapper_call hs eax ebx ecx edx s = Some (r, s') \<Longrightarrow> kernel_event s s'"
| program: "kernel_event s (s\<lparr>mem := m\<rparr>)"

lemma gate_sizes:
  assumes hs: "set hs \<subseteq> device_interrupts" and go: "syscall_wrapper_call hs eax ebx ecx edx s = Some (r, s')"
  shows "sizes s' = sizes s"
proof (cases "eax = 1 \<or> eax = 2")
  case True
  with go show ?thesis by (auto simp: syscall_wrapper_call_def Let_def dest!: sizes_kept)
next
  case False
  have P: "sz.only_view (\<lambda>t. sizes t = sizes s)" by (simp add: sz.only_view_def)
  have I: "\<forall>h \<in> set hs. \<forall>t t'. h t = Some t' \<longrightarrow> sizes t = sizes s \<longrightarrow> sizes t' = sizes s"
  proof (intro ballI allI impI)
    fix h t t' assume "h \<in> set hs" "h t = Some t'" "sizes t = sizes s"
    moreover from this(1) have "h \<in> device_interrupts" using hs by blast
    ultimately show "sizes t' = sizes s" using handlers_keep by metis
  qed
  show ?thesis by (rule sz.gate_keeps [OF P I go]) (use False in auto)
qed

lemma event_sizes: "kernel_event s s' \<Longrightarrow> sizes s' = sizes s"
proof (induction rule: kernel_event.induct)
  case (interrupt h s s')
  then show ?case by (rule handlers_keep)
next
  case (exception msg s r s')
  then show ?case by (rule exception_sizes)
next
  case (system_call hs eax ebx ecx edx s r s')
  then show ?case by (rule gate_sizes)
qed simp

lemma events_sizes: "kernel_event\<^sup>*\<^sup>* s s' \<Longrightarrow> sizes s' = sizes s"
  by (induction rule: rtranclp_induct) (simp_all add: event_sizes)

end
