(* ===== verification/Process_Theorems.thy ===== *)
theory Process_Theorems
  imports Example_State Process_Life
begin

text \<open>
  The theorems on processes, scheduling and address spaces, each with an instance on the
  concrete system of \<open>Example_State\<close>.
\<close>

section \<open>Execute and halt\<close>

text \<open>C12: \<open>system_execute\<close> on a command whose first word names a program of the image, with
  a free slot: control goes to the program's entry point in the first free slot, whose user
  page holds the file byte for byte at \<open>0x08048000\<close>; the slot is owned by the terminal on
  screen and is its current task; the new control block has the caller's \<open>ebp\<close> and
  \<open>esp\<close>, open descriptors 0 and 1 only, and the parent that \<open>parent_slot\<close> gives; the kernel stack and
  the user page are those of the slot, interrupts are on, and the argument buffer has the rest of the line.\<close>

theorem execute_starts_program:
  assumes "fs_ok s" and "program s ino" and "cstr (mem s) command cs"
    and "length (cmd_word cs) \<le> 32" "length (cmd_args cs) < 128" and "\<forall>x\<in>set (cmd_word cs). x < 128"
    and "lookup_name (cmd_word cs) s = Some d" "entry_inode s d = int ino"
    and "exec_layout s command (length cs + 1)"
    and "table_ok s" "length (terminals s) = 3" and "List.find (slot_free s) [0..<6] = Some i"
  shows "\<exists>s' q. system_execute command s = Some (Iret (program_entry s ino), s') \<and> parent_slot s i q \<and>
    main_process s' = int i \<and> process_num s' = (process_num s)[i := active_terminal s] \<and>
    terminals s' = (terminals s)[nat (active_terminal s) :=
       (terminals s ! nat (active_terminal s))\<lparr>curr_task := int i\<rparr>] \<and>
    pcbs s' = (pcbs s)(return_pcb_parent (int i) := fresh_pcb i q s) \<and>
    tlb_user s' = user_frame (int i) OR 0x87 \<and> tss_esp0 s' = 0x800000 - 0x8000 * of_nat i - 4 \<and> if_flag s' \<and>
    (\<forall>k < file_length s ino. mem s' (0x08048000 + k) = file_byte s ino k) \<and>
    cstr (mem s') (arg_buf s) (cmd_args cs)"
  using assms by (rule system_execute_eq)

theorem execute_starts_program_witness:
  "\<exists>s'. system_execute 0x440000 sample = Some (Iret 0x08048100, s') \<and> main_process s' = 3 \<and>
    process_num s' = [0, 1, -1, 0, -1, -1] \<and> cstr (mem s') 0x410000 [102]"
  using execute_starts_program [of sample 1 "0x440000" "[99, 97, 116, 32, 102]" 2 3]
    sample_image(5) sample_program sample_command sample_lookup sample_table sample_slot sample_entry
  by auto

text \<open>C13: a process in a slot above the shells that was started by \<open>system_execute\<close> and ends with
  \<open>system_halt\<close> returns to the \<open>ebp\<close> and \<open>esp\<close> of the caller of
  \<open>system_execute\<close> with the zero-extended status; the process table is what it was before the call, and
  the parent is current again, with its page and the status in its control block.  In between, anything
  may happen that keeps the process running (\<open>child_ran\<close>).\<close>

theorem execute_then_halt_returns:
  assumes "fs_ok s" and "program s ino" and "cstr (mem s) command cs"
    and "length (cmd_word cs) \<le> 32" "length (cmd_args cs) < 128" and "\<forall>x\<in>set (cmd_word cs). x < 128"
    and "lookup_name (cmd_word cs) s = Some d" "entry_inode s d = int ino"
    and "exec_layout s command (length cs + 1)"
    and "table_ok s" "length (terminals s) = 3" and "List.find (slot_free s) [0..<6] = Some i" "3 \<le> i"
    and "\<forall>q<6. process_num s ! q \<noteq> -1 \<longrightarrow> pid (pcbs s (return_pcb_parent (int q))) = int q"
  shows "\<exists>s1 q. system_execute command s = Some (Iret (program_entry s ino), s1) \<and> parent_slot s i q \<and>
    (\<forall>s2 status. child_ran s1 s2 \<longrightarrow>
      (\<exists>s3. system_halt status s2 = Some (RetFromHalt (reg_ebp s) (reg_esp s) (ucast status), s3) \<and>
        process_num s3 = process_num s \<and> main_process s3 = int q \<and>
        curr_task (terminals s3 ! nat (active_terminal s)) = int q \<and>
        tlb_user s3 = user_frame (int q) OR 0x87 \<and> status_retval (pcbs s3 (return_pcb_parent (int q))) = ucast status))"
  using assms by (rule execute_then_halt)

theorem execute_then_halt_returns_witness:
  "\<exists>s1 s3. system_execute 0x440000 sample = Some (Iret 0x08048100, s1) \<and>
    system_halt 7 s1 = Some (RetFromHalt 0x7FFF00 0x7FFE00 7, s3) \<and> process_num s3 = [0, 1, -1, -1, -1, -1]"
proof -
  obtain s1 q where s1: "system_execute 0x440000 sample = Some (Iret (program_entry sample 1), s1)"
    and h: "\<forall>s2 status. child_ran s1 s2 \<longrightarrow>
      (\<exists>s3. system_halt status s2 = Some (RetFromHalt (reg_ebp sample) (reg_esp sample) (ucast status), s3) \<and>
        process_num s3 = process_num sample \<and> main_process s3 = int q \<and>
        curr_task (terminals s3 ! nat (active_terminal sample)) = int q \<and>
        tlb_user s3 = user_frame (int q) OR 0x87 \<and> status_retval (pcbs s3 (return_pcb_parent (int q))) = ucast status)"
    using execute_then_halt_returns [of sample 1 "0x440000" "[99, 97, 116, 32, 102]" 2 3]
      sample_image(5) sample_program sample_command sample_lookup sample_table sample_slot sample_pids by auto
  have "child_ran s1 s1" by (simp add: child_ran_def)
  with h obtain s3 where "system_halt 7 s1 = Some (RetFromHalt (reg_ebp sample) (reg_esp sample) (ucast (7 :: u8)), s3)"
    "process_num s3 = process_num sample" by blast
  with s1 sample_entry show ?thesis by auto
qed

text \<open>A command whose first word is in no directory entry makes \<open>system_execute\<close> return \<open>-1\<close>;
  nothing changes but the parse buffer in its stack frame and the argument buffer.\<close>

theorem execute_missing_fails:
  assumes "cstr (mem s) command cs"
    and "length (cmd_word cs) \<le> 32" "length (cmd_args cs) < 128" and "\<forall>x\<in>set (cmd_word cs). x < 128"
    and "lookup_name (cmd_word cs) s = None" and "exec_layout s command (length cs + 1)"
  shows "system_execute command s = Some (Ret (-1),
    s\<lparr>mem := blit (blit (mem s) (frame s) (cmd_word cs @ [0])) (arg_buf s) (cmd_args cs @ [0])\<rparr>)"
  using assms by (rule system_execute_missing)

theorem execute_missing_fails_witness:
  "\<exists>m. system_execute 0x440004 sample = Some (Ret (-1), sample\<lparr>mem := m\<rparr>)"
  using execute_missing_fails [of sample "0x440004" "[102]"] sample_other by auto

text \<open>With every slot taken, \<open>system_execute\<close> on a program prints its message and returns 0 to
  the caller, as a program that ended normally does.\<close>

theorem execute_table_full:
  assumes "fs_ok s" and "program s ino" and "cstr (mem s) command cs"
    and "length (cmd_word cs) \<le> 32" "length (cmd_args cs) < 128" and "\<forall>x\<in>set (cmd_word cs). x < 128"
    and "lookup_name (cmd_word cs) s = Some d" "entry_inode s d = int ino"
    and "exec_layout s command (length cs + 1)"
    and "table_ok s" "terms_ok s" and "\<forall>i<6. \<not> slot_free s i"
    and "disjoint_rng (main_page s) 4000 (rodata s ''Max processes.\<newline>'') 15"
  shows "\<exists>s'. system_execute command s = Some (Ret 0, s') \<and> terms_ok s'"
  using assms by (rule system_execute_full)

theorem execute_table_full_witness:
  "\<exists>s'. system_execute 0x440000 busy = Some (Ret 0, s') \<and> terms_ok s'"
  using execute_table_full [of busy 1 "0x440000" "[99, 97, 116, 32, 102]" 2] busy_facts
    sample_command(2,3) by simp




section \<open>Scheduling and terminals\<close>




text \<open>C32: leaving a terminal and coming back to it shows the same screen, all 4096 bytes of it, provided
  nothing wrote to its back page in between.\<close>

theorem switch_terminal_restores:
  assumes "terms_ok s" and "active_terminal s = int a" and "t < 3" "t \<noteq> a"
    and "curr_task (terminals s ! t) \<noteq> -1"
    and "switch_terminal (int t) s = Some (Ret 0, s1)"
    and "terms_ok s1'" and "active_terminal s1' = int t" "curr_task (terminals s1' ! a) \<noteq> -1"
    and "bytes_at (mem s1') (term_page a) 4096 = bytes_at (mem s1) (term_page a) 4096"
  shows "\<exists>s2. switch_terminal (int a) s1' = Some (Ret 0, s2) \<and> active_terminal s2 = int a \<and>
    bytes_at (mem s2) VIDEO 4096 = bytes_at (mem s) VIDEO 4096"
  using assms by (rule switch_terminal_back)

theorem switch_terminal_restores_witness:
  "\<exists>s1 s2. switch_terminal 1 sample = Some (Ret 0, s1) \<and> switch_terminal 0 s1 = Some (Ret 0, s2) \<and>
    bytes_at (mem s2) VIDEO 4096 = bytes_at sample_mem VIDEO 4096"
proof -
  from switch_terminal_eq [OF sample_terms, of 0 1] obtain s1 where
    s1: "switch_terminal 1 sample = Some (Ret 0, s1)" "active_terminal s1 = 1" "terminals s1 = terminals sample"
      "process_num s1 = process_num sample" "main_process s1 = main_process sample"
    by (simp add: sample_terminal_def)
  have ok: "terms_ok s1" using sample_terms s1 by (simp add: terms_ok_def)
  from switch_terminal_restores [OF sample_terms, of 0 1 s1 s1] s1 ok show ?thesis
    by (auto simp: sample_terminal_def)
qed


section \<open>Address spaces\<close>

text \<open>After \<open>setup_paging\<close> exactly the kernel's 4 MB page and the four video pages are
  mapped, each to itself; every other address faults.  The page table is aligned, as its attribute says.\<close>

theorem paging_identity:
  assumes "page_table_at s AND mask 12 = 0"
  shows "translate (setup_paging s) va =
    (if 0x400000 \<le> unat va \<and> unat va < 0x800000 \<or> 0xB8000 \<le> unat va \<and> unat va < 0xBC000
     then Some va else None)"
  using assms by (rule translate_setup)

theorem paging_identity_witness: "translate (setup_paging sample) 0x400123 = Some 0x400123"
proof -
  have "page_table_at sample AND mask 12 = 0" by (simp add: mask_numeral)
  from paging_identity [OF this, of "0x400123"] show ?thesis by simp
qed

text \<open>Mapping the page of process \<open>p\<close> sends the 4 MB of user addresses to the process's frame and
  changes no other translation.\<close>

theorem map_page_translates:
  assumes "0 \<le> p" "p < 6"
  shows "translate (map_page (user_frame p) 0x8000000 s) va =
    (if USER_PAGE \<le> unat va \<and> unat va < USER_PAGE + UNIT_4_MB
     then Some (user_frame p OR (va AND mask 22)) else translate s va)"
  using assms by (rule translate_map_page)

theorem map_page_translates_witness:
  "translate (map_page (user_frame 3) 0x8000000 sample) 0x08048000 = Some (user_frame 3 OR (0x08048000 AND mask 22))"
  using map_page_translates [of 3 sample "0x08048000"] by (simp add: USER_PAGE_def UNIT_4_MB_def)




end
