(* ===== verification/Completion.thy ===== *)
theory Completion
  imports Keyboard
begin

text \<open>
  Tab completion and the keyboard's table look-ups: \<open>fs_search\<close> only extends the line, stays
  inside the 128-byte buffer and otherwise touches the screen alone; scan codes beyond the
  86 entries of \<open>pressed_flags\<close> index outside the array.
\<close>

section \<open>Completion stays in the buffer\<close>

text \<open>What a completion from \<open>idx\<close> may do: \<open>idx'\<close> is the new length.\<close>

definition completes :: "addr \<Rightarrow> nat \<Rightarrow> kstate \<Rightarrow> nat \<times> kstate \<Rightarrow> bool" where
  "completes buf idx s r \<longleftrightarrow> (case r of (idx', s') \<Rightarrow>
     idx \<le> idx' \<and> idx' \<le> max idx 127 \<and> cursor_ok (screen_x s') (screen_y s') \<and>
     (\<forall>a. \<not> (buf + idx \<le> a \<and> a < buf + idx') \<and> \<not> (VIDEO \<le> a \<and> a < VIDEO + 4000) \<longrightarrow> mem s' a = mem s a))"

lemma completes_refl: "cursor_ok (screen_x s) (screen_y s) \<Longrightarrow> completes buf idx s (idx, s)"
  by (simp add: completes_def)

lemma fs_complete_completes:
  "cursor_ok (screen_x s) (screen_y s) \<Longrightarrow> completes buf idx s (fs_complete cmp buf k idx s)"
proof (induction cmp buf k idx s rule: fs_complete.induct)
  case (1 cmp buf k idx s)
  let ?c = "mem s (cmp + k)"
  let ?s1 = "s\<lparr>mem := (mem s)(buf + idx := ?c)\<rparr>"
  define s2 where "s2 = putc (mem ?s1 (cmp + k)) ?s1"
  show ?case
  proof (cases "?c \<noteq> 0 \<and> k < 32 \<and> idx \<le> 126")
    case True
    have cur: "cursor_ok (screen_x ?s1) (screen_y ?s1)" using 1(2) by simp
    note keep = putc_keeps [OF cur, of "mem ?s1 (cmp + k)", folded s2_def]
    obtain idx' s' where r: "fs_complete cmp buf (k + 1) (idx + 1) s2 = (idx', s')" by fastforce
    have "completes buf (idx + 1) s2 (idx', s')"
      using 1(1) [OF True refl, folded s2_def, OF keep(1)] unfolding r .
    then have st: "idx + 1 \<le> idx'" "idx' \<le> 127" "cursor_ok (screen_x s') (screen_y s')"
      and m: "\<And>a. \<not> (buf + (idx + 1) \<le> a \<and> a < buf + idx') \<Longrightarrow> \<not> (VIDEO \<le> a \<and> a < VIDEO + 4000) \<Longrightarrow> mem s' a = mem s2 a"
      using True by (auto simp: completes_def max_def)
    have other: "mem s2 a = mem s a" if "a \<noteq> buf + idx" "\<not> (VIDEO \<le> a \<and> a < VIDEO + 4000)" for a
      using keep(2) that by (auto simp: same_outside_def)
    have "completes buf idx s (idx', s')"
      unfolding completes_def prod.case
    proof (intro conjI allI impI)
      show "idx \<le> idx'" "idx' \<le> max idx 127" "cursor_ok (screen_x s') (screen_y s')" using st by simp_all
      fix a assume "\<not> (buf + idx \<le> a \<and> a < buf + idx') \<and> \<not> (VIDEO \<le> a \<and> a < VIDEO + 4000)"
      with st m [of a] other [of a] show "mem s' a = mem s a" by auto
    qed
    moreover have "fs_complete cmp buf k idx s = (idx', s')"
      using True r by (subst fs_complete.simps) (simp add: s2_def Let_def)
    ultimately show ?thesis by simp
  next
    case False
    then have "fs_complete cmp buf k idx s = (idx, s)" by (subst fs_complete.simps) auto
    with 1(2) show ?thesis by (simp add: completes_refl)
  qed
qed

lemma fs_scan_completes:
  "cursor_ok (screen_x s) (screen_y s) \<Longrightarrow> completes buf idx s (fs_scan buf st idx i fc s)"
proof (induction buf st idx i fc s rule: fs_scan.induct)
  case (1 buf st idx i fc s)
  then show ?case
    by (simp add: fs_scan.simps [of buf st idx i fc s] completes_refl fs_complete_completes split: option.split)
qed

lemma fs_search_completes:
  "cursor_ok (screen_x s) (screen_y s) \<Longrightarrow> completes buf idx s (fs_search buf idx s)"
  by (simp add: fs_search_def completes_refl fs_scan_completes split: prod.split)


section \<open>Scan codes beyond the table\<close>

lemma getChar_beyond:
  assumes "length (pressed_flags s) = 86" and "0x56 \<le> getScancode s" "getScancode s \<le> 0x58"
  shows "getChar s = None"
proof -
  have "86 \<le> unat (getScancode s)" using assms(2) by (simp add: word_le_nat_alt)
  then have "set_pressed (getScancode s) 1 s = None"
    using assms(1) by (simp add: set_pressed_def aset_def uint_nat del: of_nat_unat)
  with assms(3) show ?thesis by (simp add: getChar_def Let_def)
qed

end
