(* ===== verification/File_Theorems.thy ===== *)
theory File_Theorems
  imports Example_State Completion
begin

text \<open>
  The theorems on the file system, the descriptor table and the file system calls, each with an
  instance on the concrete system of \<open>Example_State\<close>.
\<close>

section \<open>The image\<close>

text \<open>C19: \<open>read_data\<close> copies exactly the bytes of the file from the offset on, as many as were asked for
  or are left, to the buffer, returns their number and changes nothing else; the file may span
  blocks in any order of the image.\<close>

theorem read_data_reads_file:
  assumes "fs_ok s" and "inode_ok s ino" and "off \<le> file_length s ino" and "off + len < 2 ^ 32"
    and "n = min len (file_length s ino - off)" and "disjoint_rng buf n (boot_block s) (fs_size s)"
  shows "read_data (of_nat ino) (of_nat off) buf (of_nat len) s =
    (int n, s\<lparr>mem := blit (mem s) buf (file_data s ino off n)\<rparr>)"
  using read_data_eq [OF assms(1-4)] assms(5,6) by simp

theorem read_data_reads_file_witness:
  "read_data 1 0 0x460000 4 sample =
    (4, sample\<lparr>mem := blit sample_mem 0x460000 (file_data sample 1 0 4)\<rparr>)"
  using read_data_reads_file [OF sample_image(5) sample_file(4), of 0 4 4 "0x460000"]
  by (simp add: sample_file(2) sample_image disjoint_rng_def del: One_nat_def)


text \<open>C20: reading a file through its descriptor in pieces gives its bytes in order: the concatenation of what the reads
  return is the file from the descriptor's position on, up to the sum of the sizes or the end.\<close>

theorem file_reads_are_sequential:
  assumes "fs_ok s" and "inode_ok s ino" and "fd_on s fd ino pos" and "pos \<le> file_length s ino"
    and "\<forall>(buf, n) \<in> set rs. n < 2 ^ 31 \<and> disjoint_rng buf n (boot_block s) (fs_size s)"
  shows "\<exists>s'. file_reads fd rs s =
    Some (file_data s ino pos (min (sum_list (map snd rs)) (file_length s ino - pos)), s')"
  using assms by (rule file_reads_eq)

theorem file_reads_are_sequential_witness:
  "\<exists>s'. file_reads 2 [(0x460000, 20), (0x460000, 20)] reading = Some (file_data reading 1 0 32, s')"
  using file_reads_are_sequential [OF reading_facts(1-3), of "[(0x460000, 20), (0x460000, 20)]"] reading_facts
  by (simp add: disjoint_rng_def del: One_nat_def)

text \<open>\<open>read_dentry_by_name\<close> finds the first of the 63 directory entries with the name (up to
  32 characters, compared in full) and copies it; otherwise it returns \<open>-1\<close> and leaves the
  destination.\<close>

theorem dentry_lookup:
  assumes "cstr (mem s) f xs" and "length xs \<le> 32" "\<forall>x\<in>set xs. x < 128" and "f \<noteq> 0"
  shows "read_dentry_by_name f (Some d) s = Some (case lookup_name xs s of
           None \<Rightarrow> (-1, Some d) | Some i \<Rightarrow> (0, Some (read_entry s i d)))"
  using assms by (rule read_dentry_by_name_lookup)

theorem dentry_lookup_witness:
  "read_dentry_by_name 0x4200C0 (Some (cur_dentry sample)) sample =
    Some (0, Some (read_entry sample 2 (cur_dentry sample)))"
  using dentry_lookup [of sample "0x4200C0" "[99, 97, 116]"] sample_name sample_lookup by simp

text \<open>A name with a byte of 128 or more is found in no directory: the code compares an unsigned byte
  of the argument with a signed character of the entry.\<close>

lemma high_bytes_never_match:
  assumes "cstr (mem s) f xs" and "length xs \<le> 32" and "x \<in> set xs" "x \<ge> 128" and "f \<noteq> 0"
  shows "read_dentry_by_name f (Some d) s = Some (-1, Some d)"
  using assms find_entry_non_ascii [OF assms(1-4)] by (simp add: read_dentry_by_name_def strlen_cstr)


section \<open>Descriptors and system calls\<close>

text \<open>A successful \<open>file_open\<close> takes a free descriptor; closing it gives 0 and the set of used
  descriptors from before, and closing it once more gives \<open>-1\<close>.\<close>

theorem file_close_undoes_open:
  assumes "fds_ok s" and "file_open f s = Some (fd, s1)" and "fd \<noteq> -1"
  shows "\<exists>s2. file_close fd s1 = Some (0, s2) \<and> fds_ok s2 \<and> fd_used s2 = fd_used s \<and> file_close fd s2 = Some (-1, s2)"
  using assms by (rule file_fds.close_after_open)

theorem file_close_undoes_open_witness:
  "\<exists>s1 s2. file_open 0x4200C0 sample = Some (2, s1) \<and> file_close 2 s1 = Some (0, s2) \<and> fd_used s2 = fd_used sample"
  using sample_open file_close_undoes_open [OF sample_fds, of "0x4200C0" 2] by fastforce


text \<open>\<open>system_open\<close> on the name of a regular file that is not open takes the lowest free descriptor, and
  \<open>system_read\<close> on it then returns the file's bytes from its start.\<close>

theorem open_then_read:
  assumes "fs_ok s" "inode_ok s ino"
    and "fds_ok (use_main_pcb s)" "first_free (use_main_pcb s) = Some i"
    and "cstr (mem s) f xs" "xs \<noteq> []" "length xs \<le> 32" "\<forall>x\<in>set xs. x < 128" "f \<noteq> 0"
    and "lookup_name xs s = Some d" "entry_filetype s d = 2" "entry_inode s d = int ino"
    and "\<forall>j<8. fd_used (use_main_pcb s) (int j) \<longrightarrow> inode_num (fd_table (use_main_pcb s) ! j) \<noteq> int ino"
    and "buf \<noteq> 0" "n < 2 ^ 31" "disjoint_rng buf n (boot_block s) (fs_size s)"
  shows "\<exists>s1 s2. system_open f s = Some (int i, s1) \<and>
    system_read hs (int i) buf (int n) s1 = Some (int (min n (file_length s ino)), s2) \<and>
    mem s2 = blit (mem s) buf (file_data s ino 0 (min n (file_length s ino)))"
  using assms by (rule system_open_then_read)

theorem open_then_read_witness:
  "\<exists>s1 s2. system_open 0x4200C0 sample = Some (2, s1) \<and> system_read [] 2 0x460000 100 s1 = Some (32, s2)"
proof -
  have "fds_ok (use_main_pcb sample)" "first_free (use_main_pcb sample) = Some 2"
    "\<forall>j<8. fd_used (use_main_pcb sample) (int j) \<longrightarrow> inode_num (fd_table (use_main_pcb sample) ! j) \<noteq> int 1"
    using sample_fds sample_free sample_fresh by (simp_all add: sample_main_pcb)
  note table = this
  have name: "cstr (mem sample) 0x4200C0 [99, 97, 116]" "\<forall>x\<in>set [99, 97, 116 :: u8]. x < 128"
    and ino: "entry_inode sample 2 = int 1"
    using sample_name sample_lookup by simp_all
  show ?thesis
    using open_then_read [OF sample_image(5) sample_file(4) table(1,2) name(1) _ _ name(2) _ sample_lookup(1,3) ino
        table(3), of "0x460000" 100 "[]"] sample_file(2) sample_image
    by (auto simp: disjoint_rng_def simp del: One_nat_def)
qed


text \<open>\<open>system_vidmap\<close> maps the 4 KB at \<open>0x08800000\<close> to video memory and
  stores that address; every destination but \<open>0\<close> and \<open>0x400000\<close> is accepted, those of the
  kernel too.\<close>

theorem vidmap_maps_video:
  assumes "screen_start \<noteq> 0" "screen_start \<noteq> 0x400000" and "page_table_at s AND mask 12 = 0"
  shows "\<exists>s'. system_vidmap screen_start s = Some (0, s') \<and>
    bytes_at (mem s') screen_start 4 = [0, 0, 0x80, 0x08] \<and>
    (\<forall>off < 4096. translate s' (0x8800000 + of_nat off) = Some (0xB8000 OR of_nat off))"
  using assms by (rule system_vidmap_eq)

theorem vidmap_maps_video_witness: "\<exists>s'. system_vidmap 0x400004 sample = Some (0, s') \<and>
    bytes_at (mem s') 0x400004 4 = [0, 0, 0x80, 0x08]"
proof -
  have "page_table_at sample AND mask 12 = 0" by (simp add: mask_numeral)
  from vidmap_maps_video [OF _ _ this, of "0x400004"] show ?thesis by auto
qed


text \<open>C36: Tab completion only lengthens the line, never past 127 characters, and writes nothing but the
  added characters and the screen.\<close>

theorem completion_stays_in_buffer:
  assumes "cursor_ok (screen_x s) (screen_y s)" and "fs_search buf idx s = (idx', s')"
  shows "idx \<le> idx' \<and> idx' \<le> max idx 127 \<and> cursor_ok (screen_x s') (screen_y s') \<and>
    (\<forall>a. \<not> (buf + idx \<le> a \<and> a < buf + idx') \<and> \<not> (VIDEO \<le> a \<and> a < VIDEO + 4000) \<longrightarrow> mem s' a = mem s a)"
  using fs_search_completes [OF assms(1), of buf idx] assms(2) by (simp add: completes_def)

theorem completion_stays_in_buffer_witness:
  "fst (fs_search 0x411000 0 sample) \<le> 127"
proof -
  have "cursor_ok (screen_x sample) (screen_y sample)" by (simp add: sample_def cursor_ok_def)
  from completion_stays_in_buffer [OF this, of "0x411000" 0] show ?thesis
    by (cases "fs_search 0x411000 0 sample") auto
qed

end
