(* ===== verification/Terminal_Theorems.thy ===== *)
theory Terminal_Theorems
  imports Example_State Completion
begin

text \<open>
  The theorems on the screen, the keyboard, the library routines and the devices, each with an
  instance on a concrete input.
\<close>

section \<open>The library\<close>

text \<open>\<open>strlen\<close> returns \<open>n\<close> exactly when the first zero byte is at offset \<open>n\<close>, and it
  returns whenever there is one.\<close>

lemma strlen_is_first_zero:
  "(strlen m s = Some n \<longleftrightarrow> m (s + n) = 0 \<and> (\<forall>i<n. m (s + i) \<noteq> 0)) \<and> ((\<exists>n. m (s + n) = 0) \<longrightarrow> strlen m s \<noteq> None)"
proof -
  have iff: "strlen m s = Some k \<longleftrightarrow> m (s + k) = 0 \<and> (\<forall>i<k. m (s + i) \<noteq> 0)" for k
    unfolding strlen_Some_iff dstr_def by (auto simp: bytes_at_def in_set_conv_nth)
  moreover have "strlen m s \<noteq> None" if "\<exists>n. m (s + n) = 0"
    using that iff [of "LEAST n. m (s + n) = 0"] LeastI_ex [OF that] not_less_Least by blast
  ultimately show ?thesis by blast
qed


text \<open>\<open>itoa\<close> in any radix from 2 to 36 writes a string whose value in that radix is the
  number, for every 32-bit number.\<close>

theorem itoa_round_trip:
  assumes "2 \<le> unat radix" "unat radix \<le> 36"
  shows "\<exists>cs m'. itoa value buf radix m = Some (buf, m') \<and> cstr m' buf cs \<and>
    numeral_value (unat radix) cs = unat value \<and>
    (\<forall>a. \<not> (buf \<le> a \<and> a \<le> buf + length cs) \<longrightarrow> m' a = m a)"
proof -
  let ?cs = "itoa_spec (unat radix) (unat value)" and ?m' = "blit m buf (itoa_spec (unat radix) (unat value) @ [0])"
  have "cstr ?m' buf ?cs" by (rule dstr_blit [OF itoa_spec_nonzero [OF assms]])
  moreover have "\<forall>a. \<not> (buf \<le> a \<and> a \<le> buf + length ?cs) \<longrightarrow> ?m' a = m a" by (auto simp: blit_def)
  ultimately show ?thesis using itoa_blit [OF assms] itoa_spec_value [OF assms] by blast
qed

theorem itoa_round_trip_witness:
  "\<exists>cs m'. itoa 391 0x460000 10 (\<lambda>a. 0) = Some (0x460000, m') \<and> numeral_value 10 cs = 391"
  using itoa_round_trip [of 10 391 "0x460000" "\<lambda>a. 0"] by auto


text \<open>C40: \<open>memset\<close>, whose assembly fills single bytes up to an aligned address, then words, then the rest,
  fills the area with the low byte of its argument and returns the start.\<close>

theorem memset_fills: "memset s c n m = (s, \<lambda>a. if s \<le> a \<and> a < s + n then ucast c else m a)"
  by (auto simp: memset_blit blit_def fun_eq_iff)

text \<open>\<open>memmove\<close> copies correctly for overlapping areas in either direction, and leaves the
  direction flag set exactly when it copied downwards.\<close>

theorem memmove_moves:
  "memmove dest src n m = (src < dest, dest, \<lambda>a. if dest \<le> a \<and> a < dest + n then m (src + (a - dest)) else m a)"
  by (auto simp: memmove_blit blit_def fun_eq_iff)


section \<open>The screen\<close>


text \<open>Whatever byte a process writes, \<open>my_putc\<close> returns, keeps every cursor on the screen and writes
  nothing outside the 4000 bytes of the page it shows on: video memory for the terminal on screen, the
  terminal's back page otherwise.\<close>

theorem putc_stays_on_page:
  assumes "terms_ok s"
  shows "\<exists>s'. my_putc c s = Some s' \<and> terms_ok s' \<and> main_page s' = main_page s \<and>
    (\<forall>a. \<not> (main_page s \<le> a \<and> a < main_page s + 4000) \<longrightarrow> mem s' a = mem s a)"
  using process_sink.put_ok [OF assms, of c] by (simp add: same_outside_def)

theorem putc_stays_on_page_witness: "\<exists>s'. my_putc 10 sample = Some s' \<and> terms_ok s'"
  using putc_stays_on_page [OF sample_terms, of 10] by blast





section \<open>The keyboard\<close>


text \<open>The scan codes \<open>0x56\<close> to \<open>0x58\<close> (the last two are F11 and F12) pass the range test of \<open>getChar\<close> but lie
  beyond the 86 entries of \<open>pressed_flags\<close>: the store is out of bounds.\<close>

theorem high_scancodes_out_of_bounds:
  assumes "length (pressed_flags s) = 86" and "0x56 \<le> getScancode s" "getScancode s \<le> 0x58"
  shows "getChar s = None"
  using assms by (rule getChar_beyond)

theorem high_scancodes_out_of_bounds_witness: "getChar (press 0x57 sample) = None"
  using high_scancodes_out_of_bounds [of "press 0x57 sample"]
  by (simp add: press_def getScancode_def inb_def)


section \<open>Devices\<close>


text \<open>\<open>rtc_write\<close> accepts exactly the powers of two from 2 to 8192 Hz and programs the rate whose frequency
  is that one, or 1024 Hz for the four highest; anything else returns \<open>-1\<close> and writes no port.\<close>

lemma rtc_write_sets_rate:
  "rtc_write fd buf 4 s = (if \<exists>k. 1 \<le> k \<and> k \<le> (13 :: nat) \<and> lds32 (mem s) buf = 2 ^ k
     then (let r = the (rtc_rate (lds32 (mem s) buf)) in Some (0, outb r 0x71 (outb 0x8A 0x70 s)))
     else Some (-1, s)) \<and>
   (\<forall>r. rtc_rate (lds32 (mem s) buf) = Some r \<longrightarrow> rtc_hz r = min (lds32 (mem s) buf) 1024)"
  using rtc_rate_dom [of "lds32 (mem s) buf"] rtc_rate_Some [of "lds32 (mem s) buf"]
  by (auto simp: rtc_write_def split: option.split)


text \<open>After \<open>init_idt\<close> the present gates are those of the 20 exceptions, the timer, the keyboard, the
  real-time clock and the system call; each leads to its handler's address through the kernel code
  segment, and only the system call can be called from user mode.\<close>

theorem init_idt_installs:
  assumes "v < 256"
  shows "(present (idt (init_idt haddr s) v) \<longleftrightarrow> vector_handler v \<noteq> None) \<and>
    dpl (idt (init_idt haddr s) v) = (if v = 0x80 then 3 else 0) \<and>
    seg_selector (idt (init_idt haddr s) v) = 0x10 \<and>
    (\<forall>h. vector_handler v = Some h \<longrightarrow> gate_offset (idt (init_idt haddr s) v) = haddr h)"
  using init_idt_gate [OF assms] init_idt_offset by blast

theorem init_idt_installs_witness:
  "present (idt (init_idt (\<lambda>h. 0x400100) sample) 14) \<and> gate_offset (idt (init_idt (\<lambda>h. 0x400100) sample) 14) = 0x400100"
  using init_idt_installs [of 14 "\<lambda>h. 0x400100" sample] by (simp add: vector_handler_def)

end
