(* ===== verification/User_Lib.thy ===== *)
theory User_Lib
  imports Syscall_Gate
begin

text \<open>
  The library of the user programs, \<open>syscalls/ece391support.c\<close>.  The scanning and copying loops
  are instances of the contracts of \<open>Lib_Strings\<close>; \<open>ece391_itoa\<close> is shown to compute what the
  kernel's \<open>itoa\<close> computes.
\<close>

section \<open>Definitions\<close>

partial_function (option) ece391_strlen_loop :: "mem \<Rightarrow> addr \<Rightarrow> nat \<Rightarrow> nat option" where
  "ece391_strlen_loop m s len = (if m (s + len) \<noteq> 0 then ece391_strlen_loop m s (len + 1) else Some len)"

definition ece391_strlen :: "mem \<Rightarrow> addr \<Rightarrow> nat option" where
  "ece391_strlen m s = ece391_strlen_loop m s 0"

partial_function (option) ece391_strcpy_loop :: "addr \<Rightarrow> addr \<Rightarrow> nat \<Rightarrow> mem \<Rightarrow> mem option" where
  "ece391_strcpy_loop dst src i m =
     (let c = m (src + i); m' = m(dst + i := c)
      in if c \<noteq> 0 then ece391_strcpy_loop dst src (i + 1) m' else Some m')"

definition ece391_strcpy :: "addr \<Rightarrow> addr \<Rightarrow> mem \<Rightarrow> mem option" where
  "ece391_strcpy dst src m = ece391_strcpy_loop dst src 0 m"

definition ece391_fdputs :: "int \<Rightarrow> addr \<Rightarrow> kstate \<Rightarrow> kstate option" where
  "ece391_fdputs fd str s = do {
     n \<leftarrow> ece391_strlen (mem s) str;
     (r, s) \<leftarrow> ece391_write fd str (int n) s;
     Some s }"

text \<open>The difference is of unsigned bytes, unlike in the kernel's \<open>strncmp\<close>.\<close>

partial_function (option) ece391_strcmp :: "mem \<Rightarrow> addr \<Rightarrow> addr \<Rightarrow> int option" where
  "ece391_strcmp m s1 s2 =
     (if m s1 = m s2 then (if m s1 = 0 then Some 0 else ece391_strcmp m (s1 + 1) (s2 + 1))
      else Some (uint (m s1) - uint (m s2)))"

fun ece391_strncmp_loop :: "mem \<Rightarrow> addr \<Rightarrow> addr \<Rightarrow> nat \<Rightarrow> int" where
  "ece391_strncmp_loop m s1 s2 0 = 0"
| "ece391_strncmp_loop m s1 s2 (Suc n) =
     (if m s1 = m s2 then (if m s1 = 0 then 0 else ece391_strncmp_loop m (s1 + 1) (s2 + 1) n)
      else uint (m s1) - uint (m s2))"

definition ece391_strncmp :: "mem \<Rightarrow> addr \<Rightarrow> addr \<Rightarrow> nat \<Rightarrow> int" where
  "ece391_strncmp m s1 s2 n = (if 0 = n then 0 else ece391_strncmp_loop m s1 s2 n)"

function ece391_strrev_loop :: "addr \<Rightarrow> int \<Rightarrow> int \<Rightarrow> mem \<Rightarrow> mem" where
  "ece391_strrev_loop s beg en m =
     (if beg < en then
        (let tmp = m (s + nat en);
             m1 = m(s + nat en := m (s + nat beg));
             m2 = m1(s + nat beg := tmp)
         in ece391_strrev_loop s (beg + 1) (en - 1) m2)
      else m)"
  by pat_completeness auto
termination by (relation "measure (\<lambda>(s, b, e, m). nat (e - b))") auto

declare ece391_strrev_loop.simps [simp del]

definition ece391_strrev :: "addr \<Rightarrow> mem \<Rightarrow> (addr \<times> mem) option" where
  "ece391_strrev s m = do {
     len \<leftarrow> ece391_strlen m s;
     let en = int len - 1;
     if en \<le> 0 then Some (s, m) else Some (s, ece391_strrev_loop s 0 en m) }"

partial_function (option) ece391_itoa_loop :: "u32 \<Rightarrow> u32 \<Rightarrow> addr \<Rightarrow> mem \<Rightarrow> (addr \<times> mem) option" where
  "ece391_itoa_loop radix newval newbuf m =
     (if newval > 0 then
        (if radix = 0 then None
         else do { d \<leftarrow> aget itoa_lookup (uint (newval mod radix));
                   ece391_itoa_loop radix (newval div radix) (newbuf + 1) (m(newbuf := d)) })
      else Some (newbuf, m))"

definition ece391_itoa :: "u32 \<Rightarrow> addr \<Rightarrow> u32 \<Rightarrow> mem \<Rightarrow> (addr \<times> mem) option" where
  "ece391_itoa value buf radix m =
     (if value = 0 then Some (buf, m(buf := chb CHR ''0'', buf + 1 := 0))
      else do { (newbuf, m1) \<leftarrow> ece391_itoa_loop radix value buf m;
                ece391_strrev buf (m1(newbuf := 0)) })"


section \<open>Strings\<close>

interpretation user_scan: delim_scan 0 "\<lambda>n. n" ece391_strlen_loop
  by unfold_locales (rule ece391_strlen_loop.simps)

interpretation user_copy: delim_copy 0 ece391_strcpy_loop
  by unfold_locales (subst ece391_strcpy_loop.simps, simp add: Let_def)

lemma ece391_strlen_cstr: "cstr m s xs \<Longrightarrow> ece391_strlen m s = Some (length xs)"
  unfolding ece391_strlen_def by (rule user_scan.scan_dstr)

lemma ece391_strcpy_blit:
  "cstr m src xs \<Longrightarrow> dst \<le> src \<or> src + length xs < dst \<Longrightarrow> ece391_strcpy dst src m = Some (blit m dst (xs @ [0]))"
  unfolding ece391_strcpy_def by (rule user_copy.copy_blit)

lemma ece391_strcmp_cstr:
  "cstr m a xs \<Longrightarrow> cstr m b ys \<Longrightarrow> \<exists>d. ece391_strcmp m a b = Some d \<and> (d = 0 \<longleftrightarrow> xs = ys)"
proof (induction xs arbitrary: a b ys)
  case Nil
  then show ?case by (cases ys) (auto simp: ece391_strcmp.simps dstr_Cons word_uint_eq_iff)
next
  case (Cons x xs)
  then have x: "m a = x" "x \<noteq> 0" "cstr m (Suc a) xs" by (simp_all add: dstr_Cons)
  show ?case
  proof (cases ys)
    case Nil
    with Cons.prems x show ?thesis by (auto simp: ece391_strcmp.simps word_uint_eq_iff)
  next
    case (Cons y zs)
    with Cons.prems have y: "m b = y" "y \<noteq> 0" "cstr m (Suc b) zs" by (simp_all add: dstr_Cons)
    show ?thesis
    proof (cases "x = y")
      case True
      with Cons.IH [OF x(3) y(3)] x y Cons show ?thesis by (subst ece391_strcmp.simps) simp
    next
      case False
      with x y Cons show ?thesis by (subst ece391_strcmp.simps) (simp add: word_uint_eq_iff)
    qed
  qed
qed

lemma ece391_strncmp_prefix:
  "cstr m a xs \<Longrightarrow> cstr m b ys \<Longrightarrow> ece391_strncmp m a b n = 0 \<longleftrightarrow> take n xs = take n ys"
proof -
  have "cstr m a xs \<Longrightarrow> cstr m b ys \<Longrightarrow> ece391_strncmp_loop m a b n = 0 \<longleftrightarrow> take n xs = take n ys"
  proof (induction n arbitrary: a b xs ys)
    case (Suc n)
    then show ?case
      by (cases xs; cases ys) (auto simp: dstr_Cons word_uint_eq_iff)
  qed simp
  then show "cstr m a xs \<Longrightarrow> cstr m b ys \<Longrightarrow> ece391_strncmp m a b n = 0 \<longleftrightarrow> take n xs = take n ys"
    by (simp add: ece391_strncmp_def)
qed


section \<open>Numbers\<close>

text \<open>The loops are the kernel's loops: each satisfies the other's recursion equation.\<close>

lemma option_le_antisym: "(\<And>r. a = Some r \<Longrightarrow> b = Some r) \<Longrightarrow> (\<And>r. b = Some r \<Longrightarrow> a = Some r) \<Longrightarrow> a = b"
  by (cases a; cases b) auto

lemma ece391_strlen_loop_eq: "ece391_strlen_loop m s k = strlen_loop m s k"
proof (rule option_le_antisym)
  fix r assume "ece391_strlen_loop m s k = Some r"
  then show "strlen_loop m s k = Some r"
    by (rule ece391_strlen_loop.raw_induct [rotated]) (subst strlen_loop.simps, auto split: if_splits)
next
  fix r assume "strlen_loop m s k = Some r"
  then show "ece391_strlen_loop m s k = Some r"
    by (rule strlen_loop.raw_induct [rotated]) (subst ece391_strlen_loop.simps, auto split: if_splits)
qed

lemma ece391_itoa_loop_eq: "ece391_itoa_loop r v b m = itoa_loop r v b m"
proof (rule option_le_antisym)
  fix x assume "ece391_itoa_loop r v b m = Some x"
  then show "itoa_loop r v b m = Some x"
    by (rule ece391_itoa_loop.raw_induct [rotated])
       (subst itoa_loop.simps, auto simp: bind_Some_iff split: if_splits)
next
  fix x assume "itoa_loop r v b m = Some x"
  then show "ece391_itoa_loop r v b m = Some x"
    by (rule itoa_loop.raw_induct [rotated])
       (subst ece391_itoa_loop.simps, auto simp: bind_Some_iff split: if_splits)
qed

lemma ece391_strrev_loop_eq: "ece391_strrev_loop s b e m = strrev_loop s b e m"
proof (induction s b e m rule: ece391_strrev_loop.induct)
  case (1 s b e m)
  then show ?case
    unfolding ece391_strrev_loop.simps [of s b e m] strrev_loop.simps [of s b e m]
    by (simp add: Let_def del: fun_upd_apply)
qed

lemmas ece391_loops = ece391_strlen_loop_eq ece391_itoa_loop_eq ece391_strrev_loop_eq

lemma ece391_strrev_eq: "ece391_strrev s m = strrev s m"
  by (cases "strlen m s")
     (auto simp: ece391_strrev_def strrev_def ece391_strlen_def strlen_def ece391_loops strrev_loop.simps)

lemma ece391_itoa_eq: "ece391_itoa value buf radix m = itoa value buf radix m"
  by (simp add: ece391_itoa_def itoa_def ece391_loops ece391_strrev_eq)

end
