(* ===== verification/User_Programs.thy ===== *)
theory User_Programs
  imports User_Lib
begin

text \<open>
  The user programs of \<open>syscalls/\<close> that only use the system call interface, one definition per
  \<open>main\<close> and per loop.  A program works on the memory it shares with the model of the kernel; the
  arrays on its stack are given by their addresses and its string literals by \<open>rodata\<close>.  A call
  that may block is given the interrupts that occur while it waits: \<open>env k\<close> for the read number
  \<open>k\<close>.  Running a child, from \<open>ece391_execute\<close> to its \<open>halt\<close>, is the parameter
  \<open>run\<close> of the shell.
\<close>

type_synonym env = "nat \<Rightarrow> interrupts"

definition puts1 :: "string \<Rightarrow> kstate \<Rightarrow> kstate option" where
  "puts1 lit s = ece391_fdputs 1 (rodata s lit) s"

definition set_byte :: "addr \<Rightarrow> int \<Rightarrow> u8 \<Rightarrow> kstate \<Rightarrow> kstate" where
  "set_byte buf i c s = s\<lparr>mem := (mem s)(nat (int buf + i) := c)\<rparr>"


section \<open>cat\<close>

partial_function (option) cat_loop :: "env \<Rightarrow> nat \<Rightarrow> int \<Rightarrow> addr \<Rightarrow> kstate \<Rightarrow> (int \<times> kstate) option" where
  "cat_loop env k fd buf s = do {
     (cnt, s) \<leftarrow> ece391_read (env k) fd buf 1024 s;
     if cnt = 0 then Some (0, s)
     else if cnt = -1 then do { s \<leftarrow> puts1 ''file read failed\<newline>'' s; Some (3, s) }
     else do {
       (r, s) \<leftarrow> ece391_write 1 buf cnt s;
       if r = -1 then Some (3, s) else cat_loop env (k + 1) fd buf s } }"

definition cat_main :: "env \<Rightarrow> addr \<Rightarrow> kstate \<Rightarrow> (int \<times> kstate) option" where
  "cat_main env buf s = do {
     (r, s) \<leftarrow> ece391_getargs buf 1024 s;
     if r \<noteq> 0 then do { s \<leftarrow> puts1 ''could not read arguments\<newline>'' s; Some (3, s) }
     else do {
       (fd, s) \<leftarrow> ece391_open buf s;
       if fd = -1 then do { s \<leftarrow> puts1 ''file not found\<newline>'' s; Some (2, s) }
       else cat_loop env 0 fd buf s } }"


section \<open>hello, testprint\<close>

definition hello_main :: "env \<Rightarrow> addr \<Rightarrow> kstate \<Rightarrow> (int \<times> kstate) option" where
  "hello_main env buf s = do {
     s \<leftarrow> puts1 ''Hi, what's your name? '' s;
     (cnt, s) \<leftarrow> ece391_read (env 0) 0 buf 1023 s;
     if cnt = -1 then do { s \<leftarrow> puts1 ''Can't read name from keyboard.\<newline>'' s; Some (3, s) }
     else do {
       let s = set_byte buf cnt 0 s;
       s \<leftarrow> puts1 ''Hello, '' s;
       s \<leftarrow> ece391_fdputs 1 buf s;
       Some (0, s) } }"

definition testprint_main :: "kstate \<Rightarrow> (int \<times> kstate) option" where
  "testprint_main s = do {
     s \<leftarrow> puts1 ''Hello, if this ran, the program was correct. Yay!\<newline>'' s;
     Some (0, s) }"


section \<open>ls\<close>

partial_function (option) ls_loop :: "env \<Rightarrow> nat \<Rightarrow> int \<Rightarrow> addr \<Rightarrow> kstate \<Rightarrow> (int \<times> kstate) option" where
  "ls_loop env k fd buf s = do {
     (cnt, s) \<leftarrow> ece391_read (env k) fd buf 32 s;
     if cnt = 0 then Some (0, s)
     else if cnt = -1 then do { s \<leftarrow> puts1 ''directory entry read failed\<newline>'' s; Some (3, s) }
     else do {
       let s = set_byte buf cnt 10 s;
       (r, s) \<leftarrow> ece391_write 1 buf (cnt + 1) s;
       if r = -1 then Some (3, s) else ls_loop env (k + 1) fd buf s } }"

definition ls_main :: "env \<Rightarrow> addr \<Rightarrow> kstate \<Rightarrow> (int \<times> kstate) option" where
  "ls_main env buf s = do {
     (fd, s) \<leftarrow> ece391_open (rodata s ''.'') s;
     if fd = -1 then do { s \<leftarrow> puts1 ''directory open failed\<newline>'' s; Some (2, s) }
     else ls_loop env 0 fd buf s }"


section \<open>shell\<close>

partial_function (option) shell_loop ::
  "(addr \<Rightarrow> kstate \<Rightarrow> (int \<times> kstate) option) \<Rightarrow> env \<Rightarrow> nat \<Rightarrow> addr \<Rightarrow> kstate \<Rightarrow> (int \<times> kstate) option"
where
  "shell_loop run env k buf s = do {
     s \<leftarrow> puts1 ''391OS> '' s;
     (cnt, s) \<leftarrow> ece391_read (env k) 0 buf 1023 s;
     if cnt = -1 then do { s \<leftarrow> puts1 ''read from keyboard failed\<newline>'' s; Some (3, s) }
     else do {
       let cnt = (if cnt > 0 \<and> mem s (nat (int buf + cnt - 1)) = 10 then cnt - 1 else cnt);
       let s = set_byte buf cnt 0 s;
       c \<leftarrow> ece391_strcmp (mem s) buf (rodata s ''exit'');
       if c = 0 then Some (0, s)
       else if mem s buf = 0 then shell_loop run env (k + 1) buf s
       else do {
         (rval, s) \<leftarrow> run buf s;
         s \<leftarrow> (if rval = -1 then puts1 ''no such command\<newline>'' s
               else if rval = 256 then puts1 ''program terminated by exception\<newline>'' s
               else if rval \<noteq> 0 then puts1 ''program terminated abnormally\<newline>'' s
               else Some s);
         shell_loop run env (k + 1) buf s } } }"

definition shell_main ::
  "(addr \<Rightarrow> kstate \<Rightarrow> (int \<times> kstate) option) \<Rightarrow> env \<Rightarrow> addr \<Rightarrow> kstate \<Rightarrow> (int \<times> kstate) option" where
  "shell_main run env buf s = do {
     s \<leftarrow> puts1 ''Starting 391 Shell\<newline>'' s;
     shell_loop run env 0 buf s }"


section \<open>grep\<close>

text \<open>Element \<open>i\<close> of an array of bytes.\<close>

definition ix :: "addr \<Rightarrow> int \<Rightarrow> addr" where
  "ix a i = nat (int a + i)"

function line_end_from :: "mem \<Rightarrow> addr \<Rightarrow> int \<Rightarrow> int \<Rightarrow> int" where
  "line_end_from m data lst line_end =
     (if line_end < lst \<and> m (ix data line_end) \<noteq> 10
      then line_end_from m data lst (line_end + 1) else line_end)"
  by pat_completeness auto
termination by (relation "measure (\<lambda>(m, d, l, e). nat (l - e))") auto

text \<open>The comparison of the first characters is of a signed \<open>char\<close> and an unsigned byte.\<close>

function search_line ::
  "addr \<Rightarrow> addr \<Rightarrow> addr \<Rightarrow> nat \<Rightarrow> int \<Rightarrow> int \<Rightarrow> int \<Rightarrow> kstate \<Rightarrow> kstate option" where
  "search_line str fname data s_len line_start line_end check s =
     (if check < line_end then
        (if sint (mem s str) = uint (mem s (ix data check)) \<and>
            ece391_strncmp (mem s) (ix data check) str s_len = 0
         then do {
           s \<leftarrow> ece391_fdputs 1 fname s;
           s \<leftarrow> puts1 '':'' s;
           s \<leftarrow> ece391_fdputs 1 (ix data line_start) s;
           puts1 ''\<newline>'' s }
         else search_line str fname data s_len line_start line_end (check + 1) s)
      else Some s)"
  by pat_completeness auto
termination by (relation "measure (\<lambda>(a, b, c, n, ls, le, k, s). nat (le - k))") auto

declare line_end_from.simps [simp del] search_line.simps [simp del]

text \<open>The lines in the buffer; the result is the number of bytes kept for the next round.\<close>

partial_function (option) line_loop ::
  "addr \<Rightarrow> addr \<Rightarrow> addr \<Rightarrow> nat \<Rightarrow> int \<Rightarrow> int \<Rightarrow> int \<Rightarrow> kstate \<Rightarrow> (int \<times> kstate) option" where
  "line_loop str fname data s_len cnt lst line_start s =
     (let line_end = line_end_from (mem s) data lst line_start
      in if mem s (ix data line_end) \<noteq> 10 \<and> 0 \<noteq> cnt \<and> line_start \<noteq> 0 then do {
           m \<leftarrow> ece391_strcpy data (ix data line_start) ((mem s)(ix data line_end := 0));
           Some (lst - line_start, s\<lparr>mem := m\<rparr>) }
         else do {
           let s = s\<lparr>mem := (mem s)(ix data line_end := 0)\<rparr>;
           s \<leftarrow> search_line str fname data s_len line_start line_end line_start s;
           if line_end + 1 \<ge> lst then Some (0, s)
           else line_loop str fname data s_len cnt lst (line_end + 1) s })"

partial_function (option) read_loop ::
  "env \<Rightarrow> nat \<Rightarrow> addr \<Rightarrow> addr \<Rightarrow> addr \<Rightarrow> nat \<Rightarrow> int \<Rightarrow> int \<Rightarrow> kstate \<Rightarrow> (int \<times> nat \<times> kstate) option" where
  "read_loop env k str fname data s_len fd lst s = do {
     (cnt, s) \<leftarrow> ece391_read (env k) fd (ix data lst) (1024 - lst) s;
     if cnt = -1 then do { s \<leftarrow> puts1 ''file read failed\<newline>'' s; Some (-1, k + 1, s) }
     else do {
       (lst, s) \<leftarrow> line_loop str fname data s_len cnt (lst + cnt) 0 s;
       if cnt = 0 then do {
         (r, s) \<leftarrow> ece391_close fd s;
         if r = -1 then do { s \<leftarrow> puts1 ''file close failed\<newline>'' s; Some (-1, k + 1, s) }
         else Some (0, k + 1, s) }
       else read_loop env (k + 1) str fname data s_len fd lst s } }"

definition do_one_file :: "env \<Rightarrow> nat \<Rightarrow> addr \<Rightarrow> addr \<Rightarrow> addr \<Rightarrow> kstate \<Rightarrow> (int \<times> nat \<times> kstate) option" where
  "do_one_file env k str fname data s = do {
     s_len \<leftarrow> ece391_strlen (mem s) str;
     (fd, s) \<leftarrow> ece391_open fname s;
     if fd = -1 then do { s \<leftarrow> puts1 ''file open failed\<newline>'' s; Some (-1, k, s) }
     else read_loop env k str fname data s_len fd 0 s }"

partial_function (option) grep_loop ::
  "env \<Rightarrow> nat \<Rightarrow> addr \<Rightarrow> addr \<Rightarrow> addr \<Rightarrow> int \<Rightarrow> kstate \<Rightarrow> (int \<times> kstate) option" where
  "grep_loop env k search buf data fd s = do {
     (cnt, s) \<leftarrow> ece391_read (env k) fd buf 32 s;
     if cnt = 0 then Some (0, s)
     else if cnt = -1 then do { s \<leftarrow> puts1 ''directory entry read failed\<newline>'' s; Some (3, s) }
     else if mem s buf = 46 then grep_loop env (k + 1) search buf data fd s
     else do {
       let s = set_byte buf cnt 0 s;
       (r, k, s) \<leftarrow> do_one_file env (k + 1) search buf data s;
       if r \<noteq> 0 then Some (3, s) else grep_loop env k search buf data fd s } }"

definition grep_main :: "env \<Rightarrow> addr \<Rightarrow> addr \<Rightarrow> addr \<Rightarrow> kstate \<Rightarrow> (int \<times> kstate) option" where
  "grep_main env search buf data s = do {
     (r, s) \<leftarrow> ece391_getargs search 1024 s;
     if r \<noteq> 0 then do { s \<leftarrow> puts1 ''could not read argument\<newline>'' s; Some (3, s) }
     else do {
       (fd, s) \<leftarrow> ece391_open (rodata s ''.'') s;
       if fd = -1 then do { s \<leftarrow> puts1 ''directory open failed\<newline>'' s; Some (2, s) }
       else grep_loop env 0 search buf data fd s } }"


section \<open>counter\<close>

function count_loop :: "nat \<Rightarrow> addr \<Rightarrow> nat \<Rightarrow> kstate \<Rightarrow> kstate option" where
  "count_loop mx buf i s =
     (if i < mx then do {
        (b, m) \<leftarrow> ece391_itoa (of_nat (i + 1)) buf 10 (mem s);
        s \<leftarrow> ece391_fdputs 1 buf (s\<lparr>mem := m\<rparr>);
        s \<leftarrow> puts1 ''\<newline>'' s;
        count_loop mx buf (i + 1) s }
      else Some s)"
  by pat_completeness auto
termination by (relation "measure (\<lambda>(n, b, i, s). n - i)") auto

declare count_loop.simps [simp del]

definition counter_max :: "u8 \<Rightarrow> nat" where
  "counter_max c = (if c = 48 then 100 else if c = 49 then 10000 else if c = 50 then 100000 else 0)"

definition counter_main :: "env \<Rightarrow> addr \<Rightarrow> kstate \<Rightarrow> (int \<times> kstate) option" where
  "counter_main env buf s = do {
     s \<leftarrow> puts1 ''Enter the Test Number: (0): 100, (1): 10000, (2): 100000\<newline>'' s;
     (cnt, s) \<leftarrow> ece391_read (env 0) 0 buf 1023 s;
     if cnt = -1 then do { s \<leftarrow> puts1 ''Can't read the number from keyboard.\<newline>'' s; Some (3, s) }
     else do {
       let s = set_byte buf cnt 0 s;
       n \<leftarrow> ece391_strlen (mem s) buf;
       if n > 2 \<or> (n = 2 \<and> (mem s buf < 48 \<or> mem s buf > 50)) then do {
         s \<leftarrow> puts1 ''Wrong Choice!\<newline>'' s; Some (0, s) }
       else do { s \<leftarrow> count_loop (counter_max (mem s buf)) buf 0 s; Some (0, s) } } }"


section \<open>pingpong\<close>

text \<open>One picture: the wall characters stay, the inner part is blanked and the ball drawn at
  \<open>j\<close>.  The stores are to \<open>STARTLOOP\<close> (2) up to \<open>LOOPMAX\<close> (78), exclusive.\<close>

definition pingpong_clear :: "addr \<Rightarrow> mem \<Rightarrow> mem" where
  "pingpong_clear buf m = fold (\<lambda>i m. m(buf + i := 32)) [2..<78] m"

definition pingpong_draw :: "interrupts \<Rightarrow> int \<Rightarrow> addr \<Rightarrow> addr \<Rightarrow> u8 \<Rightarrow> nat \<Rightarrow> kstate \<Rightarrow> kstate option" where
  "pingpong_draw hs rtc_fd garbage buf curchar j s = do {
     let s = s\<lparr>mem := (pingpong_clear buf (mem s))(buf + j := curchar)\<rparr>;
     s \<leftarrow> ece391_fdputs 1 buf s;
     (r, s) \<leftarrow> ece391_read hs rtc_fd garbage 4 s;
     Some s }"

fun pingpong_sweep :: "env \<Rightarrow> nat \<Rightarrow> int \<Rightarrow> addr \<Rightarrow> addr \<Rightarrow> u8 \<Rightarrow> nat list \<Rightarrow> kstate \<Rightarrow> kstate option" where
  "pingpong_sweep env k rtc_fd garbage buf curchar [] s = Some s"
| "pingpong_sweep env k rtc_fd garbage buf curchar (j # js) s = do {
     s \<leftarrow> pingpong_draw (env k) rtc_fd garbage buf curchar j s;
     pingpong_sweep env (k + 1) rtc_fd garbage buf curchar js s }"

definition pingpong_init :: "addr \<Rightarrow> mem \<Rightarrow> mem" where
  "pingpong_init buf m =
     (fold (\<lambda>i m. m(buf + i := 32)) [0..<81] m)(buf + 80 := 0, buf + 79 := 10, buf + 78 := 124, buf + 1 := 124)"

text \<open>The first \<open>n\<close> rounds of the endless loop, 76 pictures out and 76 back.\<close>

fun pingpong_rounds :: "nat \<Rightarrow> env \<Rightarrow> nat \<Rightarrow> int \<Rightarrow> addr \<Rightarrow> addr \<Rightarrow> u8 \<Rightarrow> kstate \<Rightarrow> kstate option" where
  "pingpong_rounds 0 env k rtc_fd garbage buf curchar s = Some s"
| "pingpong_rounds (Suc n) env k rtc_fd garbage buf curchar s = do {
     s \<leftarrow> pingpong_sweep env k rtc_fd garbage buf curchar [2..<78] s;
     s \<leftarrow> pingpong_sweep env (k + 76) rtc_fd garbage buf curchar (rev [2..<78]) s;
     pingpong_rounds n env (k + 152) rtc_fd garbage buf (if curchar = 90 then 65 else curchar + 1) s }"

definition pingpong_main :: "nat \<Rightarrow> env \<Rightarrow> addr \<Rightarrow> addr \<Rightarrow> addr \<Rightarrow> kstate \<Rightarrow> kstate option" where
  "pingpong_main n env ret_val garbage buf s = do {
     let s = s\<lparr>mem := pingpong_init buf (mem s)\<rparr>;
     (rtc_fd, s) \<leftarrow> ece391_open (rodata s ''rtc'') s;
     let s = s\<lparr>mem := st32 (mem s) ret_val 32\<rparr>;
     (r, s) \<leftarrow> ece391_write rtc_fd ret_val 4 s;
     pingpong_rounds n env 0 rtc_fd garbage buf 65 (s\<lparr>mem := st32 (mem s) ret_val (of_int r)\<rparr>) }"


section \<open>syserr\<close>

definition call_sys :: "u32 \<Rightarrow> u32 \<Rightarrow> u32 \<Rightarrow> u32 \<Rightarrow> kstate \<Rightarrow> (int \<times> kstate) option" where
  "call_sys num ebx ecx edx s = DO_CALL [] num ebx ecx edx s"

text \<open>The recurring test: a call that does not return -1 sets \<open>fail\<close> and is reported.\<close>

definition must_fail :: "string \<Rightarrow> int \<Rightarrow> int \<times> kstate \<Rightarrow> (int \<times> kstate) option" where
  "must_fail msg fail r = (if fst r \<noteq> -1 then do { s \<leftarrow> puts1 msg (snd r); Some (2, s) } else Some (fail, snd r))"

definition verdict :: "string \<Rightarrow> string \<Rightarrow> int \<Rightarrow> kstate \<Rightarrow> (int \<times> kstate) option" where
  "verdict bad good fail s = do { s \<leftarrow> puts1 (if fail \<noteq> 0 then bad else good) s; Some (fail, s) }"

definition err_neg_fd :: "env \<Rightarrow> addr \<Rightarrow> kstate \<Rightarrow> (int \<times> kstate) option" where
  "err_neg_fd env buf s = do {
     r \<leftarrow> ece391_read (env 0) (-1073741823) buf 31 s;
     (fail, s) \<leftarrow> must_fail ''read fail\<newline>'' 0 r;
     r \<leftarrow> ece391_write (-1073741823) buf 31 s;
     (fail, s) \<leftarrow> must_fail ''write fail\<newline>'' fail r;
     r \<leftarrow> ece391_close (-1073741823) s;
     (fail, s) \<leftarrow> must_fail ''close fail\<newline>'' fail r;
     verdict ''err_neg_fd: FAIL\<newline>'' ''err_neg_fd: PASS\<newline>'' fail s }"

definition err_big_fd :: "env \<Rightarrow> addr \<Rightarrow> kstate \<Rightarrow> (int \<times> kstate) option" where
  "err_big_fd env buf s = do {
     r \<leftarrow> ece391_read (env 0) 1073741823 buf 31 s;
     (fail, s) \<leftarrow> must_fail ''read fail\<newline>'' 0 r;
     r \<leftarrow> ece391_write 1073741823 buf 31 s;
     (fail, s) \<leftarrow> must_fail ''write fail\<newline>'' fail r;
     r \<leftarrow> ece391_close 1073741823 s;
     (fail, s) \<leftarrow> must_fail ''close fail\<newline>'' fail r;
     verdict ''err_big_fd: FAIL\<newline>'' ''err_big_fd: PASS\<newline>'' fail s }"

fun open_times :: "nat \<Rightarrow> int \<Rightarrow> kstate \<Rightarrow> (int \<times> kstate) option" where
  "open_times 0 cnt s = Some (cnt, s)"
| "open_times (Suc n) cnt s = do {
     (fd, s) \<leftarrow> ece391_open (rodata s ''.'') s;
     open_times n (if fd = -1 then cnt + 1 else cnt) s }"

fun close_all :: "int list \<Rightarrow> kstate \<Rightarrow> kstate option" where
  "close_all [] s = Some s"
| "close_all (fd # fds) s = do { (r, s) \<leftarrow> ece391_close fd s; close_all fds s }"

definition err_open_lots :: "kstate \<Rightarrow> (int \<times> kstate) option" where
  "err_open_lots s = do {
     (cnt, s) \<leftarrow> open_times 7 0 s;
     s \<leftarrow> close_all [2, 3, 4, 5, 6, 7] s;
     if cnt = 1 then do { s \<leftarrow> puts1 ''err_open_lots: PASS\<newline>'' s; Some (0, s) }
     else do { s \<leftarrow> puts1 ''err_open_lots: FAIL\<newline>'' s; Some (2, s) } }"

definition err_open :: "kstate \<Rightarrow> (int \<times> kstate) option" where
  "err_open s = do {
     r \<leftarrow> ece391_open (rodata s ''helloo'') s;
     (fail, s) \<leftarrow> must_fail (CHR 0x27 # ''helloo'' @ CHR 0x27 # '' fail\<newline>'') 0 r;
     r \<leftarrow> ece391_open (rodata s ''shel'') s;
     (fail, s) \<leftarrow> must_fail (CHR 0x27 # ''shel'' @ CHR 0x27 # '' fail\<newline>'') fail r;
     r \<leftarrow> ece391_open (rodata s []) s;
     (fail, s) \<leftarrow> must_fail ''empty string fail\<newline>'' fail r;
     verdict ''err_open: FAIL\<newline>'' ''err_open: PASS\<newline>'' fail s }"

fun try_all :: "(int \<Rightarrow> kstate \<Rightarrow> (int \<times> kstate) option) \<Rightarrow> string \<Rightarrow> int list \<Rightarrow> int \<Rightarrow> kstate \<Rightarrow> (int \<times> kstate) option" where
  "try_all call msg [] fail s = Some (fail, s)"
| "try_all call msg (fd # fds) fail s = do {
     r \<leftarrow> call fd s;
     (fail, s) \<leftarrow> must_fail msg fail r;
     try_all call msg fds fail s }"

definition err_unopened :: "env \<Rightarrow> addr \<Rightarrow> kstate \<Rightarrow> (int \<times> kstate) option" where
  "err_unopened env buf s = do {
     (fail, s) \<leftarrow> try_all ece391_close ''close unopened or invalid fd fail\<newline>'' [0, 1, 2, 3, 4, 5, 6, 7] 0 s;
     (fail, s) \<leftarrow> try_all (\<lambda>fd. ece391_read (env (nat fd)) fd buf 31) ''read from unopened fd fail\<newline>'' [2, 3, 4, 5, 6, 7] fail s;
     (fail, s) \<leftarrow> try_all (\<lambda>fd. ece391_write fd buf 31) ''write to unopened fd fail\<newline>'' [2, 3, 4, 5, 6, 7] fail s;
     verdict ''err_unopened: FAIL\<newline>'' ''err_unopened: PASS\<newline>'' fail s }"

definition err_vidmap :: "kstate \<Rightarrow> (int \<times> kstate) option" where
  "err_vidmap s = do {
     r \<leftarrow> ece391_vidmap 0 s;
     (fail, s) \<leftarrow> must_fail ''Null pointer fail\<newline>'' 0 r;
     r \<leftarrow> ece391_vidmap 0x400000 s;
     (fail, s) \<leftarrow> must_fail ''Kernel pointer fail fail\<newline>'' fail r;
     verdict ''err_vidmap: FAIL\<newline>'' ''err_vidmap: PASS\<newline>'' fail s }"

definition err_stdin_out :: "env \<Rightarrow> addr \<Rightarrow> kstate \<Rightarrow> (int \<times> kstate) option" where
  "err_stdin_out env buf s = do {
     r \<leftarrow> ece391_write 0 buf 31 s;
     (fail, s) \<leftarrow> must_fail ''write to stdin fail\<newline>'' 0 r;
     r \<leftarrow> ece391_read (env 0) 1 buf 31 s;
     (fail, s) \<leftarrow> must_fail ''read from stdout fail\<newline>'' fail r;
     verdict ''err_stdin_out: FAIL\<newline>'' ''err_stdin_out: PASS\<newline>'' fail s }"

text \<open>The registers other than \<open>eax\<close> hold whatever the compiler left in them.\<close>

definition err_syscall_num :: "u32 \<Rightarrow> u32 \<Rightarrow> u32 \<Rightarrow> kstate \<Rightarrow> (int \<times> kstate) option" where
  "err_syscall_num ebx ecx edx s = do {
     r \<leftarrow> call_sys (of_int 1073741823) ebx ecx edx s;
     (fail, s) \<leftarrow> must_fail ''syscall 0 fail\<newline>'' 0 r;
     r \<leftarrow> call_sys (of_int (-1073741823)) ebx ecx edx s;
     (fail, s) \<leftarrow> must_fail ''big num syscall fail\<newline>'' fail r;
     r \<leftarrow> call_sys 0 ebx ecx edx s;
     (fail, s) \<leftarrow> must_fail ''neg num syscall fail\<newline>'' fail r;
     verdict ''err_syscall_num: FAIL\<newline>'' ''err_syscall_num: PASS\<newline>'' fail s }"

definition syserr_main :: "env \<Rightarrow> addr \<Rightarrow> addr \<Rightarrow> u32 \<Rightarrow> u32 \<Rightarrow> u32 \<Rightarrow> kstate \<Rightarrow> (int \<times> kstate) option" where
  "syserr_main env buf tbuf ebx ecx edx s = do {
     s \<leftarrow> puts1 ''Choose from tests 1-8. 0 to run all: '' s;
     (cnt, s) \<leftarrow> ece391_read (env 0) 0 buf 127 s;
     if cnt = -1 then do { s \<leftarrow> puts1 (''Can'' @ CHR 0x27 # ''t read test #\<newline>'') s; Some (2, s) }
     else do {
       let sel = uint (mem s buf) - 48;
       let e = (\<lambda>k. env (k + 1));
       if sel = 0 then do {
         (f1, s) \<leftarrow> err_neg_fd e tbuf s;
         (f2, s) \<leftarrow> err_big_fd e tbuf s;
         (f3, s) \<leftarrow> err_open_lots s;
         (f4, s) \<leftarrow> err_open s;
         (f5, s) \<leftarrow> err_unopened e tbuf s;
         (f6, s) \<leftarrow> err_vidmap s;
         (f7, s) \<leftarrow> err_stdin_out e tbuf s;
         (f8, s) \<leftarrow> err_syscall_num ebx ecx edx s;
         let fail = f1 + f2 + f3 + f4 + f5 + f6 + f7 + f8;
         s \<leftarrow> puts1 (if fail \<noteq> 0 then ''\<newline>Overall Tests: FAIL\<newline>'' else ''\<newline>Overall Tests: PASS\<newline>'') s;
         Some (fail, s) }
       else if sel = 1 then err_neg_fd e tbuf s
       else if sel = 2 then err_big_fd e tbuf s
       else if sel = 3 then err_open_lots s
       else if sel = 4 then err_open s
       else if sel = 5 then err_unopened e tbuf s
       else if sel = 6 then err_vidmap s
       else if sel = 7 then err_stdin_out e tbuf s
       else if sel = 8 then err_syscall_num ebx ecx edx s
       else do { s \<leftarrow> puts1 ''Invalid test number. Choose from tests 1-8 or 0'' s; Some (0, s) } } }"

end
