(* ===== verification/User_Calls.thy ===== *)
theory User_Calls
  imports User_Programs Screen
begin

text \<open>
  What a user program may rely on when it makes a system call.  \<open>user_ok\<close> is the situation of a
  running program: a terminal, its own descriptor table with the terminal as descriptor 1, and a file
  system image away from its screen.  The lemmas give the effect of each call on the screen, the
  memory and the descriptors, in terms of the abstract screen and the contents of the files.
\<close>

section \<open>A running program\<close>

definition user_ok :: "kstate \<Rightarrow> bool" where
  "user_ok s \<longleftrightarrow> terms_ok s \<and> fs_ok s \<and> fds_ok s \<and> curr_pcb s = return_pcb_parent (main_process s) \<and>
     f_ops (fd_table s ! 1) = Some terminal_table \<and>
     disjoint_rng (main_page s) 4000 (boot_block s) (fs_size s)"

text \<open>Memory that a program may use as a buffer.\<close>

definition user_buf :: "kstate \<Rightarrow> addr \<Rightarrow> nat \<Rightarrow> bool" where
  "user_buf s buf n \<longleftrightarrow> buf \<noteq> 0 \<and> buf + n < 2 ^ 32 \<and> disjoint_rng (main_page s) 4000 buf n \<and>
     disjoint_rng buf n (boot_block s) (fs_size s)"

lemma user_pcb: "user_ok s \<Longrightarrow> use_main_pcb (sti s) = sti s"
  by (simp add: user_ok_def use_main_pcb_def set_filesys_pcb_def sti_def)

lemma sti_fields [simp]:
  "mem (sti s) = mem s" "pcbs (sti s) = pcbs s" "curr_pcb (sti s) = curr_pcb s" "boot_block (sti s) = boot_block s"
  "FS_START_ADDR (sti s) = FS_START_ADDR s" "arg_buf (sti s) = arg_buf s" "rodata (sti s) = rodata s"
  "main_process (sti s) = main_process s" "save_buf_1 (sti s) = save_buf_1 s" "save_buf_2 (sti s) = save_buf_2 s"
  "save_buf_3 (sti s) = save_buf_3 s"
  by (simp_all add: sti_def)

lemma same_image_sti: "same_image s (sti s)"
  by (simp add: same_image_def)

lemma same_image_filetype:
  assumes "same_image s s'" and "i < 63"
  shows "entry_filetype s' i = entry_filetype s i"
proof -
  have "boot_block s \<le> direntry s i + 32" "direntry s i + 32 + 4 \<le> boot_block s + fs_size s"
    using assms(2) by (simp_all add: direntry_def fs_size_def)
  from same_image_ld32 [OF assms(1) this] show ?thesis
    using assms(1) by (simp add: entry_filetype_def lds32_def direntry_def same_image_def)
qed

text \<open>The predicates after a call: the image, the owner and the table of the process are kept.\<close>

lemma user_ok_step:
  assumes ok: "user_ok s" and k: "alike s s'" "terms_ok s'" and im: "same_image s s'"
    and fd: "length (fd_table s') = 8" "f_ops (fd_table s' ! 1) = Some terminal_table"
  shows "user_ok s'"
  using ok k fd same_image_counts [OF im]
  by (auto simp: user_ok_def alike_def fds_ok_def main_page_def pos_idx_def)

lemma alike_page: "alike s s' \<Longrightarrow> main_page s' = main_page s" "alike s s' \<Longrightarrow> pos_idx t s' = pos_idx t s"
  by (simp_all add: alike_def main_page_def pos_idx_def)

lemma user_buf_step: "alike s s' \<Longrightarrow> same_image s s' \<Longrightarrow> user_buf s' = user_buf s"
  using same_image_counts [of s s'] by (simp add: user_buf_def alike_page fun_eq_iff)

lemma user_ok_kept: "user_ok s \<Longrightarrow> kept s s' \<Longrightarrow> terms_ok s' \<Longrightarrow> same_image s s' \<Longrightarrow> user_ok s'"
  by (rule user_ok_step [of s]) (auto simp: kept_def user_ok_def fds_ok_def alike_def)

lemma same_outside_image:
  assumes "user_ok s" and "kept s s'" and "same_outside (main_page s) (mem s) (mem s')"
  shows "same_image s s'"
  using assms by (auto simp: same_image_def user_ok_def kept_def alike_def same_outside_def disjoint_rng_def)

text \<open>A state with other bytes in a buffer of the program.\<close>

lemma user_blit:
  assumes ok: "user_ok s" and buf: "user_buf s b n" and n: "length xs \<le> n"
  defines "s' \<equiv> s\<lparr>mem := blit (mem s) b xs\<rparr>"
  shows "user_ok s'" "kept s s'" "same_image s s'" "process_screen s' = process_screen s"
proof -
  show k: "kept s s'" by (simp add: s'_def)
  have d: "disjoint_rng b (length xs) (boot_block s) (fs_size s)" "disjoint_rng (main_page s) 4000 b (length xs)"
    using buf n by (auto simp: user_buf_def disjoint_rng_def)
  show im: "same_image s s'" using d(1) by (auto simp: s'_def same_image_def disjoint_rng_def blit_def)
  have "terms_ok s'" using ok by (simp add: user_ok_def s'_def terms_ok_def)
  then show "user_ok s'" by (rule user_ok_kept [OF ok k _ im])
  have "bytes_at (mem s') (main_page s) 4000 = bytes_at (mem s) (main_page s) 4000"
    using d(2) by (simp add: s'_def) (intro bytes_at_blit_other, auto simp: disjoint_rng_def)
  then show "process_screen s' = process_screen s"
    by (simp add: process_screen_def screen_at_def alike_page [OF kept_alike [OF k]]) (simp add: s'_def)
qed


section \<open>Writing\<close>

lemma user_write:
  assumes ok: "user_ok s" and buf: "user_buf s b n" and n: "n < 2 ^ 31"
  shows "\<exists>s'. ece391_write 1 b (int n) s = Some (int n, s') \<and> user_ok s' \<and> kept s s' \<and> same_image s s' \<and>
    same_outside (main_page s) (mem s) (mem s') \<and>
    process_screen s' = fold show_byte (bytes_at (mem s) b n) (process_screen s)"
proof -
  have t: "terms_ok (sti s)" "disjoint_rng (main_page (sti s)) 4000 b n"
    using ok buf by (simp_all add: user_ok_def user_buf_def)
  obtain s' where s': "terminal_write 1 b (int n) (sti s) = Some (int n, s')" "terms_ok s'" "kept (sti s) s'"
    "same_outside (main_page s) (mem s) (mem s')"
    "process_screen s' = fold show_byte (bytes_at (mem s) b n) (process_screen s)"
    using terminal_write_shows [OF t] by auto
  have k: "kept s s'" using s'(3) by (rule kept_trans [OF kept_refl(3)])
  note im = same_outside_image [OF ok k s'(4)]
  have fd: "fd_get 1 (sti s) = Some (fd_table s ! 1)" "f_ops (fd_table s ! 1) = Some terminal_table"
    using ok by (auto simp: user_ok_def fd_get_def fds_ok_def aget_def)
  have "adr32 b" "i32 (int n)" using buf n by (auto simp: user_buf_def)
  then have "ece391_write 1 b (int n) s = system_write 1 b (int n) (sti s)" by (intro call_eq) simp_all
  also have "\<dots> = Some (int n, s')"
    using buf s'(1) fd by (simp add: system_write_def user_pcb [OF ok] user_buf_def)
  finally show ?thesis using user_ok_kept [OF ok k s'(2) im] k im s'(4,5) by blast
qed

lemma user_fdputs:
  assumes ok: "user_ok s" and str: "cstr (mem s) b xs" and buf: "user_buf s b (length xs)" and n: "length xs < 2 ^ 31"
  shows "\<exists>s'. ece391_fdputs 1 b s = Some s' \<and> user_ok s' \<and> kept s s' \<and> same_image s s' \<and>
    same_outside (main_page s) (mem s) (mem s') \<and>
    process_screen s' = fold show_byte xs (process_screen s)"
proof -
  have "bytes_at (mem s) b (length xs) = xs" using str by (simp add: dstr_def)
  then show ?thesis
    using user_write [OF ok buf n] by (auto simp: ece391_fdputs_def ece391_strlen_cstr [OF str])
qed


section \<open>Reading a file\<close>

text \<open>A change of one descriptor other than its operations.\<close>

lemma user_put_fd:
  assumes ok: "user_ok s" and fd: "0 \<le> fd" "fd < 8" "f_ops e = f_ops (fd_table s ! nat fd)"
  shows "user_ok (put_fd fd e s)" "alike s (put_fd fd e s)" "same_image s (put_fd fd e s)"
    "process_screen (put_fd fd e s) = process_screen s"
proof -
  have f: "process_num (put_fd fd e s) = process_num s" "main_process (put_fd fd e s) = main_process s"
    "active_terminal (put_fd fd e s) = active_terminal s" "terminals (put_fd fd e s) = terminals s"
    "arg_buf (put_fd fd e s) = arg_buf s" "rodata (put_fd fd e s) = rodata s" "text_color (put_fd fd e s) = text_color s"
    "save_buf_1 (put_fd fd e s) = save_buf_1 s" "save_buf_2 (put_fd fd e s) = save_buf_2 s" "save_buf_3 (put_fd fd e s) = save_buf_3 s"
    by (simp_all add: put_fd_def)
  show a: "alike s (put_fd fd e s)" by (simp add: alike_def child_ran_def f) (simp add: put_fd_def)
  show im: "same_image s (put_fd fd e s)" by (simp add: same_image_def)
  have "terms_ok (put_fd fd e s)" using ok terms_ok_cong [of "put_fd fd e s" s] by (simp add: user_ok_def f)
  then show "user_ok (put_fd fd e s)"
    by (rule user_ok_step [OF ok a _ im]) (use ok fd in \<open>auto simp: put_fd_def user_ok_def fds_ok_def nth_list_update\<close>)
  show "process_screen (put_fd fd e s) = process_screen s"
    by (simp add: process_screen_def alike_page [OF a] f)
qed

lemma user_read_file:
  fixes n :: nat
  assumes ok: "user_ok s" and buf: "user_buf s b n" "n < 2 ^ 31" and fd: "fd_on s fd ino pos" "f_ops (fd_table s ! nat fd) = Some file_table"
    and ino: "inode_ok s ino" "pos \<le> file_length s ino"
  defines "k \<equiv> min n (file_length s ino - pos)"
  shows "\<exists>s'. ece391_read hs fd b (int n) s = Some (int k, s') \<and> user_ok s' \<and> alike s s' \<and> same_image s s' \<and>
    fd_on s' fd ino (pos + k) \<and> f_ops (fd_table s' ! nat fd) = Some file_table \<and>
    bytes_at (mem s') b k = file_data s ino pos k \<and> process_screen s' = process_screen s"
proof -
  let ?s = "sti s"
  define s1 where "s1 = ?s\<lparr>mem := blit (mem s) b (file_data s ino pos k)\<rparr>"
  define e where "e = (fd_table s ! nat fd)\<lparr>file_pos := int (pos + k)\<rparr>"
  have fd': "0 \<le> fd" "fd < 8" "fds_ok s" using fd(1) by (auto simp: fd_on_def fd_used_def)
  note im0 = same_image_sti [of s]
  have fs: "fs_ok s" using ok by (simp add: user_ok_def)
  note i0 = same_image_inode [OF im0 fs ino(1)] and c0 = same_image_counts [OF im0]
  have ok0: "user_ok ?s" by (rule user_ok_kept [OF ok _ _ im0]) (use ok in \<open>simp_all add: user_ok_def\<close>)
  have buf0: "user_buf ?s b n" using buf(1) by (simp add: user_buf_def c0)
  have len: "length (file_data s ino pos k) \<le> n" by (simp add: k_def)
  have s1: "user_ok s1" "kept ?s s1" "same_image ?s s1" "process_screen s1 = process_screen ?s"
    using user_blit [OF ok0 buf0 len] by (simp_all add: s1_def)
  have ft: "fd_table s1 = fd_table s" by (simp add: s1_def)
  have "f_ops e = f_ops (fd_table s1 ! nat fd)" by (simp add: e_def ft)
  note p = user_put_fd [OF s1(1) fd'(1,2) this]
  have "disjoint_rng b k (boot_block ?s) (fs_size ?s)" using buf0 by (auto simp: user_buf_def disjoint_rng_def k_def)
  moreover have "fd_on ?s fd ino pos" using fd(1) by (simp add: fd_on_def fds_ok_def fd_used_def)
  ultimately have "file_read fd b (int n) ?s = Some (int k, put_fd fd ((fd_table s ! nat fd)\<lparr>file_pos := int (pos + k)\<rparr>)
      (?s\<lparr>mem := blit (mem s) b (file_data ?s ino pos k)\<rparr>))"
    using file_read_eq [of ?s ino fd pos b n] ino(2) i0 c0 fs buf(2) by (simp add: k_def)
  moreover have "file_data ?s ino pos k = file_data s ino pos k"
    by (rule same_image_data [OF im0 fs ino(1)]) (use ino(2) in \<open>simp add: k_def\<close>)
  ultimately have rd: "file_read fd b (int n) ?s = Some (int k, put_fd fd e s1)" by (simp add: e_def s1_def)
  have "adr32 b" "i32 (int n)" "i32 fd" using buf fd' by (auto simp: user_buf_def)
  then have "ece391_read hs fd b (int n) s = system_read hs fd b (int n) ?s" by (intro call_eq) simp_all
  also have "\<dots> = Some (int k, put_fd fd e s1)"
    using buf(1) fd' fd(2) rd by (simp add: system_read_def user_pcb [OF ok] user_buf_def fd_get_def fds_ok_def aget_def)
  moreover have "fd_on (put_fd fd e s1) fd ino (pos + k)" "f_ops (fd_table (put_fd fd e s1) ! nat fd) = Some file_table"
    using fd fd' by (auto simp: fd_on_def fd_used_def put_fd_def s1_def e_def fds_ok_def)
  moreover have "alike s (put_fd fd e s1)"
    using kept_alike [OF kept_refl(3), of s] kept_alike [OF s1(2)] p(2) alike_trans by blast
  moreover have "same_image s (put_fd fd e s1)" using im0 s1(3) p(3) same_image_trans by blast
  moreover have "process_screen (put_fd fd e s1) = process_screen s" using p(4) s1(4) by simp
  moreover have "bytes_at (mem (put_fd fd e s1)) b k = file_data s ino pos k"
    using bytes_at_blit_same [of "mem s" b "file_data s ino pos k"] by (simp add: s1_def)
  ultimately show ?thesis using p(1) by auto
qed

lemma user_sti: "user_ok s \<Longrightarrow> user_ok (sti s)" "alike s (sti s)" "same_image s (sti s)"
proof -
  show "user_ok s \<Longrightarrow> user_ok (sti s)"
    by (rule user_ok_kept [OF _ kept_refl(3) _ same_image_sti]) (auto simp: user_ok_def)
qed (simp_all add: kept_alike same_image_sti)


section \<open>Opening a file\<close>

lemma user_open_file:
  assumes ok: "user_ok s" and name: "cstr (mem s) f xs" "xs \<noteq> []" "length xs \<le> 32" "\<forall>x\<in>set xs. x < 128" "f \<noteq> 0" "adr32 f"
    and look: "lookup_name xs s = Some d" "entry_filetype s d = 2" "entry_inode s d = int ino"
    and fd: "first_free s = Some i" "fd_used s 1" "\<forall>j<8. fd_used s (int j) \<longrightarrow> inode_num (fd_table s ! j) \<noteq> int ino"
  shows "\<exists>s'. ece391_open f s = Some (int i, s') \<and> user_ok s' \<and> alike s s' \<and> same_image s s' \<and> mem s' = mem s \<and>
    fd_on s' (int i) ino 0 \<and> f_ops (fd_table s' ! i) = Some file_table \<and> process_screen s' = process_screen s"
proof -
  let ?s = "sti s"
  have pcb: "use_main_pcb ?s = ?s" by (rule user_pcb [OF ok])
  note im0 = same_image_sti [of s]
  have u: "fds_ok ?s = fds_ok s" "fd_used ?s = fd_used s" "first_free ?s = first_free s"
    by (simp_all add: fds_ok_def fd_used_def first_free_def fun_eq_iff)
  have e: "entry_filetype ?s d = 2" "lookup_name xs ?s = Some d" "entry_inode ?s d = int ino"
    using look by (simp_all add: entry_filetype_def entry_inode_def lookup_name_def entry_name_def direntry_def)
  have "fds_ok s" using ok by (simp add: user_ok_def)
  then obtain s' ent c where s': "system_open f ?s = Some (int i, s')" "fd_on s' (int i) ino 0"
    "f_ops (fd_table s' ! i) = Some file_table" "same_image ?s s'" "mem s' = mem s"
    "s' = put_fd (int i) ent (?s\<lparr>cur_dentry := c\<rparr>)"
    using system_open_file [of ?s i f xs d ino] name look(2) e fd u pcb by auto
  have i: "i < 8" "\<not> fd_used s (int i)" using first_free_Some [OF fd(1)] by simp_all
  with fd(2) have i1: "i \<noteq> 1" by auto
  have al: "alike s s'" unfolding s'(6) by (simp add: alike_def child_ran_def put_fd_def sti_def)
  have im: "same_image s s'" using im0 s'(4) by (rule same_image_trans)
  have tm: "terminals s' = terminals s" unfolding s'(6) by (simp add: put_fd_def sti_def)
  have "terms_ok s'" using ok terms_ok_cong [of s' s] tm al by (simp add: user_ok_def alike_def)
  then have "user_ok s'"
    by (rule user_ok_step [OF ok al _ im]) (use ok i1 in \<open>auto simp: s'(6) put_fd_def user_ok_def fds_ok_def\<close>)
  moreover have "process_screen s' = process_screen s"
    using al by (simp add: process_screen_def alike_page [OF al] tm s'(5)) (simp add: alike_def)
  moreover have "ece391_open f s = Some (int i, s')" using call_eq(3) [OF name(6)] s'(1) by simp
  ultimately show ?thesis using s' al im by blast
qed


section \<open>Arguments\<close>

lemma user_getargs:
  assumes ok: "user_ok s" and buf: "user_buf s b 1024" and arg: "cstr (mem s) (arg_buf s) xs" "xs \<noteq> []" "length xs < 1024"
    and place: "b \<le> arg_buf s \<or> arg_buf s + length xs < b"
  obtains s1 where "ece391_getargs b 1024 s = Some (0, s1)" "user_ok s1" "kept s s1" "same_image s s1"
    "mem s1 = blit (mem s) b (xs @ [0])" "process_screen s1 = process_screen s"
proof -
  have b: "adr32 b" "b \<noteq> 0" using buf by (auto simp: user_buf_def)
  note st = user_sti(1) [OF ok] user_sti(2,3) [of s]
  define s1 where "s1 = (sti s)\<lparr>mem := blit (mem s) b (xs @ [0])\<rparr>"
  have "ece391_getargs b 1024 s = system_getargs b 1024 (sti s)" by (rule call_eq) (use b in simp_all)
  also have "\<dots> = Some (0, s1)"
    using system_getargs_eq [of "sti s" xs b 1024] arg place b by (simp add: s1_def)
  finally have ga: "ece391_getargs b 1024 s = Some (0, s1)" .
  have s1: "user_ok s1" "kept (sti s) s1" "same_image (sti s) s1" "process_screen s1 = process_screen (sti s)"
    using user_blit [OF st(1), of b 1024 "xs @ [0]"] buf user_buf_step [OF st(2,3)] arg(3) by (simp_all add: s1_def)
  have "same_image s s1" using st(3) s1(3) by (rule same_image_trans)
  moreover have "kept s s1" using kept_refl(3) s1(2) by (rule kept_trans)
  moreover have "mem s1 = blit (mem s) b (xs @ [0])" "process_screen s1 = process_screen s" using s1(4) by (simp_all add: s1_def)
  ultimately show thesis by (intro that [OF ga s1(1)])
qed

end
