(* ===== verification/User_Cat.thy ===== *)
theory User_Cat
  imports User_Calls
begin

text \<open>
  The programs on top of the calls: \<open>cat\<close> prints exactly the bytes of the file it is given.
\<close>

section \<open>cat\<close>

lemma cat_loop_prints:
  assumes "user_ok s" "user_buf s b 1024" "fd_on s fd ino pos" "f_ops (fd_table s ! nat fd) = Some file_table"
    and "inode_ok s ino" "pos \<le> file_length s ino"
  shows "\<exists>s'. cat_loop env k fd b s = Some (0, s') \<and> user_ok s' \<and> alike s s' \<and> same_image s s' \<and>
    process_screen s' = fold show_byte (file_data s ino pos (file_length s ino - pos)) (process_screen s)"
  using assms
proof (induction "file_length s ino - pos" arbitrary: s pos k rule: less_induct)
  case less
  note ok = less.prems(1) and buf = less.prems(2) and pos = less.prems(6)
  let ?L = "file_length s ino"
  let ?n = "min 1024 (?L - pos)"
  obtain s1 where s1: "ece391_read (env k) fd b 1024 s = Some (int ?n, s1)" "user_ok s1" "alike s s1" "same_image s s1"
    "fd_on s1 fd ino (pos + ?n)" "f_ops (fd_table s1 ! nat fd) = Some file_table"
    "bytes_at (mem s1) b ?n = file_data s ino pos ?n" "process_screen s1 = process_screen s"
    using user_read_file [of s b 1024 fd ino pos "env k"] less.prems by auto
  have fs: "fs_ok s" using ok by (simp add: user_ok_def)
  note i1 = same_image_inode [OF s1(4) fs less.prems(5)]
  show ?case
  proof (cases "?n = 0")
    case True
    then have "?L - pos = 0" by auto
    with True s1 show ?thesis by (subst cat_loop.simps) (simp add: file_data_def)
  next
    case False
    have b1: "user_buf s1 b ?n"
      using buf user_buf_step [OF s1(3,4)] by (auto simp: user_buf_def disjoint_rng_def)
    have n31: "?n < 2 ^ 31" by simp
    obtain s2 where s2: "ece391_write 1 b (int ?n) s1 = Some (int ?n, s2)" "user_ok s2" "kept s1 s2" "same_image s1 s2"
      "process_screen s2 = fold show_byte (bytes_at (mem s1) b ?n) (process_screen s1)"
      using user_write [OF s1(2) b1 n31] by auto
    have im: "same_image s s2" using s1(4) s2(4) by (rule same_image_trans)
    have al: "alike s s2" using s1(3) kept_alike [OF s2(3)] by (rule alike_trans)
    note i2 = same_image_inode [OF im fs less.prems(5)]
    have fd2: "fd_on s2 fd ino (pos + ?n)" "f_ops (fd_table s2 ! nat fd) = Some file_table"
      using s1(5,6) s2(3) by (simp_all add: fd_on_def fd_used_def fds_ok_def kept_def alike_def)
    have "\<exists>s'. cat_loop env (k + 1) fd b s2 = Some (0, s') \<and> user_ok s' \<and> alike s2 s' \<and> same_image s2 s' \<and>
      process_screen s' = fold show_byte (file_data s2 ino (pos + ?n) (file_length s2 ino - (pos + ?n))) (process_screen s2)"
      by (rule less.hyps [OF _ s2(2) _ fd2])
         (use False pos i2 buf user_buf_step [OF al im] in \<open>auto\<close>)
    then obtain s' where s': "cat_loop env (k + 1) fd b s2 = Some (0, s')" "alike s2 s'" "same_image s2 s'"
      "process_screen s' = fold show_byte (file_data s2 ino (pos + ?n) (?L - (pos + ?n))) (process_screen s2)" "user_ok s'"
      by (auto simp: i2(1))
    have "file_data s2 ino (pos + ?n) (?L - (pos + ?n)) = file_data s ino (pos + ?n) (?L - (pos + ?n))"
      by (rule same_image_data [OF im fs less.prems(5)]) (use pos in simp)
    moreover have "file_data s ino pos (?L - pos) = file_data s ino pos ?n @ file_data s ino (pos + ?n) (?L - (pos + ?n))"
    proof -
      have "?L - pos = ?n + (?L - (pos + ?n))" by simp
      then show ?thesis by (metis file_data_append)
    qed
    ultimately have "process_screen s' = fold show_byte (file_data s ino pos (?L - pos)) (process_screen s)"
      using s'(4) s2(5) s1(7,8) by simp
    moreover have "cat_loop env k fd b s = Some (0, s')"
      using False s1(1) s2(1) s'(1) by (subst cat_loop.simps) (simp add: min_def split: if_splits)
    ultimately show ?thesis
      using alike_trans [OF al s'(2)] same_image_trans [OF im s'(3)] s'(5) by blast
  qed
qed

lemma cat_main_prints:
  assumes ok: "user_ok s" and buf: "user_buf s b 1024" and arg: "cstr (mem s) (arg_buf s) xs" "xs \<noteq> []" "length xs \<le> 32" "\<forall>x\<in>set xs. x < 128"
    and place: "b \<le> arg_buf s \<or> arg_buf s + length xs < b"
    and look: "lookup_name xs s = Some d" "entry_filetype s d = 2" "entry_inode s d = int ino" "inode_ok s ino"
    and fd: "first_free s = Some i" "fd_used s 1" "\<forall>j<8. fd_used s (int j) \<longrightarrow> inode_num (fd_table s ! j) \<noteq> int ino"
  shows "\<exists>s'. cat_main env b s = Some (0, s') \<and> user_ok s' \<and> alike s s' \<and> same_image s s' \<and>
    process_screen s' = fold show_byte (file_data s ino 0 (file_length s ino)) (process_screen s)"
proof -
  have b: "adr32 b" "b \<noteq> 0" using buf by (auto simp: user_buf_def)
  obtain s1 where ga: "ece391_getargs b 1024 s = Some (0, s1)" and s1: "user_ok s1" "kept s s1"
    and im1: "same_image s s1" and m1: "mem s1 = blit (mem s) b (xs @ [0])" and scr1: "process_screen s1 = process_screen s"
    by (rule user_getargs [OF ok buf arg(1,2) _ place]) (use arg(3) in auto)
  have al1: "alike s s1" using s1(2) by (rule kept_alike)
  note l1 = same_image_lookup [OF im1]
  have nm: "cstr (mem s1) b xs" using dstr_blit [of 0 xs "mem s" b] arg(1) by (simp add: m1 dstr_def)
  have "curr_pcb s1 = curr_pcb s" "pcbs s1 = pcbs s" using s1(2) by (simp_all add: kept_def alike_def)
  then have fd1: "first_free s1 = first_free s" "fd_used s1 = fd_used s" "fd_table s1 = fd_table s"
    by (simp_all add: first_free_def fd_used_def fun_eq_iff)
  have fs: "fs_ok s" using ok by (simp add: user_ok_def)
  have d: "d < 63" using look(1) by (auto simp: lookup_name_def find_Some_iff)
  obtain s2 where s2: "ece391_open b s1 = Some (int i, s2)" "user_ok s2" "alike s1 s2" "same_image s1 s2" "mem s2 = mem s1"
    "fd_on s2 (int i) ino 0" "f_ops (fd_table s2 ! i) = Some file_table" "process_screen s2 = process_screen s1"
    using user_open_file [OF s1(1) nm arg(2-4), of d ino i] b l1 look same_image_filetype [OF im1 d] d fd by (auto simp: fd1)
  have im2: "same_image s s2" using im1 s2(4) by (rule same_image_trans)
  have al2: "alike s s2" using al1 s2(3) by (rule alike_trans)
  note i2 = same_image_inode [OF im2 fs look(4)]
  have ft: "f_ops (fd_table s2 ! nat (int i)) = Some file_table" using s2(7) by simp
  have "user_buf s2 b 1024" using buf user_buf_step [OF al2 im2] by simp
  then obtain s' where s': "cat_loop env 0 (int i) b s2 = Some (0, s')"
    "process_screen s' = fold show_byte (file_data s2 ino 0 (file_length s ino)) (process_screen s2)"
    "user_ok s'" "alike s2 s'" "same_image s2 s'"
    using cat_loop_prints [OF s2(2) _ s2(6) ft i2(3), of b env 0] i2(1) by auto
  have "file_data s2 ino 0 (file_length s ino) = file_data s ino 0 (file_length s ino)"
    by (rule same_image_data [OF im2 fs look(4)]) simp
  moreover have "cat_main env b s = Some (0, s')" using ga s2(1) s'(1) by (simp add: cat_main_def)
  ultimately show ?thesis using s' s2(8) scr1 alike_trans [OF al2 s'(4)] same_image_trans [OF im2 s'(5)] by simp
qed

end
