(* ===== verification/User_Dir.thy ===== *)
theory User_Dir
  imports User_Cat
begin

text \<open>
  Directories from a program's side: opening \<open>.\<close>, reading the entries, and \<open>ls\<close>, which prints
  every name of the directory on a line of its own.
\<close>

section \<open>Opening and reading the directory\<close>

text \<open>A directory whose names can be read: up to 63 entries, no empty name, every name (and the entry
  after the last one) terminated inside the image.\<close>

definition dir_ok :: "kstate \<Rightarrow> bool" where
  "dir_ok s \<longleftrightarrow> 0 \<le> dir_count s \<and> dir_count s \<le> 63 \<and>
     (\<forall>k \<le> nat (dir_count s). direntry s k + 32 \<le> boot_block s + fs_size s \<and>
        (\<exists>n < 2 ^ 32. strlen (mem s) (direntry s k) = Some n \<and> direntry s k + n < boot_block s + fs_size s)) \<and>
     (\<forall>k < nat (dir_count s). entry_name s k \<noteq> [])"

lemma same_image_name: "same_image s s' \<Longrightarrow> direntry s k + 32 \<le> boot_block s + fs_size s \<Longrightarrow>
  entry_name s' k = entry_name s k \<and> direntry s' k = direntry s k"
proof -
  assume im: "same_image s s'" and k: "direntry s k + 32 \<le> boot_block s + fs_size s"
  have d: "direntry s' k = direntry s k" using im by (simp add: same_image_def direntry_def)
  have "bytes_at (mem s') (direntry s k) 32 = bytes_at (mem s) (direntry s k) 32"
    by (rule bytes_at_eqI) (use im k in \<open>auto simp: same_image_def direntry_def\<close>)
  then show ?thesis by (simp add: entry_name_def d)
qed

lemma same_image_strlen:
  assumes im: "same_image s s'" and n: "strlen (mem s) (direntry s k) = Some n" "direntry s k + n < boot_block s + fs_size s"
  shows "strlen (mem s') (direntry s k) = Some n"
proof -
  have "cstr (mem s) (direntry s k) (bytes_at (mem s) (direntry s k) n)" using n(1) by (simp add: strlen_Some_iff)
  then have "cstr (mem s') (direntry s k) (bytes_at (mem s) (direntry s k) n)"
    by (rule dstr_cong) (use im n(2) in \<open>auto simp: same_image_def direntry_def\<close>)
  from strlen_cstr [OF this] show ?thesis by simp
qed

lemma same_image_dir:
  assumes im: "same_image s s'" and ok: "dir_ok s"
  shows "dir_ok s'" "dir_count s' = dir_count s" "k < nat (dir_count s) \<Longrightarrow> entry_name s' k = entry_name s k"
proof -
  note c = same_image_counts [OF im] and nm = same_image_name [OF im]
  show dc: "dir_count s' = dir_count s" by (rule c)
  show "k < nat (dir_count s) \<Longrightarrow> entry_name s' k = entry_name s k"
    using ok nm by (simp add: dir_ok_def)
  show "dir_ok s'"
    unfolding dir_ok_def dc
  proof (intro conjI allI impI)
    fix k assume k: "k \<le> nat (dir_count s)"
    with ok obtain n where n: "n < 2 ^ 32" "strlen (mem s) (direntry s k) = Some n" "direntry s k + n < boot_block s + fs_size s"
      "direntry s k + 32 \<le> boot_block s + fs_size s" unfolding dir_ok_def by blast
    then show "direntry s' k + 32 \<le> boot_block s' + fs_size s'" using nm c by simp
    show "\<exists>n<2 ^ 32. strlen (mem s') (direntry s' k) = Some n \<and> direntry s' k + n < boot_block s' + fs_size s'"
      using n nm [of k] c same_image_strlen [OF im n(2,3)] by (intro exI [of _ n]) simp
  next
    fix k assume "k < nat (dir_count s)"
    with ok nm [of k] show "entry_name s' k \<noteq> []" by (simp add: dir_ok_def)
  qed (use ok in \<open>simp_all add: dir_ok_def\<close>)
qed

text \<open>A descriptor that is open on the directory, at entry \<open>pos\<close>.\<close>

definition dir_on :: "kstate \<Rightarrow> int \<Rightarrow> nat \<Rightarrow> bool" where
  "dir_on s fd pos \<longleftrightarrow> fds_ok s \<and> fd_used s fd \<and> f_ops (fd_table s ! nat fd) = Some dir_table \<and>
     file_pos (fd_table s ! nat fd) = int pos"

lemma user_read_dir:
  assumes ok: "user_ok s" and buf: "user_buf s b 32" and dir: "dir_ok s" and fd: "dir_on s fd pos" and pos: "int pos \<le> dir_count s"
  shows "\<exists>s'. ece391_read hs fd b 32 s = Some (if int pos < dir_count s then int (length (entry_name s pos)) else 0, s') \<and>
    user_ok s' \<and> alike s s' \<and> same_image s s' \<and> process_screen s' = process_screen s \<and>
    (int pos < dir_count s \<longrightarrow> dir_on s' fd (pos + 1) \<and> bytes_at (mem s') b (length (entry_name s pos)) = entry_name s pos)"
proof -
  let ?s = "sti s"
  let ?name = "entry_name s pos"
  note st = user_sti(1) [OF ok] user_sti(2,3) [of s]
  note c0 = same_image_counts [OF st(3)]
  have fd': "0 \<le> fd" "fd < 8" "fds_ok s" "fd_used s fd" "f_ops (fd_table s ! nat fd) = Some dir_table"
    "file_pos (fd_table s ! nat fd) = int pos" using fd by (auto simp: dir_on_def fd_used_def)
  have p: "pos \<le> nat (dir_count s)" using pos by simp
  then obtain n where n: "n < 2 ^ 32" "strlen (mem s) (direntry s pos) = Some n"
    and in_im: "direntry s pos + 32 \<le> boot_block s + fs_size s"
    using dir unfolding dir_ok_def by blast
  have nm: "entry_name ?s pos = ?name" "direntry ?s pos = direntry s pos"
    using same_image_name [OF st(3) in_im] by simp_all
  have len: "length ?name \<le> 32" by (rule length_entry_name)
  define s1 where "s1 = ?s\<lparr>mem := blit (mem s) b ?name\<rparr>"
  have buf0: "user_buf ?s b 32" using buf user_buf_step [OF st(2,3)] by simp
  have s1: "user_ok s1" "kept ?s s1" "same_image ?s s1" "process_screen s1 = process_screen ?s"
    using user_blit [OF st(1) buf0 len] by (simp_all add: s1_def)
  have im1: "same_image s s1" using st(3) s1(3) by (rule same_image_trans)
  have al1: "alike s s1" using st(2) kept_alike [OF s1(2)] by (rule alike_trans)
  define e where "e = (fd_table s ! nat fd)\<lparr>file_pos := int pos + 1\<rparr>"
  have "f_ops e = f_ops (fd_table s1 ! nat fd)" by (simp add: e_def s1_def)
  note pf = user_put_fd [OF s1(1) fd'(1,2) this]
  have "disjoint_rng b 32 (direntry s pos) 32"
    using buf in_im by (auto simp: user_buf_def disjoint_rng_def direntry_def)
  then have rd: "dir_read fd b 32 ?s = Some (if int pos < dir_count s then (int (length ?name), put_fd fd e s1) else (0, s1))"
    using dir_read_eq [of ?s fd pos n 32 b] fd' n nm c0 len
    by (simp add: fds_ok_def fd_used_def s1_def e_def)
  have "adr32 b" "i32 fd" using buf fd' by (auto simp: user_buf_def)
  then have "ece391_read hs fd b 32 s = system_read hs fd b 32 ?s" by (intro call_eq) simp_all
  also have "\<dots> = dir_read fd b 32 ?s"
    using buf fd' by (simp add: system_read_def user_pcb [OF ok] user_buf_def fd_get_def fds_ok_def aget_def)
  finally have call: "ece391_read hs fd b 32 s = Some (if int pos < dir_count s then (int (length ?name), put_fd fd e s1) else (0, s1))"
    using rd by simp
  show ?thesis
  proof (cases "int pos < dir_count s")
    case True
    have "dir_on (put_fd fd e s1) fd (pos + 1)"
      using fd' by (auto simp: dir_on_def fd_used_def put_fd_def s1_def e_def fds_ok_def)
    moreover have "bytes_at (mem (put_fd fd e s1)) b (length ?name) = ?name"
      using bytes_at_blit_same [of "mem s" b ?name] by (simp add: s1_def)
    moreover have "alike s (put_fd fd e s1)" "same_image s (put_fd fd e s1)"
      using al1 pf(2) alike_trans im1 pf(3) same_image_trans by blast+
    ultimately show ?thesis using True call pf(1,4) s1(4) by simp
  next
    case False
    with call s1 al1 im1 show ?thesis by simp
  qed
qed


section \<open>ls\<close>

lemma set_byte_blit: "set_byte b (int k) c s = s\<lparr>mem := blit (mem s) (b + k) [c]\<rparr>"
  by (simp add: set_byte_def blit_single nat_int_add)

definition listing :: "kstate \<Rightarrow> nat \<Rightarrow> u8 list" where
  "listing s pos = concat (map (\<lambda>k. entry_name s k @ [10]) [pos..<nat (dir_count s)])"

lemma ls_loop_prints:
  assumes "user_ok s" "user_buf s b 33" "dir_ok s" "dir_on s fd pos" "int pos \<le> dir_count s"
  shows "\<exists>s'. ls_loop env k fd b s = Some (0, s') \<and> process_screen s' = fold show_byte (listing s pos) (process_screen s)"
  using assms
proof (induction "nat (dir_count s) - pos" arbitrary: s pos k)
  case 0
  then have "\<not> int pos < dir_count s" by simp
  moreover have "user_buf s b 32" using 0(3) by (auto simp: user_buf_def disjoint_rng_def)
  ultimately obtain s' where "ece391_read (env k) fd b 32 s = Some (0, s')" "process_screen s' = process_screen s"
    using user_read_dir [of s b fd pos "env k"] 0 by auto
  then show ?case using 0 by (subst ls_loop.simps) (simp add: listing_def)
next
  case (Suc x)
  let ?name = "entry_name s pos"
  let ?n = "length ?name"
  have more: "int pos < dir_count s" using Suc(2) by simp
  have b32: "user_buf s b 32" using Suc(4) by (auto simp: user_buf_def disjoint_rng_def)
  obtain s1 where s1: "ece391_read (env k) fd b 32 s = Some (int ?n, s1)" "user_ok s1" "alike s s1" "same_image s s1"
    "process_screen s1 = process_screen s" "dir_on s1 fd (pos + 1)" "bytes_at (mem s1) b ?n = ?name"
    using user_read_dir [OF Suc(3) b32 Suc(5-7), of "env k"] more by auto
  have len: "?n \<le> 32" by (rule length_entry_name)
  have n0: "?n \<noteq> 0" using Suc(5) more by (simp add: dir_ok_def)
  define s2 where "s2 = set_byte b (int ?n) 10 s1"
  have b1: "user_buf s1 b 33" using Suc(4) user_buf_step [OF s1(3,4)] by simp
  then have "user_buf s1 (b + ?n) 1" using len by (auto simp: user_buf_def disjoint_rng_def)
  from user_blit [OF s1(2) this, of "[10]"] have s2: "user_ok s2" "kept s1 s2" "same_image s1 s2" "process_screen s2 = process_screen s1"
    by (simp_all add: s2_def set_byte_blit)
  have out: "bytes_at (mem s2) b (?n + 1) = ?name @ [10]"
  proof -
    have "bytes_at (blit (mem s1) (b + ?n) [10]) b ?n = bytes_at (mem s1) b ?n"
      by (rule bytes_at_blit_other) (simp add: disjoint_rng_def)
    moreover have "bytes_at m b (?n + 1) = bytes_at m b ?n @ [m (b + ?n)]" for m by (simp add: bytes_at_def)
    ultimately show ?thesis using s1(7) by (simp only: s2_def set_byte_blit) (simp add: blit_single)
  qed
  have "user_buf s2 b (?n + 1)"
    using b1 len user_buf_step [OF kept_alike [OF s2(2)] s2(3)] by (auto simp: user_buf_def disjoint_rng_def)
  then obtain s3 where s3: "ece391_write 1 b (int (?n + 1)) s2 = Some (int (?n + 1), s3)" "user_ok s3" "kept s2 s3" "same_image s2 s3"
    "process_screen s3 = fold show_byte (?name @ [10]) (process_screen s2)"
    using user_write [OF s2(1), of b "?n + 1"] len out by auto
  have im: "same_image s s3" using s1(4) s2(3) s3(4) same_image_trans by blast
  have al: "alike s s3" using s1(3) kept_alike [OF s2(2)] kept_alike [OF s3(3)] alike_trans by blast
  note d = same_image_dir [OF im Suc(5)]
  have fd3: "dir_on s3 fd (pos + 1)"
    using s1(6) s2(2) s3(3) by (simp add: dir_on_def fds_ok_def fd_used_def kept_def alike_def)
  have "\<exists>s'. ls_loop env (k + 1) fd b s3 = Some (0, s') \<and> process_screen s' = fold show_byte (listing s3 (pos + 1)) (process_screen s3)"
    by (rule Suc(1) [OF _ s3(2) _ d(1) fd3])
       (use Suc(2,4) more d(2) user_buf_step [OF al im] in auto)
  then obtain s' where s': "ls_loop env (k + 1) fd b s3 = Some (0, s')"
    "process_screen s' = fold show_byte (listing s3 (pos + 1)) (process_screen s3)" by blast
  have "listing s3 (pos + 1) = listing s (pos + 1)"
    unfolding listing_def d(2) by (rule arg_cong [where f = concat], rule map_cong) (simp_all add: d(3))
  moreover have "listing s pos = ?name @ [10] @ listing s (pos + 1)"
    using more by (simp add: listing_def upt_conv_Cons)
  moreover have "ls_loop env k fd b s = Some (0, s')"
    using s1(1) n0 s3(1) s'(1) by (subst ls_loop.simps) (simp add: s2_def [symmetric] add.commute)
  ultimately show ?case using s'(2) s3(5) s2(4) s1(5) by simp
qed

lemma dir_open_fill:
  assumes name: "cstr (mem s) f [46]" "f \<noteq> 0" and dot: "entry_name s 0 = [46]" "entry_filetype s 0 = 1"
  shows "dir_open f s = fill_slot (\<lambda>e. e\<lparr>inode_num := entry_inode s 0\<rparr>) 0 (s\<lparr>cur_dentry := read_entry s 0 (cur_dentry s)\<rparr>)"
proof -
  let ?s1 = "s\<lparr>cur_dentry := read_entry s 0 (cur_dentry s)\<rparr>"
  have look: "lookup_name [46] s = Some 0" using dot(1) by (simp add: lookup_name_def upt_rec [of 0])
  have ld: "load_cur_dentry f s = Some (0, ?s1)"
    using read_dentry_by_name_lookup [OF name(1)] name(2) look by (simp add: load_cur_dentry_def)
  have "cstr (mem s) (direntry s 0) [46]"
  proof -
    have "bytes_at (mem s) (direntry s 0) 32 =
        mem s (direntry s 0) # mem s (Suc (direntry s 0)) # bytes_at (mem s) (Suc (Suc (direntry s 0))) 30"
      using bytes_at_Suc [of "mem s" "direntry s 0" 31] bytes_at_Suc [of "mem s" "Suc (direntry s 0)" 30] by simp
    with dot(1) show ?thesis by (auto simp: entry_name_def dstr_Cons split: if_splits)
  qed
  then have "strncmp (mem s) (direntry s 0) f 32 = 0" using strncmp_cstr_zero_iff [OF _ name(1)] by simp
  then show ?thesis using ld dot(2) by (simp add: dir_open_def read_entry_def)
qed

lemma dir_open_slot:
  assumes name: "cstr (mem s) f [46]" "f \<noteq> 0" and dot: "entry_name s 0 = [46]" "entry_filetype s 0 = 1" and fd: "fds_ok s"
  shows "dir_open f s = (case first_free s of
      None \<Rightarrow> Some (-1, s\<lparr>cur_dentry := read_entry s 0 (cur_dentry s)\<rparr>)
    | Some i \<Rightarrow> Some (int i, put_fd (int i) ((fd_table s ! i)\<lparr>flags := 1, inode_num := entry_inode s 0\<rparr>)
        (s\<lparr>cur_dentry := read_entry s 0 (cur_dentry s)\<rparr>)))"
proof -
  let ?s1 = "s\<lparr>cur_dentry := read_entry s 0 (cur_dentry s)\<rparr>"
  have st: "same_table s ?s1" by (simp add: same_table_def)
  show ?thesis
    unfolding dir_open_fill [OF name dot] using fill_slot_eq [of ?s1] fd
    by (simp add: same_table_used [OF st] split: option.split)
qed

text \<open>\<open>dir_open\<close> does not reset the position: a slot that was left at entry \<open>pos\<close> goes on there.\<close>

lemma user_open_dir:
  assumes ok: "user_ok s" and name: "cstr (mem s) f [46]" "f \<noteq> 0" "adr32 f"
    and dot: "entry_name s 0 = [46]" "entry_filetype s 0 = 1" and fd: "first_free s = Some i" "fd_used s 1"
  shows "\<exists>s'. ece391_open f s = Some (int i, s') \<and> user_ok s' \<and> alike s s' \<and> same_image s s' \<and> mem s' = mem s \<and>
    (file_pos (fd_table s ! i) = int pos \<longrightarrow> dir_on s' (int i) pos) \<and>
    (\<forall>j. fd_used s' j \<longleftrightarrow> j = int i \<or> fd_used s j) \<and> process_screen s' = process_screen s"
proof -
  let ?s = "sti s"
  let ?c = "read_entry ?s 0 (cur_dentry ?s)"
  have pcb: "use_main_pcb ?s = ?s" by (rule user_pcb [OF ok])
  have u: "fds_ok ?s = fds_ok s" "fd_used ?s = fd_used s" "first_free ?s = first_free s"
    by (simp_all add: fds_ok_def fd_used_def first_free_def fun_eq_iff)
  have e: "entry_filetype ?s 0 = 1" "entry_name ?s 0 = [46]"
    using dot by (simp_all add: entry_filetype_def entry_name_def direntry_def)
  have ok8: "fds_ok s" using ok by (simp add: user_ok_def)
  have i: "i < 8" "\<not> fd_used s (int i)" using first_free_Some [OF fd(1)] by simp_all
  with fd(2) have i1: "i \<noteq> 1" by auto
  define ent where "ent = (fd_table s ! i)\<lparr>flags := 1, inode_num := entry_inode ?s 0\<rparr>"
  define s1 where "s1 = ?s\<lparr>cur_dentry := ?c\<rparr>"
  define s' where "s' = put_fd (int i) (ent\<lparr>f_ops := Some dir_table\<rparr>) s1"
  have fd1: "fds_ok s1" using ok8 by (simp add: s1_def fds_ok_def)
  have "lookup_name [46] ?s = Some 0" using e(2) by (simp add: lookup_name_def upt_rec [of 0])
  then have gf: "get_filetype f ?s = Some 1"
    using get_filetype_lookup [of ?s f "[46]"] name e by simp
  have do: "dir_open f ?s = Some (int i, put_fd (int i) ent s1)"
    using dir_open_slot [of ?s f] ok8 fd(1) name e u by (simp add: ent_def s1_def)
  have "set_f_ops (int i) dir_table (put_fd (int i) ent s1) = Some s'"
    using fd1 i fd_table_put_nat [OF fd1 i(1)] by (simp add: set_f_ops_def fd_get_ok fd_set_ok s'_def)
  then have "ece391_open f s = Some (int i, s')"
    using call_eq(3) [OF name(3)] gf do by (simp add: system_open_def pcb)
  moreover have "file_pos (fd_table s ! i) = int pos \<longrightarrow> dir_on s' (int i) pos"
    using fd1 i fd_table_put_nat [OF fd1 i(1)] by (simp add: dir_on_def s'_def fd_used_put ent_def)
  moreover have "\<forall>j. fd_used s' j \<longleftrightarrow> j = int i \<or> fd_used s j"
    using fd1 i by (simp add: s'_def fd_used_put ent_def) (simp add: fd_used_def s1_def)
  moreover have al: "alike s s'" by (simp add: alike_def child_ran_def s'_def put_fd_def s1_def) (simp add: sti_def)
  moreover have im: "same_image s s'" by (simp add: same_image_def s'_def s1_def)
  moreover have tm: "terminals s' = terminals s" by (simp add: s'_def put_fd_def s1_def sti_def)
  have "terms_ok s'" using ok terms_ok_cong [of s' s] tm al by (simp add: user_ok_def alike_def)
  then have "user_ok s'"
    by (rule user_ok_step [OF ok al _ im])
       (use ok i1 in \<open>auto simp: s'_def s1_def put_fd_def user_ok_def fds_ok_def\<close>)
  moreover have m: "mem s' = mem s" by (simp add: s'_def s1_def)
  moreover have "process_screen s' = process_screen s"
    using al by (simp add: process_screen_def alike_page [OF al] tm m) (simp add: alike_def)
  ultimately show ?thesis by blast
qed

lemma ls_main_prints:
  assumes ok: "user_ok s" and buf: "user_buf s b 33" and name: "cstr (mem s) (rodata s ''.'') [46]" "rodata s ''.'' \<noteq> 0" "adr32 (rodata s ''.'')"
    and dir: "dir_ok s" "entry_name s 0 = [46]" "entry_filetype s 0 = 1"
    and fd: "first_free s = Some i" "fd_used s 1" "file_pos (fd_table s ! i) = 0"
  shows "\<exists>s'. ls_main env b s = Some (0, s') \<and> process_screen s' = fold show_byte (listing s 0) (process_screen s)"
proof -
  obtain s1 where s1: "ece391_open (rodata s ''.'') s = Some (int i, s1)" "user_ok s1" "alike s s1" "same_image s s1"
    "dir_on s1 (int i) 0" "process_screen s1 = process_screen s"
    using user_open_dir [OF ok name dir(2,3) fd(1,2), of 0] fd(3) by auto
  note d = same_image_dir [OF s1(4) dir(1)]
  have "user_buf s1 b 33" using buf user_buf_step [OF s1(3,4)] by simp
  then obtain s' where s': "ls_loop env 0 (int i) b s1 = Some (0, s')"
    "process_screen s' = fold show_byte (listing s1 0) (process_screen s1)"
    using ls_loop_prints [OF s1(2) _ d(1) s1(5), of b env 0] d(2) dir(1) by (auto simp: dir_ok_def)
  have "listing s1 0 = listing s 0"
    unfolding listing_def d(2) by (rule arg_cong [where f = concat], rule map_cong) (simp_all add: d(3))
  with s1(1,6) s' show ?thesis by (simp add: ls_main_def)
qed

end
