(* ===== verification/User_Errors.thy ===== *)
theory User_Errors
  imports User_Dir
begin

text \<open>
  The error tests of \<open>ece391syserr\<close> against the kernel: bad descriptor numbers, bad pointers for
  \<open>vidmap\<close>, the wrong direction of the standard descriptors and unknown call numbers are refused,
  so these tests print that they passed.  Opening more files than there are descriptors, and closing a
  descriptor that was never opened, have no defined result in the kernel.
\<close>

section \<open>Messages\<close>

text \<open>A string literal of the program lies in its memory, terminated and away from screen and image.\<close>

definition lit_ok :: "kstate \<Rightarrow> string \<Rightarrow> bool" where
  "lit_ok s l \<longleftrightarrow> cstr (mem s) (rodata s l) (str_bytes l) \<and> user_buf s (rodata s l) (length l + 1) \<and> length l < 1000"

lemma length_str_bytes [simp]: "length (str_bytes l) = length l"
  by (simp add: str_bytes_def)

lemma lit_ok_step:
  assumes "alike s s'" "same_image s s'" and "same_outside (main_page s) (mem s) (mem s')" and "lit_ok s l"
  shows "lit_ok s' l"
proof -
  have r: "rodata s' l = rodata s l" using assms(1) by (simp add: alike_def)
  have "disjoint_rng (main_page s) 4000 (rodata s l) (length (str_bytes l) + 1)"
    using assms(4) by (simp add: lit_ok_def user_buf_def)
  from same_outside_dstr [OF assms(3) this] assms(4) user_buf_step [OF assms(1,2)] show ?thesis
    by (simp add: lit_ok_def r)
qed

lemma user_puts1:
  assumes ok: "user_ok s" and l: "lit_ok s l"
  shows "\<exists>s'. puts1 l s = Some s' \<and> user_ok s' \<and> kept s s' \<and> same_image s s' \<and>
    same_outside (main_page s) (mem s) (mem s') \<and> process_screen s' = fold show_byte (str_bytes l) (process_screen s)"
proof -
  have "user_buf s (rodata s l) (length (str_bytes l))"
    using l by (auto simp: lit_ok_def user_buf_def disjoint_rng_def)
  then show ?thesis
    using user_fdputs [OF ok, of "rodata s l" "str_bytes l"] l by (simp add: puts1_def lit_ok_def)
qed

lemma verdict_shows:
  assumes "user_ok s" and "lit_ok s good"
  shows "\<exists>s'. verdict bad good 0 s = Some (0, s') \<and> process_screen s' = fold show_byte (str_bytes good) (process_screen s)"
  using user_puts1 [OF assms] by (auto simp: verdict_def)


section \<open>The tests that pass\<close>

lemma lit_ok_sti [simp]: "lit_ok (sti s) = lit_ok s"
  using user_buf_step [OF user_sti(2,3), of s] by (simp add: lit_ok_def fun_eq_iff)

lemma bad_fd_calls:
  assumes "i32 fd" "fd < 0 \<or> 7 < fd" and "adr32 b"
  shows "ece391_read hs fd b 31 s = Some (-1, sti s)" "ece391_write fd b 31 s = Some (-1, sti s)"
    "ece391_close fd s = Some (-1, sti s)"
  using assms by (auto simp: call_eq system_read_def system_write_def system_close_def)

lemma err_fd_tests:
  assumes ok: "user_ok s" and b: "adr32 b"
  shows "lit_ok s ''err_neg_fd: PASS\<newline>'' \<Longrightarrow> \<exists>s'. err_neg_fd env b s = Some (0, s') \<and>
      process_screen s' = fold show_byte (str_bytes ''err_neg_fd: PASS\<newline>'') (process_screen s)"
    and "lit_ok s ''err_big_fd: PASS\<newline>'' \<Longrightarrow> \<exists>s'. err_big_fd env b s = Some (0, s') \<and>
      process_screen s' = fold show_byte (str_bytes ''err_big_fd: PASS\<newline>'') (process_screen s)"
  using verdict_shows [of "sti (sti (sti s))"] user_sti(1) [OF user_sti(1) [OF user_sti(1) [OF ok]]] b
  by (simp_all add: err_neg_fd_def err_big_fd_def bad_fd_calls must_fail_def)

lemma err_vidmap_passes:
  assumes ok: "user_ok s" and l: "lit_ok s ''err_vidmap: PASS\<newline>''"
  shows "\<exists>s'. err_vidmap s = Some (0, s') \<and>
    process_screen s' = fold show_byte (str_bytes ''err_vidmap: PASS\<newline>'') (process_screen s)"
  using verdict_shows [of "sti (sti s)"] user_sti(1) [OF user_sti(1) [OF ok]] l
  by (simp add: err_vidmap_def call_eq system_vidmap_def must_fail_def)

lemma err_stdin_out_passes:
  assumes ok: "user_ok s" and b: "b \<noteq> 0" "adr32 b" and fd: "f_ops (fd_table s ! 0) = Some terminal_table"
    and l: "lit_ok s ''err_stdin_out: PASS\<newline>''"
  shows "\<exists>s'. err_stdin_out env b s = Some (0, s') \<and>
    process_screen s' = fold show_byte (str_bytes ''err_stdin_out: PASS\<newline>'') (process_screen s)"
proof -
  note ok1 = user_sti(1) [OF ok] and ok2 = user_sti(1) [OF user_sti(1) [OF ok]]
  have t: "fd_get 0 (sti s) = Some (fd_table s ! 0)" "fd_get 1 (sti (sti s)) = Some (fd_table s ! 1)"
    "f_ops (fd_table s ! 1) = Some terminal_table"
    using ok by (auto simp: user_ok_def fd_get_def fds_ok_def aget_def)
  have "ece391_write 0 b 31 s = Some (-1, sti s)"
    using b t fd by (simp add: call_eq system_write_def user_pcb [OF ok] terminal_write_def)
  moreover have "ece391_read (env 0) 1 b 31 (sti s) = Some (-1, sti (sti s))"
    using b t by (simp add: call_eq system_read_def user_pcb [OF ok1] terminal_read_def)
  ultimately show ?thesis
    using verdict_shows [OF ok2] l by (simp add: err_stdin_out_def must_fail_def)
qed

lemma err_syscall_num_passes:
  assumes ok: "user_ok s" and l: "lit_ok s ''err_syscall_num: PASS\<newline>''"
  shows "\<exists>s'. err_syscall_num ebx ecx edx s = Some (0, s') \<and>
    process_screen s' = fold show_byte (str_bytes ''err_syscall_num: PASS\<newline>'') (process_screen s)"
  using verdict_shows [OF ok l] bad_number(1)
  by (simp add: err_syscall_num_def call_sys_def must_fail_def word_less_nat_alt)


section \<open>The tests that do not return\<close>

text \<open>The seventh \<open>open\<close> finds the table full; the kernel then stores a pointer in front of it.\<close>

lemma open_dir_full:
  assumes ok: "user_ok s" and name: "cstr (mem s) f [46]" "f \<noteq> 0" "adr32 f"
    and dot: "entry_name s 0 = [46]" "entry_filetype s 0 = 1" and full: "first_free s = None"
  shows "ece391_open f s = None"
proof -
  let ?s = "sti s"
  have e: "entry_filetype ?s 0 = 1" "entry_name ?s 0 = [46]"
    using dot by (simp_all add: entry_filetype_def entry_name_def direntry_def)
  have u: "fds_ok ?s" "first_free ?s = None"
    using ok full by (auto simp: user_ok_def fds_ok_def fd_used_def first_free_def)
  have look: "lookup_name [46] ?s = Some 0" using e(2) by (simp add: lookup_name_def upt_rec [of 0])
  then have gf: "get_filetype f ?s = Some 1" using get_filetype_lookup [of ?s f "[46]"] name e by simp
  have "\<exists>s1. dir_open f ?s = Some (-1, s1)" using dir_open_slot [of ?s f] u name e by simp
  then obtain s1 where "dir_open f ?s = Some (-1, s1)" by blast
  with gf show ?thesis
    using call_eq(3) [OF name(3)] by (simp add: system_open_def user_pcb [OF ok] set_f_ops_negative)
qed

lemma open_times_overflow:
  assumes "user_ok s" and "cstr (mem s) (rodata s ''.'') [46]" "rodata s ''.'' \<noteq> 0" "adr32 (rodata s ''.'')"
    and "entry_name s 0 = [46]" "entry_filetype s 0 = 1"
    and "\<forall>j<8. fd_used s (int j) \<longleftrightarrow> j < i" and "2 \<le> i" "i \<le> 8" "n + i = 9"
  shows "open_times n cnt s = None"
  using assms
proof (induction n arbitrary: s i cnt)
  case (Suc n)
  show ?case
  proof (cases "i = 8")
    case True
    then have "first_free s = None" using Suc.prems(7) by (simp add: first_free_None)
    from open_dir_full [OF Suc.prems(1-6) this] show ?thesis by simp
  next
    case False
    with Suc.prems(9) have i: "i < 8" by simp
    have "\<And>j. j < i \<Longrightarrow> fd_used s (int j)" "\<not> fd_used s (int i)" using Suc.prems(7) i by auto
    then have ff: "first_free s = Some i" using i by (auto simp: first_free_def find_Some_iff intro!: exI [of _ i])
    have f1: "fd_used s 1" using Suc.prems(7,8) by (auto dest: spec [of _ 1])
    obtain s1 where s1: "ece391_open (rodata s ''.'') s = Some (int i, s1)" "user_ok s1" "alike s s1" "same_image s s1"
      "mem s1 = mem s" "\<forall>j. fd_used s1 j \<longleftrightarrow> j = int i \<or> fd_used s j"
      using user_open_dir [OF Suc.prems(1-6) ff f1] by blast
    have r: "rodata s1 = rodata s" using s1(3) by (simp add: alike_def)
    have "direntry s 0 + 32 \<le> boot_block s + fs_size s" by (simp add: direntry_def fs_size_def)
    then have nm: "entry_name s1 0 = [46]" "entry_filetype s1 0 = 1"
      using same_image_name [OF s1(4)] same_image_filetype [OF s1(4), of 0] Suc.prems(5,6) by simp_all
    have "open_times n cnt s1 = None"
      by (rule Suc.IH [where i = "Suc i"])
         (use s1 r nm i Suc.prems in \<open>auto simp: less_Suc_eq\<close>)
    with s1(1) show ?thesis by simp
  qed
qed simp

lemma err_open_lots_undefined:
  assumes "user_ok s" and "cstr (mem s) (rodata s ''.'') [46]" "rodata s ''.'' \<noteq> 0" "adr32 (rodata s ''.'')"
    and "entry_name s 0 = [46]" "entry_filetype s 0 = 1" and "\<forall>j<8. fd_used s (int j) \<longleftrightarrow> j < 2"
  shows "err_open_lots s = None"
  using open_times_overflow [OF assms, of 7 0] by (simp add: err_open_lots_def)

text \<open>A descriptor whose operations were never set: every call on it jumps through a null pointer.\<close>

lemma unset_fd_calls:
  assumes ok: "user_ok s" and fd: "0 \<le> fd" "fd < 8" "f_ops (fd_table s ! nat fd) = None" and b: "b \<noteq> 0" "adr32 b" "i32 n"
  shows "ece391_close fd s = None" "ece391_read hs fd b n s = None" "ece391_write fd b n s = None"
proof -
  have "fd_get fd (sti s) = Some (fd_table s ! nat fd)" using ok fd by (auto simp: user_ok_def fd_get_def fds_ok_def aget_def)
  with fd b show "ece391_close fd s = None" "ece391_read hs fd b n s = None" "ece391_write fd b n s = None"
    by (simp_all add: call_eq system_close_def system_read_def system_write_def user_pcb [OF ok])
qed

lemma err_unopened_undefined:
  assumes ok: "user_ok s" and std: "f_ops (fd_table s ! 0) = Some terminal_table" and unset: "f_ops (fd_table s ! 2) = None"
  shows "err_unopened env b s = None"
proof -
  let ?s2 = "sti (sti s)"
  note ok1 = user_sti(1) [OF ok] and ok2 = user_sti(1) [OF user_sti(1) [OF ok]]
  have t: "fd_get 0 (sti s) = Some (fd_table s ! 0)" "fd_get 1 ?s2 = Some (fd_table s ! 1)"
    "f_ops (fd_table s ! 1) = Some terminal_table"
    using ok by (auto simp: user_ok_def fd_get_def fds_ok_def aget_def)
  have "ece391_close 0 s = Some (-1, sti s)" "ece391_close 1 (sti s) = Some (-1, ?s2)"
    using t std by (simp_all add: call_eq system_close_def user_pcb [OF ok] user_pcb [OF ok1] terminal_close_def)
  moreover have "ece391_close 2 ?s2 = None"
    by (rule unset_fd_calls [OF ok2, where b = 1 and n = 0]) (use unset in simp_all)
  ultimately show ?thesis by (simp add: err_unopened_def must_fail_def)
qed

end
