(* ===== verification/User_Shell.thy ===== *)
theory User_Shell
  imports User_Errors
begin

text \<open>
  Programs that read the keyboard: \<open>hello\<close>, one round of the shell, and the numbers that
  \<open>counter\<close> prints.
\<close>

section \<open>Reading a line\<close>

text \<open>A line waits for the program: descriptor 0 is its terminal, the line buffer is away from the
  screen, the image and the program's own buffer.\<close>

definition line_for :: "kstate \<Rightarrow> addr \<Rightarrow> addr \<Rightarrow> u8 list \<Rightarrow> bool" where
  "line_for s b lb xs \<longleftrightarrow> f_ops (fd_table s ! 0) = Some terminal_table \<and> line_ready s lb xs \<and>
     user_buf s lb (length xs + 1) \<and> disjoint_rng b 1024 lb (length xs + 1) \<and> length xs < 1000"

lemma line_for_step:
  assumes k: "kept s s'" and t: "terms_ok s'" and im: "same_image s s'" and out: "same_outside (main_page s) (mem s) (mem s')"
    and l: "line_for s b lb xs"
  shows "line_for s' b lb xs"
proof -
  have al: "alike s s'" using k by (rule kept_alike)
  have ub: "user_buf s lb (length xs + 1)" using l by (simp add: line_for_def)
  then have d: "disjoint_rng (main_page s) 4000 lb (length xs + 1)" by (simp add: user_buf_def)
  have "dstr 10 (mem s') lb xs" using l by (intro same_outside_dstr [OF out d]) (simp add: line_for_def line_ready_def)
  moreover have "mem s' lb = mem s lb" using out d by (auto simp: same_outside_def disjoint_rng_def)
  moreover have "line_buf (active_terminal s') s' = line_buf (active_terminal s) s"
    using al by (simp add: line_buf_def alike_def)
  moreover have "f_ops (fd_table s' ! 0) = f_ops (fd_table s ! 0)" using k by (simp add: kept_def alike_def)
  ultimately show ?thesis
    using l t alike_page [OF al] user_buf_step [OF al im] by (simp add: line_for_def line_ready_def)
qed

lemma user_read_line:
  assumes ok: "user_ok s" and b: "user_buf s b 1024" and l: "line_for s b lb xs" and n: "i32 n"
  shows "\<exists>s'. ece391_read hs 0 b n s = Some (int (length xs + 1), s') \<and> user_ok s' \<and> kept s s' \<and> same_image s s' \<and>
    mem s' = (blit (mem s) b (xs @ [10]))(lb := 0) \<and> process_screen s' = process_screen s"
proof -
  let ?s = "sti s"
  note st = user_sti(1) [OF ok] user_sti(2,3) [of s]
  have "line_for ?s b lb xs"
    by (rule line_for_step [OF kept_refl(3) _ same_image_sti _ l]) (use ok in \<open>simp_all add: user_ok_def\<close>)
  then have rd: "line_ready ?s lb xs" by (simp add: line_for_def)
  have d: "disjoint_rng b (length xs + 1) lb (length xs + 1)" using l by (auto simp: line_for_def disjoint_rng_def)
  define s1 where "s1 = ?s\<lparr>mem := blit (mem s) b (xs @ [10])\<rparr>"
  define s2 where "s2 = s1\<lparr>mem := blit (mem s1) lb [0]\<rparr>"
  have b0: "user_buf ?s b 1024" using b user_buf_step [OF st(2,3)] by simp
  have "length (xs @ [10]) \<le> 1024" using l by (simp add: line_for_def)
  from user_blit [OF st(1) b0 this] have s1: "user_ok s1" "kept ?s s1" "same_image ?s s1" "process_screen s1 = process_screen s"
    by (simp_all add: s1_def)
  have im1: "same_image s s1" using st(3) s1(3) by (rule same_image_trans)
  have al1: "alike s s1" using st(2) kept_alike [OF s1(2)] by (rule alike_trans)
  have "user_buf s1 lb 1" using l user_buf_step [OF al1 im1] by (auto simp: line_for_def user_buf_def disjoint_rng_def)
  from user_blit [OF s1(1) this, of "[0]"] have s2: "user_ok s2" "kept s1 s2" "same_image s1 s2" "process_screen s2 = process_screen s1"
    by (simp_all add: s2_def)
  have "terminal_read hs 0 b n ?s = Some (int (length xs + 1), s2)"
    using terminal_read_eq [OF rd d] by (simp add: s2_def s1_def blit_single)
  moreover have "fd_get 0 ?s = Some (fd_table s ! 0)" using ok by (auto simp: user_ok_def fd_get_def fds_ok_def aget_def)
  moreover have "adr32 b" "b \<noteq> 0" using b by (auto simp: user_buf_def)
  ultimately have "ece391_read hs 0 b n s = Some (int (length xs + 1), s2)"
    using n l by (simp add: call_eq system_read_def user_pcb [OF ok] line_for_def)
  moreover have "mem s2 = (blit (mem s) b (xs @ [10]))(lb := 0)" by (simp add: s2_def s1_def blit_single)
  moreover have "kept s s2" using kept_refl(3) [of s] s1(2) s2(2) kept_trans by blast
  moreover have "same_image s s2" using im1 s2(3) by (rule same_image_trans)
  ultimately show ?thesis using s2(1,4) s1(4) by auto
qed

text \<open>The line in the buffer, cut at its end by a zero byte.\<close>

lemma line_cut:
  assumes "disjoint_rng b 1024 lb (length xs + 1)" "length xs < 1000" and "0 \<notin> set xs" and "i = length xs \<or> i = length xs + 1"
    and "m = (blit m0 b (xs @ [10]))(lb := 0)"
  shows "cstr (m(b + i := 0)) b (take i (xs @ [10]))"
proof -
  have "(m(b + i := 0)) (b + j) = (if j = i then 0 else (xs @ [10]) ! j)" if "j \<le> i" for j
    using assms that by (auto simp: blit_in disjoint_rng_def)
  then show ?thesis
    using assms(3,4) by (auto simp: dstr_def bytes_at_eq_iff nth_append dest: in_set_takeD)
qed


text \<open>Reading a line into the buffer and cutting it, as \<open>hello\<close> (with the newline) and the shell
  (without it) do.\<close>

definition only_line :: "addr \<Rightarrow> addr \<Rightarrow> mem \<Rightarrow> mem \<Rightarrow> bool" where
  "only_line b lb m m' \<longleftrightarrow> (\<forall>a. \<not> (b \<le> a \<and> a < b + 1024) \<and> a \<noteq> lb \<longrightarrow> m' a = m a)"

lemma user_read_cut:
  assumes ok: "user_ok s" and b: "user_buf s b 1024" and l: "line_for s b lb xs" "0 \<notin> set xs"
  shows "\<exists>s2. ece391_read hs 0 b 1023 s = Some (int (length xs + 1), s2) \<and> mem s2 (b + length xs) = 10 \<and>
    (\<forall>i. i = length xs \<or> i = length xs + 1 \<longrightarrow>
      (let s3 = set_byte b (int i) 0 s2 in user_ok s3 \<and> kept s s3 \<and> same_image s s3 \<and> only_line b lb (mem s) (mem s3) \<and>
        cstr (mem s3) b (take i (xs @ [10])) \<and> process_screen s3 = process_screen s))"
proof -
  obtain s2 where s2: "ece391_read hs 0 b 1023 s = Some (int (length xs + 1), s2)" "user_ok s2" "kept s s2" "same_image s s2"
    "mem s2 = (blit (mem s) b (xs @ [10]))(lb := 0)" "process_screen s2 = process_screen s"
    using user_read_line [OF ok b l(1), of 1023 hs] by auto
  have len: "length xs < 1000" "disjoint_rng b 1024 lb (length xs + 1)" using l(1) by (simp_all add: line_for_def)
  note ub2 = user_buf_step [OF kept_alike [OF s2(3)] s2(4)]
  have nl: "mem s2 (b + length xs) = 10" using len by (auto simp: s2(5) blit_in disjoint_rng_def)
  have cut: "user_ok s3 \<and> kept s s3 \<and> same_image s s3 \<and> only_line b lb (mem s) (mem s3) \<and>
        cstr (mem s3) b (take i (xs @ [10])) \<and> process_screen s3 = process_screen s"
    if i: "i = length xs \<or> i = length xs + 1" and s3_def: "s3 = set_byte b (int i) 0 s2" for i s3
  proof -
    have "user_buf s2 (b + i) 1" using b ub2 len i by (auto simp: user_buf_def disjoint_rng_def)
    from user_blit [OF s2(2) this, of "[0]"] have s3: "user_ok s3" "kept s2 s3" "same_image s2 s3" "process_screen s3 = process_screen s2"
      by (simp_all only: s3_def set_byte_blit) simp_all
    have m3: "mem s3 = (mem s2)(b + i := 0)" unfolding s3_def set_byte_blit by (simp add: blit_single)
    have "cstr (mem s3) b (take i (xs @ [10]))"
      unfolding m3 by (rule line_cut [OF len(2,1) l(2) i s2(5)])
    moreover have "only_line b lb (mem s) (mem s3)" using len i by (auto simp: only_line_def m3 s2(5) blit_def)
    ultimately show ?thesis using s3 s2 kept_trans same_image_trans by metis
  qed
  show ?thesis unfolding Let_def using s2(1) nl cut by blast
qed

text \<open>A literal that neither the program's buffer nor the line buffer overlaps.\<close>

definition lit_apart :: "kstate \<Rightarrow> addr \<Rightarrow> addr \<Rightarrow> string \<Rightarrow> bool" where
  "lit_apart s b lb l \<longleftrightarrow> disjoint_rng b 1024 (rodata s l) (length l + 1) \<and> (lb < rodata s l \<or> rodata s l + length l < lb)"

lemma lit_ok_apart:
  assumes "kept s s'" "same_image s s'" "only_line b lb (mem s) (mem s')" and "lit_ok s l" and "lit_apart s b lb l"
  shows "lit_ok s' l"
proof -
  have r: "rodata s' l = rodata s l" using assms(1) by (simp add: kept_def alike_def)
  have "cstr (mem s) (rodata s l) (str_bytes l)" using assms(4) by (simp add: lit_ok_def)
  then have "cstr (mem s') (rodata s l) (str_bytes l)"
    by (rule dstr_cong) (use assms(3,5) in \<open>auto simp: only_line_def lit_apart_def disjoint_rng_def\<close>)
  then show ?thesis
    using assms(4) user_buf_step [OF kept_alike [OF assms(1)] assms(2)] by (simp add: lit_ok_def r)
qed


section \<open>hello\<close>

lemma hello_greets:
  assumes ok: "user_ok s" and b: "user_buf s b 1024" and l: "line_for s b lb xs" "0 \<notin> set xs"
    and lits: "lit_ok s ''Hi, what's your name? ''" "lit_ok s ''Hello, ''"
    and apart: "lit_apart s b lb ''Hello, ''"
  shows "\<exists>s'. hello_main env b s = Some (0, s') \<and>
    process_screen s' = fold show_byte (str_bytes ''Hi, what's your name? '' @ str_bytes ''Hello, '' @ xs @ [10]) (process_screen s)"
proof -
  obtain s1 where s1: "puts1 ''Hi, what's your name? '' s = Some s1" "user_ok s1" "kept s s1" "same_image s s1"
    "same_outside (main_page s) (mem s) (mem s1)"
    "process_screen s1 = fold show_byte (str_bytes ''Hi, what's your name? '') (process_screen s)"
    using user_puts1 [OF ok lits(1)] by blast
  have t1: "terms_ok s1" using s1(2) by (simp add: user_ok_def)
  note l1 = line_for_step [OF s1(3) t1 s1(4,5) l(1)] and al1 = kept_alike [OF s1(3)]
  have lit1: "lit_ok s1 ''Hello, ''" by (rule lit_ok_step [OF al1 s1(4,5) lits(2)])
  have b1: "user_buf s1 b 1024" using b user_buf_step [OF al1 s1(4)] by simp
  obtain s2 where s2: "ece391_read (env 0) 0 b 1023 s1 = Some (int (length xs + 1), s2)"
    and cut: "\<forall>i. i = length xs \<or> i = length xs + 1 \<longrightarrow>
      (let s3 = set_byte b (int i) 0 s2 in user_ok s3 \<and> kept s1 s3 \<and> same_image s1 s3 \<and> only_line b lb (mem s1) (mem s3) \<and>
        cstr (mem s3) b (take i (xs @ [10])) \<and> process_screen s3 = process_screen s1)"
    using user_read_cut [OF s1(2) b1 l1 l(2), of "env 0"] by blast
  define s3 where "s3 = set_byte b (int (length xs + 1)) 0 s2"
  have s3: "user_ok s3" "kept s1 s3" "same_image s1 s3" "only_line b lb (mem s1) (mem s3)" "cstr (mem s3) b (xs @ [10])"
    "process_screen s3 = process_screen s1"
    using spec [OF cut, of "length xs + 1"] by (simp_all add: Let_def s3_def)
  have r: "rodata s1 = rodata s" using s1(3) by (simp add: kept_def alike_def)
  have lit3: "lit_ok s3 ''Hello, ''" by (rule lit_ok_apart [OF s3(2-4) lit1]) (use apart r in \<open>simp add: lit_apart_def\<close>)
  obtain s4 where s4: "puts1 ''Hello, '' s3 = Some s4" "user_ok s4" "kept s3 s4" "same_image s3 s4"
    "same_outside (main_page s3) (mem s3) (mem s4)" "process_screen s4 = fold show_byte (str_bytes ''Hello, '') (process_screen s3)"
    using user_puts1 [OF s3(1) lit3] by blast
  have b3: "user_buf s3 b 1024" using b1 user_buf_step [OF kept_alike [OF s3(2)] s3(3)] by simp
  have len: "length xs < 1000" using l(1) by (simp add: line_for_def)
  have "disjoint_rng (main_page s3) 4000 b (length (xs @ [10]) + 1)"
    using b3 len by (auto simp: user_buf_def disjoint_rng_def)
  then have str4: "cstr (mem s4) b (xs @ [10])" by (rule same_outside_dstr [OF s4(5) _ s3(5)])
  have "user_buf s4 b (length (xs @ [10]))"
    using b3 len user_buf_step [OF kept_alike [OF s4(3)] s4(4)] by (auto simp: user_buf_def disjoint_rng_def)
  then obtain s5 where "ece391_fdputs 1 b s4 = Some s5" "process_screen s5 = fold show_byte (xs @ [10]) (process_screen s4)"
    using user_fdputs [OF s4(2) str4] len by auto
  moreover have "set_byte b (1 + int (length xs)) 0 s2 = s3" by (simp add: s3_def)
  ultimately show ?thesis using s1(1,6) s2 s3(6) s4(1,6) by (simp add: hello_main_def)
qed


section \<open>The shell\<close>

text \<open>One round: the prompt is printed and the line, without its newline, is what \<open>run\<close> is given.\<close>

definition shell_report :: "int \<Rightarrow> kstate \<Rightarrow> kstate option" where
  "shell_report rval s =
     (if rval = -1 then puts1 ''no such command\<newline>'' s
      else if rval = 256 then puts1 ''program terminated by exception\<newline>'' s
      else if rval \<noteq> 0 then puts1 ''program terminated abnormally\<newline>'' s else Some s)"

lemma shell_round:
  assumes ok: "user_ok s" and b: "user_buf s b 1024" and l: "line_for s b lb xs" "0 \<notin> set xs"
    and lits: "lit_ok s ''391OS> ''" "lit_ok s ''exit''"
    and apart: "lit_apart s b lb ''exit''"
  shows "\<exists>s1. user_ok s1 \<and> kept s s1 \<and> same_image s s1 \<and> cstr (mem s1) b xs \<and>
    process_screen s1 = fold show_byte (str_bytes ''391OS> '') (process_screen s) \<and>
    shell_loop run env k b s =
      (if xs = str_bytes ''exit'' then Some (0, s1)
       else if xs = [] then shell_loop run env (k + 1) b s1
       else do { (rval, s2) \<leftarrow> run b s1; s3 \<leftarrow> shell_report rval s2; shell_loop run env (k + 1) b s3 })"
proof -
  obtain s1 where s1: "puts1 ''391OS> '' s = Some s1" "user_ok s1" "kept s s1" "same_image s s1"
    "same_outside (main_page s) (mem s) (mem s1)"
    "process_screen s1 = fold show_byte (str_bytes ''391OS> '') (process_screen s)"
    using user_puts1 [OF ok lits(1)] by blast
  have t1: "terms_ok s1" using s1(2) by (simp add: user_ok_def)
  note l1 = line_for_step [OF s1(3) t1 s1(4,5) l(1)] and al1 = kept_alike [OF s1(3)]
  have lit1: "lit_ok s1 ''exit''" by (rule lit_ok_step [OF al1 s1(4,5) lits(2)])
  have b1: "user_buf s1 b 1024" using b user_buf_step [OF al1 s1(4)] by simp
  obtain s2 where s2: "ece391_read (env k) 0 b 1023 s1 = Some (int (length xs + 1), s2)" "mem s2 (b + length xs) = 10"
    and cut: "\<forall>i. i = length xs \<or> i = length xs + 1 \<longrightarrow>
      (let s3 = set_byte b (int i) 0 s2 in user_ok s3 \<and> kept s1 s3 \<and> same_image s1 s3 \<and> only_line b lb (mem s1) (mem s3) \<and>
        cstr (mem s3) b (take i (xs @ [10])) \<and> process_screen s3 = process_screen s1)"
    using user_read_cut [OF s1(2) b1 l1 l(2), of "env k"] by blast
  define s3 where "s3 = set_byte b (int (length xs)) 0 s2"
  have s3: "user_ok s3" "kept s1 s3" "same_image s1 s3" "only_line b lb (mem s1) (mem s3)" "cstr (mem s3) b xs"
    "process_screen s3 = process_screen s1"
    using spec [OF cut, of "length xs"] by (simp_all add: Let_def s3_def)
  have r: "rodata s1 = rodata s" "rodata s3 = rodata s" using s1(3) s3(2) by (simp_all add: kept_def alike_def)
  have lit3: "lit_ok s3 ''exit''" by (rule lit_ok_apart [OF s3(2-4) lit1]) (use apart r in \<open>simp add: lit_apart_def\<close>)
  then obtain d where d: "ece391_strcmp (mem s3) b (rodata s3 ''exit'') = Some d" "d = 0 \<longleftrightarrow> xs = str_bytes ''exit''"
    using ece391_strcmp_cstr [OF s3(5), of "rodata s3 ''exit''" "str_bytes ''exit''"] by (auto simp: lit_ok_def)
  have z: "mem s3 b = 0 \<longleftrightarrow> xs = []" using s3(5) l(2) by (cases xs) (auto simp: dstr_Cons)
  obtain n where n: "ece391_read (env k) 0 b 1023 s1 = Some (1 + int n, s2)" "mem s2 (b + n) = 10" "set_byte b (int n) 0 s2 = s3"
    using s2 s3_def by simp
  have "shell_loop run env k b s =
      (if xs = str_bytes ''exit'' then Some (0, s3)
       else if xs = [] then shell_loop run env (k + 1) b s3
       else do { (rval, s2) \<leftarrow> run b s3; s3 \<leftarrow> shell_report rval s2; shell_loop run env (k + 1) b s3 })"
    by (subst shell_loop.simps)
       (simp add: s1(1) n nat_int_add d z shell_report_def Let_def)
  moreover have "kept s s3" using s1(3) s3(2) by (rule kept_trans)
  moreover have "same_image s s3" using s1(4) s3(3) by (rule same_image_trans)
  moreover have "process_screen s3 = fold show_byte (str_bytes ''391OS> '') (process_screen s)" using s3(6) s1(6) by simp
  ultimately show ?thesis using s3(1,5) by blast
qed

end
