(* ===== verification/User_Counter.thy ===== *)
theory User_Counter
  imports User_Shell
begin

text \<open>
  \<open>counter\<close>: the numbers from 1 to the chosen limit, one to a line, in decimal.
\<close>

section \<open>Numbers on the screen\<close>

lemma itoa_spec_length:
  assumes "n < 10 ^ 10"
  shows "length (itoa_spec 10 n) \<le> 10"
  using digits_le_length [of 10 n 10] assms by (simp add: itoa_spec_def)

definition numbers :: "nat \<Rightarrow> nat \<Rightarrow> u8 list" where
  "numbers i mx = concat (map (\<lambda>k. itoa_spec 10 (k + 1) @ [10]) [i..<mx])"

lemma count_loop_prints:
  assumes "user_ok s" "user_buf s b 16" "lit_ok s ''\<newline>''" "disjoint_rng b 16 (rodata s ''\<newline>'') 2" and "mx < 2 ^ 32" "i \<le> mx"
  shows "\<exists>s'. count_loop mx b i s = Some s' \<and> process_screen s' = fold show_byte (numbers i mx) (process_screen s)"
  using assms
proof (induction "mx - i" arbitrary: s i)
  case 0
  then show ?case by (subst count_loop.simps) (simp add: numbers_def)
next
  case (Suc x)
  then have i: "i < mx" by simp
  let ?ds = "itoa_spec 10 (i + 1)"
  have un: "unat (of_nat (i + 1) :: u32) = i + 1" by (rule reg_addr) (use i Suc.prems(5) in simp)
  have len: "length ?ds \<le> 10" using i Suc.prems(5) by (intro itoa_spec_length) simp
  have "ece391_itoa (of_nat (i + 1)) b 10 (mem s) = Some (b, blit (mem s) b (?ds @ [0]))"
    using itoa_blit [of 10 "of_nat (i + 1)" b "mem s"] un by (simp only: ece391_itoa_eq) simp
  note it = this
  define s1 where "s1 = s\<lparr>mem := blit (mem s) b (?ds @ [0])\<rparr>"
  have "length (?ds @ [0]) \<le> 16" using len by simp
  from user_blit [OF Suc.prems(1,2) this] have s1: "user_ok s1" "kept s s1" "same_image s s1" "process_screen s1 = process_screen s"
    by (simp_all add: s1_def)
  have str: "cstr (mem s1) b ?ds" unfolding s1_def using itoa_spec_nonzero [of 10 "i + 1"] by (simp add: dstr_blit)
  note ub1 = user_buf_step [OF kept_alike [OF s1(2)] s1(3)]
  have "user_buf s1 b (length ?ds)" using Suc.prems(2) len ub1 by (auto simp: user_buf_def disjoint_rng_def)
  then obtain s2 where s2: "ece391_fdputs 1 b s1 = Some s2" "user_ok s2" "kept s1 s2" "same_image s1 s2"
    "same_outside (main_page s1) (mem s1) (mem s2)" "process_screen s2 = fold show_byte ?ds (process_screen s1)"
    using user_fdputs [OF s1(1) str] len by auto
  have "lit_ok s1 ''\<newline>''"
  proof -
    have "cstr (mem s) (rodata s ''\<newline>'') (str_bytes ''\<newline>'')" using Suc.prems(3) by (simp add: lit_ok_def)
    then have "cstr (mem s1) (rodata s ''\<newline>'') (str_bytes ''\<newline>'')"
      by (rule dstr_cong) (use Suc.prems(4) len in \<open>auto simp: s1_def disjoint_rng_def blit_def\<close>)
    then show ?thesis using Suc.prems(3) ub1 by (simp add: lit_ok_def) (simp add: s1_def)
  qed
  then have lit2: "lit_ok s2 ''\<newline>''" by (rule lit_ok_step [OF kept_alike [OF s2(3)] s2(4,5)])
  obtain s3 where s3: "puts1 ''\<newline>'' s2 = Some s3" "user_ok s3" "kept s2 s3" "same_image s2 s3"
    "same_outside (main_page s2) (mem s2) (mem s3)" "process_screen s3 = fold show_byte (str_bytes ''\<newline>'') (process_screen s2)"
    using user_puts1 [OF s2(2) lit2] by blast
  have lit3: "lit_ok s3 ''\<newline>''" by (rule lit_ok_step [OF kept_alike [OF s3(3)] s3(4,5) lit2])
  have k: "kept s s3" using s1(2) s2(3) s3(3) kept_trans by blast
  have im: "same_image s s3" using s1(3) s2(4) s3(4) same_image_trans by blast
  have r: "rodata s3 = rodata s" using k by (simp add: kept_def alike_def)
  have "\<exists>s'. count_loop mx b (i + 1) s3 = Some s' \<and> process_screen s' = fold show_byte (numbers (i + 1) mx) (process_screen s3)"
    by (rule Suc(1) [OF _ s3(2) _ lit3])
       (use Suc.hyps(2) Suc.prems i r user_buf_step [OF kept_alike [OF k] im] in auto)
  then obtain s' where s': "count_loop mx b (i + 1) s3 = Some s'"
    "process_screen s' = fold show_byte (numbers (i + 1) mx) (process_screen s3)" by blast
  have "numbers i mx = ?ds @ str_bytes ''\<newline>'' @ numbers (i + 1) mx"
    using i by (simp add: numbers_def upt_conv_Cons str_bytes_def chb_def)
  moreover have "count_loop mx b i s = Some s'"
    using i it s2(1) s3(1) s'(1) by (subst count_loop.simps) (simp add: s1_def)
  ultimately show ?case using s'(2) s3(6) s2(6) s1(4) by simp
qed

lemma counter_counts:
  assumes ok: "user_ok s" and b: "user_buf s b 1024" and l: "line_for s b lb [c]" and c: "c = 48 \<or> c = 49 \<or> c = 50"
    and lits: "lit_ok s ''Enter the Test Number: (0): 100, (1): 10000, (2): 100000\<newline>''" "lit_ok s ''\<newline>''" "lit_apart s b lb ''\<newline>''"
  shows "\<exists>s'. counter_main env b s = Some (0, s') \<and> process_screen s' =
    fold show_byte (str_bytes ''Enter the Test Number: (0): 100, (1): 10000, (2): 100000\<newline>'' @ numbers 0 (counter_max c)) (process_screen s)"
proof -
  let ?msg = "''Enter the Test Number: (0): 100, (1): 10000, (2): 100000\<newline>''"
  obtain s1 where s1: "puts1 ?msg s = Some s1" "user_ok s1" "kept s s1" "same_image s s1"
    "same_outside (main_page s) (mem s) (mem s1)" "process_screen s1 = fold show_byte (str_bytes ?msg) (process_screen s)"
    using user_puts1 [OF ok lits(1)] by blast
  have t1: "terms_ok s1" using s1(2) by (simp add: user_ok_def)
  note l1 = line_for_step [OF s1(3) t1 s1(4,5) l] and al1 = kept_alike [OF s1(3)]
  have lit1: "lit_ok s1 ''\<newline>''" by (rule lit_ok_step [OF al1 s1(4,5) lits(2)])
  have b1: "user_buf s1 b 1024" using b user_buf_step [OF al1 s1(4)] by simp
  have c0: "0 \<notin> set [c]" using c by auto
  obtain s2 where s2: "ece391_read (env 0) 0 b 1023 s1 = Some (int (length [c] + 1), s2)"
    and cut: "\<forall>i. i = length [c] \<or> i = length [c] + 1 \<longrightarrow>
      (let s3 = set_byte b (int i) 0 s2 in user_ok s3 \<and> kept s1 s3 \<and> same_image s1 s3 \<and> only_line b lb (mem s1) (mem s3) \<and>
        cstr (mem s3) b (take i ([c] @ [10])) \<and> process_screen s3 = process_screen s1)"
    using user_read_cut [OF s1(2) b1 l1 c0, of "env 0"] by blast
  define s3 where "s3 = set_byte b 2 0 s2"
  have s3: "user_ok s3" "kept s1 s3" "same_image s1 s3" "only_line b lb (mem s1) (mem s3)" "cstr (mem s3) b [c, 10]"
    "process_screen s3 = process_screen s1"
    using spec [OF cut, of "length [c] + 1"] by (simp_all add: Let_def s3_def numeral_2_eq_2)
  have r: "rodata s1 = rodata s" "rodata s3 = rodata s" using s1(3) s3(2) by (simp_all add: kept_def alike_def)
  have lit3: "lit_ok s3 ''\<newline>''" by (rule lit_ok_apart [OF s3(2-4) lit1]) (use lits(3) r in \<open>simp add: lit_apart_def\<close>)
  have b3: "user_buf s3 b 16"
    using b1 user_buf_step [OF kept_alike [OF s3(2)] s3(3)] by (auto simp: user_buf_def disjoint_rng_def)
  have "disjoint_rng b 16 (rodata s3 ''\<newline>'') 2" using lits(3) by (auto simp: r lit_apart_def disjoint_rng_def)
  moreover have "counter_max c < 2 ^ 32" by (simp add: counter_max_def)
  ultimately obtain s4 where s4: "count_loop (counter_max c) b 0 s3 = Some s4"
    "process_screen s4 = fold show_byte (numbers 0 (counter_max c)) (process_screen s3)"
    using count_loop_prints [OF s3(1) b3 lit3, of "counter_max c" 0] by auto
  have n: "ece391_strlen (mem s3) b = Some 2" using ece391_strlen_cstr [OF s3(5)] by (simp add: numeral_2_eq_2)
  have m: "mem s3 b = c" "\<not> c < 48" "\<not> c > 50" using s3(5) c by (auto simp: dstr_Cons word_less_nat_alt)
  have "ece391_read (env 0) 0 b 1023 s1 = Some (2, s2)" using s2 by simp
  then have "counter_main env b s = Some (0, s4)"
    using s1(1) s3_def n m s4(1) by (simp add: counter_main_def Let_def)
  then show ?thesis using s4(2) s3(6) s1(6) by simp
qed

end
