(* ===== verification/User_Grep.thy ===== *)
theory User_Grep
  imports User_Errors "HOL-Library.Sublist"
begin

text \<open>
  \<open>grep\<close>: the search of one line.  The loop over the positions of the line prints the line,
  after the file name and a colon, exactly when the pattern occurs in it.
\<close>

section \<open>Several strings in a row\<close>

fun fdputs_all :: "addr list \<Rightarrow> kstate \<Rightarrow> kstate option" where
  "fdputs_all [] s = Some s"
| "fdputs_all (a # as) s = do { s \<leftarrow> ece391_fdputs 1 a s; fdputs_all as s }"

definition str_ok :: "kstate \<Rightarrow> addr \<Rightarrow> u8 list \<Rightarrow> bool" where
  "str_ok s a xs \<longleftrightarrow> cstr (mem s) a xs \<and> user_buf s a (length xs + 1) \<and> length xs < 2 ^ 31"

lemma str_ok_step:
  assumes "alike s s'" "same_image s s'" "same_outside (main_page s) (mem s) (mem s')" and "str_ok s a xs"
  shows "str_ok s' a xs"
proof -
  have "disjoint_rng (main_page s) 4000 a (length xs + 1)" using assms(4) by (simp add: str_ok_def user_buf_def)
  from same_outside_dstr [OF assms(3) this] assms(4) user_buf_step [OF assms(1,2)] show ?thesis by (simp add: str_ok_def)
qed

lemma fdputs_all_shows:
  assumes "user_ok s" and "\<forall>(a, xs) \<in> set zs. str_ok s a xs"
  shows "\<exists>s'. fdputs_all (map fst zs) s = Some s' \<and> user_ok s' \<and> kept s s' \<and>
    process_screen s' = fold show_byte (concat (map snd zs)) (process_screen s)"
  using assms
proof (induction zs arbitrary: s)
  case (Cons z zs)
  obtain a xs where z: "z = (a, xs)" by (cases z)
  have str: "str_ok s a xs" using Cons.prems(2) by (simp add: z)
  then have "user_buf s a (length xs)" by (auto simp: str_ok_def user_buf_def disjoint_rng_def)
  then obtain s1 where s1: "ece391_fdputs 1 a s = Some s1" "user_ok s1" "kept s s1" "same_image s s1"
    "same_outside (main_page s) (mem s) (mem s1)" "process_screen s1 = fold show_byte xs (process_screen s)"
    using user_fdputs [OF Cons.prems(1)] str by (auto simp: str_ok_def)
  have "\<forall>(a, xs) \<in> set zs. str_ok s1 a xs"
    using Cons.prems(2) str_ok_step [OF kept_alike [OF s1(3)] s1(4,5)] by auto
  with Cons.IH [OF s1(2)] obtain s2 where "fdputs_all (map fst zs) s1 = Some s2" "user_ok s2" "kept s1 s2"
    "process_screen s2 = fold show_byte (concat (map snd zs)) (process_screen s1)" by blast
  with s1 show ?case by (auto simp: z intro: kept_trans)
qed simp


section \<open>The search\<close>

definition found_at :: "u8 list \<Rightarrow> u8 list \<Rightarrow> nat \<Rightarrow> bool" where
  "found_at p xs j \<longleftrightarrow> take (length p) (drop j xs) = p"

lemma sublist_found: "p \<noteq> [] \<Longrightarrow> sublist p xs \<longleftrightarrow> (\<exists>j < length xs. found_at p xs j)"
proof
  assume "p \<noteq> []" and "sublist p xs"
  then obtain ys zs where "xs = ys @ p @ zs" by (auto simp: sublist_def)
  with \<open>p \<noteq> []\<close> show "\<exists>j < length xs. found_at p xs j"
    by (intro exI [of _ "length ys"]) (simp add: found_at_def)
next
  assume "\<exists>j < length xs. found_at p xs j"
  then obtain j where "take (length p) (drop j xs) = p" by (auto simp: found_at_def)
  then have "xs = take j xs @ p @ drop (length p) (drop j xs)" by (metis append_take_drop_id)
  then show "sublist p xs" by (metis sublist_appendI)
qed

lemma search_hit:
  assumes xs: "cstr (mem s) a xs" and p: "cstr (mem s) str p" "p \<noteq> []" "hd p < 128" and j: "j < length xs"
  shows "sint (mem s str) = uint (mem s (a + j)) \<and> ece391_strncmp (mem s) (a + j) str (length p) = 0 \<longleftrightarrow> found_at p xs j"
proof -
  have st: "cstr (mem s) (a + j) (drop j xs)" using xs j by (intro dstr_drop) simp_all
  have eq: "ece391_strncmp (mem s) (a + j) str (length p) = 0 \<longleftrightarrow> found_at p xs j"
    using ece391_strncmp_prefix [OF st p(1), of "length p"] by (simp add: found_at_def)
  have "sint (mem s str) = uint (mem s (a + j))" if "found_at p xs j"
  proof -
    have "hd p = xs ! j" using that p(2) j by (metis found_at_def hd_drop_conv_nth hd_take length_greater_0_conv)
    moreover have "mem s str = hd p" using p(1,2) by (cases p) (simp_all add: dstr_Cons)
    moreover have "mem s (a + j) = xs ! j" using xs j by (simp add: dstr_nth)
    ultimately show ?thesis using p(3) uint_sint_eq [of "xs ! j" "xs ! j"] by simp
  qed
  with eq show ?thesis by blast
qed

lemma search_line_from:
  assumes a: "ix data line_start = a" "0 \<le> line_start" and xs: "cstr (mem s) a xs" and p: "cstr (mem s) str p" "p \<noteq> []" "hd p < 128"
    and k: "k \<le> length xs"
  shows "search_line str fname data (length p) line_start (line_start + int (length xs)) (line_start + int k) s =
    (if \<exists>j. k \<le> j \<and> j < length xs \<and> found_at p xs j then do {
       s \<leftarrow> ece391_fdputs 1 fname s; s \<leftarrow> puts1 '':'' s; s \<leftarrow> ece391_fdputs 1 a s; puts1 ''\<newline>'' s }
     else Some s)"
  using k
proof (induction "length xs - k" arbitrary: k)
  case 0
  then have "\<not> (\<exists>j. k \<le> j \<and> j < length xs \<and> found_at p xs j)" by auto
  with 0 show ?case by (subst search_line.simps) auto
next
  case (Suc n)
  then have k: "k < length xs" by simp
  have ix: "ix data (line_start + int k) = a + k"
    using a by (auto simp: ix_def nat_add_distrib)
  note hit = search_hit [OF xs p k]
  have split: "(\<exists>j. k \<le> j \<and> j < length xs \<and> found_at p xs j) \<longleftrightarrow>
      found_at p xs k \<or> (\<exists>j. k + 1 \<le> j \<and> j < length xs \<and> found_at p xs j)"
    using k by (metis Suc_eq_plus1 le_antisym not_less_eq_eq le_refl Suc_leD)
  have IH: "search_line str fname data (length p) line_start (line_start + int (length xs)) (line_start + int (k + 1)) s =
    (if \<exists>j. k + 1 \<le> j \<and> j < length xs \<and> found_at p xs j then do {
       s \<leftarrow> ece391_fdputs 1 fname s; s \<leftarrow> puts1 '':'' s; s \<leftarrow> ece391_fdputs 1 a s; puts1 ''\<newline>'' s }
     else Some s)"
    by (rule Suc(1)) (use Suc(2) k in simp_all)
  have st: "line_start + int k + 1 = line_start + int (k + 1)" by simp
  show ?case
    unfolding search_line.simps [of str fname data "length p" line_start "line_start + int (length xs)" "line_start + int k"]
      ix a(1) hit st IH split
    using k by auto
qed

text \<open>The search of a line prints it exactly when the pattern is a part of it.\<close>

lemma search_line_prints:
  assumes ok: "user_ok s" and a: "ix data line_start = a" "0 \<le> line_start" and xs: "str_ok s a xs" and p: "cstr (mem s) str p" "p \<noteq> []" "hd p < 128"
    and fn: "str_ok s fname fs" and lits: "lit_ok s '':''" "lit_ok s ''\<newline>''"
  shows "\<exists>s'. search_line str fname data (length p) line_start (line_start + int (length xs)) line_start s = Some s' \<and>
    process_screen s' = fold show_byte (if sublist p xs then fs @ [58] @ xs @ [10] else []) (process_screen s)"
proof -
  have line: "cstr (mem s) a xs" using xs by (simp add: str_ok_def)
  note eq = search_line_from [OF a line p, of 0 fname]
  let ?zs = "[(fname, fs), (rodata s '':'', [58]), (a, xs), (rodata s ''\<newline>'', [10])]"
  have b: "str_bytes '':'' = [58]" "str_bytes ''\<newline>'' = [10]" by (simp_all add: str_bytes_def chb_def)
  have "str_ok s (rodata s '':'') [58]" "str_ok s (rodata s ''\<newline>'') [10]"
    using lits b by (simp_all add: lit_ok_def str_ok_def)
  then have all: "\<forall>(a, xs) \<in> set (take n ?zs). str_ok s a xs" for n
    using xs fn by (auto dest!: in_set_takeD)
  obtain s1 where s1: "fdputs_all (map fst (take 1 ?zs)) s = Some s1" "kept s s1" using fdputs_all_shows [OF ok all] by blast
  obtain s3 where s3: "fdputs_all (map fst (take 3 ?zs)) s = Some s3" "kept s s3" using fdputs_all_shows [OF ok all] by blast
  obtain s' where s': "fdputs_all (map fst (take 4 ?zs)) s = Some s'"
    "process_screen s' = fold show_byte (concat (map snd (take 4 ?zs))) (process_screen s)" using fdputs_all_shows [OF ok all] by blast
  have r: "rodata s1 = rodata s" "rodata s3 = rodata s" using s1(2) s3(2) by (simp_all add: kept_def alike_def)
  have "do { s \<leftarrow> ece391_fdputs 1 fname s; s \<leftarrow> puts1 '':'' s; s \<leftarrow> ece391_fdputs 1 a s; puts1 ''\<newline>'' s } = Some s'"
    using s1(1) s3(1) s'(1) r by (auto simp: puts1_def bind_Some_iff)
  moreover have "(\<exists>j. 0 \<le> j \<and> j < length xs \<and> found_at p xs j) \<longleftrightarrow> sublist p xs" using sublist_found [OF p(2)] by simp
  ultimately show ?thesis using eq s'(2) by simp
qed

end
