(* ===== verification/Example_User.thy ===== *)
theory Example_User
  imports Example_State User_Counter User_Grep
begin

text \<open>
  A concrete running program: the system of \<open>Example_State\<close> with the argument \<open>cat\<close>, a line
  that waits in the buffer of the terminal, the kernel's own directory entry, and the string literals of the programs in memory, 256
  bytes apart.
\<close>

section \<open>Literals\<close>

definition literals :: "string list" where
  "literals = [''.'', ''Hi, what's your name? '', ''Hello, '', ''391OS> '', ''exit'', '':'', ''\<newline>'',
     ''Enter the Test Number: (0): 100, (1): 10000, (2): 100000\<newline>'',
     ''err_neg_fd: PASS\<newline>'', ''err_big_fd: PASS\<newline>'', ''err_vidmap: PASS\<newline>'',
     ''err_stdin_out: PASS\<newline>'', ''err_syscall_num: PASS\<newline>'']"

definition lit_addr :: "string \<Rightarrow> addr" where
  "lit_addr l = 0x480000 + 256 * position l literals"

definition lit_byte :: "nat \<Rightarrow> u8" where
  "lit_byte = table_byte literals"

lemma literals_good: "l \<in> set literals \<Longrightarrow> 0 \<notin> set (str_bytes l) \<and> length l < 200"
proof -
  have "list_all (\<lambda>l. 0 \<notin> set (str_bytes l) \<and> length l < 200) literals"
    by (simp add: literals_def str_bytes_def chb_def)
  then show "l \<in> set literals \<Longrightarrow> ?thesis" by (simp add: list_all_iff)
qed

lemma lit_bytes:
  assumes "l \<in> set literals" and "\<And>k. k < 256 * 13 \<Longrightarrow> m (0x480000 + k) = lit_byte k"
  shows "cstr m (lit_addr l) (str_bytes l)"
  using table_cstr [of l literals m "0x480000"] assms literals_good [OF assms(1)]
  by (simp add: lit_addr_def lit_byte_def literals_def)


section \<open>The program\<close>

definition prog_mem :: "u8 list \<Rightarrow> mem" where
  "prog_mem line a =
     (if 0x480000 \<le> a \<and> a < 0x490000 then lit_byte (a - 0x480000)
      else if 0x410000 \<le> a \<and> a < 0x410100 then byte_at [99, 97, 116] (a - 0x410000)
      else if 0x411600 \<le> a \<and> a < 0x411700 then byte_at (line @ [10]) (a - 0x411600)
      else sample_mem a)"

definition prog :: "u8 list \<Rightarrow> kstate" where
  "prog line = sample\<lparr>mem := prog_mem line, rodata := lit_addr, page_dir := (\<lambda>i. if i = 0 then 0x402003 else 0)\<rparr>"

lemma prog_simps [simp]:
  "mem (prog line) = prog_mem line" "rodata (prog line) = lit_addr" "pcbs (prog line) = pcbs sample"
  "curr_pcb (prog line) = return_pcb_parent 0" "main_process (prog line) = 0" "active_terminal (prog line) = 0"
  "process_num (prog line) = process_num sample" "terminals (prog line) = terminals sample" "boot_block (prog line) = 0x420000"
  "arg_buf (prog line) = 0x410000" "save_buf_1 (prog line) = 0x411600"
  by (simp_all add: prog_def)

lemma prog_image: "same_image sample (prog line)"
  by (simp add: same_image_def sample_image prog_mem_def) (simp add: prog_def)

lemma prog_page [simp]: "main_page (prog line) = VIDEO" "pos_idx t (prog line) = 0"
  by (simp_all add: main_page_def pos_idx_def)

lemma prog_fs: "fs_ok (prog line)" "fs_size (prog line) = 20480" "dir_count (prog line) = 3"
  using same_image_counts [OF prog_image, of line] sample_image by simp_all

lemma prog_ok: "user_ok (prog line)"
proof -
  have "terms_ok (prog line)" using sample_terms terms_ok_cong [of "prog line" sample] by simp
  then show ?thesis
    by (simp add: user_ok_def prog_fs fds_ok_def sample_pcb_def sample_fd_def disjoint_rng_def VIDEO_def)
qed

lemma prog_buf: "0x8100000 \<le> b \<Longrightarrow> b + n < 0x8200000 \<Longrightarrow> user_buf (prog line) b n"
  by (simp add: user_buf_def prog_fs disjoint_rng_def VIDEO_def)

lemma prog_lit: "l \<in> set literals \<Longrightarrow> lit_ok (prog line) l"
proof -
  assume l: "l \<in> set literals"
  note g = literals_good [OF l]
  have p: "position l literals < 13" using position_nth [OF l] by (simp add: literals_def)
  have "cstr (prog_mem line) (lit_addr l) (str_bytes l)" by (rule lit_bytes [OF l]) (simp add: prog_mem_def)
  with g p show ?thesis
    by (simp add: lit_ok_def user_buf_def prog_fs disjoint_rng_def VIDEO_def lit_addr_def)
qed

lemma prog_apart: "l \<in> set literals \<Longrightarrow> lit_apart (prog line) 0x8100000 0x411600 l"
  using literals_good [of l] position_nth [of l literals]
  by (simp add: lit_apart_def disjoint_rng_def lit_addr_def literals_def)

lemma prog_arg: "cstr (prog_mem line) 0x410000 [99, 97, 116]"
  by (simp add: dstr_Cons prog_mem_def byte_at_def)

lemma prog_line:
  assumes "length line < 200" "10 \<notin> set line" "line \<noteq> [] \<Longrightarrow> hd line \<noteq> 0"
  shows "line_for (prog line) 0x8100000 0x411600 line"
proof -
  have b: "prog_mem line (0x411600 + k) = byte_at (line @ [10]) k" if "k < 256" for k
    using that by (simp add: prog_mem_def)
  have "bytes_at (prog_mem line) 0x411600 (length line) = line"
    by (rule nth_equalityI) (use assms(1) in \<open>simp_all add: b byte_at_def nth_append\<close>)
  then have "dstr 10 (prog_mem line) 0x411600 line"
    using assms b [of "length line"] by (simp add: dstr_def byte_at_def nth_append)
  moreover have "prog_mem line 0x411600 \<noteq> 0"
    using b [of 0] assms(3) by (cases line) (simp_all add: byte_at_def)
  moreover have "terms_ok (prog line)" using prog_ok by (simp add: user_ok_def)
  ultimately show ?thesis
    using assms(1) by (simp add: line_for_def line_ready_def line_buf_def sample_pcb_def sample_fd_def user_buf_def prog_fs
        disjoint_rng_def VIDEO_def)
qed

lemma prog_file:
  "lookup_name [99, 97, 116] (prog line) = Some 2" "entry_filetype (prog line) 2 = 2" "entry_inode (prog line) 2 = 1"
  "inode_ok (prog line) 1" "file_length (prog line) 1 = 32"
  using same_image_lookup [OF prog_image] same_image_filetype [OF prog_image, of 2]
    same_image_inode [OF prog_image sample_image(5) sample_file(4)] sample_lookup sample_file(2)
  by simp_all

lemma prog_fds: "first_free (prog line) = Some 2" "fd_used (prog line) fd \<longleftrightarrow> fd = 0 \<or> fd = 1"
  "\<forall>j<8. fd_used (prog line) (int j) \<longrightarrow> inode_num (fd_table (prog line) ! j) \<noteq> 1"
  using sample_free sample_used sample_fresh by (simp_all add: first_free_def fd_used_def)

end
