(* ===== verification/User_Session.thy ===== *)
theory User_Session
  imports User_Cat User_Shell
begin

text \<open>
  A command from the shell's call to the shell's next prompt: \<open>ece391_execute\<close> starts the program,
  which runs, ends with \<open>halt\<close>, and the call returns its exit value in the shell, whose page, control
  block and terminal are as before.  The lemma is stated once for any program that keeps to
  its own control block; \<open>cat\<close> is an instance.
\<close>

section \<open>Selecting a descriptor table\<close>

lemma use_main_pcb_simps [simp]:
  "curr_pcb (use_main_pcb s) = return_pcb_parent (main_process s)" "mem (use_main_pcb s) = mem s" "pcbs (use_main_pcb s) = pcbs s"
  "boot_block (use_main_pcb s) = boot_block s" "FS_START_ADDR (use_main_pcb s) = FS_START_ADDR s"
  "main_process (use_main_pcb s) = main_process s" "process_num (use_main_pcb s) = process_num s"
  "active_terminal (use_main_pcb s) = active_terminal s" "terminals (use_main_pcb s) = terminals s"
  "arg_buf (use_main_pcb s) = arg_buf s" "rodata (use_main_pcb s) = rodata s" "frame (use_main_pcb s) = frame s"
  "tlb_user (use_main_pcb s) = tlb_user s" "phys (use_main_pcb s) = phys s" "text_color (use_main_pcb s) = text_color s"
  by (simp_all add: use_main_pcb_def set_filesys_pcb_def)

lemma use_main_pcb_views [simp]:
  "pos_idx t (use_main_pcb s) = pos_idx t s" "main_page (use_main_pcb s) = main_page s" "terms_ok (use_main_pcb s) = terms_ok s"
  "process_screen (use_main_pcb s) = process_screen s" "table_ok (use_main_pcb s) = table_ok s"
  "same_image s' (use_main_pcb s) = same_image s' s"
  by (simp_all add: pos_idx_def main_page_def terms_ok_def process_screen_def table_ok_def same_image_def)


section \<open>Halting\<close>

lemma system_halt_run:
  assumes i: "3 \<le> i" "i < 6" and q: "q < 6" "q \<noteq> i"
    and main: "main_process s = int i" and len: "length (process_num s) = 6"
  defines "own \<equiv> pcbs s (return_pcb_parent (int i))"
  assumes own: "pid own = int i" "parent_pcb own = return_pcb_parent (int q)"
    and par: "pid (pcbs s (return_pcb_parent (int q))) = int q" and tlb: "tlb_user s = user_frame (int i) OR 0x87"
  shows "\<exists>s'. system_halt status s = Some (RetFromHalt (ebp own) (esp own) (ucast status), s') \<and>
    main_process s' = int q \<and> process_num s' = (process_num s)[i := -1] \<and>
    terminals s' = halt_tasks (int i) (int q) (terminals s) \<and> tlb_user s' = user_frame (int q) OR 0x87 \<and>
    pcbs s' = (pcbs s)(return_pcb_parent (int q) :=
      (pcbs s (return_pcb_parent (int q)))\<lparr>status_retval := ucast status\<rparr>) \<and> statics s' = statics s \<and>
    (\<forall>a. \<not> (USER_PAGE \<le> a \<and> a < USER_PAGE + UNIT_4_MB) \<longrightarrow> mem s' a = mem s a) \<and>
    (\<forall>p<6. \<forall>o'<UNIT_4_MB. user_byte s' (int p) o' = user_byte s (int p) o')"
proof -
  have ne: "return_pcb_parent (int i) \<noteq> return_pcb_parent (int q)" using pcb_inj [of i q] i q by auto
  have set: "aset (process_num s) (int i) (-1) = Some ((process_num s)[i := -1])" using len i by (simp add: aset_def)
  define x where "x = (cli s)\<lparr>pcbs := (pcbs s)(return_pcb_parent (int q) :=
      (pcbs s (return_pcb_parent (int q)))\<lparr>status_retval := ucast status\<rparr>),
    terminals := halt_tasks (int i) (int q) (terminals s), process_num := (process_num s)[i := -1], main_process := int q\<rparr>"
  define s' where "s' = (map_page (user_frame (int q)) 0x8000000 x)\<lparr>tss := (tss (map_page (user_frame (int q)) 0x8000000 x))\<lparr>ts_esp0 := 0x800000 - 0x8000 * word_of_int (int q) - 4\<rparr>\<rparr>"
  have x: "statics x = statics s" "mem x = mem s" "tlb_user x = tlb_user s" "phys x = phys s"
    by (simp_all add: x_def cli_def statics_def)
  have "system_halt status s = Some (RetFromHalt (ebp own) (esp own) (ucast status), s')"
    using main own par ne i set
    by (simp add: system_halt_def cli_def Let_def resume_parent_def MAX_TERMINALS_def s'_def x_def flip: own_def)
  moreover have "statics s' = statics s"
    using statics_map_page [of "user_frame (int q)" "0x8000000" x] x(1) by (simp add: s'_def statics_def)
  moreover have "mem s' a = mem s a" if "\<not> (USER_PAGE \<le> a \<and> a < USER_PAGE + UNIT_4_MB)" for a
    using map_page_mem [OF that] by (simp add: s'_def x)
  moreover have "user_byte s' (int p) o' = user_byte s (int p) o'" if "p < 6" "o' < UNIT_4_MB" for p o'
  proof -
    have "user_byte s' (int p) o' = user_byte (map_page (user_frame (int q)) 0x8000000 x) (int p) o'"
      by (rule user_byte_cong) (simp_all add: s'_def)
    also have "\<dots> = user_byte x (int p) o'"
      by (rule user_byte_map_page [of _ _ _ _ "int i"]) (use that i q x tlb in simp_all)
    also have "\<dots> = user_byte s (int p) o'" by (rule user_byte_cong) (simp_all add: x)
    finally show ?thesis .
  qed
  ultimately show ?thesis by (intro exI [of _ s']) (simp add: s'_def map_page_tlb, simp add: x_def)
qed


section \<open>The shell and its child\<close>

text \<open>The shell of the terminal in front runs and has no child; its page is mapped.\<close>

definition shell_ok :: "kstate \<Rightarrow> bool" where
  "shell_ok s \<longleftrightarrow> user_ok s \<and> table_ok s \<and> main_process s = active_terminal s \<and>
     process_num s ! nat (active_terminal s) = active_terminal s \<and>
     (\<forall>j<6. 3 \<le> j \<longrightarrow> process_num s ! j \<noteq> active_terminal s) \<and>
     (\<forall>p<6. length (fdt (pcbs s (return_pcb_parent (int p)))) = 8) \<and>
     (\<forall>p<6. process_num s ! p \<noteq> -1 \<longrightarrow> pid (pcbs s (return_pcb_parent (int p))) = int p) \<and>
     tlb_user s = user_frame (main_process s) OR 0x87 \<and>
     disjoint_rng USER_PAGE UNIT_4_MB (frame s) 136 \<and> disjoint_rng VIDEO 4000 (frame s) 136 \<and>
     disjoint_rng VIDEO 4000 (arg_buf s) 128"

text \<open>The state a child of the shell starts in, up to the descriptor table that its first call selects.\<close>

definition child_of :: "kstate \<Rightarrow> nat \<Rightarrow> u8 list \<Rightarrow> kstate \<Rightarrow> bool" where
  "child_of s i cs c \<longleftrightarrow> user_ok (use_main_pcb c) \<and> same_image s c \<and> process_screen c = process_screen s \<and>
     main_process c = int i \<and> arg_buf c = arg_buf s \<and> rodata c = rodata s \<and> main_page c = main_page s \<and>
     cstr (mem c) (arg_buf s) (cmd_args cs) \<and>
     (\<exists>t. length t = 8 \<and> fdt (pcbs c (return_pcb_parent (int i))) = fresh_fdt t)"

lemma shell_facts:
  assumes "shell_ok s"
  obtains a where "a < 3" "active_terminal s = int a" "main_process s = int a" "process_num s ! a = int a"
    "pos_idx t s = a" "main_page s = VIDEO" "length (terminals s) = 3" "length (process_num s) = 6"
proof -
  define a where "a = nat (active_terminal s)"
  have t: "table_ok s" "terms_ok s" "main_process s = active_terminal s" "process_num s ! a = active_terminal s"
    using assms by (simp_all add: shell_ok_def user_ok_def a_def)
  have r: "0 \<le> active_terminal s" "active_terminal s < 3" using t(1) by (simp_all add: table_ok_def)
  have a: "active_terminal s = int a" "a < 3" using r by (simp_all add: a_def)
  have m: "main_process s = int a" "process_num s ! a = int a" using t a by simp_all
  have p: "pos_idx t s = a" for t by (simp add: pos_idx_def a m)
  have "main_page s = VIDEO" by (simp add: main_page_def p)
  moreover have "length (terminals s) = 3" "length (process_num s) = 6" using t(1,2) by (simp_all add: table_ok_def terms_ok_def)
  ultimately show ?thesis using that [OF a(2,1) m p] by blast
qed

lemma shell_slot:
  assumes ok: "shell_ok s" and slot: "List.find (slot_free s) [0..<6] = Some i" and q: "parent_slot s i q"
  shows "3 \<le> i" "i < 6" "process_num s ! i = -1" "int q = active_terminal s"
proof -
  obtain a where a: "a < 3" "active_terminal s = int a" "process_num s ! a = int a" by (rule shell_facts [OF ok])
  have i: "i < 6" "slot_free s i" using slot by (auto simp: find_Some_iff)
  then show "i < 6" "process_num s ! i = -1" by (simp_all add: slot_free_def)
  have "i \<noteq> a" using i(2) a(3) by (auto simp: slot_free_def)
  then show i3: "3 \<le> i" using i(2) a(2) by (simp add: slot_free_def)
  have t: "process_num s ! q = int a" "q < i" using q i3 a(2) by (simp_all add: parent_slot_def)
  have no: "\<forall>j<6. 3 \<le> j \<longrightarrow> process_num s ! j \<noteq> int a" using ok a(2) by (simp add: shell_ok_def)
  have q3: "q < 3" using no t i(1) by (meson le_trans less_imp_le not_less order.strict_trans)
  have "\<forall>j<3. process_num s ! j \<in> {-1, int j}" using ok by (simp add: shell_ok_def table_ok_def)
  then have "process_num s ! q \<in> {-1, int q}" using q3 by blast
  then show "int q = active_terminal s" using t(1) a(2) by simp
qed

section \<open>Starting the child\<close>

lemma fresh_fdt_nth:
  assumes "length t = 8"
  shows "length (fresh_fdt t) = 8" "f_ops (fresh_fdt t ! 1) = Some terminal_table" "f_ops (fresh_fdt t ! 0) = Some terminal_table"
    "j < 8 \<Longrightarrow> flags (fresh_fdt t ! j) = (if j < 2 then 1 else 0)" "j < 8 \<Longrightarrow> inode_num (fresh_fdt t ! j) = -1"
    "j < 8 \<Longrightarrow> file_pos (fresh_fdt t ! j) = 0"
  using assms by (auto simp: fresh_fdt_def Let_def nth_list_update less_2_cases_iff)

lemma child_fds:
  assumes c: "child_of s i cs c"
  shows "first_free (use_main_pcb c) = Some 2" "fd_used (use_main_pcb c) 1"
    "j < 8 \<Longrightarrow> inode_num (fd_table (use_main_pcb c) ! j) = -1" "f_ops (fd_table (use_main_pcb c) ! 0) = Some terminal_table"
    "file_pos (fd_table (use_main_pcb c) ! 2) = 0"
proof -
  obtain t where t: "length t = 8" "fdt (pcbs c (return_pcb_parent (main_process c))) = fresh_fdt t"
    using c by (auto simp: child_of_def)
  note n = fresh_fdt_nth [OF t(1)]
  have u: "fd_used (use_main_pcb c) (int j) \<longleftrightarrow> j < 2" if "j < 8" for j
    using that by (simp add: fd_used_def t(2) n(4))
  have "[0..<8] = [0, 1, 2] @ [3..<(8 :: nat)]" by (simp add: upt_rec)
  then show "first_free (use_main_pcb c) = Some 2" using u [of 0] u [of 1] u [of 2] by (simp add: first_free_def)
  show "fd_used (use_main_pcb c) 1" using u [of 1] by simp
  show "j < 8 \<Longrightarrow> inode_num (fd_table (use_main_pcb c) ! j) = -1" "f_ops (fd_table (use_main_pcb c) ! 0) = Some terminal_table"
    "file_pos (fd_table (use_main_pcb c) ! 2) = 0"
    using n by (simp_all add: t(2))
qed

lemma screen_at_cong:
  "(\<And>a. base \<le> a \<Longrightarrow> a < base + 4000 \<Longrightarrow> m' a = m a) \<Longrightarrow> screen_at m' base x y c = screen_at m base x y c"
  by (simp add: screen_at_def bytes_at_def)

lemma shell_starts:
  assumes ok: "shell_ok s" and prog: "program s ino" and cs: "cstr (mem s) command cs"
    and len: "length (cmd_word cs) \<le> 32" "length (cmd_args cs) < 128" and ascii: "\<forall>x\<in>set (cmd_word cs). x < 128"
    and look: "lookup_name (cmd_word cs) s = Some d" "entry_inode s d = int ino"
    and lay: "exec_layout s command (length cs + 1)" and slot: "List.find (slot_free s) [0..<6] = Some i"
  shows "\<exists>s1 q. system_execute command s = Some (Iret (program_entry s ino), s1) \<and> child_of s i cs s1 \<and>
    parent_slot s i q \<and> process_num s1 = (process_num s)[i := active_terminal s] \<and>
    terminals s1 = (terminals s)[nat (active_terminal s) :=
       (terminals s ! nat (active_terminal s))\<lparr>curr_task := int i\<rparr>] \<and>
    pcbs s1 = (pcbs s)(return_pcb_parent (int i) := fresh_pcb i q s) \<and>
    tlb_user s1 = user_frame (int i) OR 0x87 \<and> exec_kept s i s1"
proof -
  obtain a where a: "a < 3" "active_terminal s = int a" "main_process s = int a" "process_num s ! a = int a"
    "pos_idx False s = a" "main_page s = VIDEO" "length (terminals s) = 3" "length (process_num s) = 6"
    by (rule shell_facts [OF ok])
  have u0: "user_ok s" "table_ok s" using ok by (simp_all add: shell_ok_def)
  have "fs_ok s" "terms_ok s" using u0(1) by (simp_all add: user_ok_def)
  note u = u0 this
  obtain s1 q where ex: "system_execute command s = Some (Iret (program_entry s ino), s1)" and q: "parent_slot s i q"
    and s1: "main_process s1 = int i" "process_num s1 = (process_num s)[i := int a]"
      "terminals s1 = (terminals s)[a := (terminals s ! a)\<lparr>curr_task := int i\<rparr>]"
      "pcbs s1 = (pcbs s)(return_pcb_parent (int i) := fresh_pcb i q s)"
      "tlb_user s1 = user_frame (int i) OR 0x87" "cstr (mem s1) (arg_buf s) (cmd_args cs)" and k: "exec_kept s i s1"
    using system_execute_run [OF u(3) prog cs len ascii look lay u(2) a(7) slot] a(2) by auto
  note i = shell_slot [OF ok slot q]
  have st: "active_terminal s1 = int a" "boot_block s1 = boot_block s" "FS_START_ADDR s1 = FS_START_ADDR s"
    "arg_buf s1 = arg_buf s" "rodata s1 = rodata s" "text_color s1 = text_color s"
    using k a(2) by (simp_all add: exec_kept_def statics_def)
  have m: "mem s1 x = mem s x" if "\<not> (frame s \<le> x \<and> x < frame s + 136)" "\<not> (arg_buf s \<le> x \<and> x < arg_buf s + 128)"
    "\<not> (USER_PAGE \<le> x \<and> x < USER_PAGE + UNIT_4_MB)" for x
    using k that by (simp add: exec_kept_def)
  have im: "same_image s s1"
    unfolding same_image_def using lay st by (auto simp: exec_layout_def disjoint_rng_def intro!: m)
  have pos: "pos_idx t s1 = a" for t using s1(1,2) i(2) a(8) st(1) by (simp add: pos_idx_def)
  then have pg: "main_page s1 = VIDEO" by (simp add: main_page_def)
  have len1: "length (process_num s1) = 6" "length (terminals s1) = 3" using s1 a by simp_all
  have tm: "terms_ok s1"
    using u(4) s1(1-3) st(1) i(2) a(1,7,8) by (auto simp: terms_ok_def nth_list_update)
  have "mem s1 x = mem s x" if "VIDEO \<le> x" "x < VIDEO + 4000" for x
    by (rule m) (use ok that in \<open>auto simp: shell_ok_def disjoint_rng_def USER_PAGE_def VIDEO_def\<close>)
  then have scr: "process_screen s1 = process_screen s"
    unfolding process_screen_def Let_def pos a(5,6) pg st(6) s1(3)
    using a(1,7) by (simp add: screen_at_cong [of VIDEO "mem s1" "mem s"])
  have t8: "length (fdt (pcbs s (return_pcb_parent (int i)))) = 8" using ok i(2) by (simp add: shell_ok_def)
  have fdt: "fdt (pcbs s1 (return_pcb_parent (int i))) = fresh_fdt (fdt (pcbs s (return_pcb_parent (int i))))"
    by (simp add: s1(4) fresh_pcb_def)
  have "user_ok (use_main_pcb s1)"
  proof -
    let ?c = "use_main_pcb s1"
    have c: "pcbs ?c = pcbs s1" "curr_pcb ?c = return_pcb_parent (int i)" "main_process ?c = int i" "boot_block ?c = boot_block s"
      "terms_ok ?c" "main_page ?c = VIDEO"
      using s1(1) st tm pg by simp_all
    have im': "same_image s ?c" using im by simp
    show ?thesis
      unfolding user_ok_def fds_ok_def
      using c fresh_fdt_nth [OF t8] same_image_counts [OF im'] u a(6) by (simp add: fdt user_ok_def)
  qed
  then have "child_of s i cs s1"
    using im scr s1 st pg a(6) t8 fdt by (auto simp: child_of_def)
  with ex q s1 k a(2) show ?thesis by auto
qed

section \<open>From the call to its return\<close>

lemma ended_child:
  assumes a: "a < 3" and i: "3 \<le> i" "i < 6" and c: "user_ok c" "process_num c ! i = int a" "active_terminal c = int a" "main_process c = int i"
    and s3: "main_process s3 = int a" "terminals s3 = halt_tasks (int i) (int a) (terminals c)" "active_terminal s3 = int a"
      "process_num s3 = (process_num c)[i := -1]" "process_num s3 ! a = int a" "text_color s3 = text_color c"
    and m: "\<And>x. VIDEO \<le> x \<Longrightarrow> x < VIDEO + 4000 \<Longrightarrow> mem s3 x = mem c x"
  shows "terms_ok s3" "process_screen s3 = process_screen c" "main_page s3 = VIDEO" "main_page c = VIDEO"
proof -
  have t: "terms_ok c" using c(1) by (simp add: user_ok_def)
  have p3: "pos_idx t s3 = a" and pc: "pos_idx t c = a" for t using s3 c by (simp_all add: pos_idx_def)
  then show pg: "main_page s3 = VIDEO" "main_page c = VIDEO" by (simp_all add: main_page_def)
  have ts: "x_cursor (terminals s3 ! j) = x_cursor (terminals c ! j)" "y_cursor (terminals s3 ! j) = y_cursor (terminals c ! j)"
    "video_addr (terminals s3 ! j) = video_addr (terminals c ! j)" if "j < 3" for j
    using t that by (simp_all add: s3(2) halt_tasks_def terms_ok_def)
  show "terms_ok s3"
    using t a ts s3(1,3,4,5) by (simp add: terms_ok_def) (simp add: s3(2) halt_tasks_def)
  show "process_screen s3 = process_screen c"
    unfolding process_screen_def Let_def p3 pc pg s3(6) using ts [OF a] by (simp add: screen_at_cong [OF m])
qed

lemma others_keptD:
  "others_kept s i s' \<Longrightarrow> tlb_user s = user_frame (int r) OR 0x87 \<Longrightarrow> r < 6 \<Longrightarrow> disjoint_rng USER_PAGE UNIT_4_MB (frame s) 136 \<Longrightarrow>
    p < 6 \<Longrightarrow> o' < UNIT_4_MB \<Longrightarrow> p \<noteq> i \<Longrightarrow> user_byte s' (int p) o' = user_byte s (int p) o'"
  unfolding others_kept_def by blast

lemma image_after_halt:
  assumes im: "same_image s c" and lay: "disjoint_rng USER_PAGE UNIT_4_MB (boot_block s) (fs_size s)"
    and st: "statics s3 = statics c" and m3: "\<And>x. \<not> (USER_PAGE \<le> x \<and> x < USER_PAGE + UNIT_4_MB) \<Longrightarrow> mem s3 x = mem c x"
  shows "same_image s s3"
proof -
  have "boot_block c = boot_block s" "fs_size c = fs_size s" using im same_image_counts [OF im] by (simp_all add: same_image_def)
  then have "mem s3 x = mem c x" if "boot_block c \<le> x" "x < boot_block c + fs_size c" for x
    using that lay by (intro m3) (auto simp: disjoint_rng_def)
  then have "same_image c s3" using st by (simp add: same_image_def statics_def)
  with im show ?thesis by (rule same_image_trans)
qed

lemma user_ok_again:
  assumes u: "user_ok s" "main_page s = VIDEO" and im: "same_image s s'" and f: "fd_table s' = fd_table s"
    "curr_pcb s' = return_pcb_parent (main_process s')" "terms_ok s'" "main_page s' = VIDEO"
  shows "user_ok s'"
proof -
  have "boot_block s' = boot_block s" using im by (simp add: same_image_def)
  with u f same_image_counts [OF im] show ?thesis by (auto simp: user_ok_def fds_ok_def)
qed

lemma execute_returns:
  assumes ok: "shell_ok s" and prog: "program s ino" and cs: "cstr (mem s) command cs"
    and len: "length (cmd_word cs) \<le> 32" "length (cmd_args cs) < 128" and ascii: "\<forall>x\<in>set (cmd_word cs). x < 128"
    and look: "lookup_name (cmd_word cs) s = Some d" "entry_inode s d = int ino"
    and lay: "exec_layout s command (length cs + 1)" and slot: "List.find (slot_free s) [0..<6] = Some i"
    and run: "\<And>c. child_of s i cs c \<Longrightarrow> \<exists>c2. main c = Some (r, c2) \<and> user_ok c2 \<and> alike (use_main_pcb c) c2 \<and>
      same_image c c2 \<and> process_screen c2 = f (process_screen c)"
  shows "\<exists>s1 s2 s3. system_execute command s = Some (Iret (program_entry s ino), s1) \<and> main s1 = Some (r, s2) \<and>
    system_halt status (sti s2) = Some (RetFromHalt (reg_ebp s) (reg_esp s) (ucast status), s3) \<and>
    shell_ok (use_main_pcb s3) \<and> same_image s s3 \<and> process_screen s3 = f (process_screen s) \<and> process_num s3 = process_num s \<and>
    rodata s3 = rodata s \<and> (\<forall>o'<UNIT_4_MB. mem s3 (USER_PAGE + o') = mem s (USER_PAGE + o'))"
proof -
  obtain a where a: "a < 3" "active_terminal s = int a" "main_process s = int a" "process_num s ! a = int a"
    "main_page s = VIDEO" "length (terminals s) = 3" "length (process_num s) = 6" by (rule shell_facts [OF ok])
  obtain s1 q where ex: "system_execute command s = Some (Iret (program_entry s ino), s1)" and ch: "child_of s i cs s1"
    and ps: "parent_slot s i q" and s1: "process_num s1 = (process_num s)[i := int a]"
      "pcbs s1 = (pcbs s)(return_pcb_parent (int i) := fresh_pcb i q s)"
      "tlb_user s1 = user_frame (int i) OR 0x87" and k: "exec_kept s i s1"
    using shell_starts [OF ok prog cs len ascii look lay slot] a(2) by auto
  note i = shell_slot [OF ok slot ps]
  have q: "q = a" using i(4) a(2) by simp
  obtain c where c: "main s1 = Some (r, c)" "user_ok c" "alike (use_main_pcb s1) c" "same_image s1 c"
    "process_screen c = f (process_screen s1)" using run [OF ch] by blast
  have al: "process_num c = (process_num s)[i := int a]" "main_process c = int i" "active_terminal c = active_terminal s1"
    "tlb_user c = user_frame (int i) OR 0x87" "phys c = phys s1" "curr_pcb c = return_pcb_parent (int i)" "frame c = frame s1"
    "text_color c = text_color s1" "boot_block c = boot_block s1" "arg_buf c = arg_buf s1" "rodata c = rodata s1"
    "child_ran s1 c" "\<And>x. x \<noteq> return_pcb_parent (int i) \<Longrightarrow> pcbs c x = pcbs s1 x"
    using c(3) s1 ch by (simp_all add: alike_def child_of_def child_ran_def)
  have ne: "return_pcb_parent (int a) \<noteq> return_pcb_parent (int i)" using pcb_inj [of a i] a i by auto
  have own: "pid (pcbs c (return_pcb_parent (int i))) = int i" "parent_pcb (pcbs c (return_pcb_parent (int i))) = return_pcb_parent (int a)"
    "ebp (pcbs c (return_pcb_parent (int i))) = reg_ebp s" "esp (pcbs c (return_pcb_parent (int i))) = reg_esp s"
    using al(12) by (simp_all add: child_ran_def s1(2) fresh_pcb_def q)
  have par: "pcbs c (return_pcb_parent (int a)) = pcbs s (return_pcb_parent (int a))" "pid (pcbs s (return_pcb_parent (int a))) = int a"
    using al(13) [OF ne] ne s1(2) ok a by (auto simp: shell_ok_def)
  have "a < 6" "a \<noteq> i" "length (process_num (sti c)) = 6" using a i al(1) by (simp_all add: sti_def)
  from system_halt_run [OF i(1,2) this(1,2) _ this(3), of status] own par al(2,4)
  obtain s3 where h: "system_halt status (sti c) = Some (RetFromHalt (reg_ebp s) (reg_esp s) (ucast status), s3)"
    and s3: "main_process s3 = int a" "process_num s3 = (process_num c)[i := -1]"
      "terminals s3 = halt_tasks (int i) (int a) (terminals c)" "tlb_user s3 = user_frame (int a) OR 0x87"
      "pcbs s3 = (pcbs c)(return_pcb_parent (int a) := (pcbs c (return_pcb_parent (int a)))\<lparr>status_retval := ucast status\<rparr>)"
      "statics s3 = statics c" and m3: "\<And>x. \<not> (USER_PAGE \<le> x \<and> x < USER_PAGE + UNIT_4_MB) \<Longrightarrow> mem s3 x = mem c x"
    and ub3: "\<And>p o'. p < 6 \<Longrightarrow> o' < UNIT_4_MB \<Longrightarrow> user_byte s3 (int p) o' = user_byte (sti c) (int p) o'"
    by (auto simp: statics_def sti_def)
  have im: "same_image s c" using ch c(4) same_image_trans by (auto simp: child_of_def)
  have im3: "same_image s s3"
    by (rule image_after_halt [OF im _ s3(6) m3]) (use lay in \<open>simp_all add: exec_layout_def\<close>)
  have st: "active_terminal s3 = int a" "text_color s3 = text_color c" "arg_buf s3 = arg_buf s" "frame s3 = frame s" "rodata s3 = rodata s"
    "active_terminal c = int a"
    using s3(6) k al a(2) by (simp_all add: exec_kept_def statics_def)
  have pn: "process_num s3 = process_num s" unfolding s3(2) al(1) using i(3) by (metis list_update_id list_update_overwrite)
  have own_terminal: "process_num c ! i = int a" "process_num s3 ! a = int a" using al(1) i(2) pn a by simp_all
  have video: "mem s3 x = mem c x" if "VIDEO \<le> x" "x < VIDEO + 4000" for x
    using that by (intro m3) (simp add: USER_PAGE_def VIDEO_def)
  note e = ended_child [OF a(1) i(1,2) c(2) own_terminal(1) st(6) al(2) s3(1,3) st(1) s3(2) own_terminal(2) st(2) video]
  have u: "user_ok s" "table_ok s" using ok by (simp_all add: shell_ok_def)
  have blocks: "fdt (pcbs s3 (return_pcb_parent (int p))) =
      (if p = i then fd_table c else fdt (pcbs s (return_pcb_parent (int p))))"
    "pid (pcbs s3 (return_pcb_parent (int p))) = (if p = i then int i else pid (pcbs s (return_pcb_parent (int p))))"
    if "p < 6" for p
    using that pcb_inj [OF that i(2)] ne s3(5) own(1) al(6,13) s1(2) by auto
  have "user_ok (use_main_pcb s3)"
    by (rule user_ok_again [OF u(1), of "use_main_pcb s3"]) (use im3 blocks(1) [of a] a \<open>a \<noteq> i\<close> s3(1) e u(1) in \<open>simp_all add: user_ok_def\<close>)
  moreover have "table_ok (use_main_pcb s3)"
    using u(2) pn st a by (simp add: table_ok_def)
  moreover have "length (fd_table c) = 8" using c(2) by (auto simp: user_ok_def fds_ok_def)
  ultimately have "shell_ok (use_main_pcb s3)"
    using ok blocks pn st s3(1,4) a i
    by (simp add: shell_ok_def)
  moreover have "mem s3 (USER_PAGE + o') = mem s (USER_PAGE + o')" if "o' < UNIT_4_MB" for o'
  proof -
    have d: "user_frame (int i) OR 0x87 \<noteq> user_frame (int a) OR 0x87"
      using user_pde_inj [of "int i" "int a"] a i by simp
    have "mem s3 (USER_PAGE + o') = user_byte s3 (int a) o'" using s3(4) by (simp add: user_byte_def)
    also have "\<dots> = user_byte (sti c) (int a) o'" using ub3 [of a] that a(1) by simp
    also have "\<dots> = user_byte s1 (int a) o'" using d al(4,5) s1(3) by (simp add: user_byte_def sti_def)
    also have "\<dots> = user_byte s (int a) o'"
      by (rule others_keptD [of s i s1 a]) (use k ok that a i(1) in \<open>simp_all add: exec_kept_def shell_ok_def\<close>)
    also have "\<dots> = mem s (USER_PAGE + o')" using ok a(3) by (simp add: user_byte_def shell_ok_def)
    finally show ?thesis .
  qed
  moreover have "process_screen s3 = f (process_screen s)" using e(2) c(5) ch by (simp add: child_of_def)
  ultimately show ?thesis using ex c(1) h im3 pn st(5) by blast
qed

section \<open>The shell runs a command\<close>

text \<open>\<open>cat\<close> starts with \<open>getargs\<close>, which does not use the descriptor table, and \<open>open\<close>, which selects it.\<close>

lemma cat_main_pcb:
  assumes "cstr (mem s) (arg_buf s) xs" "xs \<noteq> []" "b \<noteq> 0" "adr32 b" "b \<le> arg_buf s \<or> arg_buf s + length xs < b"
  shows "cat_main env b (use_main_pcb s) = cat_main env b s"
proof -
  have g: "ece391_getargs b 1024 x = Some (0, (sti x)\<lparr>mem := blit (mem s) b (xs @ [0])\<rparr>)"
    if "mem x = mem s" "arg_buf x = arg_buf s" for x
    using system_getargs_eq [of "sti x" xs b 1024] assms that by (simp add: call_eq)
  let ?m = "blit (mem s) b (xs @ [0])"
  have "use_main_pcb (sti ((sti (use_main_pcb s))\<lparr>mem := ?m\<rparr>)) = use_main_pcb (sti ((sti s)\<lparr>mem := ?m\<rparr>))"
    by (simp add: use_main_pcb_def set_filesys_pcb_def sti_def)
  then have "ece391_open b ((sti (use_main_pcb s))\<lparr>mem := ?m\<rparr>) = ece391_open b ((sti s)\<lparr>mem := ?m\<rparr>)"
    using assms(4) by (simp add: call_eq system_open_def)
  then show ?thesis by (simp add: cat_main_def g)
qed

text \<open>A command line that names \<open>cat\<close> and a file.\<close>

definition cat_line :: "kstate \<Rightarrow> nat \<Rightarrow> nat \<Rightarrow> u8 list \<Rightarrow> bool" where
  "cat_line s prg ino cs \<longleftrightarrow> program s prg \<and> inode_ok s ino \<and>
     length (cmd_word cs) \<le> 32 \<and> (\<forall>x\<in>set (cmd_word cs). x < 128) \<and>
     (\<exists>d. lookup_name (cmd_word cs) s = Some d \<and> entry_inode s d = int prg) \<and>
     cmd_args cs \<noteq> [] \<and> length (cmd_args cs) \<le> 32 \<and> (\<forall>x\<in>set (cmd_args cs). x < 128) \<and>
     (\<exists>d. lookup_name (cmd_args cs) s = Some d \<and> entry_filetype s d = 2 \<and> entry_inode s d = int ino)"

lemma lookup_less: "lookup_name xs s = Some d \<Longrightarrow> d < 63"
  by (auto simp: lookup_name_def find_Some_iff)

lemma cat_line_step:
  assumes im: "same_image s s'" and fs: "fs_ok s" and l: "cat_line s prg ino cs"
  shows "cat_line s' prg ino cs" "file_data s' ino 0 (file_length s' ino) = file_data s ino 0 (file_length s ino)"
proof -
  have ino: "inode_ok s ino" "program s prg" using l by (simp_all add: cat_line_def)
  note i = same_image_inode [OF im fs ino(1)] and p = same_image_program(1) [OF im fs ino(2)]
  show "cat_line s' prg ino cs"
    using l i p same_image_lookup [OF im] same_image_filetype [OF im] lookup_less [of _ s] by (auto simp: cat_line_def)
  show "file_data s' ino 0 (file_length s' ino) = file_data s ino 0 (file_length s ino)"
    unfolding i(1) by (rule same_image_data [OF im fs ino(1)]) simp
qed

text \<open>The buffer of the child is memory outside the image, the screen and the arguments.\<close>

definition child_buf :: "kstate \<Rightarrow> addr \<Rightarrow> bool" where
  "child_buf s b \<longleftrightarrow> user_buf s b 1024 \<and> (b \<le> arg_buf s \<or> arg_buf s + 32 < b)"

lemma child_cat:
  assumes c: "child_of s i cs c" and fs: "fs_ok s" and l: "cat_line s prg ino cs" and b: "child_buf s b"
  shows "\<exists>c2. cat_main env b c = Some (0, c2) \<and> user_ok c2 \<and> alike (use_main_pcb c) c2 \<and> same_image c c2 \<and>
    process_screen c2 = fold show_byte (file_data s ino 0 (file_length s ino)) (process_screen c)"
proof -
  let ?c = "use_main_pcb c"
  have im: "same_image s c" and arg: "cstr (mem c) (arg_buf c) (cmd_args cs)" and ok: "user_ok ?c"
    and f: "arg_buf c = arg_buf s" "main_page c = main_page s" using c by (simp_all add: child_of_def)
  have im': "same_image s ?c" "same_image c ?c" using im by (simp_all add: same_image_def)
  note l' = cat_line_step [OF im'(1) fs l]
  obtain d where d: "lookup_name (cmd_args cs) ?c = Some d" "entry_filetype ?c d = 2" "entry_inode ?c d = int ino"
    using l'(1) by (auto simp: cat_line_def)
  have args: "cmd_args cs \<noteq> []" "length (cmd_args cs) \<le> 32" "\<forall>x\<in>set (cmd_args cs). x < 128" and ino: "inode_ok ?c ino"
    using l'(1) by (simp_all add: cat_line_def)
  have ub: "user_buf ?c b 1024" using b im f same_image_counts [OF im'(1)] by (simp add: child_buf_def user_buf_def same_image_def)
  have pl: "b \<le> arg_buf c \<or> arg_buf c + length (cmd_args cs) < b" using b args(2) f by (auto simp: child_buf_def)
  have "\<forall>j<8. fd_used ?c (int j) \<longrightarrow> inode_num (fd_table ?c ! j) \<noteq> int ino"
    using child_fds(3) [OF c] by simp
  then have "\<exists>c2. cat_main env b ?c = Some (0, c2) \<and> user_ok c2 \<and> alike ?c c2 \<and> same_image ?c c2 \<and>
    process_screen c2 = fold show_byte (file_data ?c ino 0 (file_length ?c ino)) (process_screen ?c)"
    using cat_main_prints [OF ok ub _ args _ d ino child_fds(1,2) [OF c], of env] arg pl by simp
  moreover have "cat_main env b ?c = cat_main env b c"
    using cat_main_pcb [OF arg args(1) _ _ pl, of env] b by (simp add: child_buf_def user_buf_def)
  moreover have "same_image c c2" if "same_image ?c c2" for c2 using im'(2) that by (rule same_image_trans)
  ultimately show ?thesis using l'(2) by auto
qed

text \<open>What the shell does between commands keeps the situation.\<close>

lemma shell_kept:
  assumes k: "kept s s'" and im: "same_image s s'"
  shows "shell_ok s \<Longrightarrow> terms_ok s' \<Longrightarrow> shell_ok s'" "exec_layout s' = exec_layout s" "slot_free s' = slot_free s" "child_buf s' = child_buf s"
proof -
  have al: "alike s s'" using k by (rule kept_alike)
  have f: "frame s' = frame s" "arg_buf s' = arg_buf s" "boot_block s' = boot_block s" "process_num s' = process_num s"
    "active_terminal s' = active_terminal s" "main_process s' = main_process s" "tlb_user s' = tlb_user s" "pcbs s' = pcbs s"
    using k by (simp_all add: kept_def alike_def)
  note n = same_image_counts [OF im]
  show "exec_layout s' = exec_layout s" "slot_free s' = slot_free s" "child_buf s' = child_buf s"
    by (simp_all add: exec_layout_def slot_free_def child_buf_def fun_eq_iff f n user_buf_step [OF al im])
  assume s: "shell_ok s" and t: "terms_ok s'"
  have "user_ok s'" by (rule user_ok_kept [OF _ k t im]) (use s in \<open>simp add: shell_ok_def\<close>)
  moreover have "table_ok s'" using s by (simp add: shell_ok_def table_ok_def f)
  ultimately show "shell_ok s'" using s by (simp add: shell_ok_def f)
qed

lemma shell_ok_parts: "shell_ok s \<Longrightarrow> user_ok s" "shell_ok s \<Longrightarrow> fs_ok s" "shell_ok s \<Longrightarrow> terms_ok s"
  by (auto simp: shell_ok_def user_ok_def)

lemma execute_cat:
  assumes ok: "shell_ok s" and l: "cat_line s prg ino cs" and cs: "cstr (mem s) command cs"
    and lay: "exec_layout s command (length cs + 1)" and slot: "List.find (slot_free s) [0..<6] = Some i"
    and adr: "adr32 command" and b: "child_buf s b"
  shows "\<exists>s3. ece391_execute (\<lambda>e. cat_main env b) command s = Some (0, s3) \<and> shell_ok (use_main_pcb s3) \<and>
    process_screen s3 = fold show_byte (file_data s ino 0 (file_length s ino)) (process_screen s) \<and>
    process_num s3 = process_num s \<and> rodata s3 = rodata s \<and>
    (\<forall>o'<UNIT_4_MB. mem s3 (USER_PAGE + o') = mem s (USER_PAGE + o'))"
proof -
  let ?s = "sti s"
  note fs = shell_ok_parts(2) [OF ok]
  note k = shell_kept [OF kept_refl(3) same_image_sti, of s] and c = cat_line_step [OF same_image_sti fs l]
  have ok0: "shell_ok ?s" using k(1) [OF ok] shell_ok_parts(3) [OF ok] by simp
  have cl: "program ?s prg" "length (cmd_word cs) \<le> 32" "length (cmd_args cs) < 128" "\<forall>x\<in>set (cmd_word cs). x < 128"
    using c(1) by (simp_all add: cat_line_def)
  obtain d where d: "lookup_name (cmd_word cs) ?s = Some d" "entry_inode ?s d = int prg" using c(1) by (auto simp: cat_line_def)
  have run: "\<exists>c2. cat_main env b x = Some (0, c2) \<and> user_ok c2 \<and> alike (use_main_pcb x) c2 \<and> same_image x c2 \<and>
      process_screen c2 = fold show_byte (file_data s ino 0 (file_length s ino)) (process_screen x)"
    if "child_of ?s i cs x" for x
    using child_cat [OF that shell_ok_parts(2) [OF ok0] c(1), of b env] b c(2) k(4) by simp
  have pre: "cstr (mem ?s) command cs" "exec_layout ?s command (length cs + 1)" "List.find (slot_free ?s) [0..<6] = Some i"
    using cs lay slot k(2,3) by simp_all
  obtain s1 s2 s3 where r: "system_execute command ?s = Some (Iret (program_entry ?s prg), s1)" "cat_main env b s1 = Some (0, s2)"
    "system_halt 0 (sti s2) = Some (RetFromHalt (reg_ebp ?s) (reg_esp ?s) (ucast (0 :: u8)), s3)"
    "shell_ok (use_main_pcb s3)" "process_screen s3 = fold show_byte (file_data s ino 0 (file_length s ino)) (process_screen ?s)"
    "process_num s3 = process_num ?s" "\<forall>o'<UNIT_4_MB. mem s3 (USER_PAGE + o') = mem ?s (USER_PAGE + o')" "rodata s3 = rodata ?s"
    using execute_returns [OF ok0 cl(1) pre(1) cl(2-4) d pre(2,3) run, of 0] by blast
  have u: "unat (of_nat command :: u32) = command" using adr by (rule reg_addr)
  have "ece391_execute (\<lambda>e. cat_main env b) command s = Some (0, s3)"
    using r(1-3) by (simp add: ece391_execute_def user_start_def syscall_wrapper_call_def u) (simp add: sti_def)
  moreover have "process_num ?s = process_num s" by (simp add: sti_def)
  ultimately show ?thesis using r(4-8) by auto
qed

text \<open>The first call of a round selects the shell's descriptor table again.\<close>

lemma shell_loop_pcb:
  assumes a: "rodata s ''391OS> '' \<noteq> 0" "adr32 (rodata s ''391OS> '')"
  shows "shell_loop run env k b (use_main_pcb s) = shell_loop run env k b s"
proof -
  have st: "sti (use_main_pcb s) = use_main_pcb (sti s)" "use_main_pcb (use_main_pcb x) = use_main_pcb x" for x
    by (simp_all add: use_main_pcb_def set_filesys_pcb_def sti_def)
  have "system_write 1 (rodata s ''391OS> '') n (use_main_pcb (sti s)) = system_write 1 (rodata s ''391OS> '') n (sti s)" for n
    using a by (simp add: system_write_def st)
  then have "ece391_write 1 (rodata s ''391OS> '') n (use_main_pcb s) = ece391_write 1 (rodata s ''391OS> '') n s" for n
    using a by (simp add: ece391_write_def DO_CALL_def syscall_wrapper_call_def st reg_addr)
  then have "puts1 ''391OS> '' (use_main_pcb s) = puts1 ''391OS> '' s" by (simp add: puts1_def ece391_fdputs_def)
  then show ?thesis by (subst (1 2) shell_loop.simps) simp
qed

lemma cat_line_runs: "cat_line s prg ino xs \<Longrightarrow> xs \<noteq> [] \<and> xs \<noteq> str_bytes ''exit''"
  by (auto simp: cat_line_def cmd_args_def str_bytes_def chb_def)

lemma shell_cat_round:
  assumes ok: "shell_ok s" and b: "user_buf s b 1024" "USER_PAGE \<le> b" "b + 1024 \<le> USER_PAGE + UNIT_4_MB"
    and l: "line_for s b lb xs" "0 \<notin> set xs" and lits: "lit_ok s ''391OS> ''" "lit_ok s ''exit''" "lit_apart s b lb ''exit''"
    and cat: "cat_line s prg ino xs" and lay: "exec_layout s b (length xs + 1)" and slot: "List.find (slot_free s) [0..<6] = Some i"
    and b2: "child_buf s b2"
    and run: "run = ece391_execute (\<lambda>e. cat_main env2 b2)"
  shows "\<exists>s3. shell_loop run env k b s = shell_loop run env (k + 1) b s3 \<and> shell_ok s3 \<and>
    process_screen s3 = fold show_byte (str_bytes ''391OS> '' @ file_data s ino 0 (file_length s ino)) (process_screen s) \<and>
    process_num s3 = process_num s \<and> cstr (mem s3) b xs"
proof -
  obtain s1 where s1: "user_ok s1" "kept s s1" "same_image s s1" "cstr (mem s1) b xs"
      "process_screen s1 = fold show_byte (str_bytes ''391OS> '') (process_screen s)"
    and loop: "shell_loop run env k b s =
      (if xs = str_bytes ''exit'' then Some (0, s1)
       else if xs = [] then shell_loop run env (k + 1) b s1
       else do { (rval, s2) \<leftarrow> run b s1; s3 \<leftarrow> shell_report rval s2; shell_loop run env (k + 1) b s3 })"
    using shell_round [OF shell_ok_parts(1) [OF ok] b(1) l lits(1,2,3), of run env k] by blast
  note k = shell_kept [OF s1(2,3)] and c = cat_line_step [OF s1(3) shell_ok_parts(2) [OF ok] cat]
  have t1: "terms_ok s1" using s1(1) by (simp add: user_ok_def)
  have ad: "adr32 b" using b(1) by (simp add: user_buf_def)
  obtain s3 where s3: "run b s1 = Some (0, s3)" "shell_ok (use_main_pcb s3)"
    "process_screen s3 = fold show_byte (file_data s ino 0 (file_length s ino)) (process_screen s1)"
    "process_num s3 = process_num s1" "\<forall>o'<UNIT_4_MB. mem s3 (USER_PAGE + o') = mem s1 (USER_PAGE + o')" "rodata s3 = rodata s1"
    using execute_cat [OF k(1) [OF ok t1] c(1) s1(4) _ _ ad, of i b2 env2] lay slot b2 k(2-4) c(2) by (auto simp: run)
  have "mem s3 a = mem s1 a" if "b \<le> a" "a \<le> b + 1000" for a
    using s3(5) [rule_format, of "a - USER_PAGE"] that b(2,3) by simp
  moreover have "length xs < 1000" using l(1) by (simp add: line_for_def)
  ultimately have "cstr (mem s3) b xs" by (intro dstr_cong [OF s1(4)]) simp
  moreover have "rodata s1 = rodata s" "process_num s1 = process_num s" using s1(2) by (simp_all add: kept_def alike_def)
  moreover have "shell_loop run env (k + 1) b (use_main_pcb s3) = shell_loop run env (k + 1) b s3"
    using lits(1) s3(6) calculation(2) by (intro shell_loop_pcb) (simp_all add: lit_ok_def user_buf_def)
  moreover have "shell_loop run env k b s = shell_loop run env (k + 1) b s3"
    using loop cat_line_runs [OF cat] s3(1) by (simp add: shell_report_def)
  ultimately show ?thesis using s3 s1(5) by (intro exI [of _ "use_main_pcb s3"]) simp
qed

end
