(* ===== verification/User_Memory.thy ===== *)
theory User_Memory
  imports User_Programs
begin

text \<open>
  Stores of a user program through the page tables, for the programs that write outside their own
  page: the video page that \<open>vidmap\<close> hands out, or an address that is not theirs.
\<close>

text \<open>A store in user mode needs the user bit and the write bit of the directory entry and, below it,
  of the table entry.\<close>

definition user_may_write :: "kstate \<Rightarrow> u32 \<Rightarrow> bool" where
  "user_may_write s va \<longleftrightarrow>
     (let pde = page_dir s (unat (drop_bit 22 va)); pte = page_table s (unat (drop_bit 12 va AND 0x3FF))
      in bit pde 1 \<and> bit pde 2 \<and> (bit pde 7 \<or> bit pte 1 \<and> bit pte 2))"

text \<open>The user page is kept at its virtual address in \<open>mem\<close> and the kernel's memory at its physical
  address.  \<open>None\<close> is a page fault.\<close>

definition user_store :: "u32 \<Rightarrow> u8 \<Rightarrow> kstate \<Rightarrow> kstate option" where
  "user_store va x s =
     (if \<not> user_may_write s va then None
      else case translate s va of
        None \<Rightarrow> None
      | Some pa \<Rightarrow> Some (s\<lparr>mem := (mem s)((if USER_PAGE \<le> unat va \<and> unat va < USER_PAGE + UNIT_4_MB
          then unat va else unat pa) := x)\<rparr>))"

lemma user_may_write_cong:
  "page_dir s' = page_dir s \<Longrightarrow> page_table s' = page_table s \<Longrightarrow> user_may_write s' va = user_may_write s va"
  by (simp add: user_may_write_def)

text \<open>The first 4 MB belong to the kernel as long as their directory entry has no user bit.\<close>

lemma low_memory_protected:
  "page_dir s 0 = page_table_at s OR 3 \<Longrightarrow> page_table_at s AND mask 12 = 0 \<Longrightarrow> unat va < UNIT_4_MB \<Longrightarrow> user_store va x s = None"
proof -
  assume pde: "page_dir s 0 = page_table_at s OR 3" "page_table_at s AND mask 12 = 0" and va: "unat va < UNIT_4_MB"
  have "unat (drop_bit 22 va) = 0" using va by (simp add: unat_dir_index UNIT_4_MB_def)
  moreover have "\<not> bit (page_table_at s) 2"
    using arg_cong [OF pde(2), of "\<lambda>w. bit w 2"] by (simp add: bit_and_iff bit_mask_iff)
  then have "\<not> bit (page_dir s 0) 2" unfolding pde(1) by (simp add: bit_or_iff bit_numeral_rec)
  ultimately show "user_store va x s = None" by (simp add: user_store_def user_may_write_def Let_def)
qed

text \<open>The page of \<open>vidmap\<close> is writable.\<close>

lemma vidmap_writable:
  assumes "system_vidmap a s = Some (0, s')" and "off < 4096"
  shows "user_may_write s' (0x8800000 + of_nat off)"
proof -
  have va: "unat (0x8800000 + of_nat off :: u32) = 0x8800000 + off" using assms(2) by (simp add: unat_word_ariths unat_of_nat)
  then have d: "unat (drop_bit 22 (0x8800000 + of_nat off :: u32)) = 34"
    using assms(2) by (simp add: unat_dir_index)
  have "unat (drop_bit 12 w AND mask 10) = unat w div 4096 mod 1024" for w :: u32
    by (simp only: take_bit_eq_mask [symmetric] unsigned_take_bit_eq unat_drop_bit_eq) (simp add: take_bit_eq_mod drop_bit_eq_div)
  moreover have "(0x8800000 + off) div 4096 = 0x8800" using assms(2) by simp
  ultimately have t: "unat (drop_bit 12 (0x8800000 + of_nat off :: u32) AND 0x3FF) = 0" unfolding masks(2) by (simp add: va)
  have "page_dir s' 34 = page_table_at s OR 7" "page_table s' 0 = 0xB8007"
    using assms(1) by (auto simp: system_vidmap_def get_vidmap_page_def Let_def split: if_splits)
  then show ?thesis unfolding user_may_write_def d t Let_def by (simp add: bit_or_iff bit_numeral_rec)
qed

end
