(* ===== verification/Sigtest.thy ===== *)
theory Sigtest
  imports User_Memory User_Shell
begin

text \<open>
  The signal test program \<open>ece391sigtest.c\<close>.  Its calls of \<open>set_handler\<close> have the number 9, which the
  gate lets through but has no entry for; its store through the null pointer faults, since the first
  4 MB belong to the kernel.  The addresses of its static variables and handlers are the record
  \<open>sig_vars\<close>.  A run of \<open>main\<close> that ends with a page fault has the result \<open>None\<close>, in the state in
  which the exception handler takes over.
\<close>

record sig_vars =
  charbuf :: addr
  badbuf :: addr
  segfault_at :: addr
  alarm_at :: addr

definition ece391_set_handler :: "int \<Rightarrow> addr \<Rightarrow> kstate \<Rightarrow> (int \<times> kstate) option" where
  "ece391_set_handler signum handler = DO_CALL [] 9 (of_int signum) (of_nat handler) 0"

definition ece391_sigreturn :: "kstate \<Rightarrow> (int \<times> kstate) option" where
  "ece391_sigreturn = DO_CALL [] 10 0 0 0"

definition sigtest_main :: "sig_vars \<Rightarrow> env \<Rightarrow> addr \<Rightarrow> kstate \<Rightarrow> (int option \<times> kstate) option" where
  "sigtest_main v env buf s = do {
     (r, s) \<leftarrow> ece391_getargs buf 1024 s;
     if 0 \<noteq> r then do { s \<leftarrow> puts1 ''could not read argument\<newline>'' s; Some (Some 3, s) }
     else do {
       s \<leftarrow> (if mem s buf = 49
             then do {
               s \<leftarrow> puts1 ''Installing signal handlers\<newline>'' s;
               (r, s) \<leftarrow> ece391_set_handler 1 (segfault_at v) s;
               (r, s) \<leftarrow> ece391_set_handler 3 (alarm_at v) s;
               Some s }
             else Some s);
       s \<leftarrow> puts1 ''Hi, what's your name? '' s;
       (cnt, s) \<leftarrow> ece391_read (env 0) 0 buf 1023 s;
       if cnt = -1 then do { s \<leftarrow> puts1 ''Can't read name from keyboard.\<newline>'' s; Some (Some 3, s) }
       else (case user_store (ld32 (mem s) (badbuf v)) 1 s of
           None \<Rightarrow> Some (None, s)
         | Some s \<Rightarrow> do {
             let s = set_byte buf cnt 0 s;
             s \<leftarrow> puts1 ''Hello, '' s;
             s \<leftarrow> ece391_fdputs 1 buf s;
             s \<leftarrow> (if mem s (charbuf v) = 1 then puts1 ''success\<newline>'' s else puts1 ''failure\<newline>'' s);
             Some (Some 0, s) }) } }"

definition say_signum :: "int \<Rightarrow> kstate \<Rightarrow> kstate option" where
  "say_signum signum s =
     (if signum = 0 then puts1 ''0\<newline>'' s
      else if signum = 1 then puts1 ''1\<newline>'' s
      else if signum = 2 then puts1 ''2\<newline>'' s
      else if signum = 3 then puts1 ''3\<newline>'' s
      else puts1 ''invalid\<newline>'' s)"

text \<open>The handlers; \<open>signum_at\<close> is the address of the parameter on the stack, seven words below the saved \<open>eax\<close>.\<close>

definition segfault_sighandler :: "sig_vars \<Rightarrow> interrupts \<Rightarrow> addr \<Rightarrow> addr \<Rightarrow> kstate \<Rightarrow> kstate option" where
  "segfault_sighandler v hs signum_at buf s = do {
     s \<leftarrow> puts1 ''Segfault signal handler called, signum: '' s;
     s \<leftarrow> say_signum (lds32 (mem s) signum_at) s;
     s \<leftarrow> puts1 ''Press enter to continue...\<newline>'' s;
     (r, s) \<leftarrow> ece391_read hs 0 buf 1 s;
     let s = s\<lparr>mem := st32 (mem s) (badbuf v) (of_nat (charbuf v))\<rparr>;
     let s = s\<lparr>mem := st32 (mem s) (signum_at + 4 * 7) (of_nat (charbuf v))\<rparr>;
     puts1 ''Signal handler returning\<newline>'' s }"

definition alarm_sighandler :: "int \<Rightarrow> kstate \<Rightarrow> kstate option" where
  "alarm_sighandler signum s = do {
     s \<leftarrow> puts1 ''Alarm signal handler called, signum: '' s;
     say_signum signum s }"


section \<open>What the program does on this kernel\<close>

text \<open>Storing in the program's buffer keeps the line that waits.\<close>

lemma line_for_blit:
  assumes k: "kept s s1" and t: "terms_ok s1" and im: "same_image s s1" and m: "mem s1 = blit (mem s) b xs" "length xs \<le> 1024"
    and l: "line_for s b lb ys"
  shows "line_for s1 b lb ys"
proof -
  have d: "disjoint_rng b 1024 lb (length ys + 1)" using l by (simp add: line_for_def)
  have eq: "mem s1 (lb + i) = mem s (lb + i)" if "i \<le> length ys" for i
    unfolding m(1) by (rule blit_outside [of _ _ _ "length ys + 1"]) (use d m(2) that in \<open>auto simp: disjoint_rng_def\<close>)
  have "dstr 10 (mem s) lb ys" using l by (simp add: line_for_def line_ready_def)
  then have "dstr 10 (mem s1) lb ys" by (rule dstr_cong) (rule eq)
  moreover have "mem s1 lb = mem s lb" using eq [of 0] by simp
  moreover have "line_buf (active_terminal s1) s1 = line_buf (active_terminal s) s"
    using k by (simp add: line_buf_def kept_def alike_def)
  moreover have "f_ops (fd_table s1 ! 0) = f_ops (fd_table s ! 0)" using k by (simp add: kept_def alike_def)
  ultimately show ?thesis
    using l t alike_page [OF kept_alike [OF k]] user_buf_step [OF kept_alike [OF k] im] by (simp add: line_for_def line_ready_def)
qed

text \<open>The words that the program and the system keep for it are away from its buffer and the line.\<close>

definition sig_ok :: "sig_vars \<Rightarrow> kstate \<Rightarrow> addr \<Rightarrow> addr \<Rightarrow> bool" where
  "sig_ok v s b lb \<longleftrightarrow> ld32 (mem s) (badbuf v) = 0 \<and> disjoint_rng b 1024 (badbuf v) 4 \<and> disjoint_rng lb 1 (badbuf v) 4 \<and>
     disjoint_rng (main_page s) 4000 (badbuf v) 4 \<and> page_dir s 0 = page_table_at s OR 3 \<and> page_table_at s AND mask 12 = 0"

lemma sigtest_faults:
  assumes ok: "user_ok s" and b: "user_buf s b 1024" and arg: "cstr (mem s) (arg_buf s) xs" "xs \<noteq> []" "length xs < 1000" "hd xs \<noteq> 49"
    and place: "b \<le> arg_buf s \<or> arg_buf s + length xs < b" and l: "line_for s b lb ys" "0 \<notin> set ys"
    and sig: "sig_ok v s b lb" and lit: "lit_ok s ''Hi, what's your name? ''" "lit_apart s b lb ''Hi, what's your name? ''"
  shows "\<exists>s'. sigtest_main v env b s = Some (None, s') \<and> user_ok s' \<and>
    process_screen s' = fold show_byte (str_bytes ''Hi, what's your name? '') (process_screen s)"
proof -
  obtain s1 where s1: "ece391_getargs b 1024 s = Some (0, s1)" "user_ok s1" "kept s s1" "same_image s s1"
    "mem s1 = blit (mem s) b (xs @ [0])" "process_screen s1 = process_screen s"
    by (rule user_getargs [OF ok b arg(1,2) _ place]) (use arg(3) in auto)
  have h: "mem s1 b \<noteq> 49" using arg(2,4) by (cases xs) (simp_all add: s1(5) blit_def)
  have t1: "terms_ok s1" using s1(2) by (simp add: user_ok_def)
  have len1: "length (xs @ [0]) \<le> 1024" using arg(3) by simp
  note l1 = line_for_blit [OF s1(3) t1 s1(4,5) len1 l(1)] and al1 = kept_alike [OF s1(3)]
  have "only_line b lb (mem s) (mem s1)" using arg(3) by (auto simp: only_line_def s1(5) blit_def)
  then have lit1: "lit_ok s1 ''Hi, what's your name? ''" by (rule lit_ok_apart [OF s1(3,4) _ lit])
  obtain s2 where s2: "puts1 ''Hi, what's your name? '' s1 = Some s2" "user_ok s2" "kept s1 s2" "same_image s1 s2"
    "same_outside (main_page s1) (mem s1) (mem s2)"
    "process_screen s2 = fold show_byte (str_bytes ''Hi, what's your name? '') (process_screen s1)"
    using user_puts1 [OF s1(2) lit1] by blast
  have t2: "terms_ok s2" using s2(2) by (simp add: user_ok_def)
  note l2 = line_for_step [OF s2(3) t2 s2(4,5) l1]
  have k2: "kept s s2" using s1(3) s2(3) by (rule kept_trans)
  have im2: "same_image s s2" using s1(4) s2(4) by (rule same_image_trans)
  have b2: "user_buf s2 b 1024" using b user_buf_step [OF kept_alike [OF k2] im2] by simp
  obtain s3 where s3: "ece391_read (env 0) 0 b 1023 s2 = Some (int (length ys + 1), s3)" "user_ok s3" "kept s2 s3"
    "mem s3 = (blit (mem s2) b (ys @ [10]))(lb := 0)" "process_screen s3 = process_screen s2"
    using user_read_line [OF s2(2) b2 l2, of 1023 "env 0"] by auto
  have k3: "kept s s3" using k2 s3(3) by (rule kept_trans)
  have ly: "length ys < 1000" using l(1) by (simp add: line_for_def)
  have "mem s3 (badbuf v + i) = mem s (badbuf v + i)" if "i < 4" for i
  proof -
    have "mem s3 (badbuf v + i) = mem s2 (badbuf v + i)" using sig ly that by (auto simp: s3(4) blit_def sig_ok_def disjoint_rng_def)
    also have "\<dots> = mem s1 (badbuf v + i)"
      using s2(5) sig that alike_page [OF al1] by (auto simp: sig_ok_def same_outside_def disjoint_rng_def)
    also have "\<dots> = mem s (badbuf v + i)" using sig arg(3) that by (auto simp: s1(5) blit_def sig_ok_def disjoint_rng_def)
    finally show ?thesis .
  qed
  then have null: "ld32 (mem s3) (badbuf v) = 0" using ld32_cong [of "mem s3" "badbuf v" "mem s"] sig by (simp add: sig_ok_def)
  have "user_store 0 1 s3 = None"
    by (rule low_memory_protected) (use k3 sig in \<open>simp_all add: kept_def alike_def sig_ok_def UNIT_4_MB_def\<close>)
  then have "sigtest_main v env b s = Some (None, s3)" using s1(1) h s2(1) s3(1) null by (simp add: sigtest_main_def)
  then show ?thesis using s3(2,5) s2(6) s1(6) by auto
qed

lemma sigtest_handlers_undefined:
  assumes ok: "user_ok s" and b: "user_buf s b 1024" and arg: "cstr (mem s) (arg_buf s) xs" "xs \<noteq> []" "length xs < 1000" "hd xs = 49"
    and place: "b \<le> arg_buf s \<or> arg_buf s + length xs < b"
  shows "sigtest_main v env b s = None"
proof -
  obtain s1 where s1: "ece391_getargs b 1024 s = Some (0, s1)" "mem s1 = blit (mem s) b (xs @ [0])"
    by (rule user_getargs [OF ok b arg(1,2) _ place]) (use arg(3) in auto)
  have h: "mem s1 b = 49" using arg(2,4) by (cases xs) (simp_all add: s1(2) blit_def)
  have "ece391_set_handler n a s' = None" for n a s' by (simp add: ece391_set_handler_def bad_number(2))
  then show ?thesis using s1(1) h by (simp add: sigtest_main_def)
qed

end
