(* ===== verification/User_Theorems.thy ===== *)
theory User_Theorems
  imports Example_User User_Session Sigtest
begin

text \<open>
  The theorems on the user programs run against the model of the kernel: what a program shows on the
  screen of its terminal, system calls, file system, line discipline and console included.  The
  instances run the programs on the concrete system of \<open>Example_User\<close>.
\<close>

section \<open>The concrete directory\<close>

lemma prog_names: "entry_name (prog line) 0 = [46]" "entry_filetype (prog line) 0 = 1" "direntry (prog line) k = direntry sample k"
proof -
  have d: "direntry (prog line) k = direntry sample k" for k by (simp add: direntry_def)
  then show "direntry (prog line) k = direntry sample k" .
  have im: "same_image sample (prog line)" by (rule prog_image)
  have "entry_filetype sample 0 = 1"
    by (simp add: entry_filetype_def direntry_def lds32_def ld32_def sample_mem_def)
  then show "entry_filetype (prog line) 0 = 1" using same_image_filetype [OF im, of 0] by simp
  show "entry_name (prog line) 0 = [46]"
    using same_image_name [OF im, of 0] sample_names(1) by (simp add: sample_image direntry_def)
qed

lemma prog_dir: "dir_ok (prog line)"
proof -
  have k: "k = 0 \<or> k = 1 \<or> k = 2 \<or> k = 3" if "k \<le> nat 3" for k :: nat using that by auto
  have m: "prog_mem line (0x420040 + j) = sample_mem (0x420040 + j)" if "j < 0x1000" for j using that by (simp add: prog_mem_def)
  have c: "cstr (prog_mem line) 0x420040 [46]" "cstr (prog_mem line) 0x420080 [114, 116, 99]"
    "cstr (prog_mem line) 0x4200C0 [99, 97, 116]" "cstr (prog_mem line) 0x420100 []"
    by (simp_all add: dstr_Cons prog_mem_def sample_mem_def)
  have "strlen (prog_mem line) 0x420040 = Some 1" "strlen (prog_mem line) 0x420080 = Some 3"
    "strlen (prog_mem line) 0x4200C0 = Some 3" "strlen (prog_mem line) 0x420100 = Some 0"
    using c [THEN strlen_cstr] by simp_all
  then have "\<exists>n<2 ^ 32. strlen (mem (prog line)) (direntry (prog line) k) = Some n \<and>
      direntry (prog line) k + n < boot_block (prog line) + fs_size (prog line)" if "k \<le> nat 3" for k
    using k [OF that] by (auto simp: prog_fs direntry_def)
  moreover have "entry_name (prog line) k \<noteq> []" if "k < nat 3" for k
    using k [of k] that sample_names same_image_name [OF prog_image, of k] by (auto simp: sample_image direntry_def)
  moreover have "direntry (prog line) k + 32 \<le> boot_block (prog line) + fs_size (prog line)" if "k \<le> nat 3" for k
    using k [OF that] by (auto simp: prog_fs direntry_def)
  ultimately show ?thesis by (simp add: dir_ok_def prog_fs)
qed

lemma prog_dot: "cstr (mem (prog line)) (rodata (prog line) ''.'') [46]" "rodata (prog line) ''.'' \<noteq> 0" "adr32 (rodata (prog line) ''.'')"
  using prog_lit [of "''.''" line] by (simp_all add: lit_ok_def literals_def str_bytes_def chb_def user_buf_def)


section \<open>cat and ls\<close>

text \<open>C15: \<open>cat\<close> on the name of a file of the image returns 0 and shows the contents of the
  file, the bytes of all its data blocks in order and cut at its length, on the screen of its
  terminal.\<close>

theorem cat_prints_file:
  assumes "user_ok s" and "user_buf s b 1024"
    and "cstr (mem s) (arg_buf s) xs" "xs \<noteq> []" "length xs \<le> 32" "\<forall>x\<in>set xs. x < 128"
    and "b \<le> arg_buf s \<or> arg_buf s + length xs < b"
    and "lookup_name xs s = Some d" "entry_filetype s d = 2" "entry_inode s d = int ino" "inode_ok s ino"
    and "first_free s = Some i" "fd_used s 1" "\<forall>j<8. fd_used s (int j) \<longrightarrow> inode_num (fd_table s ! j) \<noteq> int ino"
  shows "\<exists>s'. cat_main env b s = Some (0, s') \<and>
    process_screen s' = fold show_byte (file_data s ino 0 (file_length s ino)) (process_screen s)"
  using cat_main_prints [OF assms] by blast

theorem cat_prints_file_witness:
  "\<exists>s'. cat_main (\<lambda>k. []) 0x8100000 (prog []) = Some (0, s') \<and>
    process_screen s' = fold show_byte (file_data (prog []) 1 0 32) (process_screen (prog []))"
  using cat_prints_file [of "prog []" "0x8100000" "[99, 97, 116]" 2 1 2] prog_ok prog_buf prog_arg prog_file prog_fds
  by simp

text \<open>C25: \<open>ls\<close> returns 0 and lists the directory: the name of every entry in order, each
  followed by a newline.\<close>

theorem ls_lists_directory:
  assumes "user_ok s" and "user_buf s b 33"
    and "cstr (mem s) (rodata s ''.'') [46]" "rodata s ''.'' \<noteq> 0" "adr32 (rodata s ''.'')"
    and "dir_ok s" "entry_name s 0 = [46]" "entry_filetype s 0 = 1"
    and "first_free s = Some i" "fd_used s 1" "file_pos (fd_table s ! i) = 0"
  shows "\<exists>s'. ls_main env b s = Some (0, s') \<and>
    process_screen s' = fold show_byte (concat (map (\<lambda>k. entry_name s k @ [10]) [0..<nat (dir_count s)])) (process_screen s)"
  using ls_main_prints [OF assms] by (simp add: listing_def)

theorem ls_lists_directory_witness:
  "\<exists>s'. ls_main (\<lambda>k. []) 0x8100000 (prog []) = Some (0, s') \<and>
    process_screen s' = fold show_byte (concat (map (\<lambda>k. entry_name (prog []) k @ [10]) [0..<3])) (process_screen (prog []))"
  using ls_lists_directory [of "prog []" "0x8100000" 2] prog_ok prog_buf prog_dot prog_dir prog_names prog_fds
  by (simp add: prog_fs sample_pcb_def sample_fd_def)


section \<open>Programs that read a line\<close>

text \<open>C21: a round of the shell.  It prompts, takes the line that was typed without its newline,
  returns 0 on \<open>exit\<close>, prompts again on an empty line, and otherwise runs exactly that line and
  reports its exit value before the next round.\<close>

theorem shell_runs_line:
  assumes "user_ok s" and "user_buf s b 1024" and "line_for s b lb xs" "0 \<notin> set xs"
    and "lit_ok s ''391OS> ''" "lit_ok s ''exit''" and "lit_apart s b lb ''exit''"
  shows "\<exists>s1. user_ok s1 \<and> kept s s1 \<and> same_image s s1 \<and> cstr (mem s1) b xs \<and>
    process_screen s1 = fold show_byte (str_bytes ''391OS> '') (process_screen s) \<and>
    shell_loop run env k b s =
      (if xs = str_bytes ''exit'' then Some (0, s1)
       else if xs = [] then shell_loop run env (k + 1) b s1
       else do { (rval, s2) \<leftarrow> run b s1; s3 \<leftarrow> shell_report rval s2; shell_loop run env (k + 1) b s3 })"
  by (rule shell_round [OF assms])

theorem shell_runs_line_witness:
  "\<exists>s1. shell_loop (\<lambda>a s. None) (\<lambda>k. []) 0 0x8100000 (prog (str_bytes ''exit'')) = Some (0, s1) \<and>
    process_screen s1 = fold show_byte (str_bytes ''391OS> '') (process_screen (prog (str_bytes ''exit'')))"
proof -
  have "line_for (prog (str_bytes ''exit'')) 0x8100000 0x411600 (str_bytes ''exit'')"
    by (rule prog_line) (simp_all add: str_bytes_def chb_def)
  from shell_runs_line [OF prog_ok prog_buf this, of "\<lambda>a s. None" "\<lambda>k. []" 0] show ?thesis
    using prog_lit prog_apart by (auto simp: literals_def str_bytes_def chb_def)
qed


text \<open>C14: a whole command, from one prompt of the shell to the next.  When the line that was typed
  names \<open>cat\<close> and a file, the shell prompts, starts the program in a process of its own, the program
  shows exactly the contents of the file on the same screen, ends, and the shell goes on with its next
  round as the running process of its terminal, with the process table and its page as before.\<close>

theorem shell_runs_cat:
  assumes "shell_ok s" and "user_buf s b 1024" "USER_PAGE \<le> b" "b + 1024 \<le> USER_PAGE + UNIT_4_MB"
    and "line_for s b lb xs" "0 \<notin> set xs" and "lit_ok s ''391OS> ''" "lit_ok s ''exit''" "lit_apart s b lb ''exit''"
    and "cat_line s prg ino xs" and "exec_layout s b (length xs + 1)" and "List.find (slot_free s) [0..<6] = Some i"
    and "child_buf s b2"
  shows "\<exists>s'. shell_loop (ece391_execute (\<lambda>e. cat_main env2 b2)) env k b s =
      shell_loop (ece391_execute (\<lambda>e. cat_main env2 b2)) env (k + 1) b s' \<and> shell_ok s' \<and>
    process_screen s' = fold show_byte (str_bytes ''391OS> '' @ file_data s ino 0 (file_length s ino)) (process_screen s) \<and>
    process_num s' = process_num s \<and> cstr (mem s') b xs"
  by (rule shell_cat_round [OF assms refl])

lemma prog_shell: "shell_ok (prog line)"
proof -
  have "length (fdt (pcbs (prog line) a)) = 8" for a by (simp add: sample_pcb_def)
  moreover have "\<forall>p<6. process_num (prog line) ! p \<noteq> -1 \<longrightarrow> pid (pcbs (prog line) (return_pcb_parent (int p))) = int p"
    using sample_pids by simp
  moreover have "table_ok (prog line)" using sample_table by (simp add: table_ok_def)
  moreover have "process_num (prog line) ! j \<noteq> 0" if "3 \<le> j" "j < 6" for j
  proof -
    have "j = 3 \<or> j = 4 \<or> j = 5" using that by auto
    then show ?thesis by auto
  qed
  moreover have "tlb_user (prog line) = user_frame 0 OR 0x87" "frame (prog line) = 0x7FF000"
    by (simp_all add: prog_def)
  ultimately show ?thesis
    using prog_ok [of line] by (simp add: shell_ok_def disjoint_rng_def USER_PAGE_def UNIT_4_MB_def VIDEO_def)
qed

lemma prog_cat_line:
  defines "l \<equiv> str_bytes ''cat cat''"
  shows "cat_line (prog l) 1 1 l" "exec_layout (prog l) 0x8100000 (length l + 1)" "line_for (prog l) 0x8100000 0x411600 l" "0 \<notin> set l"
proof -
  have l: "l = [99, 97, 116, 32, 99, 97, 116]" by (simp add: l_def str_bytes_def chb_def)
  have w: "cmd_word l = [99, 97, 116]" "cmd_args l = [99, 97, 116]" by (simp_all add: l cmd_word_def cmd_args_def)
  have p: "program (prog l) 1" by (rule same_image_program [OF prog_image sample_image(5) sample_program])
  then show "cat_line (prog l) 1 1 l" using prog_file [of l] by (simp add: cat_line_def w)
  have "frame (prog l) = 0x7FF000" by (simp add: prog_def)
  then show "exec_layout (prog l) 0x8100000 (length l + 1)"
    by (simp add: exec_layout_def l prog_fs disjoint_rng_def USER_PAGE_def UNIT_4_MB_def)
  show "line_for (prog l) 0x8100000 0x411600 l" "0 \<notin> set l" by (rule prog_line) (simp_all add: l)
qed

theorem shell_runs_cat_witness:
  "\<exists>s'. shell_loop (ece391_execute (\<lambda>e. cat_main (\<lambda>k. []) 0x8180000)) (\<lambda>k. []) 0 0x8100000 (prog (str_bytes ''cat cat'')) =
      shell_loop (ece391_execute (\<lambda>e. cat_main (\<lambda>k. []) 0x8180000)) (\<lambda>k. []) 1 0x8100000 s' \<and>
    process_screen s' = fold show_byte (str_bytes ''391OS> '' @ file_data (prog (str_bytes ''cat cat'')) 1 0 32)
      (process_screen (prog (str_bytes ''cat cat'')))"
proof -
  let ?l = "str_bytes ''cat cat''"
  note c = prog_cat_line
  have lits: "lit_ok (prog ?l) ''391OS> ''" "lit_ok (prog ?l) ''exit''" "lit_apart (prog ?l) 0x8100000 0x411600 ''exit''"
    by (simp_all add: prog_lit prog_apart literals_def)
  have slot: "List.find (slot_free (prog ?l)) [0..<6] = Some 3" by (simp add: slot_free_def upt_rec)
  have buf: "user_buf (prog ?l) 0x8100000 1024" "child_buf (prog ?l) 0x8180000" by (simp_all add: child_buf_def prog_buf)
  have page: "USER_PAGE \<le> 0x8100000" "0x8100000 + 1024 \<le> USER_PAGE + UNIT_4_MB" by (simp_all add: USER_PAGE_def UNIT_4_MB_def)
  have len: "file_length (prog ?l) 1 = 32" by (rule prog_file)
  from shell_runs_cat [OF prog_shell buf(1) page c(3,4) lits c(1,2) slot buf(2), of "\<lambda>k. []" "\<lambda>k. []" 0] show ?thesis
    unfolding len by (auto simp del: One_nat_def)
qed

text \<open>C28: \<open>counter\<close> prints the numbers from 1 to the bound that was chosen (100, 10000 or 100000),
  in decimal, one to a line, and returns 0.\<close>

theorem counter_prints_numbers:
  assumes "user_ok s" and "user_buf s b 1024" and "line_for s b lb [c]" and "c = 48 \<or> c = 49 \<or> c = 50"
    and "lit_ok s ''Enter the Test Number: (0): 100, (1): 10000, (2): 100000\<newline>''" "lit_ok s ''\<newline>''"
    and "lit_apart s b lb ''\<newline>''"
  shows "\<exists>s'. counter_main env b s = Some (0, s') \<and> process_screen s' =
    fold show_byte (str_bytes ''Enter the Test Number: (0): 100, (1): 10000, (2): 100000\<newline>'' @ numbers 0 (counter_max c))
      (process_screen s)"
  by (rule counter_counts [OF assms])

theorem counter_prints_numbers_witness:
  "\<exists>s'. counter_main (\<lambda>k. []) 0x8100000 (prog [48]) = Some (0, s') \<and> process_screen s' =
    fold show_byte (str_bytes ''Enter the Test Number: (0): 100, (1): 10000, (2): 100000\<newline>'' @ numbers 0 (counter_max 48))
      (process_screen (prog [48]))"
proof -
  have "line_for (prog [48]) 0x8100000 0x411600 [48]" by (rule prog_line) simp_all
  from counter_prints_numbers [OF prog_ok prog_buf this] show ?thesis
    using prog_lit prog_apart by (simp add: literals_def)
qed


section \<open>grep\<close>





section \<open>syserr\<close>

text \<open>C30: the error paths of the system calls, as the tests of \<open>syserr\<close> exercise them: calls on
  descriptors far below and above the table, \<open>vidmap\<close> with a null pointer and with the start of
  the kernel, writing to the keyboard, reading from the screen, and the call numbers the gate rejects.  Each of the five tests returns 0 and prints that it passed.\<close>

theorem syserr_tests_pass:
  assumes "user_ok s" and "adr32 b" "b \<noteq> 0" and "f_ops (fd_table s ! 0) = Some terminal_table"
    and "lit_ok s ''err_neg_fd: PASS\<newline>''" "lit_ok s ''err_big_fd: PASS\<newline>''" "lit_ok s ''err_vidmap: PASS\<newline>''"
      "lit_ok s ''err_stdin_out: PASS\<newline>''" "lit_ok s ''err_syscall_num: PASS\<newline>''"
  shows "(\<exists>s'. err_neg_fd env b s = Some (0, s') \<and>
      process_screen s' = fold show_byte (str_bytes ''err_neg_fd: PASS\<newline>'') (process_screen s)) \<and>
    (\<exists>s'. err_big_fd env b s = Some (0, s') \<and>
      process_screen s' = fold show_byte (str_bytes ''err_big_fd: PASS\<newline>'') (process_screen s)) \<and>
    (\<exists>s'. err_vidmap s = Some (0, s') \<and>
      process_screen s' = fold show_byte (str_bytes ''err_vidmap: PASS\<newline>'') (process_screen s)) \<and>
    (\<exists>s'. err_stdin_out env b s = Some (0, s') \<and>
      process_screen s' = fold show_byte (str_bytes ''err_stdin_out: PASS\<newline>'') (process_screen s)) \<and>
    (\<exists>s'. err_syscall_num ebx ecx edx s = Some (0, s') \<and>
      process_screen s' = fold show_byte (str_bytes ''err_syscall_num: PASS\<newline>'') (process_screen s))"
  using err_fd_tests [OF assms(1,2)] err_vidmap_passes [OF assms(1)] err_stdin_out_passes [OF assms(1,3,2,4)]
    err_syscall_num_passes [OF assms(1)] assms(5-9) by blast

theorem syserr_tests_pass_witness:
  "(\<exists>s'. err_neg_fd (\<lambda>k. []) 0x8100000 (prog []) = Some (0, s')) \<and> (\<exists>s'. err_big_fd (\<lambda>k. []) 0x8100000 (prog []) = Some (0, s')) \<and>
   (\<exists>s'. err_vidmap (prog []) = Some (0, s')) \<and> (\<exists>s'. err_stdin_out (\<lambda>k. []) 0x8100000 (prog []) = Some (0, s')) \<and>
   (\<exists>s'. err_syscall_num 0 0 0 (prog []) = Some (0, s'))"
proof -
  have "f_ops (fd_table (prog []) ! 0) = Some terminal_table" by (simp add: sample_pcb_def sample_fd_def)
  moreover have "lit_ok (prog []) ''err_neg_fd: PASS\<newline>''" "lit_ok (prog []) ''err_big_fd: PASS\<newline>''"
    "lit_ok (prog []) ''err_vidmap: PASS\<newline>''" "lit_ok (prog []) ''err_stdin_out: PASS\<newline>''"
    "lit_ok (prog []) ''err_syscall_num: PASS\<newline>''" by (simp_all add: prog_lit literals_def)
  ultimately show ?thesis using syserr_tests_pass [OF prog_ok, of "0x8100000" "[]" "\<lambda>k. []" 0 0 0] by simp blast
qed

text \<open>C38: the test \<open>err_open_lots\<close> never returns when the program has only the two standard
  descriptors: the seventh \<open>open\<close> of the directory finds the table full, and the kernel then
  stores an operations pointer in front of the table.\<close>

theorem err_open_lots_leaves_table:
  assumes "user_ok s" and "cstr (mem s) (rodata s ''.'') [46]" "rodata s ''.'' \<noteq> 0" "adr32 (rodata s ''.'')"
    and "entry_name s 0 = [46]" "entry_filetype s 0 = 1" and "\<forall>j<8. fd_used s (int j) \<longleftrightarrow> j < 2"
  shows "err_open_lots s = None"
  by (rule err_open_lots_undefined [OF assms])

theorem err_open_lots_leaves_table_witness: "err_open_lots (prog []) = None"
  using err_open_lots_leaves_table [of "prog []"] prog_ok prog_dot prog_names by (simp add: prog_fds less_Suc_eq numeral_2_eq_2)

text \<open>The test \<open>err_unopened\<close> never returns: \<open>close\<close> on a descriptor that was never
  opened calls through an operations pointer that was never set.\<close>

theorem err_unopened_jumps_null:
  assumes "user_ok s" and "f_ops (fd_table s ! 0) = Some terminal_table" and "f_ops (fd_table s ! 2) = None"
  shows "err_unopened env b s = None"
  by (rule err_unopened_undefined [OF assms])

theorem err_unopened_jumps_null_witness: "err_unopened (\<lambda>k. []) 0x8100000 (prog []) = None"
  by (rule err_unopened_jumps_null [OF prog_ok]) (simp_all add: sample_pcb_def sample_fd_def numeral_2_eq_2)


text \<open>The signal test on a kernel without signals.  Asked to install its handlers it makes a call that
  the gate has no entry for and has no defined result; otherwise it asks for a name, takes the line, and
  its store through the null pointer faults, since the first 4 MB are the kernel's.\<close>

theorem sigtest_needs_signals:
  assumes "user_ok s" and "user_buf s b 1024" and "cstr (mem s) (arg_buf s) xs" "xs \<noteq> []" "length xs < 1000"
    and "b \<le> arg_buf s \<or> arg_buf s + length xs < b" and "line_for s b lb ys" "0 \<notin> set ys"
    and "sig_ok v s b lb" and "lit_ok s ''Hi, what's your name? ''" "lit_apart s b lb ''Hi, what's your name? ''"
  shows "(hd xs = 49 \<longrightarrow> sigtest_main v env b s = None) \<and>
    (hd xs \<noteq> 49 \<longrightarrow> (\<exists>s'. sigtest_main v env b s = Some (None, s') \<and> user_ok s' \<and>
      process_screen s' = fold show_byte (str_bytes ''Hi, what's your name? '') (process_screen s)))"
  using sigtest_handlers_undefined [OF assms(1-5) _ assms(6), of v env]
    sigtest_faults [OF assms(1-5) _ assms(6-11), of env] by blast

theorem sigtest_needs_signals_witness:
  "\<exists>s'. sigtest_main \<lparr>charbuf = 0x8110004, badbuf = 0x8110000, segfault_at = 0x8048000, alarm_at = 0x8048100\<rparr> (\<lambda>k. []) 0x8100000 (prog [65])
      = Some (None, s') \<and>
    process_screen s' = fold show_byte (str_bytes ''Hi, what's your name? '') (process_screen (prog [65]))"
proof -
  let ?v = "\<lparr>charbuf = 0x8110004, badbuf = 0x8110000, segfault_at = 0x8048000, alarm_at = 0x8048100\<rparr>"
  have l: "line_for (prog [65]) 0x8100000 0x411600 [65]" by (rule prog_line) simp_all
  have pt: "page_table_at (prog [65]) = 0x402000" "page_dir (prog [65]) 0 = 0x402003" by (simp_all add: prog_def)
  have "(0x402000 :: u32) OR 3 = 0x402003" "(0x402000 :: u32) AND mask 12 = 0" by (simp_all add: mask_numeral)
  then have sig: "sig_ok ?v (prog [65]) 0x8100000 0x411600"
    by (simp add: sig_ok_def pt ld32_def prog_mem_def sample_mem_def disjoint_rng_def VIDEO_def)
  have lit: "lit_ok (prog [65]) ''Hi, what's your name? ''" "lit_apart (prog [65]) 0x8100000 0x411600 ''Hi, what's your name? ''"
    by (simp_all add: prog_lit prog_apart literals_def)
  have arg: "cstr (mem (prog [65])) (arg_buf (prog [65])) [99, 97, 116]" using prog_arg by simp
  have b: "user_buf (prog [65]) 0x8100000 1024" by (simp add: prog_buf)
  from sigtest_needs_signals [OF prog_ok b arg _ _ _ l _ sig lit, of "\<lambda>k. []"] show ?thesis by auto
qed


section \<open>The screen\<close>

text \<open>C17: \<open>terminal_write\<close> refines the abstract screen: its effect on the cells, the cursor and
  the colour of the terminal of the process is that of showing its bytes one after the other, line
  wrapping, newlines and scrolling included; no memory outside the page of the process changes.\<close>

theorem terminal_write_refines_screen:
  assumes "terms_ok s" and "disjoint_rng (main_page s) 4000 buf n"
  shows "\<exists>s'. terminal_write 1 buf (int n) s = Some (int n, s') \<and> terms_ok s' \<and>
    same_outside (main_page s) (mem s) (mem s') \<and>
    process_screen s' = fold show_byte (bytes_at (mem s) buf n) (process_screen s)"
  using terminal_write_shows [OF assms] by blast

theorem terminal_write_refines_screen_witness:
  "\<exists>s'. terminal_write 1 0x440000 5 sample = Some (5, s') \<and>
    process_screen s' = fold show_byte (bytes_at sample_mem 0x440000 5) (process_screen sample)"
  using terminal_write_refines_screen [OF sample_terms, of "0x440000" 5] by (auto simp: disjoint_rng_def VIDEO_def)

text \<open>C16: the round trip of the line discipline.  The keys typed at a terminal, then Enter, are what
  the process of that terminal reads: the typed characters cut at 127 and a newline; the stored line
  is then taken.\<close>

theorem typed_line_is_read:
  assumes "kb_ok s t []" and "key_events cs" and "pos_idx False s = t" and "disjoint_rng buf 128 (line_addr s t) 128"
  shows "\<exists>s1 s2 s3. type_keys cs s = Some s1 \<and> keyboard_handler (press 0x1C s1) = Some (Ret 0, s2) \<and>
    terminal_read hs 0 buf nbytes s2 = Some (int (length (take 127 (typed cs))) + 1, s3) \<and>
    bytes_at (mem s3) buf (length (take 127 (typed cs)) + 1) = take 127 (typed cs) @ [10] \<and> mem s3 (line_addr s t) = 0"
  by (rule type_then_read [OF assms])

theorem typed_line_is_read_witness:
  "\<exists>s1 s2 s3. type_keys [0x23, 0xA3, 0x17] sample = Some s1 \<and> keyboard_handler (press 0x1C s1) = Some (Ret 0, s2) \<and>
    terminal_read [] 0 0x460000 128 s2 = Some (3, s3) \<and> bytes_at (mem s3) 0x460000 3 = [104, 105, 10]"
proof -
  have xs: "take 127 (typed [0x23, 0xA3, 0x17]) = [104, 105]" using sample_events(2) by (simp only: append_Nil)
  have "disjoint_rng 0x460000 128 (line_addr sample 0) 128"
    by (simp add: disjoint_rng_def line_addr_def sample_terminal_def)
  moreover have "int (length [104, 105 :: u8]) + 1 = 3" "length [104, 105 :: u8] + 1 = 3" "[104, 105] @ [10] = [104, 105, 10 :: u8]"
    by simp_all
  ultimately show ?thesis
    using typed_line_is_read [OF sample_keys sample_events(1) sample_pos(1), of "0x460000" "[]" 128]
    unfolding xs by metis
qed

end
