(* ===== verification/Exceptions.thy ===== *)
theory Exceptions
  imports Printf Idt Kernel_Reach
begin

text \<open>
  The exception handlers of \<open>idt.c\<close> as a whole: the message on the screen, the end of the process
  and the return to its parent, from \<open>printf\<close> and \<open>system_halt\<close> together.
\<close>

definition exception_handlers :: "((kstate \<Rightarrow> (outcome \<times> kstate) option) \<times> string) list" where
  "exception_handlers =
     [(EXC_DIVIDE_BY_ZERO, ''DIVIDE BY ZERO EXCEPTION\<newline>''), (EXC_DB, ''DEBUG EXCEPTION\<newline>''),
      (EXC_NMI, ''NMI EXCEPTION\<newline>''), (EXC_BP, ''BREAKPOINT_KGDB\<newline>''), (EXC_OF, ''NMI OVERFLOW_EXCEPTION\<newline>''),
      (EXC_BR, ''BOUND Range Exceeded Exception\<newline>''), (EXC_UD, ''Invalid Opcode Exception\<newline>''),
      (EXC_NM, ''Device Not Available Exception\<newline>''), (EXC_DF, ''Double Fault Exception \<newline>''),
      (EXC_CSO, ''Coprocessor Segment Overrun\<newline>''), (EXC_TS, ''Invalid TSS Exception\<newline>''),
      (EXC_NP, ''Segment Not Present \<newline>''), (EXC_SS, ''Stack Fault Exception\<newline>''),
      (EXC_GP, ''General Protection Exception\<newline>''), (EXC_PF, ''Page-Fault Exception\<newline>''),
      (EXC_MF, ''FPU Floating-Point Error\<newline>''), (EXC_AC, ''Alignment Check Exception\<newline>''),
      (EXC_MC, ''Machine-Check Exception \<newline>''), (EXC_XF, ''SIMD Floating-Point Exception \<newline>'')]"

lemma handler_halts: "(h, msg) \<in> set exception_handlers \<Longrightarrow> h s = exception_halt msg s"
  by (auto simp: exception_handlers_def EXC_DIVIDE_BY_ZERO_def EXC_DB_def EXC_NMI_def EXC_BP_def EXC_OF_def EXC_BR_def
      EXC_UD_def EXC_NM_def EXC_DF_def EXC_CSO_def EXC_TS_def EXC_NP_def EXC_SS_def EXC_GP_def EXC_PF_def EXC_MF_def
      EXC_AC_def EXC_MC_def EXC_XF_def)

lemma messages_plain: "(h, msg) \<in> set exception_handlers \<Longrightarrow> 37 \<notin> set (str_bytes msg)"
proof -
  have "list_all (\<lambda>msg. 37 \<notin> set (str_bytes msg)) (map snd exception_handlers)"
    by (simp add: exception_handlers_def str_bytes_def chb_def)
  moreover assume "(h, msg) \<in> set exception_handlers"
  ultimately show ?thesis by (force simp: list_all_iff)
qed

text \<open>The screen is not part of the page that is exchanged.\<close>

lemma map_page_screen [simp]: "kernel_screen (map_page f v s) = kernel_screen s"
proof -
  have "bytes_at (load_page e p m) VIDEO 4000 = bytes_at m VIDEO 4000" for e p m
    by (rule bytes_at_eqI) (simp add: load_page_def USER_PAGE_def VIDEO_def)
  then show ?thesis by (simp add: kernel_screen_def screen_at_def map_page_def page_access_def Let_def)
qed

lemma kernel_screen_cong:
  "mem s' = mem s \<Longrightarrow> screen_x s' = screen_x s \<Longrightarrow> screen_y s' = screen_y s \<Longrightarrow> text_color s' = text_color s \<Longrightarrow>
    kernel_screen s' = kernel_screen s"
  by (simp add: kernel_screen_def)

lemma child_halt_screen:
  assumes inv: "pinv (pview_of s)" and main: "main_process s = int i" "3 \<le> i" and h: "system_halt status s = Some (r, s')"
  shows "kernel_screen s' = kernel_screen s"
proof -
  have mi: "mainp (pview_of s) = int i" by (simp add: view_simps main)
  obtain t q where t: "i < 6" "pids (pview_of s) ! i = int i"
    by (rule main_parent [OF inv mi main(2)]) blast
  have len: "length (process_num s) = 6" using inv by (simp add: pinv_def shape_ok_def view_simps)
  have p: "pid (pcbs s (return_pcb_parent (main_process s))) = int i" using t main by (simp add: view_simps)
  have "kernel_screen (halted status s) = kernel_screen s"
    by (rule kernel_screen_cong) (simp_all add: halted_def cli_def Let_def)
  moreover have "kernel_screen (s1\<lparr>main_process := x\<rparr>) = kernel_screen s1" "kernel_screen (s1\<lparr>tss := y\<rparr>) = kernel_screen s1" for s1 x y
    by (simp_all add: kernel_screen_def)
  ultimately show ?thesis
    using h main t len p by (auto simp: system_halt_unfold Let_def resume_parent_def MAX_TERMINALS_def)
qed

lemma exception_ends:
  assumes s: "reachable s" "main_process s = int i" "3 \<le> i" and ok: "print_ok s"
    and msg: "readable s (rodata s msg) (str_bytes msg)" "37 \<notin> set (str_bytes msg)"
  shows "\<exists>q s'. q < i \<and> process_num s ! q = process_num s ! i \<and>
    exception_halt msg s = Some (RetFromHalt (ebp (pcbs s (return_pcb_parent (int i))))
      (esp (pcbs s (return_pcb_parent (int i)))) 255, s') \<and>
    main_process s' = int q \<and> process_num s' = (process_num s)[i := -1] \<and>
    kernel_screen s' = fold show_byte (str_bytes msg) (kernel_screen s) \<and> reachable s'"
proof -
  from printf_prints [where str = "\<lambda>v. None", OF ok msg(1) _ formatted_literal [OF msg(2)]]
  obtain s1 where s1: "printf (rodata s msg) [] s = Some (int (length (str_bytes msg)), s1)" "prints (str_bytes msg) s s1" by blast
  then have same: "pcbs s1 = pcbs s" "process_num s1 = process_num s" "main_process s1 = main_process s" by (auto simp: prints_def)
  have v: "pview_of s1 = pview_of s" using pv.printf_frame [OF s1(1)] .
  then have r1: "reachable s1" by (intro reachable.step [OF s(1) kstep.work])
  have m1: "main_process s1 = int i" using same s by simp
  obtain q s' where q: "q < i" "process_num s1 ! q = process_num s1 ! i" "process_num s1 ! i \<noteq> -1"
    "system_halt 255 s1 = Some (RetFromHalt (ebp (pcbs s1 (return_pcb_parent (int i))))
       (esp (pcbs s1 (return_pcb_parent (int i)))) (ucast (255 :: u8)), s')"
    "main_process s' = int q" "process_num s' = (process_num s1)[i := -1]" "tlb_user s' = user_frame (int q) OR 0x87"
    by (rule halt_progress [OF reachable_inv [OF r1] m1 s(3)])
  have "reachable s'" by (rule reachable.step [OF r1 kstep.halt_child [OF q(4)]]) (use m1 s in simp)
  moreover have "kernel_screen s' = fold show_byte (str_bytes msg) (kernel_screen s)"
    using child_halt_screen [OF reachable_inv [OF r1] m1 s(3) q(4)] s1(2) by (simp add: prints_def)
  ultimately show ?thesis using s1(1) q same by (auto simp: exception_halt_def)
qed

end
