(* ===== verification/Self_Tests.thy ===== *)
theory Self_Tests
  imports Boot Printf
begin

text \<open>
  The self-tests of \<open>tests.c\<close>, as far as they are code: the test of the interrupt table with its
  report, the tests of the clock and of the terminal.  None is called by the kernel.  A test that
  waits is given the interrupts that occur, a list for each of its reads.  \<open>assertion_failure\<close> raises
  interrupt 15, whose handler does not return: the state in which it is raised is the result
  \<open>Inl\<close>.  The tests in comments and the two pictures are left out.
\<close>

section \<open>Definitions\<close>

definition PASS :: int where "PASS = 1"

definition TEST_HEADER :: "string \<Rightarrow> u32 \<Rightarrow> kstate \<Rightarrow> kstate option" where
  "TEST_HEADER fn ln s = say ''[TEST %s] Running %s at %s:%d\<newline>''
     [of_nat (rodata s fn), of_nat (rodata s fn), of_nat (rodata s ''tests.c''), ln] s"

definition TEST_OUTPUT :: "string \<Rightarrow> int \<Rightarrow> kstate \<Rightarrow> kstate option" where
  "TEST_OUTPUT name result s = say ''[TEST %s] Result = %s\<newline>''
     [of_nat (rodata s name), of_nat (rodata s (if result \<noteq> 0 then ''PASS'' else ''FAIL''))] s"

definition null_gate :: "kstate \<Rightarrow> nat \<Rightarrow> bool" where
  "null_gate s i \<longleftrightarrow> offset_15_00 (idt s i) = 0 \<and> offset_31_16 (idt s i) = 0"

definition idt_test :: "kstate \<Rightarrow> (kstate + int \<times> kstate) option" where
  "idt_test s = do {
     s \<leftarrow> TEST_HEADER ''idt_test'' 39 s;
     case List.find (null_gate s) [0..<10] of
       Some i \<Rightarrow> Some (Inl s)
     | None \<Rightarrow> Some (Inr (PASS, s)) }"

text \<open>Division of 7 by 0 raises an exception: no value.\<close>

definition divide_exc :: "int option" where
  "divide_exc = (let a = 7; b = (0 :: int) in if b = 0 then None else Some (c_div a b))"

fun rtc_reads :: "interrupts list \<Rightarrow> kstate \<Rightarrow> kstate option" where
  "rtc_reads [] s = Some s"
| "rtc_reads (hs # hss) s = do { (r, s) \<leftarrow> rtc_read hs 0 0 0 s; rtc_reads hss s }"

definition test_rtc_open :: "(nat \<Rightarrow> interrupts) \<Rightarrow> kstate \<Rightarrow> kstate option" where
  "test_rtc_open env s = do {
     (r, s) \<leftarrow> rtc_open 0 (my_clear s);
     rtc_reads (map env [0..<10]) s }"

text \<open>One round of \<open>test_rtc\<close>: the frequency is passed where \<open>rtc_write\<close> expects its address.\<close>

definition rtc_round :: "addr \<Rightarrow> interrupts list \<Rightarrow> kstate \<Rightarrow> kstate option" where
  "rtc_round freq hss s = do {
     (r, s) \<leftarrow> rtc_write 0 freq 4 (my_clear s);
     rtc_reads hss s }"

definition test_rtc :: "(nat \<Rightarrow> interrupts) \<Rightarrow> kstate \<Rightarrow> kstate option" where
  "test_rtc env s = do {
     s \<leftarrow> rtc_round 2 (map env [0..<10]) s;
     s \<leftarrow> rtc_round 32 (map env [10..<109]) s;
     s \<leftarrow> rtc_round 128 (map env [109..<1108]) s;
     s \<leftarrow> rtc_round 4 (map env [1108..<1133]) s;
     rtc_round 512 (map env [1133..<101132]) s }"

definition less_bytes :: "kstate \<Rightarrow> kstate option" where
  "less_bytes s = do { (r, s) \<leftarrow> terminal_write 1 (rodata s ''test\<newline>'') 2 s; Some s }"

definition test_hello :: "interrupts \<Rightarrow> addr \<Rightarrow> kstate \<Rightarrow> kstate option" where
  "test_hello hs buf s = do {
     (r, s) \<leftarrow> terminal_write 1 (rodata s ''Hi, what's your name? '') 22 s;
     (cnt, s) \<leftarrow> terminal_read hs 0 buf 127 s;
     if cnt = -1 then do {
       (r, s) \<leftarrow> terminal_write 1 (rodata s ''Can't read name from keyboard.\<newline>'') 30 s;
       Some s }
     else do {
       (r, s) \<leftarrow> terminal_write 1 (rodata s ''Hello, '') 7 s;
       (r, s) \<leftarrow> terminal_write 1 buf cnt s;
       Some s } }"

text \<open>The loop; \<open>k\<close> counts the reads, the line buffer is at \<open>buf\<close> and the one of \<open>test_hello\<close> at \<open>buf2\<close>.\<close>

partial_function (option) command_loop :: "(nat \<Rightarrow> interrupts) \<Rightarrow> nat \<Rightarrow> addr \<Rightarrow> addr \<Rightarrow> kstate \<Rightarrow> kstate option" where
  "command_loop env k buf buf2 s = do {
     (r, s) \<leftarrow> terminal_write 1 (rodata s ''391OS> '') 7 s;
     (cnt, s) \<leftarrow> terminal_read (env k) 0 buf 127 s;
     s \<leftarrow> (if cnt = -1 then do { (r, s) \<leftarrow> terminal_write 1 (rodata s ''read from keyboard failed\<newline>'') 26 s; Some s } else Some s);
     if strncmp (mem s) buf (rodata s ''exit\<newline>'') 5 = 0 then say ''Exiting...\<newline>'' [] s
     else if strncmp (mem s) buf (rodata s ''hello\<newline>'') 6 = 0 then do {
       s \<leftarrow> test_hello (env (k + 1)) buf2 s;
       command_loop env (k + 2) buf buf2 s }
     else if strncmp (mem s) buf (rodata s ''bytes\<newline>'') 6 = 0 then do {
       s \<leftarrow> less_bytes s;
       s \<leftarrow> say ''\<newline>'' [] s;
       command_loop env (k + 1) buf buf2 s }
     else do {
       s \<leftarrow> say ''Invalid command: type 'hello' or 'bytes' or 'exit'\<newline>'' [] s;
       command_loop env (k + 1) buf buf2 s } }"

definition test_terminal_read :: "(nat \<Rightarrow> interrupts) \<Rightarrow> addr \<Rightarrow> addr \<Rightarrow> kstate \<Rightarrow> kstate option" where
  "test_terminal_read env buf buf2 s = do {
     (r, s) \<leftarrow> terminal_write 1 (rodata s ''Starting 391 Shell\<newline>'') 19 (my_clear s);
     command_loop env 0 buf buf2 s }"


section \<open>The test of the interrupt table\<close>

lemma null_gate_offset: "null_gate s i \<longleftrightarrow> gate_offset (idt s i) = 0"
proof -
  have "(push_bit 16 (ucast (a :: u16)) OR ucast (b :: u16) :: u32) = 0 \<longleftrightarrow> b = 0 \<and> a = 0" for a b
  proof
    assume z: "(push_bit 16 (ucast a) OR ucast b :: u32) = 0"
    have "bit a n = False \<and> bit b n = False" if "n < 16" for n
    proof -
      have "bit (push_bit 16 (ucast a) OR ucast b :: u32) (n + 16) = False" "bit (push_bit 16 (ucast a) OR ucast b :: u32) n = False"
        unfolding z by simp_all
      then show ?thesis using that by (simp add: bit_or_iff bit_push_bit_iff bit_ucast_iff)
    qed
    then show "b = 0 \<and> a = 0" by (auto intro!: bit_word_eqI)
  qed simp
  then show ?thesis by (simp add: null_gate_def gate_offset_def)
qed

text \<open>The strings of the header.\<close>

definition header_ok :: "kstate \<Rightarrow> bool" where
  "header_ok s \<longleftrightarrow> print_ok s \<and> readable s (rodata s ''[TEST %s] Running %s at %s:%d\<newline>'') (str_bytes ''[TEST %s] Running %s at %s:%d\<newline>'') \<and>
     (\<forall>l \<in> {''idt_test'', ''tests.c''}. rodata s l < 2 ^ 32 \<and> readable s (rodata s l) (str_bytes l)) \<and>
     rodata s ''idt_test'' \<noteq> rodata s ''tests.c''"

lemma header_prints:
  assumes "header_ok s"
  shows "\<exists>s'. TEST_HEADER ''idt_test'' 39 s = Some s' \<and> prints (str_bytes ''[TEST idt_test] Running idt_test at tests.c:39\<newline>'') s s'"
proof -
  let ?a = "of_nat (rodata s ''idt_test'') :: u32" and ?b = "of_nat (rodata s ''tests.c'') :: u32"
  let ?str = "\<lambda>v. if v = ?a then Some (str_bytes ''idt_test'') else if v = ?b then Some (str_bytes ''tests.c'') else None"
  have u: "unat ?a = rodata s ''idt_test''" "unat ?b = rodata s ''tests.c''" using assms by (simp_all add: header_ok_def unat_of_nat)
  then have ab: "?a \<noteq> ?b" using assms by (metis header_ok_def)
  have n: "signed_text 39 = [51, 57]"
    by (simp add: signed_text_def itoa_spec_def digits_le.simps itoa_lookup_def str_bytes_def chb_def)
  have "formatted ?str Plain (str_bytes ''[TEST %s] Running %s at %s:%d\<newline>'') [?a, ?a, ?b, 39] =
      Some (str_bytes ''[TEST '' @ str_bytes ''idt_test'' @ str_bytes ''] Running '' @ str_bytes ''idt_test'' @ str_bytes '' at '' @
        str_bytes ''tests.c'' @ [58] @ [51, 57] @ [10])"
    using ab by (simp add: str_bytes_def chb_def arg_text_def n)
  then have t: "formatted ?str Plain (str_bytes ''[TEST %s] Running %s at %s:%d\<newline>'') [?a, ?a, ?b, 39] =
      Some (str_bytes ''[TEST idt_test] Running idt_test at tests.c:39\<newline>'')"
    by (simp add: str_bytes_def chb_def)
  have ok: "print_ok s" "readable s (rodata s ''[TEST %s] Running %s at %s:%d\<newline>'') (str_bytes ''[TEST %s] Running %s at %s:%d\<newline>'')"
    and str: "\<And>v xs. ?str v = Some xs \<Longrightarrow> readable s (unat v) xs"
    using assms u by (auto simp: header_ok_def split: if_splits)
  from printf_prints [OF ok str t] show ?thesis by (auto simp: TEST_HEADER_def say_def)
qed

lemma idt_test_result:
  assumes "header_ok s"
  shows "\<exists>s'. idt_test s = Some (if \<forall>i < 10. gate_offset (idt s i) \<noteq> 0 then Inr (PASS, s') else Inl s') \<and>
    prints (str_bytes ''[TEST idt_test] Running idt_test at tests.c:39\<newline>'') s s'"
proof -
  from header_prints [OF assms] obtain s' where s': "TEST_HEADER ''idt_test'' 39 s = Some s'"
    "prints (str_bytes ''[TEST idt_test] Running idt_test at tests.c:39\<newline>'') s s'" by blast
  then have "idt s' = idt s" by (auto simp: prints_def)
  then have ng: "null_gate s' i \<longleftrightarrow> gate_offset (idt s i) = 0" for i by (simp add: null_gate_offset)
  show ?thesis
  proof (cases "\<forall>i < 10. gate_offset (idt s i) \<noteq> 0")
    case True
    then have "List.find (null_gate s') [0..<10] = None" by (simp add: find_None_iff ng)
    with True s' show ?thesis by (auto simp: idt_test_def)
  next
    case False
    then have "List.find (null_gate s') [0..<10] \<noteq> None" by (auto simp: find_None_iff ng)
    then obtain i where "List.find (null_gate s') [0..<10] = Some i" by blast
    with False s' show ?thesis by (auto simp: idt_test_def)
  qed
qed

end
