(* ===== verification/Console_Theorems.thy ===== *)
theory Console_Theorems
  imports Exceptions Reach_Theorems Self_Tests
begin

text \<open>Formatted output of the kernel, and the exceptions that use it.\<close>

section \<open>Formatted output\<close>

text \<open>C18: \<open>printf\<close> returns the length of its format and shows on the screen the text that the format
  and the arguments stand for: literal text, \<open>%%\<close>, numbers in hexadecimal (with \<open>#\<close> padded to eight
  digits), unsigned and signed decimal, characters and strings, with line breaks and scrolling as on
  the abstract screen.  It changes nothing but the screen, the cursor and its conversion buffer.  The
  format and the strings lie outside of what it writes; the cursor is on the screen.\<close>

theorem printf_shows_text:
  assumes "print_ok s" and "readable s format cs" and "\<forall>v xs. str v = Some xs \<longrightarrow> readable s (unat v) xs"
    and "formatted str Plain cs args = Some t"
  shows "\<exists>s'. printf format args s = Some (int (length cs), s') \<and>
    kernel_screen s' = fold show_byte t (kernel_screen s) \<and> cursor_ok (screen_x s') (screen_y s') \<and>
    (\<forall>a. \<not> printf_area s a \<longrightarrow> mem s' a = mem s a) \<and>
    (\<exists>m x y l. s' = s\<lparr>mem := m, screen_x := x, screen_y := y, port_log := l\<rparr>)"
proof -
  from printf_prints [OF assms(1,2) _ assms(4)] assms(3) obtain s' where
    "printf format args s = Some (int (length cs), s')" "prints t s s'" by blast
  then show ?thesis unfolding prints_def print_ok_def by blast
qed

text \<open>A message at \<open>0x450000\<close>, where the sample system has its constants, and a string behind it.\<close>

definition with_text :: "u8 list \<Rightarrow> u8 list \<Rightarrow> kstate \<Rightarrow> kstate" where
  "with_text xs ys s = s\<lparr>mem := blit (blit (mem s) 0x450000 (xs @ [0])) 0x450100 (ys @ [0])\<rparr>"

lemma with_text_readable:
  assumes "frame s = 0x7FF000" "length xs < 256" "length ys < 256" "0 \<notin> set xs" "0 \<notin> set ys"
  shows "readable (with_text xs ys s) 0x450000 xs" "readable (with_text xs ys s) 0x450100 ys"
proof -
  let ?m = "blit (mem s) 0x450000 (xs @ [0])"
  have "cstr ?m 0x450000 xs" using assms by (intro dstr_blit)
  then have x: "cstr (blit ?m 0x450100 (ys @ [0])) 0x450000 xs"
    by (rule dstr_cong) (use assms in \<open>auto simp: blit_def\<close>)
  have y: "cstr (blit ?m 0x450100 (ys @ [0])) 0x450100 ys" using assms by (intro dstr_blit)
  show "readable (with_text xs ys s) 0x450000 xs" "readable (with_text xs ys s) 0x450100 ys"
    using x y assms by (auto simp: readable_def with_text_def printf_area_def VIDEO_def)
qed

lemma sample_print_ok: "print_ok (with_text xs ys sample)" "print_ok (with_text xs ys at_child)"
  by (simp_all add: print_ok_def with_text_def at_child_def at_def sample_def cursor_ok_def disjoint_rng_def VIDEO_def)

theorem printf_shows_text_witness:
  "let s = with_text (str_bytes ''%s: %d%% of 0x%#x'') (str_bytes ''used'') sample
   in \<exists>s'. printf 0x450000 [0x450100, -7, 0xBEEF] s = Some (17, s') \<and>
     kernel_screen s' = fold show_byte (str_bytes ''used: -7% of 0x0000BEEF'') (kernel_screen s)"
proof -
  let ?f = "str_bytes ''%s: %d%% of 0x%#x''" and ?str = "\<lambda>v :: u32. if v = 0x450100 then Some (str_bytes ''used'') else None"
  let ?s = "with_text ?f (str_bytes ''used'') sample"
  have r: "readable ?s 0x450000 ?f" "readable ?s 0x450100 (str_bytes ''used'')"
    by (rule with_text_readable; simp add: sample_def str_bytes_def chb_def)+
  have n: "itoa_spec 10 7 = [55]" "itoa_spec 16 48879 = [66, 69, 69, 70]"
    by (simp_all add: itoa_spec_def digits_le.simps itoa_lookup_def str_bytes_def chb_def)
  have z: "replicate 4 (48 :: u8) = [48, 48, 48, 48]" by (simp add: eval_nat_numeral)
  have v: "signed_text (-7) = [45, 55]" "hex8_text 0xBEEF = [48, 48, 48, 48, 66, 69, 69, 70]"
    using z by (simp_all add: signed_text_def hex8_text_def n)
  have f: "?f = [37, 115, 58, 32, 37, 100, 37, 37, 32, 111, 102, 32, 48, 120, 37, 35, 120]" by (simp add: str_bytes_def chb_def)
  have "formatted ?str Plain ?f [0x450100, -7, 0xBEEF] =
      Some (str_bytes ''used'' @ [58, 32] @ [45, 55] @ [37, 32, 111, 102, 32, 48, 120] @ [48, 48, 48, 48, 66, 69, 69, 70])"
    unfolding f by (simp add: arg_text_def v)
  then have t: "formatted ?str Plain ?f [0x450100, -7, 0xBEEF] = Some (str_bytes ''used: -7% of 0x0000BEEF'')"
    by (simp add: str_bytes_def chb_def)
  have "\<forall>v xs. ?str v = Some xs \<longrightarrow> readable ?s (unat v) xs" using r(2) by simp
  from printf_shows_text [OF sample_print_ok(1) r(1) this t] show ?thesis
    by (auto simp: Let_def str_bytes_def)
qed


section \<open>Exceptions\<close>





section \<open>The self-test of the interrupt table\<close>

text \<open>The self-test of the interrupt table decides what it is for.  Its header is shown on the
  screen; it passes exactly when the first ten gates have a handler, and raises the assertion
  interrupt otherwise.  After \<open>init_idt\<close> it passes, provided that no handler is at address 0.\<close>

theorem idt_test_decides:
  assumes "header_ok s"
  shows "(\<exists>s'. idt_test s = Some (if \<forall>i < 10. gate_offset (idt s i) \<noteq> 0 then Inr (PASS, s') else Inl s') \<and>
      kernel_screen s' = fold show_byte (str_bytes ''[TEST idt_test] Running idt_test at tests.c:39\<newline>'') (kernel_screen s)) \<and>
    ((\<forall>h. haddr h \<noteq> 0) \<longrightarrow> (\<exists>s'. idt_test (init_idt haddr s) = Some (Inr (PASS, s'))))"
proof -
  have "\<exists>s'. idt_test (init_idt haddr s) = Some (Inr (PASS, s'))" if h: "\<forall>h. haddr h \<noteq> 0"
  proof -
    have "header_ok (init_idt haddr s)" using assms by (simp add: header_ok_def print_ok_def readable_def printf_area_def init_idt_def
          SET_IDT_ENTRY_def Let_def)
    moreover have "gate_offset (idt (init_idt haddr s) i) \<noteq> 0" if "i < 10" for i
      using init_idt_offset [of i _ haddr s] that h by (auto simp: vector_handler_def)
    ultimately show ?thesis using idt_test_result [of "init_idt haddr s"] by auto
  qed
  with idt_test_result [OF assms] show ?thesis unfolding prints_def by blast
qed

text \<open>The strings of the test in memory.\<close>

definition test_strings :: "string list" where
  "test_strings = [''[TEST %s] Running %s at %s:%d\<newline>'', ''idt_test'', ''tests.c'']"

definition testing :: kstate where
  "testing = sample\<lparr>mem := (\<lambda>a. if 0x460000 \<le> a \<and> a < 0x470000 then table_byte test_strings (a - 0x460000) else 0),
     rodata := (\<lambda>l. 0x460000 + 256 * position l test_strings)\<rparr>"

lemma testing_header: "header_ok testing"
proof -
  have r: "readable testing (rodata testing l) (str_bytes l)" if "l \<in> set test_strings" for l
  proof -
    have g: "0 \<notin> set (str_bytes l)" "length l < 256" using that by (auto simp: test_strings_def str_bytes_def chb_def)
    have p: "position l test_strings < 3" using position_nth [OF that] by (simp add: test_strings_def)
    have n: "length test_strings = 3" by (simp add: test_strings_def)
    have "cstr (mem testing) (0x460000 + 256 * position l test_strings) (str_bytes l)"
      by (rule table_cstr [OF that g]) (simp add: testing_def n)
    then show ?thesis using g p by (simp add: readable_def testing_def printf_area_def VIDEO_def str_bytes_def)
  qed
  have "print_ok testing" by (simp add: print_ok_def testing_def disjoint_rng_def VIDEO_def) (simp add: sample_def cursor_ok_def)
  then show ?thesis using r by (simp add: header_ok_def test_strings_def) (simp add: testing_def test_strings_def)
qed

theorem idt_test_decides_witness:
  "(\<exists>s'. idt_test testing = Some (Inl s')) \<and> (\<exists>s'. idt_test (init_idt (\<lambda>h. 0x400100) testing) = Some (Inr (PASS, s')))"
proof -
  have "gate_offset (idt testing 0) = 0" by (simp add: gate_offset_def testing_def sample_def sample_gate_def)
  then have "\<not> (\<forall>i < 10. gate_offset (idt testing i) \<noteq> 0)" by force
  with idt_test_decides [OF testing_header, of "\<lambda>h. 0x400100"] show ?thesis by auto
qed

end
