(* ===== verification/Fish.thy ===== *)
theory Fish
  imports User_Memory
begin

text \<open>
  The animation of \<open>fish/\<close>: the list of blinking characters of \<open>blink.S\<close> and the program
  around it, \<open>fish.c\<close>.  The list is kept in the static array \<open>blink_array\<close>, whose unused
  elements have location 0, and linked through the pointers at offset 12.  The addresses of the
  static and automatic variables are the fields of \<open>fish_vars\<close>.  A function of the assembly is one
  definition, a label that is jumped back to a recursive one.
\<close>

section \<open>Data\<close>

record fish_vars =
  blink_array :: addr
  vmem_base_addr :: addr
  mp1_list_head :: addr
  file0 :: addr
  file1 :: addr
  ret_val :: addr
  garbage :: addr
  main_struct :: addr
  frames_struct :: addr
  c0 :: addr
  c1 :: addr
  stack_struct :: addr

text \<open>\<open>struct mp1_blink_struct\<close> but for \<open>next\<close>, which \<open>next_at\<close> reads.\<close>

record mp1_blink_struct =
  location :: u16
  on_char :: u8
  off_char :: u8
  on_length :: u16
  off_length :: u16
  countdown :: u16
  status :: u16

definition ld16 :: "mem \<Rightarrow> addr \<Rightarrow> u16" where
  "ld16 m a = word_of_nat (unat (m a) + 256 * unat (m (a + 1)))"

definition stw :: "addr \<Rightarrow> u16 \<Rightarrow> mem \<Rightarrow> mem" where
  "stw a v m = st16 m a (ucast v)"

definition blink_at :: "mem \<Rightarrow> addr \<Rightarrow> mp1_blink_struct" where
  "blink_at m p = \<lparr>location = ld16 m p, on_char = m (p + 2), off_char = m (p + 3), on_length = ld16 m (p + 4),
     off_length = ld16 m (p + 6), countdown = ld16 m (p + 8), status = ld16 m (p + 10)\<rparr>"

definition next_at :: "mem \<Rightarrow> addr \<Rightarrow> addr" where
  "next_at m p = unat (ld32 m (p + 12))"

definition on_mem :: "(mem \<Rightarrow> mem) \<Rightarrow> kstate \<Rightarrow> kstate" where
  "on_mem f s = s\<lparr>mem := f (mem s)\<rparr>"


section \<open>Memory routines of \<open>fish.c\<close>\<close>

definition ece391_memset :: "addr \<Rightarrow> u8 \<Rightarrow> int \<Rightarrow> mem \<Rightarrow> mem" where
  "ece391_memset memory c n m = fold (\<lambda>i m. m(memory + i := c)) [0..<nat n] m"

definition ece391_memcpy :: "addr \<Rightarrow> addr \<Rightarrow> int \<Rightarrow> mem \<Rightarrow> int \<times> mem" where
  "ece391_memcpy dest src n m = (0, fold (\<lambda>i m. m(dest + i := m (src + i))) [0..<nat n] m)"

definition mp1_malloc :: "fish_vars \<Rightarrow> mem \<Rightarrow> addr" where
  "mp1_malloc v m = (case List.find (\<lambda>i. ld16 m (blink_array v + 16 * i) = 0) [0..<2000] of
     Some i \<Rightarrow> blink_array v + 16 * i | None \<Rightarrow> 0)"

definition mp1_free :: "addr \<Rightarrow> mem \<Rightarrow> mem" where
  "mp1_free memory = ece391_memset memory 0 16"

definition mp1_set_video_mode :: "fish_vars \<Rightarrow> kstate \<Rightarrow> (u32 \<times> kstate) option" where
  "mp1_set_video_mode v s = do {
     (r, s) \<leftarrow> ece391_vidmap (vmem_base_addr v) s;
     if r = -1 then Some (0, s) else Some (ld32 (mem s) (vmem_base_addr v), s) }"


section \<open>The list of \<open>blink.S\<close>\<close>

definition mp1_poke :: "fish_vars \<Rightarrow> u8 \<Rightarrow> u32 \<Rightarrow> kstate \<Rightarrow> kstate option" where
  "mp1_poke v cl eax s = (let edx = ld32 (mem s) (vmem_base_addr v) in user_store (edx + eax) cl s)"

definition blink_off :: "mem \<Rightarrow> addr \<Rightarrow> u32" where
  "blink_off m p = push_bit 1 (ucast (ld16 m p))"

definition tasklet_step :: "fish_vars \<Rightarrow> addr \<Rightarrow> kstate \<Rightarrow> kstate option" where
  "tasklet_step v ebx s =
     (let s = on_mem (stw (ebx + 8) (ld16 (mem s) (ebx + 8) - 1)) s
      in if 0 < sint (ld16 (mem s) (ebx + 8)) then Some s
         else do {
           let eax = blink_off (mem s) ebx;
           (dx, s) \<leftarrow> (if ld16 (mem s) (ebx + 10) AND 1 = 0
              then do { s \<leftarrow> mp1_poke v (mem s (ebx + 2)) eax s; Some (ld16 (mem s) (ebx + 4), s) }
              else do { s \<leftarrow> mp1_poke v (mem s (ebx + 3)) eax s; Some (ld16 (mem s) (ebx + 6), s) });
           let s = on_mem (stw (ebx + 8) dx) s;
           Some (on_mem (stw (ebx + 10) (ld16 (mem s) (ebx + 10) XOR 1)) s) })"

partial_function (option) tasklet_loop :: "fish_vars \<Rightarrow> addr \<Rightarrow> kstate \<Rightarrow> kstate option" where
  "tasklet_loop v ebx s =
     (if ebx = 0 then Some s
      else do { s \<leftarrow> tasklet_step v ebx s; tasklet_loop v (next_at (mem s) ebx) s })"

definition mp1_rtc_tasklet :: "fish_vars \<Rightarrow> kstate \<Rightarrow> kstate option" where
  "mp1_rtc_tasklet v s = tasklet_loop v (unat (ld32 (mem s) (mp1_list_head v))) s"

partial_function (option) find_loop :: "u16 \<Rightarrow> addr \<Rightarrow> mem \<Rightarrow> addr option" where
  "find_loop ax ebx m =
     (if ebx = 0 then Some 0
      else if ld16 m ebx = ax then Some ebx
      else find_loop ax (next_at m ebx) m)"

definition mp1_find_helper :: "fish_vars \<Rightarrow> u32 \<Rightarrow> mem \<Rightarrow> addr option" where
  "mp1_find_helper v arg m = find_loop (ucast arg) (unat (ld32 m (mp1_list_head v))) m"

definition mp1_ioctl_add :: "fish_vars \<Rightarrow> addr \<Rightarrow> kstate \<Rightarrow> (int \<times> kstate) option" where
  "mp1_ioctl_add v arg s =
     (let ebx = stack_struct v;
          (r, m) = ece391_memcpy ebx arg 16 (mem s);
          s = s\<lparr>mem := m\<rparr>
      in if r \<noteq> 0 \<or> ld16 (mem s) ebx \<ge> 80 * 25 then Some (-1, s)
         else (let s = on_mem (stw (ebx + 10) 1) s;
                   s = on_mem (stw (ebx + 8) (ld16 (mem s) (ebx + 4))) s;
                   edx = mp1_malloc v (mem s)
               in if edx = 0 then Some (-1, s)
                  else do {
                    let s = on_mem (\<lambda>m. snd (ece391_memcpy edx ebx 16 m)) s;
                    let s = on_mem (\<lambda>m. st32 m (edx + 12) (ld32 m (mp1_list_head v))) s;
                    let s = on_mem (\<lambda>m. st32 m (mp1_list_head v) (of_nat edx)) s;
                    s \<leftarrow> mp1_poke v (mem s (edx + 2)) (blink_off (mem s) edx) s;
                    Some (0, s) }))"

partial_function (option) remove_find_prev :: "addr \<Rightarrow> addr \<Rightarrow> mem \<Rightarrow> addr option" where
  "remove_find_prev eax edx m =
     (if unat (ld32 m edx) = eax then Some edx
      else remove_find_prev eax (unat (ld32 m edx) + 12) m)"

definition mp1_ioctl_remove :: "fish_vars \<Rightarrow> u32 \<Rightarrow> kstate \<Rightarrow> (int \<times> kstate) option" where
  "mp1_ioctl_remove v arg s = do {
     eax \<leftarrow> mp1_find_helper v arg (mem s);
     if eax = 0 then Some (-1, s)
     else do {
       edx \<leftarrow> remove_find_prev eax (mp1_list_head v) (mem s);
       let s = on_mem (\<lambda>m. st32 m edx (ld32 m (eax + 12))) s;
       Some (0, on_mem (mp1_free eax) s) } }"

text \<open>\<open>testb\<close> of bit 0 leaves the sign and the overflow flag clear, so that \<open>cmovl\<close> never moves:
  the character in \<open>ecx\<close> stays the one of \<open>OFF_CHAR\<close>.\<close>

definition cmovl_after_test :: "u8 \<Rightarrow> u8 \<Rightarrow> u8 \<Rightarrow> u8" where
  "cmovl_after_test x ebx ecx = (let sf = bit (x AND 1) 7; oflag = False in if sf \<noteq> oflag then ebx else ecx)"

definition sync_copy :: "addr \<Rightarrow> addr \<Rightarrow> mem \<Rightarrow> mem" where
  "sync_copy esi edi m = fold (\<lambda>off m. stw (edi + off) (ld16 m (esi + off)) m) [4, 6, 8, 10] m"

definition mp1_ioctl_sync :: "fish_vars \<Rightarrow> u32 \<Rightarrow> kstate \<Rightarrow> (int \<times> kstate) option" where
  "mp1_ioctl_sync v arg s = do {
     esi \<leftarrow> mp1_find_helper v (drop_bit 16 arg) (mem s);
     if esi = 0 then Some (-1, s)
     else do {
       edi \<leftarrow> mp1_find_helper v (arg AND 0xFFFF) (mem s);
       if edi = 0 then Some (-1, s)
       else do {
         let s = on_mem (sync_copy esi edi) s;
         let cl = cmovl_after_test (mem s (edi + 10)) (mem s (edi + 2)) (mem s (edi + 3));
         s \<leftarrow> mp1_poke v cl (blink_off (mem s) edi) s;
         Some (0, s) } } }"

text \<open>The two bytes of the location are first copied to the stack.\<close>

definition mp1_ioctl_find :: "fish_vars \<Rightarrow> addr \<Rightarrow> kstate \<Rightarrow> (int \<times> kstate) option" where
  "mp1_ioctl_find v arg s =
     (let (r, m) = ece391_memcpy (stack_struct v + 14) arg 2 (mem s);
          s = s\<lparr>mem := m\<rparr>
      in if r \<noteq> 0 then Some (-1, s)
         else do {
           eax \<leftarrow> mp1_find_helper v (ucast (ld16 (mem s) (stack_struct v + 14))) (mem s);
           if eax = 0 then Some (-1, s)
           else (let (r, m) = ece391_memcpy arg eax 16 (mem s)
                 in Some (if r = 0 then 0 else -1, s\<lparr>mem := m\<rparr>)) })"

text \<open>\<open>call_table\<close> has four entries; the command is not checked.\<close>

definition mp1_ioctl :: "fish_vars \<Rightarrow> u32 \<Rightarrow> u32 \<Rightarrow> kstate \<Rightarrow> (int \<times> kstate) option" where
  "mp1_ioctl v arg cmd s =
     (if cmd = 0 then mp1_ioctl_add v (unat arg) s
      else if cmd = 1 then mp1_ioctl_remove v arg s
      else if cmd = 2 then mp1_ioctl_find v (unat arg) s
      else if cmd = 3 then mp1_ioctl_sync v arg s
      else None)"


section \<open>The program\<close>

definition set_blink :: "addr \<Rightarrow> u8 \<Rightarrow> u8 \<Rightarrow> u16 \<Rightarrow> mem \<Rightarrow> mem" where
  "set_blink p on off loc m = stw p loc (m(p + 2 := on, p + 3 := off))"

definition next_char :: "int \<Rightarrow> addr \<Rightarrow> bool \<Rightarrow> kstate \<Rightarrow> (bool \<times> kstate) option" where
  "next_char fd c eof s =
     (if mem s c \<noteq> 10
      then do {
        (num_bytes, s) \<leftarrow> ece391_read [] fd c 1 s;
        if num_bytes = 0 then Some (True, on_mem (\<lambda>m. m(c := 10)) s) else Some (eof, s) }
      else Some (eof, s))"

definition frame_cell :: "fish_vars \<Rightarrow> int \<Rightarrow> int \<Rightarrow> kstate \<Rightarrow> kstate option" where
  "frame_cell v row col s =
     (let x = mem s (c0 v); y = mem s (c1 v)
      in if (x \<noteq> 32 \<and> x \<noteq> 10) \<or> (y \<noteq> 32 \<and> y \<noteq> 10)
         then do {
           let s = on_mem (set_blink (frames_struct v) (if x = 10 then 32 else x) (if y = 10 then 32 else y)
                     (of_int (row * 80 + col + 40))) s;
           (r, s) \<leftarrow> mp1_ioctl v (of_nat (frames_struct v)) 0 s;
           Some s }
         else Some s)"

partial_function (option) frame_row ::
  "fish_vars \<Rightarrow> int \<Rightarrow> int \<Rightarrow> int \<Rightarrow> int \<Rightarrow> bool \<Rightarrow> bool \<Rightarrow> kstate \<Rightarrow> (bool \<times> bool \<times> kstate) option" where
  "frame_row v fd0 fd1 row col eof0 eof1 s = do {
     (eof0, s) \<leftarrow> next_char fd0 (c0 v) eof0 s;
     (eof1, s) \<leftarrow> next_char fd1 (c1 v) eof1 s;
     if mem s (c0 v) = 10 \<and> mem s (c1 v) = 10 then Some (eof0, eof1, s)
     else do {
       s \<leftarrow> frame_cell v row col s;
       frame_row v fd0 fd1 row (col + 1) eof0 eof1 s } }"

definition end_row :: "int \<Rightarrow> addr \<Rightarrow> bool \<Rightarrow> kstate \<Rightarrow> kstate option" where
  "end_row fd c eof s =
     (if eof then do { (r, s) \<leftarrow> ece391_close fd (on_mem (\<lambda>m. m(c := 10)) s); Some s }
      else Some (on_mem (\<lambda>m. m(c := 48)) s))"

partial_function (option) frame_rows ::
  "fish_vars \<Rightarrow> int \<Rightarrow> int \<Rightarrow> int \<Rightarrow> bool \<Rightarrow> bool \<Rightarrow> kstate \<Rightarrow> kstate option" where
  "frame_rows v fd0 fd1 row eof0 eof1 s =
     (if \<not> eof0 \<or> \<not> eof1
      then do {
        (eof0, eof1, s) \<leftarrow> frame_row v fd0 fd1 row 0 eof0 eof1 s;
        s \<leftarrow> end_row fd0 (c0 v) eof0 s;
        s \<leftarrow> end_row fd1 (c1 v) eof1 s;
        frame_rows v fd0 fd1 (row + 1) eof0 eof1 s }
      else Some s)"

text \<open>The result is \<open>Inl\<close> when the program ends here, by \<open>ece391_halt (-1)\<close>.\<close>

definition add_frames :: "fish_vars \<Rightarrow> addr \<Rightarrow> addr \<Rightarrow> kstate \<Rightarrow> (kstate + kstate) option" where
  "add_frames v f0 f1 s = do {
     let s = on_mem (\<lambda>m. stw (frames_struct v + 6) 15 (stw (frames_struct v + 4) 15 (m(c0 v := 48, c1 v := 48)))) s;
     (fd0, s) \<leftarrow> ece391_open f0 s;
     if fd0 < 0 then Some (Inl s)
     else do {
       (fd1, s) \<leftarrow> ece391_open f1 s;
       if fd1 < 0 then Some (Inl s)
       else do { s \<leftarrow> frame_rows v fd0 fd1 0 False False s; Some (Inr s) } } }"

fun fish_wait :: "fish_vars \<Rightarrow> nat \<Rightarrow> env \<Rightarrow> nat \<Rightarrow> int \<Rightarrow> kstate \<Rightarrow> kstate option" where
  "fish_wait v 0 env k rtc_fd s = Some s"
| "fish_wait v (Suc n) env k rtc_fd s = do {
     (r, s) \<leftarrow> ece391_read (env k) rtc_fd (garbage v) 4 s;
     s \<leftarrow> mp1_rtc_tasklet v s;
     fish_wait v n env (k + 1) rtc_fd s }"

text \<open>Halting with -1 in \<open>add_frames\<close> is what \<open>_start\<close> does when \<open>main\<close> returns -1.\<close>

definition fish_main :: "fish_vars \<Rightarrow> env \<Rightarrow> kstate \<Rightarrow> (int \<times> kstate) option" where
  "fish_main v env s = do {
     let s = on_mem (ece391_memset (blink_array v) 0 (16 * 80 * 25)) s;
     (base, s) \<leftarrow> mp1_set_video_mode v s;
     if base = 0 then Some (-1, s)
     else do {
       (rtc_fd, s) \<leftarrow> ece391_open (rodata s ''rtc'') s;
       r \<leftarrow> add_frames v (file0 v) (file1 v) s;
       case r of
         Inl s \<Rightarrow> Some (-1, s)
       | Inr s \<Rightarrow> do {
           let s = on_mem (\<lambda>m. st32 m (ret_val v) 32) s;
           (r, s) \<leftarrow> ece391_write rtc_fd (ret_val v) 4 s;
           let s = on_mem (\<lambda>m. st32 m (ret_val v) (of_int r)) s;
           s \<leftarrow> fish_wait v 100 env 0 rtc_fd s;
           let s = on_mem (\<lambda>m. stw (main_struct v + 6) 6 (stw (main_struct v + 4) 7
                     (set_blink (main_struct v) 73 77 (6 * 80 + 60) m))) s;
           (r, s) \<leftarrow> mp1_ioctl v (of_nat (main_struct v)) 0 s;
           s \<leftarrow> fish_wait v 100 env 100 rtc_fd s;
           (r, s) \<leftarrow> mp1_ioctl v (push_bit 16 40 OR (6 * 80 + 60)) 3 s;
           s \<leftarrow> fish_wait v 100 env 200 rtc_fd s;
           (r, s) \<leftarrow> mp1_ioctl v (6 * 80 + 60) 1 s;
           s \<leftarrow> fish_wait v 100 env 300 rtc_fd s;
           (r, s) \<leftarrow> ece391_close rtc_fd s;
           Some (0, s) } } }"

end
