(* ===== verification/Blink_List.thy ===== *)
theory Blink_List
  imports Fish
begin

text \<open>
  The linked list of \<open>blink.S\<close> as a list of records.  \<open>blinks v s ps\<close> says that the list in memory
  consists of the elements \<open>ps\<close> of \<open>blink_array\<close> and that exactly those are taken; \<open>tick\<close> is what the
  clock does to one record and \<open>cells\<close> the characters on the screen.
\<close>

section \<open>Sixteen-bit fields\<close>

lemma word16_of_bytes: "(word_of_nat (unat v mod 256 + 256 * (unat v div 256)) :: u16) = v"
  by (simp add: mod_mult_div_eq)

lemma ld16_st16: "ld16 (stw a v m) a = v"
proof -
  have "unat v < 65536" using unsigned_less [of v, where ?'a = nat] by simp
  then have "unat (ucast v :: u32) = unat v" "unat v div 256 mod 256 = unat v div 256"
    by (simp_all add: unsigned_ucast_eq take_bit_nat_eq_self)
  then show ?thesis by (simp add: ld16_def stw_def st16_def unat_byte_of word16_of_bytes)
qed

lemma ld16_cong: "m' a = m a \<Longrightarrow> m' (a + 1) = m (a + 1) \<Longrightarrow> ld16 m' a = ld16 m a"
  by (simp add: ld16_def)

lemma stw_blit: "stw a x m = blit m a [byte_of 0 (ucast x), byte_of 1 (ucast x)]"
  by (simp add: stw_def st16_def blit_Cons)

lemma stw_other: "b \<noteq> a \<Longrightarrow> b \<noteq> a + 1 \<Longrightarrow> stw a x m b = m b"
  by (simp add: stw_def st16_def)

lemma ece391_memset_blit: "ece391_memset a c n m = blit m a (replicate (nat n) c)"
proof -
  have "fold (\<lambda>i m. m(a + i := c)) [0..<k] m = blit m a (replicate k c)" for k
  proof (induction k)
    case (Suc k)
    then show ?case by (simp add: blit_snoc del: fun_upd_apply flip: replicate_append_same)
  qed simp
  then show ?thesis by (simp add: ece391_memset_def)
qed

lemma ece391_memcpy_blit:
  assumes "disjoint_rng dest (nat n) src (nat n)"
  shows "ece391_memcpy dest src n m = (0, blit m dest (bytes_at m src (nat n)))"
proof -
  have "k \<le> nat n \<Longrightarrow> fold (\<lambda>i m. m(dest + i := m (src + i))) [0..<k] m = blit m dest (bytes_at m src k)" for k
  proof (induction k)
    case (Suc k)
    have "blit m dest (bytes_at m src k) (src + k) = m (src + k)"
      using Suc.prems assms by (auto simp: blit_def disjoint_rng_def)
    with Suc show ?case by (simp add: bytes_at_snoc blit_snoc del: fun_upd_apply)
  qed simp
  then show ?thesis by (simp add: ece391_memcpy_def)
qed


section \<open>Records and chains\<close>

definition tick :: "mp1_blink_struct \<Rightarrow> mp1_blink_struct" where
  "tick b = (let c = countdown b - 1 in
     if 0 < sint c then b\<lparr>countdown := c\<rparr>
     else b\<lparr>countdown := if status b AND 1 = 0 then on_length b else off_length b, status := status b XOR 1\<rparr>)"

text \<open>What a record shows, and the screen after the clock has ticked for it.\<close>

definition face :: "mp1_blink_struct \<Rightarrow> u8" where
  "face b = (if status b AND 1 = 0 then off_char b else on_char b)"

definition tick_cells :: "mp1_blink_struct \<Rightarrow> u8 list \<Rightarrow> u8 list" where
  "tick_cells b f = (if 0 < sint (countdown b - 1) then f else f[unat (location b) := face (tick b)])"

abbreviation cell :: "nat \<Rightarrow> addr" where "cell l \<equiv> VIDEO + 2 * l"

definition cells :: "mem \<Rightarrow> u8 list" where
  "cells m = map (\<lambda>l. m (cell l)) [0..<2000]"

fun chain :: "mem \<Rightarrow> addr \<Rightarrow> addr list \<Rightarrow> bool" where
  "chain m h [] \<longleftrightarrow> h = 0"
| "chain m h (p # ps) \<longleftrightarrow> h = p \<and> p \<noteq> 0 \<and> chain m (next_at m p) ps"

abbreviation slot :: "fish_vars \<Rightarrow> nat \<Rightarrow> addr" where "slot v i \<equiv> blink_array v + 16 * i"

definition slots :: "fish_vars \<Rightarrow> addr set" where
  "slots v = slot v ` {0..<2000}"

text \<open>The variables do not overlap, and none is in video memory.\<close>

definition vars_ok :: "fish_vars \<Rightarrow> bool" where
  "vars_ok v \<longleftrightarrow> blink_array v \<noteq> 0 \<and> blink_array v + 32000 < 2 ^ 32 \<and> mp1_list_head v + 4 < 2 ^ 32 \<and>
     disjoint_rng (blink_array v) 32000 (mp1_list_head v) 4 \<and> disjoint_rng (blink_array v) 32000 (vmem_base_addr v) 4 \<and>
     disjoint_rng (mp1_list_head v) 4 (vmem_base_addr v) 4 \<and> disjoint_rng (blink_array v) 32000 VIDEO 4096 \<and>
     disjoint_rng (mp1_list_head v) 4 VIDEO 4096 \<and> disjoint_rng (vmem_base_addr v) 4 VIDEO 4096 \<and>
     disjoint_rng (stack_struct v) 16 (blink_array v) 32000 \<and> disjoint_rng (stack_struct v) 16 (mp1_list_head v) 4 \<and>
     disjoint_rng (stack_struct v) 16 (vmem_base_addr v) 4 \<and> disjoint_rng (stack_struct v) 16 VIDEO 4096"

text \<open>\<open>vidmap\<close> has been called.\<close>

definition video_on :: "fish_vars \<Rightarrow> kstate \<Rightarrow> bool" where
  "video_on v s \<longleftrightarrow> ld32 (mem s) (vmem_base_addr v) = 0x8800000 \<and>
     (\<forall>off < 4096. user_may_write s (0x8800000 + of_nat off) \<and> translate s (0x8800000 + of_nat off) = Some (0xB8000 OR of_nat off))"

definition blinks :: "fish_vars \<Rightarrow> kstate \<Rightarrow> addr list \<Rightarrow> bool" where
  "blinks v s ps \<longleftrightarrow> chain (mem s) (unat (ld32 (mem s) (mp1_list_head v))) ps \<and> distinct ps \<and>
     {p \<in> slots v. ld16 (mem s) p \<noteq> 0} = set ps \<and> (\<forall>p \<in> set ps. ld16 (mem s) p < 2000)"

text \<open>The whole of it: the records of the list and the characters on the screen.\<close>

definition records :: "kstate \<Rightarrow> addr list \<Rightarrow> mp1_blink_struct list" where
  "records s ps = map (blink_at (mem s)) ps"


definition animates :: "fish_vars \<Rightarrow> kstate \<Rightarrow> mp1_blink_struct list \<Rightarrow> u8 list \<Rightarrow> bool" where
  "animates v s bs cs \<longleftrightarrow> vars_ok v \<and> video_on v s \<and> (\<exists>ps. blinks v s ps \<and> records s ps = bs) \<and> cells (mem s) = cs"


section \<open>Frame rules\<close>

lemma blink_at_eq: "(\<And>i. i < 12 \<Longrightarrow> m' (q + i) = m (p + i)) \<Longrightarrow> blink_at m' q = blink_at m p"
proof -
  assume eq: "\<And>i. i < 12 \<Longrightarrow> m' (q + i) = m (p + i)"
  have "ld16 m' (q + k) = ld16 m (p + k)" if "k < 11" for k
    using eq [of k] eq [of "k + 1"] that by (simp add: ld16_def)
  from this [of 0] this [of 4] this [of 6] this [of 8] this [of 10] show ?thesis
    using eq [of 2] eq [of 3] by (simp add: blink_at_def)
qed

lemmas blink_at_cong = blink_at_eq [where p = p and q = p for p]

lemma blink_fields:
  "location (blink_at m p) = ld16 m p" "on_char (blink_at m p) = m (p + 2)" "off_char (blink_at m p) = m (p + 3)"
  "on_length (blink_at m p) = ld16 m (p + 4)" "off_length (blink_at m p) = ld16 m (p + 6)"
  "countdown (blink_at m p) = ld16 m (p + 8)" "status (blink_at m p) = ld16 m (p + 10)"
  by (simp_all add: blink_at_def)

lemma blink_location: "location (blink_at m p) = ld16 m p"
  by (simp add: blink_at_def)

lemma next_at_cong: "(\<And>i. i < 4 \<Longrightarrow> m' (p + 12 + i) = m (p + 12 + i)) \<Longrightarrow> next_at m' p = next_at m p"
  unfolding next_at_def by (subst ld32_cong) auto

lemma chain_cong: "(\<And>p. p \<in> set ps \<Longrightarrow> next_at m' p = next_at m p) \<Longrightarrow> chain m' h ps = chain m h ps"
  by (induction ps arbitrary: h) auto

lemma slots_apart: "p \<in> slots v \<Longrightarrow> q \<in> slots v \<Longrightarrow> p \<noteq> q \<Longrightarrow> disjoint_rng p 16 q 16"
  by (auto simp: slots_def disjoint_rng_def)

lemma slots_in_array: "p \<in> slots v \<Longrightarrow> blink_array v \<le> p \<and> p + 16 \<le> blink_array v + 32000"
  by (auto simp: slots_def)

lemma slot_fields:
  "vars_ok v \<Longrightarrow> p \<in> slots v \<Longrightarrow> p \<noteq> 0 \<and> p < 2 ^ 32 \<and> disjoint_rng p 16 VIDEO 4096 \<and>
    disjoint_rng p 16 (mp1_list_head v) 4 \<and> disjoint_rng p 16 (vmem_base_addr v) 4 \<and> disjoint_rng (stack_struct v) 16 p 16"
proof -
  assume v: "vars_ok v" and p: "p \<in> slots v"
  have part: "disjoint_rng (blink_array v) 32000 b k \<Longrightarrow> disjoint_rng p 16 b k" for b k
    using slots_in_array [OF p] by (auto simp: disjoint_rng_def)
  have "disjoint_rng (stack_struct v) 16 p 16"
    by (rule disjoint_sub [of _ 16 "blink_array v" 32000]) (use v slots_in_array [OF p] in \<open>simp_all add: vars_ok_def\<close>)
  with v slots_in_array [OF p] show ?thesis unfolding vars_ok_def by (simp add: part)
qed

lemma video_or: "off < 4096 \<Longrightarrow> unat (0xB8000 OR of_nat off :: u32) = VIDEO + off"
proof -
  assume off: "off < 4096"
  then have u: "unat (of_nat off :: u32) = off" by (simp add: unat_of_nat)
  have "(0xB8000 :: u32) AND of_nat off = 0"
  proof (rule bit_word_eqI)
    fix n assume "n < LENGTH(32)"
    show "bit (0xB8000 AND of_nat off :: u32) n = bit (0 :: u32) n"
    proof (cases "n < 12")
      case True
      moreover have "(0xB8000 :: u32) = push_bit 12 0xB8" by (simp add: push_bit_eq_mult)
      ultimately have "\<not> bit (0xB8000 :: u32) n" by (simp only: bit_push_bit_iff) simp
      then have "\<not> bit (0xB8000 AND of_nat off :: u32) n" by (simp only: bit_and_iff) simp
      then show ?thesis by (simp only: bit_0_eq bot_fun_def bot_bool_def)
    next
      case False
      then have "(4096 :: nat) \<le> 2 ^ n" using power_increasing [of 12 n "2::nat"] by simp
      with off have "\<not> bit off n" by (simp add: bit_iff_odd)
      then show ?thesis by (simp add: bit_and_iff bit_of_nat_iff)
    qed
  qed
  then have "0xB8000 OR of_nat off = 0xB8000 + (of_nat off :: u32)" by (rule disjunctive_add_eq_or [symmetric])
  then show ?thesis using off u by (simp add: unat_word_ariths VIDEO_def)
qed


section \<open>Showing a character\<close>

lemma poke_shows:
  assumes "video_on v s" and "l < 2000"
  shows "mp1_poke v x (of_nat (2 * l)) s = Some (s\<lparr>mem := (mem s)(cell l := x)\<rparr>)"
proof -
  have l: "2 * l < 4096" using assms(2) by simp
  have t: "user_may_write s (0x8800000 + of_nat (2 * l))" "translate s (0x8800000 + of_nat (2 * l)) = Some (0xB8000 OR of_nat (2 * l))"
    using assms(1) l unfolding video_on_def by blast+
  have "unat (0x8800000 + of_nat (2 * l) :: u32) = 0x8800000 + 2 * l" using l by (simp add: unat_word_ariths unat_of_nat)
  then have "\<not> unat (0x8800000 + of_nat (2 * l) :: u32) < USER_PAGE + UNIT_4_MB" by (simp add: USER_PAGE_def UNIT_4_MB_def)
  then show ?thesis using assms(1) t video_or [OF l] unfolding mp1_poke_def video_on_def Let_def user_store_def
    by (simp only: t option.case if_False if_True simp_thms)
qed

lemma blink_off_eq: "blink_off m p = of_nat (2 * unat (ld16 m p))"
  by (simp add: blink_off_def push_bit_eq_mult)

lemma video_on_mem: "video_on v s \<Longrightarrow> (\<And>i. i < 4 \<Longrightarrow> m (vmem_base_addr v + i) = mem s (vmem_base_addr v + i)) \<Longrightarrow>
    video_on v (s\<lparr>mem := m\<rparr>)"
  using ld32_cong [of m "vmem_base_addr v" "mem s"] translate_cong [of "s\<lparr>mem := m\<rparr>" s] user_may_write_cong [of "s\<lparr>mem := m\<rparr>" s]
  by (simp add: video_on_def)

lemma cells_cong: "(\<And>l. l < 2000 \<Longrightarrow> m' (cell l) = m (cell l)) \<Longrightarrow> cells m' = cells m"
  by (simp add: cells_def)

lemma length_cells [simp]: "length (cells m) = 2000"
  by (simp add: cells_def)

lemma cells_upd: "l < 2000 \<Longrightarrow> cells (m(cell l := x)) = (cells m)[l := x]"
  by (rule nth_equalityI) (auto simp: cells_def nth_list_update)


section \<open>One record\<close>

lemma record_field: "i < 12 \<Longrightarrow> i \<noteq> k \<Longrightarrow> i \<noteq> k + 1 \<Longrightarrow> stw (p + k) x m (p + i) = m (p + i)"
  by (simp add: stw_other)

text \<open>Storing a field of a record.\<close>

lemma blink_at_stw:
  "blink_at (stw (p + 8) x m) p = (blink_at m p)\<lparr>countdown := x\<rparr>"
  "blink_at (stw (p + 10) x m) p = (blink_at m p)\<lparr>status := x\<rparr>"
  "blink_at (stw (p + 4) x m) p = (blink_at m p)\<lparr>on_length := x\<rparr>"
  "blink_at (stw (p + 6) x m) p = (blink_at m p)\<lparr>off_length := x\<rparr>"
  using ld16_st16 [of "p + 8" x m] ld16_st16 [of "p + 10" x m] ld16_st16 [of "p + 4" x m] ld16_st16 [of "p + 6" x m]
  by (simp_all add: blink_at_def ld16_def stw_other)

lemma tick_idle: "0 < sint (countdown b - 1) \<Longrightarrow> tick b = b\<lparr>countdown := countdown b - 1\<rparr>"
  by (simp add: tick_def)

lemma tick_flip: "\<not> 0 < sint (countdown b - 1) \<Longrightarrow>
    tick b = b\<lparr>countdown := if status b AND 1 = 0 then on_length b else off_length b, status := status b XOR 1\<rparr>"
  by (simp add: tick_def)

lemma and_xor_1: "(x XOR 1) AND 1 = 0 \<longleftrightarrow> x AND 1 \<noteq> (0 :: u16)"
  by (simp add: and_one_eq even_xor_iff flip: even_iff_mod_2_eq_zero)

lemma face_tick: "\<not> 0 < sint (countdown b - 1) \<Longrightarrow> face (tick b) = (if status b AND 1 = 0 then on_char b else off_char b)"
  using and_xor_1 [of "status b"] by (simp add: tick_flip face_def)

text \<open>What a step of the clock does to the record at \<open>p\<close>, and that it does nothing else.\<close>

lemma tasklet_step_record:
  assumes "video_on v s" and p: "ld16 (mem s) p < 2000"
    and apart: "disjoint_rng p 16 VIDEO 4096" "disjoint_rng p 16 (vmem_base_addr v) 4"
  obtains m where "tasklet_step v p s = Some (s\<lparr>mem := m\<rparr>)" "blink_at m p = tick (blink_at (mem s) p)"
    "cells m = tick_cells (blink_at (mem s) p) (cells (mem s))"
    "\<And>a. a < p + 8 \<or> p + 12 \<le> a \<Longrightarrow> a \<notin> cell ` {..<2000} \<Longrightarrow> m a = mem s a"
proof (cases "0 < sint (ld16 (mem s) (p + 8) - 1)")
  case True
  let ?m = "stw (p + 8) (ld16 (mem s) (p + 8) - 1) (mem s)"
  have c: "countdown (blink_at (mem s) p) = ld16 (mem s) (p + 8)" by (simp add: blink_at_def)
  show thesis
  proof (rule that [of ?m])
    show "tasklet_step v p s = Some (s\<lparr>mem := ?m\<rparr>)" using True by (simp add: tasklet_step_def on_mem_def ld16_st16)
    show "blink_at ?m p = tick (blink_at (mem s) p)" using True by (simp add: blink_at_stw tick_idle c)
    have "cells ?m = cells (mem s)" by (rule cells_cong) (use apart(1) in \<open>auto simp: disjoint_rng_def stw_other\<close>)
    then show "cells ?m = tick_cells (blink_at (mem s) p) (cells (mem s))" using True by (simp add: tick_cells_def c)
    show "?m a = mem s a" if "a < p + 8 \<or> p + 12 \<le> a" for a using that by (auto simp: stw_other)
  qed
next
  case False
  let ?m1 = "stw (p + 8) (ld16 (mem s) (p + 8) - 1) (mem s)" and ?b = "blink_at (mem s) p"
  let ?on = "ld16 (mem s) (p + 10) AND 1 = 0" and ?l = "unat (ld16 (mem s) p)"
  let ?m2 = "\<lambda>x. ?m1(cell ?l := x)"
  let ?x = "if ?on then on_char ?b else off_char ?b" and ?c = "if ?on then on_length ?b else off_length ?b"
  let ?m = "stw (p + 10) (status ?b XOR 1) (stw (p + 8) ?c (?m2 ?x))"
  have b: "countdown ?b = ld16 (mem s) (p + 8)" "ld16 (mem s) (p + 10) = status ?b" "location ?b = ld16 (mem s) p"
    by (simp_all add: blink_at_def)
  have fl: "tick ?b = ?b\<lparr>countdown := ?c, status := status ?b XOR 1\<rparr>" "face (tick ?b) = ?x"
    subgoal using False by (simp add: tick_flip b)
    subgoal using False by (simp add: face_tick b)
    done
  have l: "?l < 2000" using p by (simp add: word_less_nat_alt)
  have far: "cell ?l < p \<or> p + 16 \<le> cell ?l" using apart(1) l by (auto simp: disjoint_rng_def)
  have "video_on v (s\<lparr>mem := ?m1\<rparr>)"
    by (rule video_on_mem [OF assms(1)]) (use apart(2) in \<open>auto simp: disjoint_rng_def stw_other\<close>)
  note poke = poke_shows [OF this l]
  have m1: "blink_at ?m1 p = ?b\<lparr>countdown := ld16 (mem s) (p + 8) - 1\<rparr>" by (rule blink_at_stw)
  have m2: "blink_at (?m2 x) p = blink_at ?m1 p" for x by (rule blink_at_cong) (use far in auto)
  have f1: "ld16 ?m1 (p + 8) = ld16 (mem s) (p + 8) - 1" "ld16 ?m1 (p + 10) = status ?b" "ld16 ?m1 p = ld16 (mem s) p"
    "?m1 (p + 2) = on_char ?b" "?m1 (p + 3) = off_char ?b"
    using m1 by (simp_all add: blink_at_def)
  have f2: "ld16 (?m2 x) (p + 4) = on_length ?b" "ld16 (?m2 x) (p + 6) = off_length ?b" for x
    using m2 [of x] m1 unfolding blink_at_def by simp_all
  have f3: "ld16 (stw (p + 8) y (?m2 x)) (p + 10) = status ?b" for x y
    using blink_at_stw(1) [of p y "?m2 x"] m2 [of x] m1 unfolding blink_at_def by simp
  show thesis
  proof (rule that [of ?m])
    show "tasklet_step v p s = Some (s\<lparr>mem := ?m\<rparr>)"
      using False poke f1 f2 f3
      by (simp add: tasklet_step_def on_mem_def blink_off_eq b del: of_nat_mult of_nat_numeral add_2_eq_Suc' fun_upd_apply)
    show "blink_at ?m p = tick ?b" unfolding blink_at_stw m2 m1 fl by simp
    have "cells ?m = cells ((mem s)(cell ?l := ?x))" by (rule cells_cong) (use apart(1) in \<open>auto simp: disjoint_rng_def stw_other\<close>)
    then show "cells ?m = tick_cells ?b (cells (mem s))" using False l fl(2) by (simp add: tick_cells_def b cells_upd)
    show "?m a = mem s a" if "a < p + 8 \<or> p + 12 \<le> a" "a \<notin> cell ` {..<2000}" for a
      using that l by (auto simp: stw_other)
  qed
qed


section \<open>The clock\<close>

lemma tasklet_walk:
  assumes "vars_ok v"
  shows "video_on v s \<Longrightarrow> chain (mem s) h ps \<Longrightarrow> distinct ps \<Longrightarrow> set ps \<subseteq> slots v \<Longrightarrow>
    (\<And>p. p \<in> set ps \<Longrightarrow> ld16 (mem s) p < 2000) \<Longrightarrow>
    \<exists>m. tasklet_loop v h s = Some (s\<lparr>mem := m\<rparr>) \<and> map (blink_at m) ps = map (tick \<circ> blink_at (mem s)) ps \<and>
      cells m = fold tick_cells (map (blink_at (mem s)) ps) (cells (mem s)) \<and>
      (\<forall>a. (\<forall>p \<in> set ps. a < p + 8 \<or> p + 12 \<le> a) \<longrightarrow> a \<notin> cell ` {..<2000} \<longrightarrow> m a = mem s a)"
proof (induction ps arbitrary: h s)
  case Nil
  then show ?case by (subst tasklet_loop.simps) (auto intro!: exI [of _ "mem s"])
next
  case (Cons p ps)
  have slot: "p \<in> slots v" "p \<noteq> 0" "h = p" "ld16 (mem s) p < 2000" using Cons.prems by auto
  note apart = slot_fields [OF assms slot(1)]
  obtain m where m: "tasklet_step v p s = Some (s\<lparr>mem := m\<rparr>)" "blink_at m p = tick (blink_at (mem s) p)"
    "cells m = tick_cells (blink_at (mem s) p) (cells (mem s))"
    and out: "\<And>a. a < p + 8 \<or> p + 12 \<le> a \<Longrightarrow> a \<notin> cell ` {..<2000} \<Longrightarrow> m a = mem s a"
    by (rule tasklet_step_record [OF Cons.prems(1) slot(4)]) (use apart in auto)
  have keep: "m a = mem s a" if "a < p + 8 \<or> p + 12 \<le> a" "disjoint_rng b n VIDEO 4096" "b \<le> a" "a < b + n" for a b n
    by (rule out) (use that in \<open>auto simp: disjoint_rng_def\<close>)
  have other: "m (q + i) = mem s (q + i)" if "q \<in> set ps" "i < 16" for q i
  proof (rule keep [of _ q 16])
    have q: "q \<in> slots v" "p \<noteq> q" using Cons.prems that by auto
    show "q + i < p + 8 \<or> p + 12 \<le> q + i" using slots_apart [OF slot(1) q] that by (auto simp: disjoint_rng_def)
    show "disjoint_rng q 16 VIDEO 4096" using slot_fields [OF assms q(1)] by simp
  qed (use that in simp_all)
  have nxt: "next_at m p = next_at (mem s) p"
    by (rule next_at_cong, rule keep [of _ p 16]) (use apart in auto)
  have nq: "next_at m q = next_at (mem s) q" if "q \<in> set ps" for q
    by (rule next_at_cong) (simp add: other that add.assoc)
  have bq: "blink_at m q = blink_at (mem s) q" if "q \<in> set ps" for q by (rule blink_at_cong) (simp add: other that)
  have va: "disjoint_rng (vmem_base_addr v) 4 VIDEO 4096" using assms by (simp add: vars_ok_def)
  have pa: "disjoint_rng p 16 (vmem_base_addr v) 4" using apart by simp
  have vid: "video_on v (s\<lparr>mem := m\<rparr>)"
    by (rule video_on_mem [OF Cons.prems(1)], rule keep [OF _ va]) (use pa in \<open>auto simp: disjoint_rng_def\<close>)
  have ch: "chain (mem (s\<lparr>mem := m\<rparr>)) (next_at m p) ps" using chain_cong [OF nq] Cons.prems(2) nxt by simp
  have lq: "ld16 (mem (s\<lparr>mem := m\<rparr>)) q < 2000" if "q \<in> set ps" for q
    using bq [OF that] blink_location [of m q] blink_location [of "mem s" q] Cons.prems(5) [of q] that by simp
  have sub: "distinct ps" "set ps \<subseteq> slots v" using Cons.prems by auto
  from Cons.IH [OF vid ch sub lq] obtain m' where
    m': "tasklet_loop v (next_at m p) (s\<lparr>mem := m\<rparr>) = Some (s\<lparr>mem := m'\<rparr>)"
      "map (blink_at m') ps = map (tick \<circ> blink_at m) ps"
      "cells m' = fold tick_cells (map (blink_at m) ps) (cells m)"
    and out': "\<And>a. \<forall>p \<in> set ps. a < p + 8 \<or> p + 12 \<le> a \<Longrightarrow> a \<notin> cell ` {..<2000} \<Longrightarrow> m' a = m a"
    by (auto simp del: image_iff)
  have "m' a = m a" if "p \<le> a" "a < p + 16" for a
  proof (rule out')
    show "a \<notin> cell ` {..<2000}" using apart that by (auto simp: disjoint_rng_def)
    show "\<forall>q \<in> set ps. a < q + 8 \<or> q + 12 \<le> a"
    proof
      fix q assume "q \<in> set ps"
      then have "q \<in> slots v" "p \<noteq> q" using Cons.prems by auto
      from slots_apart [OF slot(1) this] that show "a < q + 8 \<or> q + 12 \<le> a" by (auto simp: disjoint_rng_def)
    qed
  qed
  then have "blink_at m' p = tick (blink_at (mem s) p)" using blink_at_cong [of m' p m] m(2) by simp
  moreover have "tasklet_loop v h s = Some (s\<lparr>mem := m'\<rparr>)"
    using slot m(1) m'(1) by (subst tasklet_loop.simps) simp
  ultimately show ?case using m' m(3) bq out out' by (intro exI [of _ m']) (simp cong: map_cong)
qed

lemma blinks_slots: "blinks v s ps \<Longrightarrow> set ps \<subseteq> slots v \<and> distinct ps \<and> (\<forall>p \<in> set ps. ld16 (mem s) p \<noteq> 0 \<and> ld16 (mem s) p < 2000)"
  unfolding blinks_def by blast

lemma blinks_cong:
  assumes hd: "ld32 m (mp1_list_head v) = ld32 (mem s) (mp1_list_head v)"
    and nx: "\<And>p. p \<in> slots v \<Longrightarrow> next_at m p = next_at (mem s) p" and lc: "\<And>p. p \<in> slots v \<Longrightarrow> ld16 m p = ld16 (mem s) p"
    and ps: "blinks v s ps"
  shows "blinks v (s\<lparr>mem := m\<rparr>) ps"
proof -
  have sub: "set ps \<subseteq> slots v" using blinks_slots [OF ps] by simp
  have "chain m (unat (ld32 m (mp1_list_head v))) ps = chain (mem s) (unat (ld32 (mem s) (mp1_list_head v))) ps"
    unfolding hd by (rule chain_cong) (use nx sub in auto)
  moreover have "{p \<in> slots v. ld16 m p \<noteq> 0} = {p \<in> slots v. ld16 (mem s) p \<noteq> 0}" using lc by auto
  ultimately show ?thesis using ps lc sub unfolding blinks_def by (auto simp: subset_iff)
qed

lemma tick_location [simp]: "location (tick b) = location b"
  by (simp add: tick_def Let_def)

lemma tasklet_ticks:
  assumes "animates v s bs cs"
  shows "\<exists>s'. mp1_rtc_tasklet v s = Some s' \<and> animates v s' (map tick bs) (fold tick_cells bs cs)"
proof -
  obtain ps where v: "vars_ok v" "video_on v s" and ps: "blinks v s ps" and bs: "bs = map (blink_at (mem s)) ps" and cs: "cs = cells (mem s)"
    using assms by (auto simp: animates_def records_def)
  have sub: "distinct ps" "set ps \<subseteq> slots v" "\<And>p. p \<in> set ps \<Longrightarrow> ld16 (mem s) p < 2000"
    and ch: "chain (mem s) (unat (ld32 (mem s) (mp1_list_head v))) ps"
    using blinks_slots [OF ps] ps by (auto simp: blinks_def)
  from tasklet_walk [OF v ch sub] obtain m where
    m: "mp1_rtc_tasklet v s = Some (s\<lparr>mem := m\<rparr>)" "map (blink_at m) ps = map (tick \<circ> blink_at (mem s)) ps"
      "cells m = fold tick_cells (map (blink_at (mem s)) ps) (cells (mem s))"
    and out: "\<And>a. \<forall>p \<in> set ps. a < p + 8 \<or> p + 12 \<le> a \<Longrightarrow> a \<notin> cell ` {..<2000} \<Longrightarrow> m a = mem s a"
    unfolding mp1_rtc_tasklet_def by blast
  have far: "m a = mem s a" if "disjoint_rng b n VIDEO 4096" "disjoint_rng (blink_array v) 32000 b n" "b \<le> a" "a < b + n" for a b n
  proof (rule out)
    show "a \<notin> cell ` {..<2000}" using that by (auto simp: disjoint_rng_def)
    show "\<forall>p \<in> set ps. a < p + 8 \<or> p + 12 \<le> a"
      using that sub(2) slots_in_array by (fastforce simp: disjoint_rng_def)
  qed
  have near: "m (q + i) = mem s (q + i)" if "q \<in> slots v" "i < 8 \<or> 12 \<le> i \<and> i < 16" for q i
  proof (rule out)
    show "q + i \<notin> cell ` {..<2000}" using slot_fields [OF v(1) that(1)] that(2) by (auto simp: disjoint_rng_def)
    show "\<forall>p \<in> set ps. q + i < p + 8 \<or> p + 12 \<le> q + i"
      using slots_apart [OF that(1)] sub(2) that(2) by (fastforce simp: disjoint_rng_def)
  qed
  have vid: "video_on v (s\<lparr>mem := m\<rparr>)"
    by (rule video_on_mem [OF v(2)], rule far [of "vmem_base_addr v" 4]) (use v(1) in \<open>simp_all add: vars_ok_def\<close>)
  have hd: "ld32 m (mp1_list_head v) = ld32 (mem s) (mp1_list_head v)"
    by (rule ld32_cong, rule far [of "mp1_list_head v" 4]) (use v(1) in \<open>simp_all add: vars_ok_def\<close>)
  have nx: "next_at m p = next_at (mem s) p" if "p \<in> slots v" for p
    by (rule next_at_cong) (use near [OF that] in \<open>simp add: add.assoc\<close>)
  have lc: "ld16 m p = ld16 (mem s) p" if "p \<in> slots v" for p
    using near [OF that, of 0] near [OF that, of 1] by (simp add: ld16_def)
  have "blinks v (s\<lparr>mem := m\<rparr>) ps" by (rule blinks_cong [OF hd nx lc ps])
  then show ?thesis using m v vid by (auto simp: animates_def records_def bs cs intro!: exI [of _ ps])
qed


section \<open>Adding a record\<close>

text \<open>The allocator finds a free element of the array as long as there is one.\<close>

lemma finite_slots: "finite (slots v)"
  by (simp add: slots_def)

lemma card_slots: "card (slots v) = 2000"
  unfolding slots_def by (subst card_image) (auto simp: inj_on_def)

lemma mp1_malloc_free:
  assumes "blinks v s ps"
  shows "mp1_malloc v (mem s) = 0 \<or> mp1_malloc v (mem s) \<in> slots v - set ps" (is ?free)
    and "vars_ok v \<Longrightarrow> length ps < 2000 \<Longrightarrow> mp1_malloc v (mem s) \<noteq> 0"
    and "length ps = 2000 \<Longrightarrow> mp1_malloc v (mem s) = 0"
proof -
  have taken: "{p \<in> slots v. ld16 (mem s) p \<noteq> 0} = set ps" and dist: "distinct ps" using assms by (simp_all add: blinks_def)
  let ?f = "List.find (\<lambda>i. ld16 (mem s) (slot v i) = 0) [0..<2000]"
  have some: "slot v i \<in> slots v - set ps" if "?f = Some i" for i
    using that taken by (auto simp: find_Some_iff slots_def)
  have none: "set ps = slots v" if "?f = None" using that taken by (auto simp: find_None_iff slots_def)
  show ?free using some by (auto simp: mp1_malloc_def split: option.split)
  show "mp1_malloc v (mem s) \<noteq> 0" if "vars_ok v" "length ps < 2000"
  proof -
    have "set ps \<noteq> slots v" using distinct_card [OF dist] card_slots [of v] that(2) by auto
    then obtain i where "?f = Some i" using none by (cases ?f) auto
    then show ?thesis using that(1) by (simp add: mp1_malloc_def vars_ok_def)
  qed
  show "mp1_malloc v (mem s) = 0" if "length ps = 2000"
  proof -
    have "set ps = slots v"
      by (rule card_subset_eq) (use taken distinct_card [OF dist] that in \<open>auto simp: card_slots finite_slots\<close>)
    then have "?f = None" using some by (cases ?f) auto
    then show ?thesis by (simp add: mp1_malloc_def)
  qed
qed

text \<open>The record as it enters the list.\<close>

definition fresh :: "mp1_blink_struct \<Rightarrow> mp1_blink_struct" where
  "fresh b = b\<lparr>status := 1, countdown := on_length b\<rparr>"

text \<open>Only these parts of the memory matter.\<close>

lemma animates_keep:
  assumes "animates v s bs cs"
    and eq: "\<And>b n a. b = blink_array v \<and> n = 32000 \<or> b = mp1_list_head v \<and> n = 4 \<or> b = vmem_base_addr v \<and> n = 4 \<Longrightarrow>
      b \<le> a \<Longrightarrow> a < b + n \<Longrightarrow> m a = mem s a"
  shows "animates v (s\<lparr>mem := m\<rparr>) bs (cells m)"
proof -
  obtain ps where v: "vars_ok v" "video_on v s" and ps: "blinks v s ps" and bs: "bs = map (blink_at (mem s)) ps" and cs: "cs = cells (mem s)"
    using assms by (auto simp: animates_def records_def)
  have inner: "m (p + i) = mem s (p + i)" if "p \<in> slots v" "i < 16" for p i
    by (rule eq [of "blink_array v" 32000]) (use slots_in_array [OF that(1)] that(2) in auto)
  have hd: "ld32 m (mp1_list_head v) = ld32 (mem s) (mp1_list_head v)" by (rule ld32_cong, rule eq [of "mp1_list_head v" 4]) auto
  have nx: "next_at m p = next_at (mem s) p" if "p \<in> slots v" for p
    by (rule next_at_cong) (use inner [OF that] in \<open>simp add: add.assoc\<close>)
  have lc: "ld16 m p = ld16 (mem s) p" if "p \<in> slots v" for p
    using inner [OF that, of 0] inner [OF that, of 1] by (simp add: ld16_def)
  have "blinks v (s\<lparr>mem := m\<rparr>) ps" by (rule blinks_cong [OF hd nx lc ps])
  moreover have "blink_at m p = blink_at (mem s) p" if "p \<in> set ps" for p
    by (rule blink_at_cong, rule inner) (use blinks_slots [OF ps] that in auto)
  moreover have "video_on v (s\<lparr>mem := m\<rparr>)" by (rule video_on_mem [OF v(2)], rule eq [of "vmem_base_addr v" 4]) auto
  ultimately show ?thesis using v(1) by (auto simp: animates_def records_def bs cs)
qed

lemma animates_poke:
  assumes "animates v s bs cs" and "l < 2000"
  shows "animates v (s\<lparr>mem := (mem s)(cell l := x)\<rparr>) bs (cs[l := x])"
proof -
  have "animates v (s\<lparr>mem := (mem s)(cell l := x)\<rparr>) bs (cells ((mem s)(cell l := x)))"
  proof (rule animates_keep [OF assms(1)])
    fix b n a assume b: "b = blink_array v \<and> n = 32000 \<or> b = mp1_list_head v \<and> n = 4 \<or> b = vmem_base_addr v \<and> n = 4" and a: "b \<le> a" "a < b + n"
    have "disjoint_rng b n VIDEO 4096" using b assms(1) by (auto simp: animates_def vars_ok_def)
    then show "((mem s)(cell l := x)) a = mem s a" using a assms(2) by (auto simp: disjoint_rng_def)
  qed
  moreover have "cells (mem s) = cs" using assms(1) by (simp add: animates_def)
  ultimately show ?thesis using assms(2) by (simp add: cells_upd)
qed

lemma animates_cong:
  assumes "animates v s bs cs"
    and eq: "\<And>b n a. b = blink_array v \<and> n = 32000 \<or> b = mp1_list_head v \<and> n = 4 \<or> b = vmem_base_addr v \<and> n = 4 \<or> b = VIDEO \<and> n = 4096 \<Longrightarrow>
      b \<le> a \<Longrightarrow> a < b + n \<Longrightarrow> m a = mem s a"
  shows "animates v (s\<lparr>mem := m\<rparr>) bs cs"
proof -
  have "cells m = cells (mem s)" by (rule cells_cong, rule eq [of VIDEO 4096]) auto
  moreover have "animates v (s\<lparr>mem := m\<rparr>) bs (cells m)" by (rule animates_keep [OF assms(1)], rule eq) auto
  ultimately show ?thesis using assms(1) by (simp add: animates_def)
qed

lemma animates_stack:
  assumes "animates v s bs cs" and "\<And>a. a < stack_struct v \<or> stack_struct v + 16 \<le> a \<Longrightarrow> m a = mem s a"
  shows "animates v (s\<lparr>mem := m\<rparr>) bs cs"
proof (rule animates_cong [OF assms(1)], rule assms(2))
  fix b n a assume b: "b = blink_array v \<and> n = 32000 \<or> b = mp1_list_head v \<and> n = 4 \<or> b = vmem_base_addr v \<and> n = 4 \<or> b = VIDEO \<and> n = 4096"
    and a: "b \<le> a" "a < b + n"
  have "disjoint_rng (stack_struct v) 16 b n" using b assms(1) by (auto simp: animates_def vars_ok_def)
  then show "a < stack_struct v \<or> stack_struct v + 16 \<le> a" using a by (auto simp: disjoint_rng_def)
qed

lemma stack_record:
  fixes m :: mem
  assumes "disjoint_rng st 16 arg 16"
  defines "m1 \<equiv> blit m st (bytes_at m arg 16)"
  defines "m2 \<equiv> stw (st + 10) 1 m1"
  defines "m3 \<equiv> stw (st + 8) (ld16 m2 (st + 4)) m2"
  shows "ece391_memcpy st arg 16 m = (0, m1)" "blink_at m1 st = blink_at m arg" "blink_at m3 st = fresh (blink_at m arg)"
    "a < st \<or> st + 16 \<le> a \<Longrightarrow> m1 a = m a" "a < st \<or> st + 16 \<le> a \<Longrightarrow> m3 a = m a"
proof -
  show "ece391_memcpy st arg 16 m = (0, m1)" using assms(1) by (simp add: ece391_memcpy_blit m1_def)
  show b1: "blink_at m1 st = blink_at m arg" by (rule blink_at_eq) (simp add: m1_def blit_def)
  have "blink_at m2 st = (blink_at m arg)\<lparr>status := 1\<rparr>" unfolding m2_def by (simp add: blink_at_stw b1)
  moreover from this have "ld16 m2 (st + 4) = on_length (blink_at m arg)" by (simp add: blink_at_def)
  ultimately show "blink_at m3 st = fresh (blink_at m arg)" unfolding m3_def by (simp add: blink_at_stw fresh_def)
  show a1: "a < st \<or> st + 16 \<le> a \<Longrightarrow> m1 a = m a" by (auto simp: m1_def blit_def)
  show "a < st \<or> st + 16 \<le> a \<Longrightarrow> m3 a = m a" using a1 by (auto simp: m3_def m2_def stw_other)
qed

text \<open>The element \<open>p\<close> after the record on the stack has been copied to it and linked in.\<close>

definition linked :: "fish_vars \<Rightarrow> addr \<Rightarrow> mem \<Rightarrow> mem" where
  "linked v p m = (let m4 = blit m p (bytes_at m (stack_struct v) 16)
     in st32 (st32 m4 (p + 12) (ld32 m4 (mp1_list_head v))) (mp1_list_head v) (of_nat p))"

lemma linked_bytes:
  assumes v: "vars_ok v" and p: "p \<in> slots v"
  shows "a < p \<or> p + 16 \<le> a \<Longrightarrow> a < mp1_list_head v \<or> mp1_list_head v + 4 \<le> a \<Longrightarrow> linked v p m a = m a"
    "blink_at (linked v p m) p = blink_at m (stack_struct v)" "next_at (linked v p m) p = unat (ld32 m (mp1_list_head v))"
    "unat (ld32 (linked v p m) (mp1_list_head v)) = p"
proof -
  let ?h = "mp1_list_head v"
  define m4 where "m4 = blit m p (bytes_at m (stack_struct v) 16)"
  have l: "linked v p m = st32 (st32 m4 (p + 12) (ld32 m4 ?h)) ?h (of_nat p)" by (simp add: linked_def m4_def Let_def)
  note f = slot_fields [OF v p]
  have hd: "disjoint_rng p 16 ?h 4" using f by simp
  show "linked v p m a = m a" if "a < p \<or> p + 16 \<le> a" "a < ?h \<or> ?h + 4 \<le> a"
    using that by (auto simp: l m4_def st32_other blit_def)
  show "blink_at (linked v p m) p = blink_at m (stack_struct v)"
    by (rule blink_at_eq) (use hd in \<open>auto simp: l m4_def disjoint_rng_def st32_other blit_def\<close>)
  have h4: "ld32 m4 ?h = ld32 m ?h" unfolding m4_def by (rule ld32_blit) (use hd in simp)
  have "next_at (linked v p m) p = next_at (st32 m4 (p + 12) (ld32 m4 ?h)) p" unfolding l
    by (rule next_at_cong) (use hd in \<open>auto simp: disjoint_rng_def st32_other\<close>)
  then show "next_at (linked v p m) p = unat (ld32 m ?h)" by (simp add: next_at_def ld32_st32 h4)
  show "unat (ld32 (linked v p m) ?h) = p" using f by (simp add: l ld32_st32 unat_of_nat)
qed

lemma linked_outside:
  assumes "vars_ok v" and "p \<in> slots v"
  shows "cells (linked v p m) = cells m" "video_on v (s\<lparr>mem := m\<rparr>) \<Longrightarrow> video_on v (s\<lparr>mem := linked v p m\<rparr>)"
    "q \<in> slots v \<Longrightarrow> q \<noteq> p \<Longrightarrow> i < 16 \<Longrightarrow> linked v p m (q + i) = m (q + i)"
proof -
  let ?h = "mp1_list_head v"
  note f = slot_fields [OF assms]
  have keep: "linked v p m a = m a" if "disjoint_rng p 16 c n" "disjoint_rng ?h 4 c n" "c \<le> a" "a < c + n" for a c n
    by (rule linked_bytes [OF assms]) (use that in \<open>auto simp: disjoint_rng_def\<close>)
  show "cells (linked v p m) = cells m"
    by (rule cells_cong, rule keep [of VIDEO 4096]) (use f assms(1) in \<open>simp_all add: vars_ok_def\<close>)
  show "video_on v (s\<lparr>mem := linked v p m\<rparr>)" if "video_on v (s\<lparr>mem := m\<rparr>)"
  proof -
    have "video_on v (s\<lparr>mem := m\<rparr>\<lparr>mem := linked v p m\<rparr>)"
      by (rule video_on_mem [OF that], rule keep [of "vmem_base_addr v" 4, THEN trans]) (use f assms(1) in \<open>simp_all add: vars_ok_def\<close>)
    then show ?thesis by simp
  qed
  show "linked v p m (q + i) = m (q + i)" if "q \<in> slots v" "q \<noteq> p" "i < 16"
    by (rule keep [of q 16])
      (use slots_apart [OF assms(2) that(1)] slot_fields [OF assms(1) that(1)] that in \<open>auto simp: disjoint_rng_def\<close>)
qed

lemma insert_record:
  assumes v: "vars_ok v" and ps: "blinks v s ps" and p: "p \<in> slots v" "p \<notin> set ps"
    and b: "blink_at (mem s) (stack_struct v) = b" "location b \<noteq> 0" "location b < 2000"
  shows "blinks v (s\<lparr>mem := linked v p (mem s)\<rparr>) (p # ps)"
    and "records (s\<lparr>mem := linked v p (mem s)\<rparr>) (p # ps) = b # records s ps"
proof -
  let ?m = "linked v p (mem s)"
  note f = slot_fields [OF v p(1)] and k = linked_bytes [where m = "mem s", OF v p(1)]
  note other = linked_outside(3) [where m = "mem s", OF v p(1)]
  have nq: "next_at ?m q = next_at (mem s) q" if "q \<in> set ps" for q
  proof -
    have "q \<in> slots v" "q \<noteq> p" using blinks_slots [OF ps] p(2) that by auto
    from other [OF this] show ?thesis by (intro next_at_cong) (simp add: add.assoc)
  qed
  have lq: "ld16 ?m q = ld16 (mem s) q" if "q \<in> slots v" "q \<noteq> p" for q
    using other [OF that, of 0] other [OF that, of 1] by (simp add: ld16_def)
  have lp: "ld16 ?m p = location b" using k(2) b(1) blink_location [of ?m p] by simp
  have "chain ?m (unat (ld32 ?m (mp1_list_head v))) (p # ps)"
    using ps chain_cong [of ps ?m "mem s", OF nq] f by (simp add: k(3,4) blinks_def)
  moreover have "ld16 ?m q \<noteq> 0 \<longleftrightarrow> q = p \<or> ld16 (mem s) q \<noteq> 0" if "q \<in> slots v" for q
    using that b(2) lp lq by (cases "q = p") auto
  then have "{q \<in> slots v. ld16 ?m q \<noteq> 0} = set (p # ps)" using ps p(1) unfolding blinks_def by auto
  moreover have "\<forall>q \<in> set (p # ps). ld16 ?m q < 2000"
  proof
    fix q assume "q \<in> set (p # ps)"
    then show "ld16 ?m q < 2000" using blinks_slots [OF ps] lp lq [of q] b(3) by (cases "q = p") auto
  qed
  ultimately show "blinks v (s\<lparr>mem := ?m\<rparr>) (p # ps)" using ps p(2) by (simp add: blinks_def)
  have "blink_at ?m q = blink_at (mem s) q" if "q \<in> set ps" for q
    by (rule blink_at_cong, rule other) (use blinks_slots [OF ps] p(2) that in auto)
  then show "records (s\<lparr>mem := ?m\<rparr>) (p # ps) = b # records s ps" by (simp add: records_def k(2) b(1))
qed

text \<open>The record on the stack, and what the call does when the allocator returns \<open>p\<close>.\<close>

definition prepared :: "fish_vars \<Rightarrow> addr \<Rightarrow> mem \<Rightarrow> mem" where
  "prepared v arg m = (let st = stack_struct v; m2 = stw (st + 10) 1 (blit m st (bytes_at m arg 16))
     in stw (st + 8) (ld16 m2 (st + 4)) m2)"

lemma prepared_record:
  assumes "disjoint_rng (stack_struct v) 16 arg 16"
  shows "blink_at (prepared v arg m) (stack_struct v) = fresh (blink_at m arg)"
    "a < stack_struct v \<or> stack_struct v + 16 \<le> a \<Longrightarrow> prepared v arg m a = m a"
  using stack_record(3,5) [where m = m, OF assms] by (simp_all add: prepared_def Let_def)

lemma add_result:
  assumes v: "vars_ok v" "video_on v s" and arg: "disjoint_rng (stack_struct v) 16 arg 16"
    and b: "blink_at (mem s) arg = b" "location b < 2000" and p: "mp1_malloc v (prepared v arg (mem s)) = p" "p \<in> slots v"
  shows "mp1_ioctl_add v arg s = Some (0, s\<lparr>mem := (linked v p (prepared v arg (mem s)))(cell (unat (location b)) := on_char b)\<rparr>)"
proof -
  let ?st = "stack_struct v" and ?l = "unat (location b)"
  define m1 where "m1 = blit (mem s) ?st (bytes_at (mem s) arg 16)"
  define m2 where "m2 = stw (?st + 10) 1 m1"
  define m3 where "m3 = stw (?st + 8) (ld16 m2 (?st + 4)) m2"
  have m3: "prepared v arg (mem s) = m3" by (simp add: prepared_def Let_def m1_def m2_def m3_def)
  note c = stack_record [where m = "mem s", OF arg, folded m1_def, folded m2_def, folded m3_def, unfolded b(1)]
  define m4 where "m4 = blit m3 p (bytes_at m3 ?st 16)"
  define m6 where "m6 = linked v p m3"
  have l6: "m6 = st32 (st32 m4 (p + 12) (ld32 m4 (mp1_list_head v))) (mp1_list_head v) (of_nat p)"
    by (simp add: m6_def m4_def linked_def Let_def)
  have cp: "ece391_memcpy p ?st 16 m3 = (0, m4)"
    using slot_fields [OF v(1) p(2)] by (subst ece391_memcpy_blit) (auto simp: m4_def disjoint_rng_def)
  have f: "blink_at m6 p = fresh b" unfolding m6_def using linked_bytes(2) [OF v(1) p(2), of m3] c(3) by simp
  then have f6: "m6 (p + 2) = on_char b" "ld16 m6 p = location b"
    using blink_fields [of m6 p] by (simp_all add: fresh_def del: add_2_eq_Suc')
  have l: "?l < 2000" using b(2) by (simp add: word_less_nat_alt)
  have "disjoint_rng ?st 16 (vmem_base_addr v) 4" using v(1) by (simp add: vars_ok_def)
  then have "video_on v (s\<lparr>mem := m3\<rparr>)" by (intro video_on_mem [OF v(2)] c(5)) (auto simp: disjoint_rng_def)
  from linked_outside(2) [OF v(1) p(2) this] have "video_on v (s\<lparr>mem := m6\<rparr>)" by (simp add: m6_def)
  from poke_shows [OF this l] have poke: "mp1_poke v x (of_nat (2 * ?l)) (s\<lparr>mem := m6\<rparr>) = Some (s\<lparr>mem := m6(cell ?l := x)\<rparr>)" for x by simp
  have loc: "ld16 m1 ?st = location b" using c(2) blink_location [of m1 ?st] by simp
  have p0: "p \<noteq> 0" "mp1_malloc v m3 = p" using slot_fields [OF v(1) p(2)] p(1) m3 by auto
  show ?thesis unfolding m3 m6_def [symmetric]
    using b(2) p0 poke f6 unfolding mp1_ioctl_add_def Let_def on_mem_def
    by (simp add: c(1) loc m2_def [symmetric] m3_def [symmetric] cp l6 [symmetric] blink_off_eq not_le
        del: of_nat_mult of_nat_numeral add_2_eq_Suc' fun_upd_apply)
qed

text \<open>Adding a record that the caller prepared at \<open>arg\<close>: what the call returns and what it changes.\<close>

lemma add_adds:
  assumes R: "animates v s bs cs" and arg: "disjoint_rng (stack_struct v) 16 arg 16"
    and b: "blink_at (mem s) arg = b" "location b < 2000" "location b \<noteq> 0" and room: "length bs < 2000"
  shows "\<exists>s'. mp1_ioctl_add v arg s = Some (0, s') \<and> animates v s' (fresh b # bs) (cs[unat (location b) := on_char b])"
proof -
  let ?m = "prepared v arg (mem s)"
  note c = prepared_record [where m = "mem s", OF arg, unfolded b(1)]
  have "animates v (s\<lparr>mem := ?m\<rparr>) bs cs" by (rule animates_stack [OF R]) (use c(2) in simp)
  then obtain ps where v: "vars_ok v" "video_on v (s\<lparr>mem := ?m\<rparr>)" and ps: "blinks v (s\<lparr>mem := ?m\<rparr>) ps"
    and bs: "records (s\<lparr>mem := ?m\<rparr>) ps = bs" and cs: "cells ?m = cs" by (auto simp: animates_def)
  define p where "p = mp1_malloc v ?m"
  have p: "p \<in> slots v" "p \<notin> set ps"
    using mp1_malloc_free(1,2) [OF ps] v(1) room bs by (auto simp: p_def records_def)
  have fb: "blink_at (mem (s\<lparr>mem := ?m\<rparr>)) (stack_struct v) = fresh b" "location (fresh b) \<noteq> 0" "location (fresh b) < 2000"
    using c(1) b by (simp_all add: fresh_def)
  have "animates v (s\<lparr>mem := linked v p ?m\<rparr>) (fresh b # bs) cs"
    using insert_record [OF v(1) ps p fb] linked_outside [OF v(1) p(1)] v bs cs by (auto simp: animates_def)
  moreover have l: "unat (location b) < 2000" using b(2) by (simp add: word_less_nat_alt)
  ultimately have "animates v (s\<lparr>mem := (linked v p ?m)(cell (unat (location b)) := on_char b)\<rparr>) (fresh b # bs) (cs[unat (location b) := on_char b])"
    using animates_poke by fastforce
  moreover have "video_on v s" using R by (simp add: animates_def)
  ultimately show ?thesis using add_result [OF v(1) _ arg b(1,2) p_def [symmetric] p(1)] by blast
qed

lemma add_rejects:
  assumes R: "animates v s bs cs" and arg: "disjoint_rng (stack_struct v) 16 arg 16"
    and bad: "2000 \<le> location (blink_at (mem s) arg) \<or> length bs = 2000"
  shows "\<exists>s'. mp1_ioctl_add v arg s = Some (-1, s') \<and> animates v s' bs cs"
proof -
  let ?st = "stack_struct v"
  define m1 where "m1 = blit (mem s) ?st (bytes_at (mem s) arg 16)"
  define m2 where "m2 = stw (?st + 10) 1 m1"
  define m3 where "m3 = stw (?st + 8) (ld16 m2 (?st + 4)) m2"
  note c = stack_record [where m = "mem s", OF arg, folded m1_def, folded m2_def, folded m3_def]
  have loc: "ld16 m1 ?st = location (blink_at (mem s) arg)" using c(2) blink_location [of m1 ?st] by simp
  have a1: "animates v (s\<lparr>mem := m1\<rparr>) bs cs" by (rule animates_stack [OF R]) (use c(4) in simp)
  have a3: "animates v (s\<lparr>mem := m3\<rparr>) bs cs" by (rule animates_stack [OF R]) (use c(5) in simp)
  then obtain ps where ps: "blinks v (s\<lparr>mem := m3\<rparr>) ps" "length bs = length ps" by (auto simp: animates_def records_def)
  have full: "length bs = 2000 \<Longrightarrow> mp1_malloc v m3 = 0" using mp1_malloc_free(3) [OF ps(1)] ps(2) by simp
  show ?thesis
  proof (cases "2000 \<le> location (blink_at (mem s) arg)")
    case True
    then have "mp1_ioctl_add v arg s = Some (-1, s\<lparr>mem := m1\<rparr>)" by (simp add: mp1_ioctl_add_def c(1) loc)
    with a1 show ?thesis by blast
  next
    case False
    then have "mp1_ioctl_add v arg s = Some (-1, s\<lparr>mem := m3\<rparr>)" using full bad unfolding mp1_ioctl_add_def Let_def on_mem_def
      by (simp add: c(1) loc m2_def [symmetric] m3_def [symmetric])
    with a3 show ?thesis by blast
  qed
qed


section \<open>Finding and removing\<close>

text \<open>The helper returns the first element of the chain with that location, or \<open>NULL\<close>.\<close>

lemma find_loop_chain:
  "chain m h ps \<Longrightarrow> find_loop ax h m = Some (case List.find (\<lambda>p. ld16 m p = ax) ps of Some p \<Rightarrow> p | None \<Rightarrow> 0)"
proof (induction ps arbitrary: h)
  case Nil
  then show ?case by (subst find_loop.simps) simp
next
  case (Cons p ps)
  then show ?case by (subst find_loop.simps) auto
qed

lemma find_helper_finds:
  assumes "blinks v s ps"
  shows "mp1_find_helper v arg (mem s) = Some (case List.find (\<lambda>p. ld16 (mem s) p = ucast arg) ps of Some p \<Rightarrow> p | None \<Rightarrow> 0)"
  using assms unfolding mp1_find_helper_def blinks_def by (intro find_loop_chain) simp

text \<open>The address of the pointer to an element: of the head, or of the \<open>next\<close> field before it.\<close>

lemma remove_find_prev_chain:
  assumes "chain m (unat (ld32 m a)) (xs @ p # ys)" and "p \<notin> set xs"
  shows "remove_find_prev p a m = Some (if xs = [] then a else last xs + 12)"
  using assms
proof (induction xs arbitrary: a)
  case Nil
  then show ?case by (subst remove_find_prev.simps) simp
next
  case (Cons x xs)
  then have x: "unat (ld32 m a) = x" "x \<noteq> p" by auto
  have "chain m (unat (ld32 m (x + 12))) (xs @ p # ys)" using Cons.prems by (simp add: next_at_def)
  from Cons.IH [OF this] Cons.prems have "remove_find_prev p (x + 12) m = Some (if xs = [] then x + 12 else last xs + 12)" by simp
  then show ?case using x by (subst remove_find_prev.simps) simp
qed

lemma chain_unlink:
  assumes "chain m h (xs @ p # ys)" and "distinct (xs @ p # ys)" and "xs \<noteq> []" and "next_at m' (last xs) = next_at m p"
    and "\<And>q. q \<in> set (xs @ ys) \<Longrightarrow> q \<noteq> last xs \<Longrightarrow> next_at m' q = next_at m q"
  shows "chain m' h (xs @ ys)"
  using assms
proof (induction xs arbitrary: h)
  case (Cons x xs)
  show ?case
  proof (cases "xs = []")
    case True
    have "chain m' (next_at m p) ys = chain m (next_at m p) ys"
      by (rule chain_cong, rule Cons.prems(5)) (use Cons.prems(2) True in auto)
    then show ?thesis using Cons.prems True by simp
  next
    case False
    have x: "h = x" "x \<noteq> 0" "chain m (next_at m x) (xs @ p # ys)" using Cons.prems(1) by auto
    have "last xs \<in> set xs" using False by simp
    then have "next_at m' x = next_at m x" using Cons.prems(2) False by (intro Cons.prems(5)) auto
    moreover have "chain m' (next_at m x) (xs @ ys)"
    proof (rule Cons.IH [OF x(3) _ False])
      show "distinct (xs @ p # ys)" using Cons.prems(2) by simp
      show "next_at m' (last xs) = next_at m p" using Cons.prems(4) False by simp
      show "next_at m' q = next_at m q" if "q \<in> set (xs @ ys)" "q \<noteq> last xs" for q
        using Cons.prems(5) [of q] that False by auto
    qed
    ultimately show ?thesis using x by simp
  qed
qed simp

fun drop_loc :: "u16 \<Rightarrow> mp1_blink_struct list \<Rightarrow> mp1_blink_struct list" where
  "drop_loc l [] = []"
| "drop_loc l (b # bs) = (if location b = l then bs else b # drop_loc l bs)"

lemma drop_loc_split: "(\<And>x. x \<in> set xs \<Longrightarrow> location x \<noteq> l) \<Longrightarrow> location b = l \<Longrightarrow> drop_loc l (xs @ b # ys) = xs @ ys"
  by (induction xs) auto

text \<open>The effect of unlinking \<open>p\<close> and clearing it.\<close>

lemma unlink_record:
  assumes v: "vars_ok v" "video_on v s" and ps: "blinks v s (xs @ p # ys)"
  defines "a \<equiv> if xs = [] then mp1_list_head v else last xs + 12"
  defines "m \<equiv> blit (st32 (mem s) a (ld32 (mem s) (p + 12))) p (replicate 16 0)"
  shows "blinks v (s\<lparr>mem := m\<rparr>) (xs @ ys)" "records (s\<lparr>mem := m\<rparr>) (xs @ ys) = records s (xs @ ys)"
    "cells m = cells (mem s)" "video_on v (s\<lparr>mem := m\<rparr>)"
proof -
  let ?h = "mp1_list_head v"
  have sl: "p \<in> slots v" "set (xs @ ys) \<subseteq> slots v" "distinct (xs @ p # ys)" using blinks_slots [OF ps] by auto
  note f = slot_fields [OF v(1)]
  have la: "xs \<noteq> [] \<Longrightarrow> last xs \<in> slots v" "p \<notin> set xs \<and> p \<notin> set ys" "xs \<noteq> [] \<Longrightarrow> p \<noteq> last xs" using sl by auto
  have ax: "disjoint_rng a 4 c n" if "disjoint_rng ?h 4 c n" "xs \<noteq> [] \<Longrightarrow> disjoint_rng (last xs) 16 c n" for c n
    using that by (cases "xs = []") (auto simp: a_def disjoint_rng_def)
  have m: "m b = mem s b" if "b < p \<or> p + 16 \<le> b" "b < a \<or> a + 4 \<le> b" for b
    using that by (auto simp: m_def blit_def st32_other)
  have keep: "m b = mem s b" if "disjoint_rng p 16 c n" "disjoint_rng a 4 c n" "c \<le> b" "b < c + n" for b c n
    by (rule m) (use that in \<open>auto simp: disjoint_rng_def\<close>)
  have mid: "m (q + i) = mem s (q + i)" if "q \<in> slots v" "q \<noteq> p" "i < 12" for q i
  proof (rule m)
    show "q + i < p \<or> p + 16 \<le> q + i" using slots_apart [OF sl(1) that(1)] that by (auto simp: disjoint_rng_def)
    show "q + i < a \<or> a + 4 \<le> q + i"
      using f [OF that(1)] slots_apart [OF la(1) that(1)] that(3) by (cases "last xs = q"; auto simp: a_def disjoint_rng_def)
  qed
  have nx: "next_at m q = next_at (mem s) q" if "q \<in> slots v" "q \<noteq> p" "xs = [] \<or> q \<noteq> last xs" for q
  proof (rule next_at_cong, rule keep [of q 16])
    show "disjoint_rng p 16 q 16" using slots_apart [OF sl(1) that(1)] that by auto
    show "disjoint_rng a 4 q 16" by (rule ax) (use f [OF that(1)] slots_apart [OF la(1) that(1)] that in \<open>auto simp: disjoint_rng_def\<close>)
  qed auto
  have at: "ld32 m a = ld32 (mem s) (p + 12)"
  proof -
    have "disjoint_rng p 16 a 4"
      using f [OF sl(1)] slots_apart [OF sl(1) la(1) la(3)] by (cases "xs = []") (auto simp: a_def disjoint_rng_def)
    then show ?thesis unfolding m_def by (subst ld32_blit) (simp_all add: ld32_st32)
  qed
  show "cells m = cells (mem s)"
    by (rule cells_cong, rule keep [of VIDEO 4096]) (use f [OF sl(1)] f [OF la(1)] v(1) in \<open>auto simp: vars_ok_def intro!: ax\<close>)
  show "video_on v (s\<lparr>mem := m\<rparr>)"
    by (rule video_on_mem [OF v(2)], rule keep [of "vmem_base_addr v" 4])
      (use f [OF sl(1)] f [OF la(1)] v(1) in \<open>auto simp: vars_ok_def intro!: ax\<close>)
  have "blink_at m q = blink_at (mem s) q" if "q \<in> set (xs @ ys)" for q
    by (rule blink_at_cong, rule mid) (use sl la(2) that in auto)
  then show "records (s\<lparr>mem := m\<rparr>) (xs @ ys) = records s (xs @ ys)" by (simp add: records_def)
  have lq: "ld16 m q = ld16 (mem s) q" if "q \<in> slots v" "q \<noteq> p" for q
    using mid [OF that, of 0] mid [OF that, of 1] by (simp add: ld16_def)
  have lp: "ld16 m p = 0" by (simp add: ld16_def m_def blit_def)
  have nq: "next_at m q = next_at (mem s) q" if "q \<in> set (xs @ ys)" "xs = [] \<or> q \<noteq> last xs" for q
    by (rule nx) (use sl la(2) that in auto)
  have ch: "chain (mem s) (unat (ld32 (mem s) ?h)) (xs @ p # ys)" using ps by (simp add: blinks_def)
  have "chain m (unat (ld32 m ?h)) (xs @ ys)"
  proof (cases "xs = []")
    case True
    then have "chain m (unat (ld32 m ?h)) ys = chain (mem s) (next_at (mem s) p) ys"
      using at chain_cong [of ys m "mem s", OF nq] by (simp add: a_def next_at_def)
    then show ?thesis using ch True by simp
  next
    case False
    have "ld32 m ?h = ld32 (mem s) ?h"
      by (rule ld32_cong, rule keep [of ?h 4]) (use f [OF sl(1)] f [OF la(1) [OF False]] False in \<open>auto simp: a_def disjoint_rng_def\<close>)
    moreover have "chain m (unat (ld32 (mem s) ?h)) (xs @ ys)"
      by (rule chain_unlink [OF ch sl(3) False]) (use at False nq in \<open>auto simp: a_def next_at_def\<close>)
    ultimately show ?thesis by simp
  qed
  moreover have "ld16 m q \<noteq> 0 \<longleftrightarrow> ld16 (mem s) q \<noteq> 0 \<and> q \<noteq> p" if "q \<in> slots v" for q
    using lp lq [OF that] by (cases "q = p") auto
  then have "{q \<in> slots v. ld16 m q \<noteq> 0} = {q \<in> slots v. ld16 (mem s) q \<noteq> 0} - {p}" by auto
  then have "{q \<in> slots v. ld16 m q \<noteq> 0} = set (xs @ ys)" using ps la(2) unfolding blinks_def by auto
  moreover have "\<forall>q \<in> set (xs @ ys). ld16 m q < 2000"
  proof
    fix q assume "q \<in> set (xs @ ys)"
    moreover from this have "q \<in> slots v" "q \<noteq> p" using sl la(2) by auto
    ultimately show "ld16 m q < 2000" using blinks_slots [OF ps] lq [of q] by auto
  qed
  ultimately show "blinks v (s\<lparr>mem := m\<rparr>) (xs @ ys)" using sl(3) by (simp add: blinks_def)
qed

definition has_loc :: "u16 \<Rightarrow> mp1_blink_struct list \<Rightarrow> bool" where
  "has_loc l bs \<longleftrightarrow> (\<exists>b \<in> set bs. location b = l)"

text \<open>Where the helper finds a location: the chain before it has none such.\<close>

lemma find_helper_split:
  assumes R: "vars_ok v" "blinks v s ps" and l: "has_loc (ucast arg) (records s ps)"
  obtains xs p ys where "ps = xs @ p # ys" "mp1_find_helper v arg (mem s) = Some p" "p \<in> slots v" "p \<noteq> 0"
    "location (blink_at (mem s) p) = ucast arg" "\<And>x. x \<in> set xs \<Longrightarrow> location (blink_at (mem s) x) \<noteq> ucast arg"
proof -
  have "\<exists>p \<in> set ps. ld16 (mem s) p = ucast arg" using l by (auto simp: has_loc_def records_def blink_location)
  from split_list_first_prop [OF this] obtain xs p ys where
    ps: "ps = xs @ p # ys" "ld16 (mem s) p = ucast arg" "\<forall>x \<in> set xs. ld16 (mem s) x \<noteq> ucast arg" by blast
  have "List.find (\<lambda>p. ld16 (mem s) p = ucast arg) (xs @ p # ys) = Some p" using ps(2,3) by (induction xs) auto
  then have "mp1_find_helper v arg (mem s) = Some p" using find_helper_finds [OF R(2), of arg] by (simp add: ps(1))
  moreover have "p \<in> slots v" using blinks_slots [OF R(2)] ps(1) by auto
  moreover from this have "p \<noteq> 0" using slot_fields [OF R(1)] by blast
  ultimately show thesis using that ps by (simp add: blink_location)
qed

lemma find_helper_none:
  assumes "blinks v s ps" and "\<not> has_loc (ucast arg) (records s ps)"
  shows "mp1_find_helper v arg (mem s) = Some 0"
proof -
  have "List.find (\<lambda>p. ld16 (mem s) p = ucast arg) ps = None"
    using assms(2) by (auto simp: find_None_iff has_loc_def records_def blink_location)
  then show ?thesis using find_helper_finds [OF assms(1), of arg] by simp
qed

lemma remove_removes:
  assumes "animates v s bs cs" and "has_loc (ucast arg) bs"
  shows "\<exists>s'. mp1_ioctl_remove v arg s = Some (0, s') \<and> animates v s' (drop_loc (ucast arg) bs) cs"
proof -
  obtain ps where v: "vars_ok v" "video_on v s" and ps: "blinks v s ps" and bs: "bs = records s ps" and cs: "cs = cells (mem s)"
    using assms by (auto simp: animates_def)
  obtain xs p ys where sp: "ps = xs @ p # ys" and hp: "mp1_find_helper v arg (mem s) = Some p" "p \<noteq> 0"
    and loc: "location (blink_at (mem s) p) = ucast arg" "\<And>x. x \<in> set xs \<Longrightarrow> location (blink_at (mem s) x) \<noteq> ucast arg"
    by (rule find_helper_split [OF v(1) ps, of arg]) (use assms(2) bs in auto)
  have ch: "chain (mem s) (unat (ld32 (mem s) (mp1_list_head v))) (xs @ p # ys)" "p \<notin> set xs"
    using ps by (auto simp: blinks_def sp)
  note u = unlink_record [OF v ps [unfolded sp]]
  let ?a = "if xs = [] then mp1_list_head v else last xs + 12"
  have "mp1_ioctl_remove v arg s = Some (0, s\<lparr>mem := blit (st32 (mem s) ?a (ld32 (mem s) (p + 12))) p (replicate 16 0)\<rparr>)"
    using remove_find_prev_chain [OF ch]
    by (simp add: mp1_ioctl_remove_def hp on_mem_def mp1_free_def ece391_memset_blit)
  moreover have "drop_loc (ucast arg) bs = records s (xs @ ys)"
    using loc unfolding bs sp by (simp add: records_def) (subst drop_loc_split, auto)
  ultimately show ?thesis using u v(1) cs by (auto simp: animates_def)
qed

lemma remove_missing:
  assumes "animates v s bs cs" and "\<not> has_loc (ucast arg) bs"
  shows "mp1_ioctl_remove v arg s = Some (-1, s)"
  using assms find_helper_none [of v s _ arg] by (auto simp: animates_def mp1_ioctl_remove_def)


section \<open>Synchronising two records\<close>

fun upd_loc :: "u16 \<Rightarrow> (mp1_blink_struct \<Rightarrow> mp1_blink_struct) \<Rightarrow> mp1_blink_struct list \<Rightarrow> mp1_blink_struct list" where
  "upd_loc l f [] = []"
| "upd_loc l f (b # bs) = (if location b = l then f b # bs else b # upd_loc l f bs)"

definition take_times :: "mp1_blink_struct \<Rightarrow> mp1_blink_struct \<Rightarrow> mp1_blink_struct" where
  "take_times a b = b\<lparr>on_length := on_length a, off_length := off_length a, countdown := countdown a, status := status a\<rparr>"

lemma upd_loc_split: "(\<And>x. x \<in> set xs \<Longrightarrow> location x \<noteq> l) \<Longrightarrow> location b = l \<Longrightarrow> upd_loc l f (xs @ b # ys) = xs @ f b # ys"
  by (induction xs) auto

lemma cmovl_never: "cmovl_after_test x y z = z"
  by (simp add: cmovl_after_test_def bit_and_iff)

lemma copy_field:
  assumes "p = q \<or> disjoint_rng p 16 q 16" and "off \<in> {4, 6, 8, 10}"
  shows "blink_at (stw (q + off) (ld16 m (p + off)) m) p = blink_at m p"
proof (cases "p = q")
  case True
  have "blink_at m q = (blink_at m q)\<lparr>on_length := ld16 m (q + 4)\<rparr>" "blink_at m q = (blink_at m q)\<lparr>off_length := ld16 m (q + 6)\<rparr>"
    "blink_at m q = (blink_at m q)\<lparr>countdown := ld16 m (q + 8)\<rparr>" "blink_at m q = (blink_at m q)\<lparr>status := ld16 m (q + 10)\<rparr>"
    by (simp_all add: blink_at_def)
  then show ?thesis using assms(2) True blink_at_stw by fastforce
next
  case False
  then show ?thesis using assms by (intro blink_at_cong stw_other) (auto simp: disjoint_rng_def)
qed

lemma sync_copy_record:
  assumes "p = q \<or> disjoint_rng p 16 q 16"
  shows "blink_at (sync_copy p q m) q = take_times (blink_at m p) (blink_at m q)"
    and "a < q + 4 \<or> q + 12 \<le> a \<Longrightarrow> sync_copy p q m a = m a"
proof -
  define m1 where "m1 = stw (q + 4) (ld16 m (p + 4)) m"
  define m2 where "m2 = stw (q + 6) (ld16 m1 (p + 6)) m1"
  define m3 where "m3 = stw (q + 8) (ld16 m2 (p + 8)) m2"
  define m4 where "m4 = stw (q + 10) (ld16 m3 (p + 10)) m3"
  have c: "sync_copy p q m = m4" by (simp add: sync_copy_def m1_def m2_def m3_def m4_def)
  have p: "blink_at m1 p = blink_at m p" "blink_at m2 p = blink_at m p" "blink_at m3 p = blink_at m p"
    using copy_field [OF assms] by (simp_all add: m1_def m2_def m3_def)
  have "blink_at m4 q = (blink_at m q)\<lparr>on_length := ld16 m (p + 4), off_length := ld16 m1 (p + 6), countdown := ld16 m2 (p + 8),
      status := ld16 m3 (p + 10)\<rparr>" by (simp add: m1_def m2_def m3_def m4_def blink_at_stw)
  then show "blink_at (sync_copy p q m) q = take_times (blink_at m p) (blink_at m q)"
    using blink_fields [of m1 p] blink_fields [of m2 p] blink_fields [of m3 p] blink_fields [of m p] p by (simp add: c take_times_def)
  show "sync_copy p q m a = m a" if "a < q + 4 \<or> q + 12 \<le> a"
    using that unfolding c m4_def m3_def m2_def m1_def by (auto simp: stw_other)
qed

lemma ucast_low: "ucast (x AND 0xFFFF :: u32) = (ucast x :: u16)"
proof -
  have m: "(0xFFFF :: u32) = mask 16" by (simp add: mask_eq_exp_minus_1)
  show ?thesis unfolding m by (rule bit_word_eqI) (auto simp: bit_ucast_iff bit_and_iff bit_mask_iff simp del: mask_numeral)
qed

lemma sync_copies:
  assumes R: "animates v s bs cs" and has: "has_loc (ucast (drop_bit 16 arg)) bs" "has_loc (ucast arg) bs"
  obtains s' a b where "a \<in> set bs" "location a = ucast (drop_bit 16 arg)" "b \<in> set bs" "location b = ucast arg"
    "mp1_ioctl_sync v arg s = Some (0, s')"
    "animates v s' (upd_loc (ucast arg) (take_times a) bs) (cs[unat (location b) := off_char b])"
proof -
  obtain ps where v: "vars_ok v" "video_on v s" and ps: "blinks v s ps" and bs: "bs = records s ps" and cs: "cs = cells (mem s)"
    using R by (auto simp: animates_def)
  obtain us p ws where p: "ps = us @ p # ws" "mp1_find_helper v (drop_bit 16 arg) (mem s) = Some p" "p \<in> slots v" "p \<noteq> 0"
    "location (blink_at (mem s) p) = ucast (drop_bit 16 arg)"
    by (rule find_helper_split [OF v(1) ps, of "drop_bit 16 arg"]) (use has bs in auto)
  have low: "ucast (arg AND 0xFFFF) = (ucast arg :: u16)" by (rule ucast_low)
  obtain xs q ys where q: "ps = xs @ q # ys" "mp1_find_helper v (arg AND 0xFFFF) (mem s) = Some q" "q \<in> slots v" "q \<noteq> 0"
    "location (blink_at (mem s) q) = ucast arg" "\<And>x. x \<in> set xs \<Longrightarrow> location (blink_at (mem s) x) \<noteq> ucast arg"
    by (rule find_helper_split [OF v(1) ps, of "arg AND 0xFFFF"]) (use has bs low in auto)
  let ?a = "blink_at (mem s) p" and ?b = "blink_at (mem s) q" and ?m = "sync_copy p q (mem s)"
  have pq: "p = q \<or> disjoint_rng p 16 q 16" using slots_apart [OF p(3) q(3)] by blast
  note c = sync_copy_record [where m = "mem s", OF pq]
  have far: "?m (r + i) = mem s (r + i)" if "r \<in> slots v" "r \<noteq> q \<and> i < 16 \<or> i < 4 \<or> 12 \<le> i \<and> i < 16" for r i
    by (rule c(2)) (use slots_apart [OF q(3) that(1)] that(2) in \<open>cases "q = r"; auto simp: disjoint_rng_def\<close>)
  have out: "?m a = mem s a" if "disjoint_rng q 16 r n" "r \<le> a" "a < r + n" for a r n
    by (rule c(2)) (use that in \<open>auto simp: disjoint_rng_def\<close>)
  note f = slot_fields [OF v(1) q(3)]
  have hd: "ld32 ?m (mp1_list_head v) = ld32 (mem s) (mp1_list_head v)" by (rule ld32_cong, rule out [of "mp1_list_head v" 4]) (use f in auto)
  have nx: "next_at ?m r = next_at (mem s) r" if "r \<in> slots v" for r
    by (rule next_at_cong) (use far [OF that] in \<open>simp add: add.assoc\<close>)
  have lc: "ld16 ?m r = ld16 (mem s) r" if "r \<in> slots v" for r
    using far [OF that, of 0] far [OF that, of 1] by (simp add: ld16_def)
  have bl: "blinks v (s\<lparr>mem := ?m\<rparr>) ps" by (rule blinks_cong [OF hd nx lc ps])
  have vid: "video_on v (s\<lparr>mem := ?m\<rparr>)" by (rule video_on_mem [OF v(2)], rule out [of "vmem_base_addr v" 4]) (use f in auto)
  have ce: "cells ?m = cs" unfolding cs by (rule cells_cong, rule out [of VIDEO 4096]) (use f in auto)
  have others: "blink_at ?m r = blink_at (mem s) r" if "r \<in> set xs \<union> set ys" for r
    by (rule blink_at_cong, rule far) (use blinks_slots [OF ps] q(1) that in auto)
  have "records (s\<lparr>mem := ?m\<rparr>) ps = upd_loc (ucast arg) (take_times ?a) bs"
    unfolding bs records_def q(1) using others q(5,6) c(1) by (simp, subst upd_loc_split) auto
  then have an: "animates v (s\<lparr>mem := ?m\<rparr>) (upd_loc (ucast arg) (take_times ?a) bs) cs"
    using v(1) vid bl ce by (auto simp: animates_def)
  have l: "unat (location ?b) < 2000" using blinks_slots [OF ps] q(1) by (simp add: blink_location word_less_nat_alt)
  have lb: "ld16 ?m q = location ?b" "?m (q + 3) = off_char ?b" using lc [OF q(3)] far [OF q(3), of 3] by (simp_all add: blink_fields)
  have "mp1_ioctl_sync v arg s = Some (0, s\<lparr>mem := ?m(cell (unat (location ?b)) := off_char ?b)\<rparr>)"
    using poke_shows [OF vid l, of "off_char ?b"] p(4) q(4)
    by (simp add: mp1_ioctl_sync_def p(2) q(2) on_mem_def cmovl_never blink_off_eq lb del: of_nat_mult of_nat_numeral fun_upd_apply)
  moreover have "p \<in> set ps" "q \<in> set ps" subgoal by (simp add: p(1)) subgoal by (simp add: q(1)) done
  then have "?a \<in> set bs" "?b \<in> set bs" by (simp_all add: bs records_def)
  ultimately show thesis using animates_poke [OF an l, of "off_char ?b"] p(5) q(5) by (intro that) auto
qed

end
