(* ===== verification/Blink_Runs.thy ===== *)
theory Blink_Runs
  imports Blink_List
begin

text \<open>
  Sequences of operations on the list of \<open>blink.S\<close>.  \<open>visible\<close> says that every record's character
  is on the screen; it is kept by the clock, by adding and by removing.  \<open>looped\<close> is a list whose
  first element points to itself, as the reuse of the element with location 0 produces.
\<close>

section \<open>What the screen shows\<close>

definition visible :: "mp1_blink_struct list \<Rightarrow> u8 list \<Rightarrow> bool" where
  "visible bs cs \<longleftrightarrow> distinct (map location bs) \<and>
     (\<forall>b \<in> set bs. unat (location b) < length cs \<and> cs ! unat (location b) = face b)"

lemma length_tick_cells [simp]: "length (tick_cells b cs) = length cs"
  by (simp add: tick_cells_def)

lemma tick_cells_other: "unat (location b) \<noteq> l \<Longrightarrow> tick_cells b cs ! l = cs ! l"
  by (simp add: tick_cells_def)

lemma tick_cells_own:
  assumes "unat (location b) < length cs" and "cs ! unat (location b) = face b"
  shows "tick_cells b cs ! unat (location b) = face (tick b)"
proof (cases "0 < sint (countdown b - 1)")
  case True
  then have "face (tick b) = face b" by (simp add: tick_idle face_def)
  then show ?thesis using True assms(2) by (simp add: tick_cells_def)
next
  case False
  then show ?thesis using assms(1) by (simp add: tick_cells_def)
qed

lemma fold_tick_other: "l \<notin> (unat \<circ> location) ` set bs \<Longrightarrow> fold tick_cells bs cs ! l = cs ! l"
  by (induction bs arbitrary: cs) (auto simp: tick_cells_other)

lemma length_fold_tick [simp]: "length (fold tick_cells bs cs) = length cs"
  by (induction bs arbitrary: cs) auto

lemma visible_tick: "visible bs cs \<Longrightarrow> visible (map tick bs) (fold tick_cells bs cs)"
proof (induction bs arbitrary: cs)
  case (Cons b bs)
  let ?l = "unat (location b)" and ?cs = "tick_cells b cs"
  have b: "?l < length cs" "cs ! ?l = face b" "location b \<notin> location ` set bs" using Cons.prems by (auto simp: visible_def)
  have other: "?l \<noteq> unat (location x)" if "x \<in> set bs" for x
    using b(3) that by (metis image_eqI unsigned_word_eqI)
  have "visible bs ?cs" using Cons.prems tick_cells_other [OF other] unfolding visible_def by auto
  from Cons.IH [OF this] have "visible (map tick bs) (fold tick_cells bs ?cs)" .
  moreover have "?l \<notin> (unat \<circ> location) ` set bs" using other by fastforce
  then have "fold tick_cells bs ?cs ! ?l = face (tick b)" using tick_cells_own [OF b(1,2)] by (simp add: fold_tick_other)
  ultimately show ?case using b by (auto simp: visible_def o_def)
qed (simp add: visible_def)

lemma visible_add:
  assumes "visible bs cs" and "\<not> has_loc (location b) bs" and "unat (location b) < length cs"
  shows "visible (fresh b # bs) (cs[unat (location b) := on_char b])"
proof -
  have "unat (location b) \<noteq> unat (location x)" if "x \<in> set bs" for x
    using assms(2) that by (metis has_loc_def unsigned_word_eqI)
  then show ?thesis using assms by (auto simp: visible_def has_loc_def fresh_def face_def)
qed

lemma drop_loc_subset: "set (drop_loc l bs) \<subseteq> set bs"
  by (induction bs) auto

lemma visible_drop: "visible bs cs \<Longrightarrow> visible (drop_loc l bs) cs"
proof -
  have "distinct (map location bs) \<Longrightarrow> distinct (map location (drop_loc l bs))" for bs
    using drop_loc_subset [of l] by (induction bs) fastforce+
  then show "visible bs cs \<Longrightarrow> visible (drop_loc l bs) cs" using drop_loc_subset [of l bs] by (auto simp: visible_def)
qed


section \<open>Runs\<close>

text \<open>The program's part: it ticks, adds records with a location of their own other than 0, removes
  records, and uses its other memory.\<close>

inductive fish_step :: "fish_vars \<Rightarrow> kstate \<Rightarrow> kstate \<Rightarrow> bool" for v where
  tick: "mp1_rtc_tasklet v s = Some s' \<Longrightarrow> fish_step v s s'"
| add: "disjoint_rng (stack_struct v) 16 (unat arg) 16 \<Longrightarrow> ld16 (mem s) (unat arg) \<noteq> 0 \<Longrightarrow>
    mp1_find_helper v (ucast (ld16 (mem s) (unat arg))) (mem s) = Some 0 \<Longrightarrow>
    mp1_ioctl v arg 0 s = Some (r, s') \<Longrightarrow> fish_step v s s'"
| remove: "mp1_ioctl v arg 1 s = Some (r, s') \<Longrightarrow> fish_step v s s'"
| own: "(\<And>b n a. b = blink_array v \<and> n = 32000 \<or> b = mp1_list_head v \<and> n = 4 \<or> b = vmem_base_addr v \<and> n = 4 \<or> b = VIDEO \<and> n = 4096 \<Longrightarrow>
      b \<le> a \<Longrightarrow> a < b + n \<Longrightarrow> m a = mem s a) \<Longrightarrow> fish_step v s (s\<lparr>mem := m\<rparr>)"

definition animation_ok :: "fish_vars \<Rightarrow> kstate \<Rightarrow> bool" where
  "animation_ok v s \<longleftrightarrow> (\<exists>bs cs. animates v s bs cs \<and> visible bs cs)"

lemma animates_length: "animates v s bs cs \<Longrightarrow> length bs \<le> 2000 \<and> length cs = 2000"
proof -
  assume "animates v s bs cs"
  then obtain ps where ps: "blinks v s ps" "length bs = length ps" "cs = cells (mem s)" by (auto simp: animates_def records_def)
  have "card (set ps) \<le> card (slots v)" by (rule card_mono) (use blinks_slots [OF ps(1)] in \<open>auto simp: finite_slots\<close>)
  then show ?thesis using blinks_slots [OF ps(1)] ps by (simp add: distinct_card card_slots)
qed

lemma ucast_up_down: "ucast (ucast (x :: u16) :: u32) = x"
  by (rule bit_word_eqI) (auto simp: bit_ucast_iff)

lemma step_add:
  assumes R: "animates v s bs cs" "visible bs cs" and arg: "disjoint_rng (stack_struct v) 16 (unat arg) 16" "ld16 (mem s) (unat arg) \<noteq> 0"
    and new: "mp1_find_helper v (ucast (ld16 (mem s) (unat arg))) (mem s) = Some 0" and go: "mp1_ioctl v arg 0 s = Some (r, s')"
  shows "animation_ok v s'"
proof -
  let ?b = "blink_at (mem s) (unat arg)"
  have go: "mp1_ioctl_add v (unat arg) s = Some (r, s')" using go by (simp add: mp1_ioctl_def)
  have l: "location ?b = ld16 (mem s) (unat arg)" by (rule blink_location)
  note len = animates_length [OF R(1)]
  show ?thesis
  proof (cases "2000 \<le> location ?b \<or> length bs = 2000")
    case True
    from add_rejects [OF R(1) arg(1) this] go R(2) show ?thesis by (auto simp: animation_ok_def)
  next
    case False
    have "\<not> has_loc (ucast (ucast (location ?b) :: u32)) bs"
    proof
      assume has: "has_loc (ucast (ucast (location ?b) :: u32)) bs"
      obtain ps where v: "vars_ok v" "blinks v s ps" "bs = records s ps" using R(1) by (auto simp: animates_def)
      from find_helper_split [OF v(1,2) has [unfolded v(3)]] new l show False by (metis option.inject)
    qed
    then have no: "\<not> has_loc (location ?b) bs" by (simp add: ucast_up_down)
    have "location ?b < 2000" "location ?b \<noteq> 0" "length bs < 2000" using False arg(2) l len by auto
    from add_adds [OF R(1) arg(1) refl this] visible_add [OF R(2) no] go this(1) len
    show ?thesis by (auto simp: animation_ok_def word_less_nat_alt)
  qed
qed

lemma step_remove:
  assumes "animates v s bs cs" "visible bs cs" and "mp1_ioctl v arg 1 s = Some (r, s')"
  shows "animation_ok v s'"
proof (cases "has_loc (ucast arg) bs")
  case True
  from remove_removes [OF assms(1) this] visible_drop [OF assms(2)] assms(3) show ?thesis
    by (auto simp: animation_ok_def mp1_ioctl_def)
next
  case False
  with remove_missing [OF assms(1)] assms show ?thesis by (auto simp: animation_ok_def mp1_ioctl_def)
qed

lemma step_ok: "fish_step v s s' \<Longrightarrow> animation_ok v s \<Longrightarrow> animation_ok v s'"
proof -
  assume st: "fish_step v s s'" and "animation_ok v s"
  then obtain bs cs where R: "animates v s bs cs" "visible bs cs" by (auto simp: animation_ok_def)
  from st show ?thesis
  proof cases
    case tick
    then show ?thesis using tasklet_ticks [OF R(1)] visible_tick [OF R(2)] by (auto simp: animation_ok_def)
  next
    case (add arg r)
    then show ?thesis by (rule step_add [OF R])
  next
    case (remove arg r)
    then show ?thesis by (rule step_remove [OF R])
  next
    case (own m)
    then show ?thesis using animates_cong [OF R(1), of m] R(2) by (auto simp: animation_ok_def)
  qed
qed

lemma run_ok: "(fish_step v)\<^sup>*\<^sup>* s s' \<Longrightarrow> animation_ok v s \<Longrightarrow> animation_ok v s'"
  by (induction rule: rtranclp_induct) (auto intro: step_ok)


section \<open>Location 0\<close>

text \<open>A list whose first element is its own successor: the clock never gets to its end.\<close>

definition looped :: "fish_vars \<Rightarrow> addr \<Rightarrow> kstate \<Rightarrow> bool" where
  "looped v p s \<longleftrightarrow> vars_ok v \<and> video_on v s \<and> p \<in> slots v \<and> ld16 (mem s) p < 2000 \<and> next_at (mem s) p = p"

lemma looped_step:
  assumes "looped v p s" and "tasklet_step v p s = Some s1"
  shows "looped v p s1"
proof -
  have v: "vars_ok v" "video_on v s" "p \<in> slots v" "ld16 (mem s) p < 2000" "next_at (mem s) p = p"
    using assms(1) by (simp_all add: looped_def)
  note f = slot_fields [OF v(1,3)]
  obtain m where m: "s1 = s\<lparr>mem := m\<rparr>" "blink_at m p = tick (blink_at (mem s) p)"
    and out: "\<And>a. a < p + 8 \<or> p + 12 \<le> a \<Longrightarrow> a \<notin> cell ` {..<2000} \<Longrightarrow> m a = mem s a"
    by (rule tasklet_step_record [OF v(2,4)]) (use f assms(2) in auto)
  have "m (p + 12 + i) = mem s (p + 12 + i)" if "i < 4" for i by (rule out) (use f that in \<open>auto simp: disjoint_rng_def\<close>)
  then have "next_at m p = p" using next_at_cong [of m p "mem s"] v(5) by simp
  moreover have "ld16 m p < 2000" using m(2) v(4) blink_location [of m p] blink_location [of "mem s" p] by simp
  moreover have "video_on v s1" unfolding m(1)
  proof (rule video_on_mem [OF v(2)], rule out)
    fix i :: nat assume i: "i < 4"
    have "disjoint_rng p 16 (vmem_base_addr v) 4" "disjoint_rng (vmem_base_addr v) 4 VIDEO 4096"
      using f v(1) by (simp_all add: vars_ok_def)
    then show "vmem_base_addr v + i < p + 8 \<or> p + 12 \<le> vmem_base_addr v + i" "vmem_base_addr v + i \<notin> cell ` {..<2000}"
      using i by (auto simp: disjoint_rng_def)
  qed
  ultimately show ?thesis using v by (simp add: looped_def m(1))
qed

lemma looped_never: "looped v p s \<Longrightarrow> tasklet_loop v p s = None"
proof (rule ccontr)
  assume l: "looped v p s" and "tasklet_loop v p s \<noteq> None"
  then obtain r where "tasklet_loop v p s = Some r" by auto
  then have "\<not> looped v p s"
  proof (rule tasklet_loop.raw_induct [where P = "\<lambda>v p s r. \<not> looped v p s", rotated])
    fix f v ebx s r
    assume IH: "\<And>v ebx s r. f v ebx s = Some r \<Longrightarrow> \<not> looped v ebx s"
      and eq: "(if ebx = 0 then Some s else tasklet_step v ebx s \<bind> (\<lambda>s. f v (next_at (mem s) ebx) s)) = Some r"
    show "\<not> looped v ebx s"
    proof
      assume l: "looped v ebx s"
      then have "ebx \<noteq> 0" using slot_fields [of v ebx] by (simp add: looped_def)
      with eq obtain s1 where s1: "tasklet_step v ebx s = Some s1" "f v (next_at (mem s1) ebx) s1 = Some r"
        by (auto simp: bind_Some_iff)
      have "looped v ebx s1" by (rule looped_step [OF l s1(1)])
      then show False using IH [OF s1(2)] by (simp add: looped_def)
    qed
  qed
  with l show False by simp
qed

lemma linked_poked:
  assumes v: "vars_ok v" and p: "p \<in> slots v" and l: "l < 2000"
  defines "m' \<equiv> \<lambda>m x. (linked v p m)(cell l := x)"
  shows "video_on v (s\<lparr>mem := m\<rparr>) \<Longrightarrow> video_on v (s\<lparr>mem := m' m x\<rparr>)"
    "q \<in> slots v \<Longrightarrow> q \<noteq> p \<Longrightarrow> ld16 (m' m x) q = ld16 m q" "blink_at (m' m x) p = blink_at m (stack_struct v)"
    "next_at (m' m x) p = unat (ld32 m (mp1_list_head v))" "unat (ld32 (m' m x) (mp1_list_head v)) = p"
    "disjoint_rng b n (blink_array v) 32000 \<Longrightarrow> disjoint_rng b n (mp1_list_head v) 4 \<Longrightarrow> disjoint_rng b n VIDEO 4096 \<Longrightarrow>
      i < n \<Longrightarrow> m' m x (b + i) = m (b + i)"
proof -
  have out: "m' m x a = linked v p m a" if "disjoint_rng c n VIDEO 4096" "c \<le> a" "a < c + n" for a c n m x
    using that l by (auto simp: m'_def disjoint_rng_def)
  have in_p: "m' m x (q + i) = linked v p m (q + i)" if "q \<in> slots v" "i < 16" for q i m x
    by (rule out [of q 16]) (use slot_fields [OF v that(1)] that(2) in auto)
  show "video_on v (s\<lparr>mem := m' m x\<rparr>)" if on: "video_on v (s\<lparr>mem := m\<rparr>)" for s
  proof -
    have "video_on v ((s\<lparr>mem := linked v p m\<rparr>)\<lparr>mem := m' m x\<rparr>)"
      by (rule video_on_mem [OF linked_outside(2) [OF v p on]]) (use v out [of "vmem_base_addr v" 4] in \<open>simp add: vars_ok_def\<close>)
    then show ?thesis by simp
  qed
  show "ld16 (m' m x) q = ld16 m q" if "q \<in> slots v" "q \<noteq> p"
    using in_p [OF that(1), of 0] in_p [OF that(1), of 1] linked_outside(3) [OF v p that, of 0] linked_outside(3) [OF v p that, of 1]
    by (simp add: ld16_def)
  have "blink_at (m' m x) p = blink_at (linked v p m) p" by (rule blink_at_cong) (simp add: in_p p)
  then show "blink_at (m' m x) p = blink_at m (stack_struct v)" using linked_bytes(2) [OF v p] by simp
  have "next_at (m' m x) p = next_at (linked v p m) p" by (rule next_at_cong) (use in_p [OF p] in \<open>simp add: add.assoc\<close>)
  then show "next_at (m' m x) p = unat (ld32 m (mp1_list_head v))" using linked_bytes(3) [OF v p] by simp
  have "ld32 (m' m x) (mp1_list_head v) = ld32 (linked v p m) (mp1_list_head v)"
    by (rule ld32_cong, rule out [of "mp1_list_head v" 4]) (use v in \<open>simp_all add: vars_ok_def\<close>)
  then show "unat (ld32 (m' m x) (mp1_list_head v)) = p" using linked_bytes(4) [OF v p] by simp
  show "m' m x (b + i) = m (b + i)"
    if "disjoint_rng b n (blink_array v) 32000" "disjoint_rng b n (mp1_list_head v) 4" "disjoint_rng b n VIDEO 4096" "i < n"
    using out [OF that(3), of "b + i"] linked_bytes(1) [OF v p, of "b + i"] slots_in_array [OF p] that by (auto simp: disjoint_rng_def)
qed

lemma prepared_off_stack:
  assumes v: "vars_ok v" and arg: "disjoint_rng (stack_struct v) 16 arg 16"
  shows "q \<in> slots v \<Longrightarrow> ld16 (prepared v arg m) q = ld16 m q" "ld32 (prepared v arg m) (mp1_list_head v) = ld32 m (mp1_list_head v)"
    "video_on v s \<Longrightarrow> video_on v (s\<lparr>mem := prepared v arg (mem s)\<rparr>)" "disjoint_rng (stack_struct v) 16 b n \<Longrightarrow> i < n \<Longrightarrow> prepared v arg m (b + i) = m (b + i)"
proof -
  have out: "prepared v arg m (b + i) = m (b + i)" if "disjoint_rng (stack_struct v) 16 b n" "i < n" for b i n m
    by (rule prepared_record(2) [OF arg]) (use that in \<open>auto simp: disjoint_rng_def\<close>)
  then show "disjoint_rng (stack_struct v) 16 b n \<Longrightarrow> i < n \<Longrightarrow> prepared v arg m (b + i) = m (b + i)" .
  show "ld16 (prepared v arg m) q = ld16 m q" if "q \<in> slots v"
    using slot_fields [OF v that] out [of q 16 0 m] out [of q 16 1 m] by (simp add: ld16_def)
  show "ld32 (prepared v arg m) (mp1_list_head v) = ld32 m (mp1_list_head v)"
    by (rule ld32_cong, rule out [of _ 4]) (use v in \<open>simp_all add: vars_ok_def\<close>)
  show "video_on v s \<Longrightarrow> video_on v (s\<lparr>mem := prepared v arg (mem s)\<rparr>)"
    by (erule video_on_mem, rule out [of _ 4]) (use v in \<open>simp_all add: vars_ok_def\<close>)
qed

lemma add_zero_twice:
  assumes R: "animates v s bs cs" and room: "length bs < 2000" and zero: "location (blink_at (mem s) arg) = 0"
    and arg: "disjoint_rng (stack_struct v) 16 arg 16" "disjoint_rng arg 16 (blink_array v) 32000"
      "disjoint_rng arg 16 (mp1_list_head v) 4" "disjoint_rng arg 16 VIDEO 4096"
  obtains s1 s2 where "mp1_ioctl_add v arg s = Some (0, s1)" "mp1_ioctl_add v arg s1 = Some (0, s2)" "mp1_rtc_tasklet v s2 = None"
proof -
  let ?b = "blink_at (mem s) arg" and ?m = "prepared v arg (mem s)"
  have v: "vars_ok v" "video_on v s" using R by (auto simp: animates_def)
  note prep = prepared_off_stack [OF v(1) arg(1)]
  have "animates v (s\<lparr>mem := ?m\<rparr>) bs cs" by (rule animates_stack [OF R]) (use prepared_record(2) [OF arg(1)] in simp)
  then obtain ps where ps: "blinks v (s\<lparr>mem := ?m\<rparr>) ps" "length ps < 2000" using room by (auto simp: animates_def records_def)
  define p where "p = mp1_malloc v ?m"
  have p: "p \<in> slots v" "p \<notin> set ps" using mp1_malloc_free(1,2) [OF ps(1)] v(1) ps(2) by (auto simp: p_def)
  let ?m1 = "(linked v p ?m)(cell 0 := on_char ?b)"
  let ?m2 = "prepared v arg ?m1"
  note a1 = add_result [OF v arg(1) refl _ p_def [symmetric] p(1), unfolded zero, simplified]
  note k = linked_poked [OF v(1) p(1), of 0, simplified]
  have on1: "video_on v (s\<lparr>mem := ?m1\<rparr>)" using k(1) [OF prep(3) [OF v(2)]] by simp
  have b1: "blink_at ?m1 arg = ?b" by (rule blink_at_cong) (use k(6) [OF arg(2,3,4)] prep(4) [OF arg(1)] in simp)
  have "ld16 ?m1 p = 0"
    using k(3) [of ?m "on_char ?b"] prepared_record(1) [OF arg(1), of "mem s"] zero blink_location [of ?m1 p] by (simp add: fresh_def)
  moreover have "ld16 ?m p = 0" using ps(1) p by (auto simp: blinks_def)
  ultimately have same: "ld16 ?m2 q = 0 \<longleftrightarrow> ld16 ?m q = 0" if "q \<in> slots v" for q
    using prep(1) [OF that] k(2) [OF that, of ?m "on_char ?b"] by (cases "q = p") auto
  have "List.find (\<lambda>i. ld16 ?m2 (slot v i) = 0) [0..<2000] = List.find (\<lambda>i. ld16 ?m (slot v i) = 0) [0..<2000]"
    by (rule find_cong [OF refl], rule same) (simp add: slots_def)
  then have p2: "mp1_malloc v ?m2 = p" by (simp add: mp1_malloc_def p_def)
  let ?m3 = "(linked v p ?m2)(cell 0 := on_char ?b)"
  have a2: "mp1_ioctl_add v arg (s\<lparr>mem := ?m1\<rparr>) = Some (0, s\<lparr>mem := ?m3\<rparr>)"
    using add_result [OF v(1) on1 arg(1) _ _ _ p(1)] b1 p2 zero by simp
  have "ld16 ?m3 p = 0"
    using k(3) [of ?m2 "on_char ?b"] prepared_record(1) [OF arg(1), of ?m1] b1 zero blink_location [of ?m3 p] by (simp add: fresh_def)
  moreover have "next_at ?m3 p = p" using k(4) [of ?m2 "on_char ?b"] prep(2) [of ?m1] k(5) [of ?m "on_char ?b"] by simp
  moreover have "video_on v (s\<lparr>mem := ?m3\<rparr>)" using k(1) [of ?m2 s] prep(3) [OF on1] by simp
  ultimately have "looped v p (s\<lparr>mem := ?m3\<rparr>)" using v(1) p(1) by (simp add: looped_def)
  then have "mp1_rtc_tasklet v (s\<lparr>mem := ?m3\<rparr>) = None"
    using looped_never k(5) [of ?m2 "on_char ?b"] by (simp add: mp1_rtc_tasklet_def)
  with a1 a2 show thesis by (intro that) auto
qed


section \<open>The start of the program\<close>

lemma page_access_same: "tlb_user s = page_dir s 32 \<Longrightarrow> mem (page_access s) = mem s"
  by (auto simp: page_access_def Let_def load_page_def store_page_def fun_eq_iff)

lemma vidmap_mem:
  assumes "tlb_user s = page_dir s 32" and "a \<noteq> 0" "a \<noteq> 0x400000" and "system_vidmap a s = Some (r, s')"
  shows "mem s' = st32 (mem s) a 0x8800000"
proof -
  let ?s = "s\<lparr>page_dir := (page_dir s)(34 := page_table_at s OR 7), page_table := (page_table s)(0 := 0xB8007)\<rparr>"
  have "mem s' = st32 (mem (page_access ?s)) a 0x8800000"
    using assms(2-4) by (auto simp: system_vidmap_def get_vidmap_page_def Let_def)
  also have "mem (page_access ?s) = mem ?s" by (rule page_access_same) (simp add: assms(1))
  finally show ?thesis by simp
qed

text \<open>Clearing the array and mapping the video page leaves an empty list on the screen as it is.\<close>

lemma fish_starts:
  assumes v: "vars_ok v" and s: "tlb_user s = page_dir s 32" "page_table_at s AND mask 12 = 0" "ld32 (mem s) (mp1_list_head v) = 0"
    and va: "adr32 (vmem_base_addr v)" "vmem_base_addr v \<noteq> 0" "vmem_base_addr v \<noteq> 0x400000"
  defines "s1 \<equiv> on_mem (ece391_memset (blink_array v) 0 (16 * 80 * 25)) s"
  obtains s2 where "mp1_set_video_mode v s1 = Some (0x8800000, s2)" "animates v s2 [] (cells (mem s))"
    "mem s2 = st32 (blit (mem s) (blink_array v) (replicate 32000 0)) (vmem_base_addr v) 0x8800000"
proof -
  let ?m = "blit (mem s) (blink_array v) (replicate 32000 0)"
  have m1: "mem s1 = ?m" by (simp add: s1_def on_mem_def ece391_memset_blit)
  have f1: "page_table_at (sti s1) AND mask 12 = 0" "tlb_user (sti s1) = page_dir (sti s1) 32"
    using s(1,2) by (simp_all add: s1_def on_mem_def sti_def)
  from system_vidmap_eq [OF va(2,3) f1(1)] obtain s2 where s2: "system_vidmap (vmem_base_addr v) (sti s1) = Some (0, s2)"
    "\<forall>off < 4096. translate s2 (0x8800000 + of_nat off) = Some (0xB8000 OR of_nat off)" by blast
  have m2: "mem s2 = st32 ?m (vmem_base_addr v) 0x8800000" using vidmap_mem [OF f1(2) va(2,3) s2(1)] m1 by (simp add: sti_def)
  have base: "ld32 (mem s2) (vmem_base_addr v) = 0x8800000" by (simp add: m2 ld32_st32)
  have go: "mp1_set_video_mode v s1 = Some (0x8800000, s2)"
    using s2(1) base by (simp add: mp1_set_video_mode_def call_eq(6) [OF va(1)])
  have out: "mem s2 a = mem s a" if "disjoint_rng (blink_array v) 32000 b n" "disjoint_rng b n (vmem_base_addr v) 4" "b \<le> a" "a < b + n" for a b n
    using that by (auto simp: m2 blit_def st32_other disjoint_rng_def)
  have zero: "mem s2 (blink_array v + i) = 0" if "i < 32000" for i
  proof -
    have "disjoint_rng (blink_array v) 32000 (vmem_base_addr v) 4" using v by (simp add: vars_ok_def)
    then show ?thesis using that by (auto simp: m2 blit_def st32_other disjoint_rng_def)
  qed
  have "ld32 (mem s2) (mp1_list_head v) = ld32 (mem s) (mp1_list_head v)"
    by (rule ld32_cong, rule out [of "mp1_list_head v" 4]) (use v in \<open>simp_all add: vars_ok_def\<close>)
  moreover have "ld16 (mem s2) p = 0" if "p \<in> slots v" for p
  proof -
    obtain i where i: "p = slot v i" "i < 2000" using \<open>p \<in> slots v\<close> by (auto simp: slots_def)
    then show ?thesis using zero [of "16 * i"] zero [of "16 * i + 1"] by (simp add: ld16_def add.assoc)
  qed
  ultimately have "blinks v s2 []" using s(3) by (simp add: blinks_def)
  moreover have "cells (mem s2) = cells (mem s)"
    by (rule cells_cong, rule out [of VIDEO 4096]) (use v in \<open>auto simp: vars_ok_def disjoint_rng_def\<close>)
  ultimately have "animates v s2 [] (cells (mem s))"
    using v base s2(2) vidmap_writable [OF s2(1)] by (auto simp: animates_def video_on_def records_def)
  with go m2 show thesis by (intro that)
qed

end
