(* ===== verification/Fish_Theorems.thy ===== *)
theory Fish_Theorems
  imports Blink_Runs Example_State
begin

text \<open>
  Properties of the animation of \<open>fish/\<close>: the list of \<open>blink.S\<close> against a list of records, the
  characters that it shows, and two errors of it.
\<close>

section \<open>A concrete program\<close>

definition fv :: fish_vars where
  "fv = \<lparr>blink_array = 0x8200000, vmem_base_addr = 0x8210004, mp1_list_head = 0x8210000, file0 = 0x8210010, file1 = 0x8210020,
     ret_val = 0x8300100, garbage = 0x8300104, main_struct = 0x8300040, frames_struct = 0x8300060, c0 = 0x8300080, c1 = 0x8300081,
     stack_struct = 0x8300000\<rparr>"

lemma fv_simps [simp]:
  "blink_array fv = 0x8200000" "vmem_base_addr fv = 0x8210004" "mp1_list_head fv = 0x8210000" "stack_struct fv = 0x8300000"
  "main_struct fv = 0x8300040"
  by (simp_all add: fv_def)

lemma fv_ok: "vars_ok fv"
  by (simp add: vars_ok_def disjoint_rng_def VIDEO_def)

text \<open>A system whose memory holds a record with the location \<open>l\<close>, blinking with periods of 7 and 6.\<close>

definition fish_mem :: "u8 \<Rightarrow> mem" where
  "fish_mem l = (\<lambda>a. 0)(0x8300040 := l, 0x8300042 := 73, 0x8300043 := 77, 0x8300044 := 7, 0x8300046 := 6)"

definition fish_boot :: "u8 \<Rightarrow> kstate" where
  "fish_boot l = sample\<lparr>mem := fish_mem l, tlb_user := 0\<rparr>"

lemma fish_boot_ok:
  "tlb_user (fish_boot l) = page_dir (fish_boot l) 32" "page_table_at (fish_boot l) AND mask 12 = 0"
  "ld32 (mem (fish_boot l)) (mp1_list_head fv) = 0" "adr32 (vmem_base_addr fv)" "vmem_base_addr fv \<noteq> 0" "vmem_base_addr fv \<noteq> 0x400000"
  by (simp_all add: fish_boot_def fish_mem_def ld32_def sample_def mask_numeral)

lemma fish_cells: "cells (mem (fish_boot l)) = replicate 2000 0"
  by (rule nth_equalityI) (simp_all add: cells_def fish_boot_def fish_mem_def VIDEO_def)

text \<open>The system after \<open>mp1_set_video_mode\<close>.\<close>

definition fish_on :: "u8 \<Rightarrow> kstate \<Rightarrow> bool" where
  "fish_on l s \<longleftrightarrow> animates fv s [] (replicate 2000 0) \<and> blink_at (mem s) 0x8300040 =
     \<lparr>location = ucast l, on_char = 73, off_char = 77, on_length = 7, off_length = 6, countdown = 0, status = 0\<rparr>"

lemma fish_on_ex: "\<exists>s. fish_on l s \<and> mp1_set_video_mode fv (on_mem (ece391_memset (blink_array fv) 0 (16 * 80 * 25)) (fish_boot l)) = Some (0x8800000, s)"
proof -
  obtain s where s: "mp1_set_video_mode fv (on_mem (ece391_memset (blink_array fv) 0 (16 * 80 * 25)) (fish_boot l)) = Some (0x8800000, s)"
    "animates fv s [] (cells (mem (fish_boot l)))"
    "mem s = st32 (blit (mem (fish_boot l)) (blink_array fv) (replicate 32000 0)) (vmem_base_addr fv) 0x8800000"
    using fish_starts [OF fv_ok fish_boot_ok] by blast
  have "mem s (0x8300040 + i) = fish_mem l (0x8300040 + i)" if "i < 12" for i
    unfolding s(3) by (simp add: st32_other blit_def fish_boot_def)
  then have "blink_at (mem s) 0x8300040 = blink_at (fish_mem l) 0x8300040" by (rule blink_at_cong)
  moreover have "blink_at (fish_mem l) 0x8300040 =
      \<lparr>location = ucast l, on_char = 73, off_char = 77, on_length = 7, off_length = 6, countdown = 0, status = 0\<rparr>"
    by (simp add: blink_at_def ld16_def fish_mem_def)
  ultimately show ?thesis using s(1,2) by (auto simp: fish_on_def fish_cells)
qed


section \<open>Properties\<close>





text \<open>C24: adding a record and removing it again.  A record with a valid location that is not in use is
  accepted while there is room, is shown and becomes the first of the list with its counter started;
  removing its location succeeds and leaves the list as it was.\<close>

theorem blink_add_remove:
  assumes "animates v s bs cs" and "blink_at (mem s) (unat arg) = b" and "disjoint_rng (stack_struct v) 16 (unat arg) 16"
    and "location b < 2000" "location b \<noteq> 0" "length bs < 2000"
  shows "\<exists>s1 s2. mp1_ioctl v arg 0 s = Some (0, s1) \<and> animates v s1 (fresh b # bs) (cs[unat (location b) := on_char b]) \<and>
    mp1_ioctl v (ucast (location b)) 1 s1 = Some (0, s2) \<and> animates v s2 bs (cs[unat (location b) := on_char b])"
proof -
  obtain s1 where s1: "mp1_ioctl_add v (unat arg) s = Some (0, s1)" "animates v s1 (fresh b # bs) (cs[unat (location b) := on_char b])"
    using add_adds [OF assms(1,3,2,4-6)] by blast
  have "has_loc (ucast (ucast (location b) :: u32)) (fresh b # bs)" by (simp add: has_loc_def fresh_def ucast_up_down)
  from remove_removes [OF s1(2) this] s1 show ?thesis by (auto simp: mp1_ioctl_def fresh_def ucast_up_down)
qed

theorem blink_add_remove_witness:
  "\<exists>s s1 s2. fish_on 60 s \<and> mp1_ioctl fv 0x8300040 0 s = Some (0, s1) \<and> mp1_ioctl fv 60 1 s1 = Some (0, s2) \<and>
    animates fv s2 [] ((replicate 2000 0)[60 := 73])"
proof -
  obtain s where s: "fish_on 60 s" using fish_on_ex by blast
  let ?b = "\<lparr>location = 60, on_char = 73, off_char = 77, on_length = 7, off_length = 6, countdown = 0, status = 0\<rparr>"
  have a: "animates fv s [] (replicate 2000 0)" and b: "blink_at (mem s) (unat (0x8300040 :: u32)) = ?b"
    using s by (simp_all add: fish_on_def)
  from blink_add_remove [OF a b] s show ?thesis by (auto simp: disjoint_rng_def)
qed

text \<open>\<open>RTC_SYNC\<close> shows the wrong character.  The second record takes over the periods, the counter
  and the state of the first, but the character drawn is its \<open>off_char\<close>, also when the state
  is on.\<close>

theorem blink_sync_shows_off:
  assumes "animates v s bs cs" and "has_loc (ucast (drop_bit 16 arg)) bs" "has_loc (ucast arg) bs"
  shows "\<exists>s' a b. a \<in> set bs \<and> location a = ucast (drop_bit 16 arg) \<and> b \<in> set bs \<and> location b = ucast arg \<and>
    mp1_ioctl v arg 3 s = Some (0, s') \<and>
    animates v s' (upd_loc (ucast arg) (take_times a) bs) (cs[unat (location b) := off_char b])"
  using sync_copies [OF assms] by (fastforce simp: mp1_ioctl_def)

theorem blink_sync_shows_off_witness:
  "\<exists>s s1 s2 bs. fish_on 60 s \<and> mp1_ioctl fv 0x8300040 0 s = Some (0, s1) \<and> mp1_ioctl fv 0x3C003C 3 s1 = Some (0, s2) \<and>
    animates fv s2 bs ((replicate 2000 0)[60 := 77]) \<and> face (hd bs) = 73"
proof -
  obtain s where s: "fish_on 60 s" using fish_on_ex by blast
  let ?b = "\<lparr>location = 60, on_char = 73, off_char = 77, on_length = 7, off_length = 6, countdown = 0, status = 0\<rparr>"
  have "animates fv s [] (replicate 2000 0)" "blink_at (mem s) 0x8300040 = ?b" using s by (simp_all add: fish_on_def)
  from add_adds [OF this(1) _ this(2)] obtain s1 where
    s1: "mp1_ioctl_add fv 0x8300040 s = Some (0, s1)" "animates fv s1 [fresh ?b] ((replicate 2000 0)[60 := 73])"
    by (auto simp: disjoint_rng_def)
  have l: "ucast (drop_bit 16 0x3C003C :: u32) = (60 :: u16)" "ucast (0x3C003C :: u32) = (60 :: u16)" by simp_all
  have h: "has_loc 60 [fresh ?b]" by (simp add: has_loc_def fresh_def)
  from blink_sync_shows_off [OF s1(2), of "0x3C003C", unfolded l, OF h h] obtain s2 where
    s2: "mp1_ioctl fv 0x3C003C 3 s1 = Some (0, s2)" "animates fv s2 [fresh ?b] ((replicate 2000 0)[60 := 77])"
    by (auto simp: fresh_def take_times_def)
  have "mp1_ioctl fv 0x8300040 0 s = Some (0, s1)" using s1(1) by (simp add: mp1_ioctl_def)
  moreover have "face (hd [fresh ?b]) = 73" by (simp add: face_def fresh_def)
  ultimately show ?thesis using s s2 by blast
qed

text \<open>Location 0 is valid for \<open>RTC_ADD\<close> but also marks the free elements of the array: after two
  records have been added at location 0 the list has become a circle and the clock routine never returns.\<close>

theorem blink_zero_never_returns:
  assumes "animates v s bs cs" and "length bs < 2000" and "location (blink_at (mem s) (unat arg)) = 0"
    and "disjoint_rng (stack_struct v) 16 (unat arg) 16" "disjoint_rng (unat arg) 16 (blink_array v) 32000"
      "disjoint_rng (unat arg) 16 (mp1_list_head v) 4" "disjoint_rng (unat arg) 16 VIDEO 4096"
  shows "\<exists>s1 s2. mp1_ioctl v arg 0 s = Some (0, s1) \<and> mp1_ioctl v arg 0 s1 = Some (0, s2) \<and> mp1_rtc_tasklet v s2 = None"
proof -
  obtain s1 s2 where "mp1_ioctl_add v (unat arg) s = Some (0, s1)" "mp1_ioctl_add v (unat arg) s1 = Some (0, s2)"
    "mp1_rtc_tasklet v s2 = None" by (rule add_zero_twice [OF assms])
  then show ?thesis by (simp add: mp1_ioctl_def)
qed

theorem blink_zero_never_returns_witness:
  "\<exists>s s1 s2. fish_on 0 s \<and> mp1_ioctl fv 0x8300040 0 s = Some (0, s1) \<and> mp1_ioctl fv 0x8300040 0 s1 = Some (0, s2) \<and>
    mp1_rtc_tasklet fv s2 = None"
proof -
  obtain s where s: "fish_on 0 s" using fish_on_ex by blast
  have a: "animates fv s [] (replicate 2000 0)" and b: "location (blink_at (mem s) (unat (0x8300040 :: u32))) = 0"
    using s by (simp_all add: fish_on_def)
  from blink_zero_never_returns [OF a _ b] s show ?thesis by (auto simp: disjoint_rng_def VIDEO_def)
qed

end
