(* ===== verification/Emulation.thy ===== *)
theory Emulation
  imports User_Programs
begin

text \<open>
  The emulation layer \<open>ece391emulate.c\<close>, which implements the system calls of the user programs on a
  Linux host, with one process of the host per program.  The kernel and the C library of the host are
  the parameter \<open>libc\<close> over a type \<open>'w\<close> of host states: the trap, the directory functions, \<open>open\<close>,
  \<open>close\<close>, \<open>mmap\<close>, and \<open>run_child\<close>, which is \<open>fork\<close>, \<open>execv\<close> (or a signal 9 when that fails)
  in the child and \<open>wait\<close> in the parent.  The static variables of the file and the memory of the
  process are the record \<open>emu\<close>.
\<close>

section \<open>State and host\<close>

record 'w emu =
  emem :: mem
  host :: 'w
  start_esp :: addr
  dir_fd :: int
  dir :: addr
  mem_fd :: int

record 'w libc =
  int80 :: "u32 \<Rightarrow> u32 \<Rightarrow> u32 \<Rightarrow> u32 \<Rightarrow> mem \<times> 'w \<Rightarrow> u32 \<times> mem \<times> 'w"
  opendir :: "string \<Rightarrow> 'w \<Rightarrow> addr \<times> 'w"
  readdir :: "addr \<Rightarrow> mem \<times> 'w \<Rightarrow> addr \<times> mem \<times> 'w"
  closedir :: "addr \<Rightarrow> 'w \<Rightarrow> int \<times> 'w"
  host_open :: "string \<Rightarrow> u32 \<Rightarrow> 'w \<Rightarrow> int \<times> 'w"
  host_close :: "int \<Rightarrow> 'w \<Rightarrow> int \<times> 'w"
  mmap :: "nat \<Rightarrow> int \<Rightarrow> 'w \<Rightarrow> addr option \<times> 'w"
  run_child :: "addr \<Rightarrow> addr list \<Rightarrow> mem \<times> 'w \<Rightarrow> u32 \<times> 'w"

text \<open>\<open>readdir\<close> gives the address of \<open>d_name\<close>, or 0 for \<open>NULL\<close>.  The status of a child is
  decoded as by the macros of \<open>sys/wait.h\<close>.\<close>

definition WTERMSIG :: "u32 \<Rightarrow> u32" where "WTERMSIG st = st AND 0x7F"
definition WIFEXITED :: "u32 \<Rightarrow> bool" where "WIFEXITED st \<longleftrightarrow> WTERMSIG st = 0"
definition WEXITSTATUS :: "u32 \<Rightarrow> u32" where "WEXITSTATUS st = drop_bit 8 (st AND 0xFF00)"


section \<open>The calls\<close>

definition emu_DO_CALL :: "'w libc \<Rightarrow> u32 \<Rightarrow> u32 \<Rightarrow> u32 \<Rightarrow> u32 \<Rightarrow> 'w emu \<Rightarrow> int \<times> 'w emu" where
  "emu_DO_CALL H number a b c e =
     (let (eax, m, w) = int80 H number a b c (emem e, host e)
      in (if eax \<le> 0xFFFFC000 then sint eax else -1, e\<lparr>emem := m, host := w\<rparr>))"

definition emu_halt :: "'w libc \<Rightarrow> int \<Rightarrow> 'w emu \<Rightarrow> int \<times> 'w emu" where
  "emu_halt H status = emu_DO_CALL H 1 (of_int status) 0 0"

text \<open>\<open>_start\<close> records the initial stack pointer, where the host has put \<open>argc\<close> and \<open>argv\<close>.\<close>

definition emu_start :: "'w libc \<Rightarrow> addr \<Rightarrow> ('w emu \<Rightarrow> (int \<times> 'w emu) option) \<Rightarrow> 'w emu \<Rightarrow> (int \<times> 'w emu) option" where
  "emu_start H sp main e = do { (r, e) \<leftarrow> main (e\<lparr>start_esp := sp\<rparr>); Some (emu_halt H r e) }"

partial_function (option) word_end :: "mem \<Rightarrow> addr \<Rightarrow> addr option" where
  "word_end m scan = (if m scan \<noteq> 0 \<and> m scan \<noteq> 32 \<and> m scan \<noteq> 10 then word_end m (scan + 1) else Some scan)"

partial_function (option) blanks_end :: "mem \<Rightarrow> addr \<Rightarrow> addr option" where
  "blanks_end m scan = (if m scan = 32 then blanks_end m (scan + 1) else Some scan)"

text \<open>The array \<open>args\<close> has 1024 elements.\<close>

partial_function (option) parse_args :: "addr list \<Rightarrow> addr \<Rightarrow> mem \<Rightarrow> (addr list \<times> mem) option" where
  "parse_args args scan m = do {
     scan \<leftarrow> blanks_end m scan;
     if m scan = 0 \<or> m scan = 10 then Some (args, m(scan := 0))
     else if 1024 \<le> length args then None
     else do {
       let args = args @ [scan];
       scan \<leftarrow> word_end m scan;
       if m scan \<noteq> 0 then parse_args args (scan + 1) (m(scan := 0)) else parse_args args scan m } }"

definition split_command :: "addr \<Rightarrow> addr \<Rightarrow> mem \<Rightarrow> (addr list \<times> mem) option" where
  "split_command buf command m = do {
     m \<leftarrow> ece391_strcpy (buf + 2) command (m(buf := 46, buf + 1 := 47));
     scan \<leftarrow> word_end m (buf + 2);
     if m scan \<noteq> 0 then parse_args [buf] (scan + 1) (m(scan := 0)) else Some ([buf], m) }"

definition emu_execute :: "'w libc \<Rightarrow> addr \<Rightarrow> addr \<Rightarrow> 'w emu \<Rightarrow> (int \<times> 'w emu) option" where
  "emu_execute H buf command e = do {
     n \<leftarrow> ece391_strlen (emem e) command;
     if 1023 < n then Some (-1, e)
     else do {
       (args, m) \<leftarrow> split_command buf command (emem e);
       if 1024 \<le> length args then None
       else do {
         let (status, w) = run_child H buf args (m, host e);
         Some (if WIFEXITED status then sint (WEXITSTATUS status) else if WTERMSIG status = 9 then -1 else 256,
           e\<lparr>emem := m, host := w\<rparr>) } } }"

definition emu_open :: "'w libc \<Rightarrow> addr \<Rightarrow> addr \<Rightarrow> 'w emu \<Rightarrow> (int \<times> 'w emu) option" where
  "emu_open H dot fname e = do {
     c \<leftarrow> ece391_strcmp (emem e) fname dot;
     if c = 0 then (let (d, w) = opendir H ''.'' (host e); (fd, w) = host_open H ''/dev/null'' 0 w
                    in Some (fd, e\<lparr>host := w, dir := d, dir_fd := fd\<rparr>))
     else (let (rval, m, w) = int80 H 5 (of_nat fname) 0 0 (emem e, host e)
           in Some (if rval > 0xFFFFC000 then -1 else sint rval, e\<lparr>emem := m, host := w\<rparr>)) }"

definition args_end :: "addr \<Rightarrow> int \<Rightarrow> mem \<Rightarrow> int \<times> mem" where
  "args_end buf nbytes m = (if nbytes < 1 then (-1, m) else (0, m(buf := 0)))"

partial_function (option) getargs_loop :: "addr \<Rightarrow> int \<Rightarrow> int \<Rightarrow> addr \<Rightarrow> int \<Rightarrow> mem \<Rightarrow> (int \<times> mem) option" where
  "getargs_loop argv idx argc buf nbytes m =
     (if idx < argc
      then do {
        len \<leftarrow> ece391_strlen m (unat (ld32 m (argv + 4 * nat idx)));
        if int len > nbytes then Some (-1, m)
        else do {
          m \<leftarrow> ece391_strcpy buf (unat (ld32 m (argv + 4 * nat idx))) m;
          if idx + 1 \<ge> argc then Some (args_end (buf + len) (nbytes - int len) m)
          else if nbytes - int len < 1 then Some (-1, m)
          else getargs_loop argv (idx + 1) argc (buf + len + 1) (nbytes - int len - 1) (m(buf + len := 32)) } }
      else Some (args_end buf nbytes m))"

definition emu_getargs :: "addr \<Rightarrow> int \<Rightarrow> 'w emu \<Rightarrow> (int \<times> 'w emu) option" where
  "emu_getargs buf nbytes e = do {
     (r, m) \<leftarrow> getargs_loop (start_esp e + 4) 1 (sint (ld32 (emem e) (start_esp e))) buf nbytes (emem e);
     Some (r, e\<lparr>emem := m\<rparr>) }"

definition emu_vidmap :: "'w libc \<Rightarrow> addr \<Rightarrow> 'w emu \<Rightarrow> int \<times> 'w emu" where
  "emu_vidmap H screen_start e =
     (let e = (if mem_fd e = -1 then (let (fd, w) = host_open H ''/dev/mem'' 2 (host e) in e\<lparr>mem_fd := fd, host := w\<rparr>) else e);
          (mem_image, w) = mmap H (1024 * 1024) (mem_fd e) (host e)
      in case mem_image of
           None \<Rightarrow> (-1, e\<lparr>host := w\<rparr>)
         | Some p \<Rightarrow> (0, e\<lparr>host := w, emem := st32 (emem e) screen_start (of_nat (p + 0xB8000))\<rparr>))"

text \<open>The name of a directory entry, at most 32 bytes, then filled up with zeros.\<close>

partial_function (option) copy_name :: "addr \<Rightarrow> addr \<Rightarrow> int \<Rightarrow> int \<Rightarrow> mem \<Rightarrow> (int \<times> bool \<times> mem) option" where
  "copy_name from to copied nbytes m =
     (if m from \<noteq> 0
      then (let m = m(to := m from); copied = copied + 1
            in if copied = nbytes then Some (nbytes, True, m)
               else if copied = 32 then Some (32, True, m)
               else copy_name (from + 1) (to + 1) copied nbytes m)
      else Some (copied, False, m))"

function pad_name :: "addr \<Rightarrow> int \<Rightarrow> int \<Rightarrow> mem \<Rightarrow> int \<times> mem" where
  "pad_name to copied nbytes m =
     (if nbytes > copied \<and> 32 > copied then pad_name (to + 1) (copied + 1) nbytes (m(to := 0)) else (copied, m))"
  by pat_completeness auto
termination by (relation "measure (\<lambda>(to, copied, nbytes, m). nat (32 - copied))") auto

declare pad_name.simps [simp del]

definition emu_read :: "'w libc \<Rightarrow> int \<Rightarrow> addr \<Rightarrow> int \<Rightarrow> 'w emu \<Rightarrow> (int \<times> 'w emu) option" where
  "emu_read H fd buf nbytes e =
     (if dir e = 0 \<or> dir_fd e \<noteq> fd then Some (emu_DO_CALL H 3 (of_int fd) (of_nat buf) (of_int nbytes) e)
      else (let (de, m, w) = readdir H (dir e) (emem e, host e); e = e\<lparr>emem := m, host := w\<rparr>
            in if de = 0 then Some (0, e)
               else do {
                 (copied, done, m) \<leftarrow> copy_name de buf 0 nbytes m;
                 if done then Some (copied, e\<lparr>emem := m\<rparr>)
                 else (let (copied, m) = pad_name (buf + nat copied) copied nbytes m in Some (copied, e\<lparr>emem := m\<rparr>)) }))"

definition emu_write :: "'w libc \<Rightarrow> int \<Rightarrow> addr \<Rightarrow> int \<Rightarrow> 'w emu \<Rightarrow> int \<times> 'w emu" where
  "emu_write H fd buf nbytes e =
     (if dir e = 0 \<or> dir_fd e \<noteq> fd then emu_DO_CALL H 4 (of_int fd) (of_nat buf) (of_int nbytes) e else (-1, e))"

definition emu_close :: "'w libc \<Rightarrow> int \<Rightarrow> 'w emu \<Rightarrow> int \<times> 'w emu" where
  "emu_close H fd e =
     (if dir e = 0 \<or> dir_fd e \<noteq> fd then emu_DO_CALL H 6 (of_int fd) 0 0 e
      else (let (r, w) = closedir H (dir e) (host e); (r, w) = host_close H (dir_fd e) w
            in (0, e\<lparr>host := w, dir := 0, dir_fd := -1\<rparr>)))"


section \<open>Commands\<close>

text \<open>A command line of words separated by single blanks.\<close>

definition is_word :: "u8 list \<Rightarrow> bool" where
  "is_word w \<longleftrightarrow> w \<noteq> [] \<and> 0 \<notin> set w \<and> 32 \<notin> set w \<and> 10 \<notin> set w"

fun join_words :: "u8 list list \<Rightarrow> u8 list" where
  "join_words [] = []"
| "join_words [w] = w"
| "join_words (w # ws) = w @ 32 # join_words ws"

lemma join_Cons: "join_words (w # ws) = w @ (if ws = [] then [] else 32 # join_words ws)"
  by (cases ws) auto

lemma word_end_word:
  assumes "bytes_at m s (length w) = w" "is_word w" "m (s + length w) \<in> {0, 32, 10}"
  shows "word_end m s = Some (s + length w)"
proof -
  have "\<forall>c \<in> set w. c \<noteq> 0 \<and> c \<noteq> 32 \<and> c \<noteq> 10 \<Longrightarrow> bytes_at m s (length w) = w \<Longrightarrow> m (s + length w) \<in> {0, 32, 10} \<Longrightarrow> ?thesis"
  proof (induction w arbitrary: s)
    case Nil
    then show ?case by (subst word_end.simps) auto
  next
    case (Cons c w)
    then have "word_end m (Suc s) = Some (Suc s + length w)" "m s = c" by (simp_all add: bytes_at_Suc)
    with Cons.prems show ?case by (subst word_end.simps) simp
  qed
  then show ?thesis using assms by (auto simp: is_word_def)
qed

lemma joined_word:
  assumes "cstr m s (join_words (w # ws))"
  shows "bytes_at m s (length w) = w" "m (s + length w) = (if ws = [] then 0 else 32)"
proof -
  let ?j = "join_words (w # ws)"
  have str: "bytes_at m s (length ?j) = ?j" "m (s + length ?j) = 0" using assms by (simp_all add: dstr_def)
  then show "bytes_at m s (length w) = w" by (auto simp: join_Cons bytes_at_append split: if_splits)
  show "m (s + length w) = (if ws = [] then 0 else 32)"
  proof (cases "ws = []")
    case False
    then have "?j ! length w = 32" "length w < length ?j" by (simp_all add: join_Cons)
    then show ?thesis using str(1) nth_bytes_at [of "length w" "length ?j" m s] False by simp
  qed (use str(2) in simp)
qed

text \<open>The arguments found behind a word: their addresses hold the words, each with a terminator.\<close>

lemma parse_args_words:
  assumes "cstr m scan (join_words ws)" and "\<forall>w \<in> set ws. is_word w" and "length args + length ws \<le> 1024"
  shows "\<exists>as m'. parse_args args scan m = Some (args @ as, m') \<and> list_all2 (cstr m') as ws \<and>
    (\<forall>a. a < scan \<or> scan + length (join_words ws) < a \<longrightarrow> m' a = m a)"
  using assms
proof (induction ws arbitrary: scan m args)
  case Nil
  then have "blanks_end m scan = Some scan" by (subst blanks_end.simps) simp
  then show ?case using Nil by (subst parse_args.simps) (auto intro!: exI [of _ "[]"])
next
  case (Cons w ws)
  let ?j = "join_words (w # ws)" and ?e = "scan + length w"
  have w: "is_word w" "w \<noteq> []" using Cons.prems(2) by (auto simp: is_word_def)
  note first = joined_word [OF Cons.prems(1)]
  have bw: "bytes_at m scan (length w) = w" and e: "m ?e = (if ws = [] then 0 else 32)" by (rule first)+
  have h: "m scan = hd w" "hd w \<in> set w" using w(2) bw by (cases w; simp add: bytes_at_Suc)+
  then have c: "m scan \<noteq> 0" "m scan \<noteq> 32" "m scan \<noteq> 10" using w(1) unfolding is_word_def by metis+
  then have b: "blanks_end m scan = Some scan" by (subst blanks_end.simps) simp
  have we: "word_end m scan = Some ?e" by (rule word_end_word [OF bw w(1)]) (simp add: e)
  define args' where "args' = args @ [scan]"
  have len: "length args' + length ws \<le> 1024" "length args < 1024" using Cons.prems(3) by (simp_all add: args'_def)
  show ?case
  proof (cases "ws = []")
    case True
    have "blanks_end m ?e = Some ?e" using e True by (subst blanks_end.simps) simp
    then have "parse_args args' ?e m = Some (args', m)" using e True by (subst parse_args.simps) (simp add: fun_upd_idem)
    then have "parse_args args scan m = Some (args', m)"
      using b c we e True len(2) by (subst parse_args.simps) (simp add: args'_def)
    moreover have "cstr m scan w" using bw e True w(1) by (simp add: dstr_def is_word_def)
    ultimately show ?thesis using True by (intro exI [of _ "[scan]"]) (simp add: args'_def)
  next
    case False
    let ?m = "m(?e := 0)"
    have j: "?j = w @ 32 # join_words ws" using False by (simp add: join_Cons)
    have "cstr m (scan + (length w + 1)) (drop (length w + 1) ?j)"
      using dstr_drop [OF Cons.prems(1), of "length w + 1"] by (simp add: j)
    then have "cstr m (?e + 1) (join_words ws)" by (simp add: j)
    then have "cstr ?m (?e + 1) (join_words ws)" by (rule dstr_cong) simp
    moreover have "\<forall>x \<in> set ws. is_word x" using Cons.prems(2) by simp
    ultimately obtain as m' where
      m': "parse_args args' (?e + 1) ?m = Some (args' @ as, m')" "list_all2 (cstr m') as ws"
      and out: "\<And>a. a < ?e + 1 \<or> ?e + 1 + length (join_words ws) < a \<Longrightarrow> m' a = ?m a" using Cons.IH [OF _ _ len(1)] by blast
    have "parse_args args scan m = Some (args @ (scan # as), m')"
      using b c we e False len(2) m'(1) by (subst parse_args.simps) (simp add: args'_def)
    moreover have "bytes_at m' scan (length w) = w"
      using bytes_at_eqI [of "length w" m' scan m scan] out bw by simp
    then have "cstr m' scan w" using out [of ?e] w(1) by (simp add: dstr_def is_word_def)
    moreover have "\<forall>a. a < scan \<or> scan + length ?j < a \<longrightarrow> m' a = m a" using out by (auto simp: j)
    ultimately show ?thesis using m'(2) by blast
  qed
qed

text \<open>The whole of it: the path and the arguments that the host is given.\<close>

lemma split_command_words:
  assumes str: "cstr m command (join_words (w # ws))" and ws: "\<forall>x \<in> set (w # ws). is_word x"
    and n: "length (join_words (w # ws)) \<le> 1023" and apart: "disjoint_rng buf 1026 command (length (join_words (w # ws)) + 1)"
  shows "\<exists>as m'. split_command buf command m = Some (as, m') \<and> list_all2 (cstr m') as ((46 # 47 # w) # ws) \<and> hd as = buf \<and> length as < 1024"
proof -
  let ?j = "join_words (w # ws)" and ?m0 = "m(buf := 46, buf + 1 := 47)"
  have s0: "cstr ?m0 command ?j" by (rule dstr_cong [OF str]) (use apart in \<open>auto simp: disjoint_rng_def\<close>)
  define m1 where "m1 = blit ?m0 (buf + 2) (?j @ [0])"
  have cp: "ece391_strcpy (buf + 2) command ?m0 = Some m1"
    unfolding m1_def by (rule ece391_strcpy_blit [OF s0]) (use apart n in \<open>auto simp: disjoint_rng_def\<close>)
  have s1: "cstr m1 (buf + 2) ?j" unfolding m1_def by (rule dstr_blit) (use str in \<open>simp add: dstr_def\<close>)
  have pre: "m1 buf = 46" "m1 (buf + 1) = 47" by (simp_all add: m1_def blit_below)
  have count: "length (join_words xs) \<ge> length xs" if "\<forall>x \<in> set xs. is_word x" for xs
    using that by (induction xs) (auto simp: join_Cons is_word_def Suc_le_eq length_greater_0_conv simp del: length_greater_0_conv)
  from count [OF ws] n have k: "length ws < 1023" by simp
  let ?e = "buf + 2 + length w"
  have w: "is_word w" using ws by simp
  have bw: "bytes_at m1 (buf + 2) (length w) = w" and e: "m1 ?e = (if ws = [] then 0 else 32)" by (rule joined_word [OF s1])+
  have we: "word_end m1 (buf + 2) = Some ?e" by (rule word_end_word [OF bw w]) (use e in auto)
  have path: "cstr m' buf (46 # 47 # w)" if "m' ?e = 0" "\<And>a. a < ?e \<Longrightarrow> m' a = m1 a" for m'
  proof -
    have "bytes_at m' (Suc (Suc buf)) (length w) = w"
      using bytes_at_eqI [of "length w" m' "buf + 2" m1 "buf + 2"] that(2) bw by simp
    then show ?thesis using that pre w by (simp add: dstr_def bytes_at_Suc is_word_def)
  qed
  show ?thesis
  proof (cases "ws = []")
    case True
    have "split_command buf command m = Some ([buf], m1)" using cp we e True by (simp add: split_command_def)
    moreover have "cstr m1 buf (46 # 47 # w)" by (rule path) (use e True in auto)
    ultimately show ?thesis using True by (intro exI [of _ "[buf]"]) simp
  next
    case False
    let ?m = "m1(?e := 0)"
    have "cstr m1 (buf + 2 + (length w + 1)) (drop (length w + 1) ?j)"
      by (rule dstr_drop [OF s1]) (simp add: join_Cons False)
    then have "cstr m1 (?e + 1) (join_words ws)" using False by (simp add: join_Cons)
    then have "cstr ?m (?e + 1) (join_words ws)" by (rule dstr_cong) simp
    moreover have "\<forall>x \<in> set ws. is_word x" "length [buf] + length ws \<le> 1024" using ws k by simp_all
    ultimately obtain as m' where
      m': "parse_args [buf] (?e + 1) ?m = Some ([buf] @ as, m')" "list_all2 (cstr m') as ws"
      and out: "\<And>a. a < ?e + 1 \<or> ?e + 1 + length (join_words ws) < a \<Longrightarrow> m' a = ?m a"
      using parse_args_words by blast
    have "split_command buf command m = Some (buf # as, m')" using cp we e False m'(1) by (simp add: split_command_def)
    moreover have "cstr m' buf (46 # 47 # w)" by (rule path) (use out in auto)
    moreover have "length as = length ws" using m'(2) by (rule list_all2_lengthD)
    ultimately show ?thesis using m'(2) k by (intro exI [of _ "buf # as"]) auto
  qed
qed


text \<open>The kernel takes the same word and the same arguments from such a line.\<close>

lemma kernel_words:
  assumes "\<forall>x \<in> set (w # ws). is_word x"
  shows "cmd_word (join_words (w # ws)) = w" "cmd_args (join_words (w # ws)) = join_words ws"
proof -
  have w: "w \<noteq> []" "32 \<notin> set w" using assms by (auto simp: is_word_def)
  let ?t = "if ws = [] then [] else 32 # join_words ws"
  have start: "dropWhile (\<lambda>c. c = 32) (w @ ?t) = w @ ?t" using w by (cases w) auto
  have all: "\<And>c. c \<in> set w \<Longrightarrow> c \<noteq> 32" using w(2) by auto
  have tk: "takeWhile (\<lambda>c. c \<noteq> 32) (w @ ?t) = w" using all by (subst takeWhile_append2) auto
  have dr: "dropWhile (\<lambda>c. c \<noteq> 32) (w @ ?t) = ?t" using all by (subst dropWhile_append2) auto
  show "cmd_word (join_words (w # ws)) = w" unfolding cmd_word_def join_Cons start by (rule tk)
  have "dropWhile (\<lambda>c. c = 32) (join_words ws) = join_words ws"
  proof (cases ws)
    case (Cons x xs)
    then have "x \<noteq> []" "hd x \<noteq> 32" using assms by (auto simp: is_word_def) (metis hd_in_set)
    then show ?thesis using Cons by (cases x) (auto simp: join_Cons)
  qed simp
  then show "cmd_args (join_words (w # ws)) = join_words ws" unfolding cmd_args_def join_Cons start dr by auto
qed


section \<open>Arguments\<close>

text \<open>\<open>argc\<close> and \<open>argv\<close> as the host leaves them on the stack of a program.\<close>

definition argv_at :: "mem \<Rightarrow> addr \<Rightarrow> u8 list list \<Rightarrow> bool" where
  "argv_at m sp ws \<longleftrightarrow> ld32 m sp = of_nat (length ws) \<and> length ws < 2 ^ 31 \<and>
     (\<forall>i < length ws. cstr m (unat (ld32 m (sp + 4 + 4 * i))) (ws ! i))"

text \<open>A buffer that does not meet them.\<close>

definition argv_apart :: "mem \<Rightarrow> addr \<Rightarrow> u8 list list \<Rightarrow> addr \<Rightarrow> nat \<Rightarrow> bool" where
  "argv_apart m sp ws buf n \<longleftrightarrow> disjoint_rng buf n (sp + 4) (4 * length ws) \<and>
     (\<forall>i < length ws. disjoint_rng buf n (unat (ld32 m (sp + 4 + 4 * i))) (length (ws ! i) + 1))"

lemma getargs_joins:
  assumes "ws \<noteq> []" and "\<And>j. j < length ws \<Longrightarrow> cstr m (unat (ld32 m (argv + 4 * (i + j)))) (ws ! j)"
    and "disjoint_rng buf (length (join_words ws) + 1) (argv + 4 * i) (4 * length ws)"
    and "\<And>j. j < length ws \<Longrightarrow> disjoint_rng buf (length (join_words ws) + 1) (unat (ld32 m (argv + 4 * (i + j)))) (length (ws ! j) + 1)"
    and "int (length (join_words ws)) < nbytes"
  shows "getargs_loop argv (int i) (int (i + length ws)) buf nbytes m = Some (0, blit m buf (join_words ws @ [0]))"
  using assms
proof (induction ws arbitrary: i buf nbytes m)
  case (Cons w ws)
  let ?p = "unat (ld32 m (argv + 4 * i))" and ?m1 = "blit m buf (w @ [0])"
  have w: "cstr m ?p w" "disjoint_rng buf (length (join_words (w # ws)) + 1) ?p (length w + 1)"
    using Cons.prems(2,4) [of 0] by simp_all
  have len: "ece391_strlen m ?p = Some (length w)" by (rule ece391_strlen_cstr [OF w(1)])
  have cp: "ece391_strcpy buf ?p m = Some ?m1"
    by (rule ece391_strcpy_blit [OF w(1)]) (use w(2) in \<open>auto simp: disjoint_rng_def join_Cons split: if_splits\<close>)
  have fit: "int (length w) \<le> nbytes" using Cons.prems(5) by (simp add: join_Cons split: if_splits)
  have n: "nat (int i) = i" by simp
  show ?case
  proof (cases "ws = []")
    case True
    have "?m1(buf + length w := 0) = ?m1" by (rule fun_upd_idem) (simp add: blit_def nth_append)
    then show ?thesis using True len cp fit Cons.prems(5) by (subst getargs_loop.simps) (simp add: args_end_def)
  next
    case False
    let ?m2 = "?m1(buf + length w := 32)" and ?b = "buf + length w + 1"
    have m2: "?m2 = blit m buf (w @ [32])" by (auto simp: blit_def fun_eq_iff nth_append)
    have j: "join_words (w # ws) = w @ 32 # join_words ws" using False by (simp add: join_Cons)
    have ld: "ld32 ?m2 (argv + 4 * (i + 1 + k)) = ld32 m (argv + 4 * (i + 1 + k))" if "k < length ws" for k
      unfolding m2 by (rule ld32_blit) (use Cons.prems(3) that in \<open>auto simp: j disjoint_rng_def\<close>)
    have str: "cstr ?m2 (unat (ld32 m (argv + 4 * (i + 1 + k)))) (ws ! k)" if "k < length ws" for k
    proof (rule dstr_cong)
      show "cstr m (unat (ld32 m (argv + 4 * (i + 1 + k)))) (ws ! k)" using Cons.prems(2) [of "k + 1"] that by simp
      show "?m2 (unat (ld32 m (argv + 4 * (i + 1 + k))) + l) = m (unat (ld32 m (argv + 4 * (i + 1 + k))) + l)" if "l \<le> length (ws ! k)" for l
        unfolding m2 using Cons.prems(4) [of "k + 1"] \<open>k < length ws\<close> that by (auto simp: j disjoint_rng_def blit_def)
    qed
    have "getargs_loop argv (int (i + 1)) (int (i + 1 + length ws)) ?b (nbytes - int (length w) - 1) ?m2
        = Some (0, blit ?m2 ?b (join_words ws @ [0]))"
    proof (rule Cons.IH [OF False])
      show "cstr ?m2 (unat (ld32 ?m2 (argv + 4 * (i + 1 + k)))) (ws ! k)" if "k < length ws" for k
        unfolding ld [OF that] by (rule str [OF that])
      show "disjoint_rng ?b (length (join_words ws) + 1) (argv + 4 * (i + 1)) (4 * length ws)"
        using Cons.prems(3) by (auto simp: j disjoint_rng_def)
      show "disjoint_rng ?b (length (join_words ws) + 1) (unat (ld32 ?m2 (argv + 4 * (i + 1 + k)))) (length (ws ! k) + 1)"
        if "k < length ws" for k
        unfolding ld [OF that] using Cons.prems(4) [of "k + 1"] that by (auto simp: j disjoint_rng_def)
      show "int (length (join_words ws)) < nbytes - int (length w) - 1" using Cons.prems(5) by (simp add: j)
    qed
    moreover have "blit ?m2 ?b (join_words ws @ [0]) = blit m buf (join_words (w # ws) @ [0])"
      unfolding m2 using blit_append [of m buf "w @ [32]" "join_words ws @ [0]"] by (simp add: j)
    moreover have "\<not> nbytes - int (length w) < 1" using Cons.prems(5) by (simp add: j)
    ultimately show ?thesis using False len cp fit by (subst getargs_loop.simps) (simp add: add.commute)
  qed
qed simp

lemma getargs_gives:
  assumes "argv_at (emem e) (start_esp e) (p # ws)" and "argv_apart (emem e) (start_esp e) (p # ws) buf (length (join_words ws) + 1)"
    and "length (join_words ws) < n"
  shows "emu_getargs buf (int n) e = Some (0, e\<lparr>emem := blit (emem e) buf (join_words ws @ [0])\<rparr>)"
proof -
  let ?m = "emem e" and ?sp = "start_esp e"
  have sn: "k < 2 ^ 31 \<Longrightarrow> sint (of_nat k :: u32) = int k" for k using reg_int [of "int k"] by simp
  have "ld32 ?m ?sp = of_nat (length (p # ws))" "length (p # ws) < 2 ^ 31" using assms(1) unfolding argv_at_def by blast+
  then have argc: "sint (ld32 ?m ?sp) = int (1 + length ws)" using sn [of "length (p # ws)"] by (simp only: list.size)
  have "getargs_loop (?sp + 4) (int 1) (int (1 + length ws)) buf (int n) ?m = Some (0, blit ?m buf (join_words ws @ [0]))"
  proof (cases "ws = []")
    case True
    then show ?thesis using assms(3) by (subst getargs_loop.simps) (simp add: args_end_def blit_single)
  next
    case False
    show ?thesis
    proof (rule getargs_joins [OF False])
      show "cstr ?m (unat (ld32 ?m (?sp + 4 + 4 * (1 + j)))) (ws ! j)" if "j < length ws" for j
        using assms(1) that by (auto simp: argv_at_def dest!: spec [of _ "1 + j"])
      show "disjoint_rng buf (length (join_words ws) + 1) (?sp + 4 + 4 * 1) (4 * length ws)"
        using assms(2) by (auto simp: argv_apart_def disjoint_rng_def)
      show "disjoint_rng buf (length (join_words ws) + 1) (unat (ld32 ?m (?sp + 4 + 4 * (1 + j)))) (length (ws ! j) + 1)"
        if "j < length ws" for j
        using assms(2) that unfolding argv_apart_def by (auto dest!: spec [of _ "1 + j"])
    qed (use assms(3) in simp)
  qed
  then show ?thesis unfolding emu_getargs_def argc by simp
qed


section \<open>Directories\<close>

lemma copy_name_copies:
  assumes "cstr m src nm" and "disjoint_rng to (length nm) src (length nm + 1)" and "copied < min 32 n"
  shows "copy_name src to (int copied) (int n) m =
    Some (if min 32 n \<le> copied + length nm then (int (min 32 n), True, blit m to (take (min 32 n - copied) nm))
          else (int (copied + length nm), False, blit m to nm))"
  using assms
proof (induction nm arbitrary: src to copied m)
  case Nil
  then show ?case by (subst copy_name.simps) auto
next
  case (Cons c nm)
  let ?m = "m(to := c)"
  have c: "m src = c" "c \<noteq> 0" "cstr m (Suc src) nm" using Cons.prems(1) by (simp_all add: dstr_Cons)
  have s: "cstr ?m (src + 1) nm"
    by (rule dstr_cong [of _ m "src + 1"]) (use c(3) Cons.prems(2) in \<open>auto simp: disjoint_rng_def\<close>)
  show ?case
  proof (cases "copied + 1 = min 32 n")
    case True
    then have d: "min 32 n - copied = 1" "min 32 n \<le> copied + length (c # nm)" by auto
    have "int copied + 1 = int n \<or> int copied + 1 = 32 \<and> int copied + 1 \<noteq> int n" using True by (auto simp: min_def split: if_splits)
    then show ?thesis using c(1,2) True d by (subst copy_name.simps) (auto simp: Let_def blit_single)
  next
    case False
    then have lt: "copied + 1 < min 32 n" using Cons.prems(3) by linarith
    have "copy_name (src + 1) (to + 1) (int (copied + 1)) (int n) ?m =
      Some (if min 32 n \<le> copied + 1 + length nm then (int (min 32 n), True, blit ?m (to + 1) (take (min 32 n - (copied + 1)) nm))
          else (int (copied + 1 + length nm), False, blit ?m (to + 1) nm))"
      by (rule Cons.IH [OF s _ lt]) (use Cons.prems(2) in \<open>auto simp: disjoint_rng_def\<close>)
    moreover have "min 32 n - copied = Suc (min 32 n - (copied + 1))" using lt by linarith
    then have "take (min 32 n - copied) (c # nm) = c # take (min 32 n - (copied + 1)) nm" by simp
    moreover have "int copied + 1 \<noteq> int n" "int copied + 1 \<noteq> 32" using lt by auto
    ultimately show ?thesis using c(1,2) by (subst copy_name.simps) (simp add: Let_def blit_Cons add.commute)
  qed
qed

lemma pad_name_pads: "copied \<le> min 32 n \<Longrightarrow>
    pad_name to (int copied) (int n) m = (int (min 32 n), blit m to (replicate (min 32 n - copied) 0))"
proof (induction "min 32 n - copied" arbitrary: to copied m)
  case 0
  then show ?case by (subst pad_name.simps) auto
next
  case (Suc k)
  then have lt: "copied < min 32 n" "k = min 32 n - (copied + 1)" by auto
  have "pad_name (to + 1) (int (copied + 1)) (int n) (m(to := 0)) =
      (int (min 32 n), blit (m(to := 0)) (to + 1) (replicate (min 32 n - (copied + 1)) 0))"
    by (rule Suc.hyps(1)) (use lt in auto)
  moreover have "min 32 n - copied = Suc (min 32 n - (copied + 1))" using lt(1) by linarith
  ultimately show ?case using lt(1) by (subst pad_name.simps) (simp add: blit_Cons add.commute)
qed

text \<open>A read of the directory delivers the next name in a field of 32 bytes, cut to the size asked for.\<close>

lemma emu_read_dir:
  assumes d: "dir e \<noteq> 0" "dir_fd e = fd" and rd: "readdir H (dir e) (emem e, host e) = (de, m, w)" "de \<noteq> 0"
    and nm: "cstr m de nm" "disjoint_rng buf (length nm) de (length nm + 1)" and n: "0 < n"
  shows "emu_read H fd buf (int n) e =
    Some (int (min 32 n), e\<lparr>emem := blit m buf (take (min 32 n) (nm @ replicate 32 0)), host := w\<rparr>)"
proof -
  note c = copy_name_copies [OF nm, of 0 n]
  show ?thesis
  proof (cases "min 32 n \<le> length nm")
    case True
    then show ?thesis using d rd c n by (simp add: emu_read_def)
  next
    case False
    have p: "pad_name (buf + length nm) (int (length nm)) (int n) (blit m buf nm) =
        (int (min 32 n), blit (blit m buf nm) (buf + length nm) (replicate (min 32 n - length nm) 0))"
      by (rule pad_name_pads) (use False in linarith)
    have "take (min 32 n) (nm @ replicate 32 0) = nm @ replicate (min 32 n - length nm) 0" using False by (auto simp: min_def)
    then show ?thesis using d rd c n False p by (simp add: emu_read_def blit_append)
  qed
qed

end
