(* ===== verification/Emulation_Theorems.thy ===== *)
theory Emulation_Theorems
  imports Emulation
begin

text \<open>
  Properties of the emulation layer: a program sees the same command and the same arguments on the
  host as on the kernel.
\<close>



definition proc :: "unit emu" where
  "proc = \<lparr>emem = blit (\<lambda>a. 0) 0x1000 [108, 115, 32, 97, 32, 98, 0], host = (), start_esp = 0, dir_fd = -1, dir = 0, mem_fd = -1\<rparr>"



text \<open>A program that the host started with these words finds the argument string of the kernel in
  its buffer after \<open>getargs\<close>, if the buffer is large enough.\<close>

theorem emulated_getargs_matches:
  assumes "\<forall>x \<in> set (w # ws). is_word x" and "argv_at (emem e) (start_esp e) (p # ws)"
    and "argv_apart (emem e) (start_esp e) (p # ws) buf (length (join_words ws) + 1)" and "length (join_words ws) < n"
  shows "\<exists>e'. emu_getargs buf (int n) e = Some (0, e') \<and> cstr (emem e') buf (cmd_args (join_words (w # ws)))"
proof -
  have "0 \<notin> set (join_words xs)" if "\<forall>x \<in> set xs. is_word x" for xs
    using that by (induction xs) (auto simp: join_Cons is_word_def)
  then have "0 \<notin> set (join_words ws)" using assms(1) by simp
  then have "cstr (blit (emem e) buf (join_words ws @ [0])) buf (join_words ws)" by (rule dstr_blit)
  then show ?thesis using getargs_gives [OF assms(2-4)] kernel_words(2) [OF assms(1)] by simp
qed

definition child :: "unit emu" where
  "child = proc\<lparr>emem := blit (\<lambda>a. 0) 0x3000 [2, 0, 0, 0, 0x20, 0x30, 0, 0, 0x24, 0x30, 0, 0,
     0, 0, 0, 0, 0, 0, 0, 0, 0, 0, 0, 0, 0, 0, 0, 0, 0, 0, 0, 0, 46, 47, 108, 0, 97, 0], start_esp := 0x3000\<rparr>"

theorem emulated_getargs_matches_witness:
  "\<exists>e'. emu_getargs 0x2000 10 child = Some (0, e') \<and> cstr (emem e') 0x2000 [97]"
proof -
  have w: "\<forall>x \<in> set [[108], [97]]. is_word x" by (simp add: is_word_def)
  have m: "ld32 (emem child) 0x3000 = 2" "ld32 (emem child) 0x3004 = 0x3020" "ld32 (emem child) 0x3008 = 0x3024"
    by (simp_all add: child_def ld32_def blit_def)
  have c: "cstr (emem child) 0x3020 [46, 47, 108]" "cstr (emem child) 0x3024 [97]"
    by (simp_all add: dstr_Cons child_def blit_def)
  have sp: "start_esp child = 0x3000" by (simp add: child_def)
  have a: "argv_at (emem child) (start_esp child) [[46, 47, 108], [97]]"
    using c m by (simp add: argv_at_def sp less_Suc_eq)
  have b: "argv_apart (emem child) (start_esp child) [[46, 47, 108], [97]] 0x2000 (length (join_words [[97]]) + 1)"
    using m by (simp add: argv_apart_def sp disjoint_rng_def less_Suc_eq)
  from emulated_getargs_matches [OF w a b, of 10] show ?thesis by (simp add: cmd_args_def)
qed

end
