(* ===== verification/Wrappers.thy ===== *)
theory Wrappers
  imports Syscall_Gate Descriptors Scheduler Keyboard Devices
begin

text \<open>
  The assembly around the C code: \<open>syscall_wrapper.S\<close>, \<open>pit_wrapper.S\<close>, \<open>rtc_wrapper.S\<close>,
  \<open>keyboard_asm_wrapper.S\<close> and \<open>boot.S\<close>, instruction by instruction on a small machine: the general
  registers, the direction flag and the kernel state, whose memory holds the stack.  A compiled C function
  is a call that finds its arguments above the stack pointer and follows the calling convention;
  what it leaves in \<open>ecx\<close> and \<open>edx\<close> is a parameter.
\<close>

section \<open>The machine\<close>

datatype reg = EAX | ECX | EDX | EBX | ESP | EBP | ESI | EDI

record cpu =
  regs :: "reg \<Rightarrow> u32"
  df :: bool
  ks :: kstate

definition set_reg :: "reg \<Rightarrow> u32 \<Rightarrow> cpu \<Rightarrow> cpu" where
  "set_reg r v c = c\<lparr>regs := (regs c)(r := v)\<rparr>"

definition push :: "u32 \<Rightarrow> cpu \<Rightarrow> cpu" where
  "push v c = (let esp = regs c ESP - 4
               in set_reg ESP esp (c\<lparr>ks := (ks c)\<lparr>mem := st32 (mem (ks c)) (unat esp) v\<rparr>\<rparr>))"

text \<open>The word on top of the stack; \<open>popl\<close> raises the stack pointer before it writes its register.\<close>

definition top :: "cpu \<Rightarrow> u32" where
  "top c = ld32 (mem (ks c)) (unat (regs c ESP))"

definition pop :: "reg \<Rightarrow> cpu \<Rightarrow> cpu" where
  "pop r c = set_reg r (top c) (set_reg ESP (regs c ESP + 4) c)"

datatype instr = Pushl reg | Popl reg | Pushal | Popal | Cld | Cli | Sti | Addl_esp u32 | Movl reg u32
  | Mov_bl_cl | Xorl_ebx | Mov_cl_bl | Movw_cx u16

text \<open>\<open>pushal\<close> pushes the stack pointer from before, \<open>popal\<close> skips it.\<close>

fun step :: "instr \<Rightarrow> cpu \<Rightarrow> cpu" where
  "step (Pushl r) c = push (regs c r) c"
| "step (Popl r) c = pop r c"
| "step Pushal c = fold push [regs c EAX, regs c ECX, regs c EDX, regs c EBX, regs c ESP, regs c EBP, regs c ESI, regs c EDI] c"
| "step Popal c = (let c = fold pop [EDI, ESI, EBP] c
     in fold pop [EBX, EDX, ECX, EAX] (set_reg ESP (regs c ESP + 4) c))"
| "step Cld c = c\<lparr>df := False\<rparr>"
| "step Cli c = c\<lparr>ks := cli (ks c)\<rparr>"
| "step Sti c = c\<lparr>ks := sti (ks c)\<rparr>"
| "step (Addl_esp n) c = set_reg ESP (regs c ESP + n) c"
| "step (Movl r v) c = set_reg r v c"
| "step Mov_bl_cl c = set_reg ECX ((regs c ECX AND 0xFFFFFF00) OR (regs c EBX AND 0xFF)) c"
| "step Xorl_ebx c = set_reg EBX 0 c"
| "step Mov_cl_bl c = set_reg EBX ((regs c EBX AND 0xFFFFFF00) OR (regs c ECX AND 0xFF)) c"
| "step (Movw_cx v) c = set_reg ECX ((regs c ECX AND 0xFFFF0000) OR ucast v) c"


section \<open>The gate\<close>

definition save_regs :: "instr list" where
  "save_regs = [Pushl EAX, Pushl ECX, Pushl EDX, Pushl EBX, Pushl ESP, Pushl EBP, Pushl ESI, Pushl EDI, Cld]"

definition restore_regs :: "instr list" where
  "restore_regs = [Popl EDI, Popl ESI, Popl EBP, Popl ESP, Popl EBX, Popl EDX, Popl ECX, Addl_esp 4]"

definition push_args :: "instr list" where
  "push_args = [Pushl EDX, Pushl ECX, Pushl EBX, Sti]"

text \<open>A compiled function of three words: its result comes back in \<open>eax\<close>, unless it leaves the caller.\<close>

type_synonym c_function = "u32 \<Rightarrow> u32 \<Rightarrow> u32 \<Rightarrow> kstate \<Rightarrow> (outcome \<times> kstate) option"

definition c_call :: "u32 \<times> u32 \<Rightarrow> c_function \<Rightarrow> cpu \<Rightarrow> (outcome \<times> cpu) option" where
  "c_call clob f c = (let w = (\<lambda>i. ld32 (mem (ks c)) (unat (regs c ESP) + 4 * i)) in do {
     (r, s) \<leftarrow> f (w 0) (w 1) (w 2) (ks c);
     case r of
       Ret n \<Rightarrow> Some (r, c\<lparr>ks := s, regs := (regs c)(EAX := of_int n, ECX := fst clob, EDX := snd clob)\<rparr>)
     | _ \<Rightarrow> Some (r, c\<lparr>ks := s\<rparr>) })"

text \<open>The code behind the labels of the table: the call, and for a call that returns the way out.\<close>

definition call_branch :: "u32 \<times> u32 \<Rightarrow> c_function \<Rightarrow> cpu \<Rightarrow> (outcome \<times> cpu) option" where
  "call_branch clob f c = do {
     (r, c) \<leftarrow> c_call clob f c;
     case r of Ret n \<Rightarrow> Some (r, fold step (Addl_esp 12 # restore_regs) c) | _ \<Rightarrow> Some (r, c) }"

definition badcode :: "cpu \<Rightarrow> (outcome \<times> cpu) option" where
  "badcode c = Some (Ret (-1), fold step (restore_regs @ [Movl EAX (-1)]) c)"

text \<open>\<open>jmp *syscall_table(,%eax,4)\<close>; the words behind the table are code.\<close>

definition syscall_table :: "interrupts \<Rightarrow> u32 \<times> u32 \<Rightarrow> u32 \<Rightarrow> cpu \<Rightarrow> (outcome \<times> cpu) option" where
  "syscall_table hs clob eax c =
     (if eax = 0 then badcode c
      else if eax = 1 then call_branch clob (\<lambda>a b d. system_halt (ucast a)) (fold step [Mov_bl_cl, Xorl_ebx, Mov_cl_bl] c)
      else if eax = 2 then call_branch clob (\<lambda>a b d. system_execute (unat a)) c
      else if eax = 3 then call_branch clob (\<lambda>a b d s. as_ret (system_read hs (sint a) (unat b) (sint d) s)) c
      else if eax = 4 then call_branch clob (\<lambda>a b d s. as_ret (system_write (sint a) (unat b) (sint d) s)) c
      else if eax = 5 then call_branch clob (\<lambda>a b d s. as_ret (system_open (unat a) s)) c
      else if eax = 6 then call_branch clob (\<lambda>a b d s. as_ret (system_close (sint a) s)) c
      else if eax = 7 then call_branch clob (\<lambda>a b d s. as_ret (system_getargs (unat a) (sint b) s)) c
      else if eax = 8 then call_branch clob (\<lambda>a b d s. as_ret (system_vidmap (unat a) s)) c
      else None)"

text \<open>\<open>syscall_wrapper\<close>, up to its \<open>iret\<close>.\<close>

definition syscall_wrapper_code :: "interrupts \<Rightarrow> u32 \<times> u32 \<Rightarrow> cpu \<Rightarrow> (outcome \<times> cpu) option" where
  "syscall_wrapper_code hs clob c = (let c = fold step save_regs c in
     if regs c EAX > 10 then badcode c
     else if regs c EAX < 1 then badcode c
     else (let c = fold step push_args c in syscall_table hs clob (regs c EAX) c))"


section \<open>Interrupts\<close>

text \<open>The wrappers of the interrupt handlers, up to the \<open>iret\<close>.\<close>

definition keyboard_wrapper_code :: "u32 \<times> u32 \<Rightarrow> cpu \<Rightarrow> (outcome \<times> cpu) option" where
  "keyboard_wrapper_code clob c = do {
     (r, c) \<leftarrow> c_call clob (\<lambda>a b d. keyboard_handler) (fold step [Pushal, Cld] c);
     case r of Ret n \<Rightarrow> Some (r, step Popal c) | _ \<Rightarrow> Some (r, c) }"

definition rtc_wrapper_code :: "u32 \<times> u32 \<Rightarrow> cpu \<Rightarrow> (outcome \<times> cpu) option" where
  "rtc_wrapper_code clob c = do {
     (r, c) \<leftarrow> c_call clob (\<lambda>a b d s. Some (Ret 0, rtc_handler s)) (fold step [Pushal, Cld] c);
     case r of Ret n \<Rightarrow> Some (r, step Popal c) | _ \<Rightarrow> Some (r, c) }"

definition pit_save :: "instr list" where
  "pit_save = [Pushl EAX, Pushl ECX, Pushl EDX, Pushl EBX, Pushl ESI, Pushl EDI]"

definition pit_restore :: "instr list" where
  "pit_restore = [Popl EDI, Popl ESI, Popl EBX, Popl EDX, Popl ECX, Popl EAX]"

text \<open>The call \<open>h\<close> of the timer's handler comes back on the stack of the process that it switches to; for
  the process that was interrupted, when the timer picks it again.\<close>

definition pit_wrapper_code :: "(cpu \<Rightarrow> cpu option) \<Rightarrow> cpu \<Rightarrow> cpu option" where
  "pit_wrapper_code h c = do {
     c \<leftarrow> h (fold step pit_save c);
     Some (fold step pit_restore c) }"


section \<open>Start\<close>

text \<open>The Multiboot header and the way from the boot loader to \<open>entry\<close>.  The loads of the segment
  registers are left out: all segments are the whole memory.\<close>

definition multiboot_header :: "u32 list" where
  "multiboot_header = [0x1BADB002, 0x00000003, - (0x1BADB002 + 0x00000003)]"

definition start_code :: "instr list" where
  "start_code = [Cli, Movl ESP 0x800000, Movw_cx KERNEL_DS, Pushl EBX, Pushl EAX]"


section \<open>Words on the stack\<close>

fun words :: "mem \<Rightarrow> addr \<Rightarrow> u32 list \<Rightarrow> bool" where
  "words m a [] = True"
| "words m a (v # vs) = (ld32 m a = v \<and> words m (a + 4) vs)"

lemma words_cong: "(\<And>b. a \<le> b \<Longrightarrow> b < a + 4 * length vs \<Longrightarrow> m' b = m b) \<Longrightarrow> words m' a vs = words m a vs"
proof (induction vs arbitrary: a)
  case (Cons v vs)
  have "ld32 m' a = ld32 m a" by (rule ld32_cong) (use Cons.prems in simp)
  moreover have "words m' (a + 4) vs = words m (a + 4) vs" by (rule Cons.IH) (use Cons.prems in simp)
  ultimately show ?case by simp
qed simp

lemma words_push: "4 \<le> n \<Longrightarrow> words m n vs \<Longrightarrow> words (st32 m (n - 4) v) (n - 4) (v # vs)"
  using words_cong [of n vs "st32 m (n - 4) v" m] by (simp add: ld32_st32 st32_other)

lemma esp_sub: "k \<le> unat (e :: u32) \<Longrightarrow> k < 2 ^ 32 \<Longrightarrow> unat (e - of_nat k) = unat e - k"
  by (simp add: unat_sub word_le_nat_alt unat_of_nat)

text \<open>A stack: what lies from the stack pointer up.\<close>

definition stack :: "cpu \<Rightarrow> nat \<Rightarrow> u32 list \<Rightarrow> bool" where
  "stack c n vs \<longleftrightarrow> unat (regs c ESP) = n \<and> words (mem (ks c)) n vs"

lemma push_stack:
  assumes "stack c n vs" "4 \<le> n"
  shows "stack (push v c) (n - 4) (v # vs)"
proof -
  have "unat (regs c ESP - 4) = n - 4" using esp_sub [of 4 "regs c ESP"] assms by (simp add: stack_def)
  then show ?thesis using words_push [of n "mem (ks c)" vs v] assms by (simp add: stack_def push_def set_reg_def Let_def)
qed

lemma push_fields [simp]:
  "r \<noteq> ESP \<Longrightarrow> regs (push v c) r = regs c r" "regs (push v c) ESP = regs c ESP - 4" "df (push v c) = df c"
  by (simp_all add: push_def set_reg_def Let_def)

lemma pop_stack:
  assumes "stack c n (v # vs)" "n + 4 < 2 ^ 32" "r \<noteq> ESP"
  shows "stack (pop r c) (n + 4) vs" "regs (pop r c) = (regs c)(ESP := regs c ESP + 4, r := v)" "ks (pop r c) = ks c" "df (pop r c) = df c"
proof -
  have "unat (regs c ESP + 4) = n + 4" using assms by (simp add: stack_def unat_word_ariths)
  then show "stack (pop r c) (n + 4) vs" "regs (pop r c) = (regs c)(ESP := regs c ESP + 4, r := v)" "ks (pop r c) = ks c" "df (pop r c) = df c"
    using assms(1,3) by (auto simp: stack_def pop_def set_reg_def top_def fun_eq_iff)
qed


lemma pushes_stack:
  "stack c n ws \<Longrightarrow> 4 * length vs \<le> n \<Longrightarrow>
     stack (fold push vs c) (n - 4 * length vs) (rev vs @ ws) \<and>
     regs (fold push vs c) = (regs c)(ESP := regs c ESP - of_nat (4 * length vs)) \<and> df (fold push vs c) = df c"
proof (induction vs arbitrary: c n ws)
  case (Cons v vs)
  have "stack (push v c) (n - 4) (v # ws)" by (rule push_stack) (use Cons.prems in auto)
  from Cons.IH [OF this] Cons.prems show ?case
    by (auto simp: push_def set_reg_def Let_def fun_eq_iff algebra_simps)
qed (auto simp: fun_eq_iff)

text \<open>Registers after loads of words into them.\<close>

fun loads :: "(reg \<times> u32) list \<Rightarrow> (reg \<Rightarrow> u32) \<Rightarrow> reg \<Rightarrow> u32" where
  "loads [] f = f"
| "loads ((r, v) # ps) f = loads ps (f(r := v))"

lemma loads_other: "q \<notin> fst ` set ps \<Longrightarrow> loads ps (f(q := x)) = (loads ps f)(q := x)"
  by (induction ps f arbitrary: rule: loads.induct) (auto simp: fun_upd_twist)

lemma pops_stack:
  "stack c n (map snd ps @ ws) \<Longrightarrow> n + 4 * length ps < 2 ^ 32 \<Longrightarrow> ESP \<notin> fst ` set ps \<Longrightarrow>
     stack (fold (pop \<circ> fst) ps c) (n + 4 * length ps) ws \<and>
     regs (fold (pop \<circ> fst) ps c) = (loads ps (regs c))(ESP := regs c ESP + of_nat (4 * length ps)) \<and>
     ks (fold (pop \<circ> fst) ps c) = ks c \<and> df (fold (pop \<circ> fst) ps c) = df c"
proof (induction ps arbitrary: c n)
  case (Cons p ps)
  obtain r v where p: "p = (r, v)" by force
  from Cons.prems p have r: "r \<noteq> ESP" by auto
  have esp: "ESP \<notin> fst ` set ps" and n: "n + 4 < 2 ^ 32" "n + 4 + 4 * length ps < 2 ^ 32" using Cons.prems by auto
  have s: "stack c n (v # map snd ps @ ws)" using Cons.prems(1) p by simp
  note 1 = pop_stack [OF s n(1) r]
  note IH = Cons.IH [OF 1(1) n(2) esp]
  have twist: "(regs c)(ESP := x, r := v) = (regs c)(r := v, ESP := x)" for x using r by auto
  have "regs (fold (pop \<circ> fst) ps (pop r c)) = (loads ps ((regs c)(r := v)))(ESP := regs (pop r c) ESP + of_nat (4 * length ps))"
    using IH unfolding 1(2) twist loads_other [OF esp] by (simp add: fun_eq_iff comp_def)
  moreover have "regs (pop r c) ESP + of_nat (4 * length ps) = regs c ESP + of_nat (4 * length (p # ps))"
    using r by (simp add: 1(2))
  ultimately show ?case using IH 1(3,4) by (simp add: p add.assoc comp_def)
qed (auto simp: fun_eq_iff)


section \<open>The gate restores the registers\<close>

text \<open>The eight words that the gate saves, from the top of the stack up.\<close>

definition saved :: "cpu \<Rightarrow> u32 list" where
  "saved c = [regs c EDI, regs c ESI, regs c EBP, regs c ESP - 16, regs c EBX, regs c EDX, regs c ECX, regs c EAX]"

lemma save_regs_stack:
  assumes n: "unat (regs c ESP) = n" "32 \<le> n"
  defines "c' \<equiv> fold step save_regs c"
  shows "stack c' (n - 32) (saved c)" "regs c' = (regs c)(ESP := regs c ESP - 32)" "\<not> df c'"
proof -
  have c': "c' = (fold push (rev (saved c)) c)\<lparr>df := False\<rparr>" by (simp add: c'_def save_regs_def saved_def)
  have "stack c n []" using n by (simp add: stack_def)
  from pushes_stack [OF this, of "rev (saved c)"] n
  show "stack c' (n - 32) (saved c)" "regs c' = (regs c)(ESP := regs c ESP - 32)" "\<not> df c'"
    by (simp_all add: c' saved_def stack_def)
qed

lemma args_stack:
  assumes s: "stack c n vs" and n: "12 \<le> n"
  defines "c' \<equiv> fold step push_args c"
  shows "stack c' (n - 12) (regs c EBX # regs c ECX # regs c EDX # vs)" "regs c' = (regs c)(ESP := regs c ESP - 12)" "df c' = df c"
proof -
  have c': "c' = (fold push [regs c EDX, regs c ECX, regs c EBX] c)\<lparr>ks := sti (ks (fold push [regs c EDX, regs c ECX, regs c EBX] c))\<rparr>"
    by (simp add: c'_def push_args_def)
  from pushes_stack [OF s, of "[regs c EDX, regs c ECX, regs c EBX]"] n
  show "stack c' (n - 12) (regs c EBX # regs c ECX # regs c EDX # vs)" "regs c' = (regs c)(ESP := regs c ESP - 12)" "df c' = df c"
    unfolding c' by (auto simp: stack_def sti_def simp del: fold.simps)
qed

text \<open>\<open>popl %esp\<close> takes the address of the word above it, so it changes nothing.\<close>

lemma restore_regs_stack:
  assumes s: "stack c2 (n - 32) (saved c)" and n: "unat (regs c ESP) = n" "32 \<le> n"
  shows "regs (fold step restore_regs c2) = (regs c)(EAX := regs c2 EAX)" "ks (fold step restore_regs c2) = ks c2"
    "df (fold step restore_regs c2) = df c2"
proof -
  have big: "n < 2 ^ 32" using n unsigned_less [of "regs c ESP", where ?'a = nat] by simp
  have e: "regs c2 ESP = regs c ESP - 32"
    using s n esp_sub [of 32 "regs c ESP"] by (simp add: stack_def word_unat_eq_iff)
  let ?lo = "[(EDI, regs c EDI), (ESI, regs c ESI), (EBP, regs c EBP)]"
  let ?hi = "[(EBX, regs c EBX), (EDX, regs c EDX), (ECX, regs c ECX)]"
  define d where "d = fold (pop \<circ> fst) ?lo c2"
  have d: "stack d (n - 20) ((regs c ESP - 16) # map snd ?hi @ [regs c EAX])"
    "regs d = (loads ?lo (regs c2))(ESP := regs c ESP - 20)" "ks d = ks c2" "df d = df c2"
    using pops_stack [of c2 "n - 32" ?lo "(regs c ESP - 16) # map snd ?hi @ [regs c EAX]"] s n big
    by (simp_all add: d_def saved_def e del: fold.simps)
  define f where "f = pop ESP d"
  have f: "stack f (n - 16) (map snd ?hi @ [regs c EAX])" "regs f = (regs d)(ESP := regs c ESP - 16)" "ks f = ks c2" "df f = df c2"
    using d esp_sub [of 16 "regs c ESP"] n by (simp_all add: f_def pop_def set_reg_def top_def stack_def fun_eq_iff)
  define g where "g = fold (pop \<circ> fst) ?hi f"
  have g: "regs g = (loads ?hi (regs f))(ESP := regs c ESP - 4)" "ks g = ks c2" "df g = df c2"
    using pops_stack [OF f(1)] n big by (simp_all add: g_def f(2-4) del: fold.simps)
  have r: "fold step restore_regs c2 = set_reg ESP (regs g ESP + 4) g"
    by (simp add: restore_regs_def d_def f_def g_def)
  have "regs (set_reg ESP (regs g ESP + 4) g) x = ((regs c)(EAX := regs c2 EAX)) x" for x
    by (cases x) (simp_all add: set_reg_def g f d)
  then show "regs (fold step restore_regs c2) = (regs c)(EAX := regs c2 EAX)" unfolding r by blast
  show "ks (fold step restore_regs c2) = ks c2" "df (fold step restore_regs c2) = df c2"
    unfolding r by (simp_all add: set_reg_def g)
qed


text \<open>The \<open>k\<close> bytes of the stack below \<open>n\<close> are kept.\<close>

definition frame_kept :: "nat \<Rightarrow> nat \<Rightarrow> kstate \<Rightarrow> kstate \<Rightarrow> bool" where
  "frame_kept n k s s' \<longleftrightarrow> (\<forall>a. n - k \<le> a \<and> a < n \<longrightarrow> mem s' a = mem s a)"

lemma frame_words: "words (mem s) (n - k) vs \<Longrightarrow> frame_kept n k s s' \<Longrightarrow> 4 * length vs \<le> k \<Longrightarrow> k \<le> n \<Longrightarrow> words (mem s') (n - k) vs"
  using words_cong [of "n - k" vs "mem s'" "mem s"] by (auto simp: frame_kept_def)

lemma call_branch_returns:
  assumes s: "stack c1 (n - 44) vs" "words (mem s') (n - 32) (saved c)" and n: "unat (regs c ESP) = n" "44 \<le> n"
    and f: "c_call clob f c1 = Some (Ret k, c2)" and e: "\<not> df c1"
    and c2: "c2 = c1\<lparr>ks := s', regs := (regs c1)(EAX := of_int k, ECX := fst clob, EDX := snd clob)\<rparr>"
  shows "call_branch clob f c1 = Some (Ret k, c\<lparr>regs := (regs c)(EAX := of_int k), df := False, ks := s'\<rparr>)"
proof -
  let ?d = "step (Addl_esp 12) c2"
  have "unat (regs c1 ESP + 12) = n - 32"
    using s(1) n unsigned_less [of "regs c ESP", where ?'a = nat] by (simp add: stack_def unat_word_ariths)
  then have "stack ?d (n - 32) (saved c)" using s(2) by (simp add: stack_def set_reg_def c2)
  note r = restore_regs_stack [OF this n(1)]
  have "call_branch clob f c1 = Some (Ret k, fold step restore_regs ?d)" using f by (simp add: call_branch_def)
  moreover have "fold step restore_regs ?d = c\<lparr>regs := (regs c)(EAX := of_int k), df := False, ks := s'\<rparr>"
    using r n e by (intro cpu.equality) (simp_all add: c2 set_reg_def)
  ultimately show ?thesis by simp
qed

text \<open>The state in which the C function is called, or the number is refused.\<close>

definition gate_entry :: "cpu \<Rightarrow> cpu" where
  "gate_entry c = (let c1 = fold step save_regs c
     in if regs c EAX > 10 \<or> regs c EAX < 1 then c1 else fold step push_args c1)"

lemma sti_sti [simp]: "sti (sti s) = sti s"
  by (simp add: sti_def)

lemma gate_entry_stack:
  assumes n: "unat (regs c ESP) = n" "44 \<le> n" and num: "\<not> (regs c EAX > 10 \<or> regs c EAX < 1)"
  shows "stack (gate_entry c) (n - 44) (regs c EBX # regs c ECX # regs c EDX # saved c)"
    "regs (gate_entry c) = (regs c)(ESP := regs c ESP - 44)" "\<not> df (gate_entry c)" "sti (ks (gate_entry c)) = ks (gate_entry c)"
proof -
  note 1 = save_regs_stack [OF n(1)]
  have g: "gate_entry c = fold step push_args (fold step save_regs c)" using num by (auto simp: gate_entry_def Let_def)
  have 2: "stack (fold step save_regs c) (n - 32) (saved c)" "regs (fold step save_regs c) = (regs c)(ESP := regs c ESP - 32)"
    "\<not> df (fold step save_regs c)" using 1 n by simp_all
  note 3 = args_stack [OF 2(1)]
  show "stack (gate_entry c) (n - 44) (regs c EBX # regs c ECX # regs c EDX # saved c)"
    "regs (gate_entry c) = (regs c)(ESP := regs c ESP - 44)" "\<not> df (gate_entry c)"
    using 3 n 2(3) by (simp_all add: g 2(2))
  show "sti (ks (gate_entry c)) = ks (gate_entry c)" by (simp add: g push_args_def)
qed


lemma c_call_eq:
  assumes "stack c n (x # y # z # vs)"
  shows "c_call clob f c = do {
     (r, s) \<leftarrow> f x y z (ks c);
     case r of Ret k \<Rightarrow> Some (r, c\<lparr>ks := s, regs := (regs c)(EAX := of_int k, ECX := fst clob, EDX := snd clob)\<rparr>)
             | _ \<Rightarrow> Some (r, c\<lparr>ks := s\<rparr>) }"
  using assms by (simp add: c_call_def stack_def Let_def add.commute)

text \<open>A C call that returns comes back with its result in \<open>eax\<close> and every other register as it was; one
  that leaves its caller leaves the gate.\<close>

definition gate_result :: "cpu \<Rightarrow> (outcome \<times> kstate) option \<Rightarrow> (outcome \<times> cpu) option \<Rightarrow> bool" where
  "gate_result c call res = (case call of
     None \<Rightarrow> res = None
   | Some (Ret k, s) \<Rightarrow> res = Some (Ret k, c\<lparr>regs := (regs c)(EAX := of_int k), df := False, ks := s\<rparr>)
   | Some (r, s) \<Rightarrow> (\<exists>c'. res = Some (r, c') \<and> ks c' = s))"

lemma call_branch_result:
  assumes s: "stack c1 (n - 44) (x # y # z # saved c)" "\<not> df c1" and n: "unat (regs c ESP) = n" "44 \<le> n"
    and frame: "\<forall>k s'. f x y z (ks c1) = Some (Ret k, s') \<longrightarrow> frame_kept n 32 (ks c1) s'"
  shows "gate_result c (f x y z (ks c1)) (call_branch clob f c1)"
proof (cases "f x y z (ks c1)")
  case None
  then show ?thesis using c_call_eq [OF s(1)] by (simp add: gate_result_def call_branch_def)
next
  case (Some q)
  obtain r s' where q: "q = (r, s')" by force
  show ?thesis
  proof (cases r)
    case (Ret k)
    have "words (mem (ks c1)) (n - 32) (saved c)" using s(1) n by (simp add: stack_def)
    then have w: "words (mem s') (n - 32) (saved c)"
      by (rule frame_words) (use frame Some q Ret n in \<open>simp_all add: saved_def\<close>)
    have "c_call clob f c1 = Some (Ret k, c1\<lparr>ks := s', regs := (regs c1)(EAX := of_int k, ECX := fst clob, EDX := snd clob)\<rparr>)"
      using c_call_eq [OF s(1)] Some q Ret by simp
    from call_branch_returns [OF s(1) w n this s(2) refl] show ?thesis using Some q Ret by (simp add: gate_result_def)
  qed (use c_call_eq [OF s(1)] Some q in \<open>simp_all add: gate_result_def call_branch_def\<close>)
qed

lemma badcode_result:
  assumes n: "unat (regs c ESP) = n" "32 \<le> n"
  shows "badcode (fold step save_regs c) = Some (Ret (-1), c\<lparr>regs := (regs c)(EAX := -1), df := False, ks := ks (fold step save_regs c)\<rparr>)"
proof -
  note 1 = save_regs_stack [OF n]
  note r = restore_regs_stack [OF 1(1) n]
  have "fold step (restore_regs @ [Movl EAX (-1)]) (fold step save_regs c) =
      c\<lparr>regs := (regs c)(EAX := -1), df := False, ks := ks (fold step save_regs c)\<rparr>"
    using r 1(3) by (intro cpu.equality) (simp_all add: set_reg_def)
  then show ?thesis by (simp add: badcode_def)
qed

lemma low_number: "(w :: u32) \<noteq> 0 \<Longrightarrow> w \<noteq> 9 \<Longrightarrow> w \<noteq> 10 \<Longrightarrow> \<not> w > 10 \<Longrightarrow> w \<in> {1, 2, 3, 4, 5, 6, 7, 8}"
proof -
  assume w: "w \<noteq> 0" "w \<noteq> 9" "w \<noteq> 10" "\<not> w > 10"
  then have "unat w \<le> 10" by (simp add: word_le_nat_alt not_less)
  then have "unat w \<in> {0, 1, 2, 3, 4, 5, 6, 7, 8, 9, 10}" unfolding insert_iff empty_iff by presburger
  then have "(of_nat (unat w) :: u32) \<in> of_nat ` {0, 1, 2, 3, 4, 5, 6, 7, 8, 9, 10}" by (rule imageI)
  then show ?thesis using w by simp
qed

lemma gate_code:
  assumes n: "unat (regs c ESP) = n" "44 \<le> n" and num: "regs c EAX \<noteq> 9" "regs c EAX \<noteq> 10"
    and call: "call = syscall_wrapper_call hs (regs c EAX) (regs c EBX) (regs c ECX) (regs c EDX) (ks (gate_entry c))"
    and frame: "\<forall>k s'. call = Some (Ret k, s') \<longrightarrow> frame_kept n 32 (ks (gate_entry c)) s'"
  shows "gate_result c call (syscall_wrapper_code hs clob c)"
proof (cases "regs c EAX > 10 \<or> regs c EAX < 1")
  case True
  have r: "regs (fold step save_regs c) EAX = regs c EAX" using save_regs_stack(2) [OF n(1)] n by simp
  have "syscall_wrapper_code hs clob c = badcode (fold step save_regs c)" using True by (auto simp: syscall_wrapper_code_def Let_def r)
  moreover have "call = Some (Ret (-1), ks (fold step save_regs c))" using True by (auto simp: call syscall_wrapper_call_def gate_entry_def Let_def)
  ultimately show ?thesis using badcode_result [OF n(1)] n by (simp add: gate_result_def)
next
  case False
  note g = gate_entry_stack [OF n False]
  let ?c1 = "gate_entry c"
  have r: "regs (fold step save_regs c) EAX = regs c EAX" using save_regs_stack(2) [OF n(1)] n by simp
  have go: "syscall_wrapper_code hs clob c = syscall_table hs clob (regs c EAX) ?c1"
    using False g(2) by (auto simp: syscall_wrapper_code_def gate_entry_def Let_def r)
  define d where "d = fold step [Mov_bl_cl, Xorl_ebx, Mov_cl_bl] ?c1"
  have h: "stack d (n - 44) (regs c EBX # regs c ECX # regs c EDX # saved c)" "\<not> df d" "ks d = ks ?c1"
    using g(1,3) by (simp_all add: d_def stack_def set_reg_def)
  have br: "gate_result c call (call_branch clob f ?c1)" if "f (regs c EBX) (regs c ECX) (regs c EDX) (ks ?c1) = call" for f
    using call_branch_result [OF g(1,3) n, of f clob] frame that by simp
  have hb: "gate_result c call (call_branch clob f d)" if "f (regs c EBX) (regs c ECX) (regs c EDX) (ks ?c1) = call" for f
    using call_branch_result [OF h(1,2) n, of f clob] frame that h(3) by simp
  have "regs c EAX \<noteq> 0" using False by auto
  then have "regs c EAX \<in> {1, 2, 3, 4, 5, 6, 7, 8}" using low_number num False by blast
  moreover have "regs c EAX = 1 \<Longrightarrow> system_halt (ucast (regs c EBX)) (ks ?c1) = call"
    "regs c EAX = 2 \<Longrightarrow> system_execute (unat (regs c EBX)) (ks ?c1) = call"
    "regs c EAX = 3 \<Longrightarrow> as_ret (system_read hs (sint (regs c EBX)) (unat (regs c ECX)) (sint (regs c EDX)) (ks ?c1)) = call"
    "regs c EAX = 4 \<Longrightarrow> as_ret (system_write (sint (regs c EBX)) (unat (regs c ECX)) (sint (regs c EDX)) (ks ?c1)) = call"
    "regs c EAX = 5 \<Longrightarrow> as_ret (system_open (unat (regs c EBX)) (ks ?c1)) = call"
    "regs c EAX = 6 \<Longrightarrow> as_ret (system_close (sint (regs c EBX)) (ks ?c1)) = call"
    "regs c EAX = 7 \<Longrightarrow> as_ret (system_getargs (unat (regs c EBX)) (sint (regs c ECX)) (ks ?c1)) = call"
    "regs c EAX = 8 \<Longrightarrow> as_ret (system_vidmap (unat (regs c EBX)) (ks ?c1)) = call"
    by (simp_all add: call syscall_wrapper_call_def g(4) Let_def)
  ultimately show ?thesis
    unfolding go syscall_table_def d_def [symmetric] insert_iff by (elim disjE) (simp_all add: br hb)
qed


section \<open>The interrupts restore the registers\<close>

lemma pushal_stack:
  assumes n: "unat (regs c ESP) = n" "32 \<le> n"
  defines "c1 \<equiv> fold step [Pushal, Cld] c"
  shows "stack c1 (n - 32) [regs c EDI, regs c ESI, regs c EBP, regs c ESP, regs c EBX, regs c EDX, regs c ECX, regs c EAX]"
    "regs c1 = (regs c)(ESP := regs c ESP - 32)" "\<not> df c1"
proof -
  let ?vs = "[regs c EAX, regs c ECX, regs c EDX, regs c EBX, regs c ESP, regs c EBP, regs c ESI, regs c EDI]"
  have c1: "c1 = (fold push ?vs c)\<lparr>df := False\<rparr>" by (simp add: c1_def)
  have "stack c n []" using n by (simp add: stack_def)
  from pushes_stack [OF this, of ?vs] n
  show "stack c1 (n - 32) [regs c EDI, regs c ESI, regs c EBP, regs c ESP, regs c EBX, regs c EDX, regs c ECX, regs c EAX]"
    "regs c1 = (regs c)(ESP := regs c ESP - 32)" "\<not> df c1"
    unfolding c1 by (auto simp: stack_def simp del: fold.simps)
qed

lemma popal_stack:
  assumes s: "stack c2 (n - 32) [regs c EDI, regs c ESI, regs c EBP, e, regs c EBX, regs c EDX, regs c ECX, regs c EAX]"
    and n: "unat (regs c ESP) = n" "32 \<le> n"
  shows "step Popal c2 = c2\<lparr>regs := regs c\<rparr>"
proof -
  have big: "n < 2 ^ 32" using n unsigned_less [of "regs c ESP", where ?'a = nat] by simp
  have esp: "regs c2 ESP = regs c ESP - 32"
    using s n esp_sub [of 32 "regs c ESP"] by (simp add: stack_def word_unat_eq_iff)
  let ?lo = "[(EDI, regs c EDI), (ESI, regs c ESI), (EBP, regs c EBP)]"
  let ?hi = "[(EBX, regs c EBX), (EDX, regs c EDX), (ECX, regs c ECX), (EAX, regs c EAX)]"
  define d where "d = fold (pop \<circ> fst) ?lo c2"
  have d: "stack d (n - 20) (e # map snd ?hi)" "regs d = (loads ?lo (regs c2))(ESP := regs c ESP - 20)" "ks d = ks c2" "df d = df c2"
    using pops_stack [of c2 "n - 32" ?lo "e # map snd ?hi"] s n big by (simp_all add: d_def esp del: fold.simps)
  define f where "f = set_reg ESP (regs d ESP + 4) d"
  have f: "stack f (n - 16) (map snd ?hi @ [])" "regs f = (regs d)(ESP := regs c ESP - 16)" "ks f = ks c2" "df f = df c2"
    using d esp_sub [of 16 "regs c ESP"] n by (simp_all add: f_def set_reg_def stack_def fun_eq_iff)
  define g where "g = fold (pop \<circ> fst) ?hi f"
  have g: "regs g = (loads ?hi (regs f))(ESP := regs c ESP)" "ks g = ks c2" "df g = df c2"
    using pops_stack [OF f(1)] n big by (simp_all add: g_def f(2-4) del: fold.simps)
  have p: "step Popal c2 = g" by (simp add: d_def f_def g_def Let_def)
  have "regs g x = regs c x" for x
    by (cases x) (simp_all add: g f d)
  then show ?thesis unfolding p using g(2,3) by (intro cpu.equality) auto
qed

lemma keyboard_code:
  assumes n: "unat (regs c ESP) = n" "32 \<le> n" and call: "keyboard_handler (ks (fold step [Pushal, Cld] c)) = Some (Ret k, s')"
    and frame: "frame_kept n 32 (ks (fold step [Pushal, Cld] c)) s'"
  shows "keyboard_wrapper_code clob c = Some (Ret k, c\<lparr>df := False, ks := s'\<rparr>)"
proof -
  note 1 = pushal_stack [OF n]
  define c2 where "c2 = (fold step [Pushal, Cld] c)\<lparr>ks := s', regs := (regs (fold step [Pushal, Cld] c))
    (EAX := of_int k, ECX := fst clob, EDX := snd clob)\<rparr>"
  have "words (mem s') (n - 32) [regs c EDI, regs c ESI, regs c EBP, regs c ESP, regs c EBX, regs c EDX, regs c ECX, regs c EAX]"
    by (rule frame_words [OF _ frame]) (use 1(1) n in \<open>simp_all add: stack_def del: fold.simps\<close>)
  then have "stack c2 (n - 32) [regs c EDI, regs c ESI, regs c EBP, regs c ESP, regs c EBX, regs c EDX, regs c ECX, regs c EAX]"
    using 1(1) by (simp add: c2_def stack_def del: fold.simps)
  from popal_stack [OF this n] have "step Popal c2 = c\<lparr>df := False, ks := s'\<rparr>"
    using 1(3) by (intro cpu.equality) (simp_all add: c2_def del: fold.simps step.simps)
  then show ?thesis using call by (simp add: keyboard_wrapper_code_def c_call_def Let_def c2_def del: fold.simps step.simps)
qed

lemma rtc_code:
  assumes n: "unat (regs c ESP) = n" "32 \<le> n"
  shows "rtc_wrapper_code clob c = Some (Ret 0, c\<lparr>df := False, ks := rtc_handler (ks (fold step [Pushal, Cld] c))\<rparr>)"
proof -
  note 1 = pushal_stack [OF n]
  define c1 where "c1 = fold step [Pushal, Cld] c"
  have m: "mem (rtc_handler s) = mem s" for s by (simp add: rtc_handler_def send_eoi_def outb_def Let_def)
  define c2 where "c2 = c1\<lparr>ks := rtc_handler (ks c1), regs := (regs c1)(EAX := 0, ECX := fst clob, EDX := snd clob)\<rparr>"
  have "stack c2 (n - 32) [regs c EDI, regs c ESI, regs c EBP, regs c ESP, regs c EBX, regs c EDX, regs c ECX, regs c EAX]"
    using 1(1) by (simp add: c2_def c1_def stack_def m del: fold.simps)
  from popal_stack [OF this n] have "step Popal c2 = c\<lparr>df := False, ks := rtc_handler (ks c1)\<rparr>"
    using 1(3) by (intro cpu.equality) (simp_all add: c2_def c1_def del: fold.simps step.simps)
  then show ?thesis by (simp add: rtc_wrapper_code_def c_call_def Let_def c2_def c1_def del: fold.simps step.simps)
qed

text \<open>The timer: the other words of the frame and \<open>ebp\<close> come back with the process.\<close>

lemma pit_code:
  assumes n: "unat (regs c ESP) = n" "24 \<le> n"
    and ret: "h (fold step pit_save c) = Some c2" "regs c2 ESP = regs (fold step pit_save c) ESP" "regs c2 EBP = regs c EBP"
      "frame_kept n 24 (ks (fold step pit_save c)) (ks c2)"
  shows "pit_wrapper_code h c = Some (c2\<lparr>regs := regs c\<rparr>)"
proof -
  let ?vs = "[regs c EAX, regs c ECX, regs c EDX, regs c EBX, regs c ESI, regs c EDI]"
  let ?ps = "[(EDI, regs c EDI), (ESI, regs c ESI), (EBX, regs c EBX), (EDX, regs c EDX), (ECX, regs c ECX), (EAX, regs c EAX)]"
  have big: "n < 2 ^ 32" using n unsigned_less [of "regs c ESP", where ?'a = nat] by simp
  have c1: "fold step pit_save c = fold push ?vs c" by (simp add: pit_save_def)
  have "stack c n []" using n by (simp add: stack_def)
  from pushes_stack [OF this, of ?vs] n
  have 1: "stack (fold step pit_save c) (n - 24) (map snd ?ps)" "regs (fold step pit_save c) = (regs c)(ESP := regs c ESP - 24)"
    unfolding c1 by (simp_all del: fold.simps)
  have "words (mem (ks c2)) (n - 24) (map snd ?ps)"
    by (rule frame_words [OF _ ret(4)]) (use 1(1) n in \<open>simp_all add: stack_def del: fold.simps\<close>)
  then have "stack c2 (n - 24) (map snd ?ps @ [])" using 1 ret(2) by (simp add: stack_def del: fold.simps)
  from pops_stack [OF this] n big have 2: "regs (fold (pop \<circ> fst) ?ps c2) = (loads ?ps (regs c2))(ESP := regs c2 ESP + 24)"
    "ks (fold (pop \<circ> fst) ?ps c2) = ks c2" "df (fold (pop \<circ> fst) ?ps c2) = df c2"
    by (simp_all del: fold.simps)
  have p: "fold step pit_restore c2 = fold (pop \<circ> fst) ?ps c2" by (simp add: pit_restore_def)
  have "regs (fold step pit_restore c2) x = regs c x" for x
    unfolding p 2 by (cases x) (simp_all add: ret(2,3) 1(2) del: fold.simps)
  then have "fold step pit_restore c2 = c2\<lparr>regs := regs c\<rparr>" using 2 by (intro cpu.equality) (auto simp: p simp del: fold.simps)
  then show ?thesis using ret(1) by (simp add: pit_wrapper_code_def del: fold.simps)
qed


section \<open>Start\<close>

lemma multiboot_checksum: "sum_list multiboot_header = 0"
  by (simp add: multiboot_header_def)

text \<open>\<open>entry\<close> finds the magic number and the address of the information as its arguments, on the stack
  below 8 MB, with interrupts off.\<close>

lemma start_arguments:
  "words (mem (ks (fold step start_code c))) (0x800000 - 8) [regs c EAX, regs c EBX] \<and> regs (fold step start_code c) ESP = 0x800000 - 8 \<and>
     \<not> if_flag (ks (fold step start_code c))"
proof -
  define c1 where "c1 = set_reg ECX ((regs c ECX AND 0xFFFF0000) OR ucast KERNEL_DS) (set_reg ESP 0x800000 (c\<lparr>ks := cli (ks c)\<rparr>))"
  have "stack c1 0x800000 []" by (simp add: stack_def c1_def set_reg_def)
  from pushes_stack [OF this, of "[regs c EBX, regs c EAX]"]
  have "stack (fold push [regs c EBX, regs c EAX] c1) (0x800000 - 8) [regs c EAX, regs c EBX]"
    "regs (fold push [regs c EBX, regs c EAX] c1) ESP = 0x800000 - 8" by (simp_all add: c1_def set_reg_def del: fold.simps)
  moreover have "fold step start_code c = fold push [regs c EBX, regs c EAX] c1"
    by (simp add: start_code_def c1_def set_reg_def)
  moreover have "if_flag (ks (push v c)) = if_flag (ks c)" for v c by (simp add: push_def set_reg_def Let_def)
  ultimately show ?thesis by (simp add: stack_def c1_def set_reg_def cli_def)
qed

end
