(* ===== verification/Stub.thy ===== *)
theory Stub
  imports Wrappers
begin

text \<open>
  A system call from the user's side: the stub of \<open>ece391syscall.S\<close>, the change to the kernel's stack
  through the task state segment, the gate, and the way back.  The stub is a C function to its caller:
  arguments above the return address, result in \<open>eax\<close>, \<open>ebx\<close>, \<open>esi\<close>, \<open>edi\<close> and \<open>ebp\<close> kept.
\<close>

section \<open>The stub\<close>

text \<open>\<open>int $0x80\<close> in a program: the processor takes the stack of the task state segment and pushes the
  user's stack segment, stack pointer, flags, code segment and the address of the next instruction.\<close>

definition int80 :: "u32 \<Rightarrow> u32 \<Rightarrow> cpu \<Rightarrow> cpu" where
  "int80 fl eip c = fold push [ucast USER_DS, regs c ESP, fl, ucast USER_CS, eip] (set_reg ESP (tss_esp0 (ks c)) c)"

definition iret :: "cpu \<Rightarrow> cpu" where
  "iret c = (let w = (\<lambda>i. ld32 (mem (ks c)) (unat (regs c ESP) + 4 * i))
     in c\<lparr>regs := (regs c)(ESP := w 3), df := bit (w 2) 10, ks := (ks c)\<lparr>if_flag := bit (w 2) 9\<rparr>\<rparr>)"

text \<open>The macro \<open>DO_CALL\<close> up to \<open>INT\<close>: the arguments are above the saved \<open>ebx\<close> and the return address.\<close>

definition stub_enter :: "u32 \<Rightarrow> cpu \<Rightarrow> cpu" where
  "stub_enter number c = (let c = push (regs c EBX) c;
       arg = (\<lambda>k. ld32 (mem (ks c)) (unat (regs c ESP) + k))
     in set_reg EDX (arg 16) (set_reg ECX (arg 12) (set_reg EBX (arg 8) (set_reg EAX number c))))"

definition stub_code :: "interrupts \<Rightarrow> u32 \<times> u32 \<Rightarrow> u32 \<Rightarrow> u32 \<Rightarrow> u32 \<Rightarrow> cpu \<Rightarrow> (outcome \<times> cpu) option" where
  "stub_code hs clob fl eip number c = do {
     (r, c) \<leftarrow> syscall_wrapper_code hs clob (int80 fl eip (stub_enter number c));
     case r of
       Ret k \<Rightarrow> Some (r, step (Addl_esp 4) (step (Popl EBX) (iret c)))
     | _ \<Rightarrow> Some (r, c) }"


section \<open>What the stub leaves alone\<close>

lemma push_mem: "stack c n vs \<Longrightarrow> 4 \<le> n \<Longrightarrow> a < n - 4 \<or> n \<le> a \<Longrightarrow> mem (ks (push v c)) a = mem (ks c) a"
  using esp_sub [of 4 "regs c ESP"] by (auto simp: push_def set_reg_def Let_def stack_def st32_other)

lemma pushes_mem:
  "stack c n ws \<Longrightarrow> 4 * length vs \<le> n \<Longrightarrow> a < n - 4 * length vs \<or> n \<le> a \<Longrightarrow> mem (ks (fold push vs c)) a = mem (ks c) a"
proof (induction vs arbitrary: c n ws)
  case (Cons v vs)
  have "stack (push v c) (n - 4) (v # ws)" by (rule push_stack) (use Cons.prems in auto)
  moreover have "4 * length vs \<le> n - 4" "a < n - 4 - 4 * length vs \<or> n - 4 \<le> a" "4 \<le> n" "a < n - 4 \<or> n \<le> a"
    using Cons.prems(2,3) by (simp_all, linarith+)
  ultimately show ?case using Cons.IH push_mem [OF Cons.prems(1)] by simp
qed simp

lemma save_regs_eq: "fold step save_regs c = (fold push (rev (saved c)) c)\<lparr>df := False\<rparr>"
  by (simp add: save_regs_def saved_def)

lemma push_args_eq: "fold step push_args c =
    (let d = fold push [regs c EDX, regs c ECX, regs c EBX] c in d\<lparr>ks := sti (ks d)\<rparr>)"
  by (simp add: push_args_def Let_def)

lemma gate_entry_mem:
  assumes n: "unat (regs c ESP) = n" "44 \<le> n" and a: "a < n - 44 \<or> n \<le> a"
  shows "mem (ks (gate_entry c)) a = mem (ks c) a"
proof -
  have "stack c n []" using n by (simp add: stack_def)
  moreover have "4 * length (rev (saved c)) \<le> n" "a < n - 4 * length (rev (saved c)) \<or> n \<le> a"
    using a n(2) by (simp_all add: saved_def) linarith
  ultimately have 1: "mem (ks (fold step save_regs c)) a = mem (ks c) a"
    using pushes_mem by (simp add: save_regs_eq del: fold.simps)
  have "stack (fold step save_regs c) (n - 32) (saved c)" using save_regs_stack(1) [OF n(1)] n by simp
  moreover have "a < n - 32 - 12 \<or> n - 32 \<le> a" using a n(2) by linarith
  ultimately have "mem (ks (fold step push_args (fold step save_regs c))) a = mem (ks (fold step save_regs c)) a"
    using pushes_mem [of "fold step save_regs c" "n - 32" "saved c"
      "[regs (fold step save_regs c) EDX, regs (fold step save_regs c) ECX, regs (fold step save_regs c) EBX]" a] n(2)
    by (simp add: push_args_eq Let_def sti_def del: fold.simps)
  with 1 show ?thesis by (simp add: gate_entry_def Let_def)
qed

text \<open>The words on a stack that other memory changes do not touch.\<close>

lemma words_kept: "words m n vs \<Longrightarrow> (\<And>a. n \<le> a \<Longrightarrow> a < n + 4 * length vs \<Longrightarrow> m' a = m a) \<Longrightarrow> words m' n vs"
  using words_cong [of n vs m' m] by simp

lemma int80_stack:
  assumes "unat (tss_esp0 (ks c)) = k" "20 \<le> k"
  shows "stack (int80 fl eip c) (k - 20) [eip, ucast USER_CS, fl, regs c ESP, ucast USER_DS]"
    "regs (int80 fl eip c) = (regs c)(ESP := tss_esp0 (ks c) - 20)"
    "a < k - 20 \<or> k \<le> a \<Longrightarrow> mem (ks (int80 fl eip c)) a = mem (ks c) a"
proof -
  let ?c = "set_reg ESP (tss_esp0 (ks c)) c"
  have s: "stack ?c k []" using assms by (simp add: stack_def set_reg_def)
  note p = pushes_stack [OF s, of "[ucast USER_DS, regs c ESP, fl, ucast USER_CS, eip]"]
  show "stack (int80 fl eip c) (k - 20) [eip, ucast USER_CS, fl, regs c ESP, ucast USER_DS]"
    "regs (int80 fl eip c) = (regs c)(ESP := tss_esp0 (ks c) - 20)"
    using p assms by (simp_all add: int80_def set_reg_def del: fold.simps)
  show "mem (ks (int80 fl eip c)) a = mem (ks c) a" if "a < k - 20 \<or> k \<le> a"
    using pushes_mem [OF s, of "[ucast USER_DS, regs c ESP, fl, ucast USER_CS, eip]" a] assms(2) that
    by (simp add: int80_def set_reg_def del: fold.simps)
qed

lemma iret_stack:
  assumes "stack c n [eip, cs, fl, sp, ss]"
  shows "iret c = c\<lparr>regs := (regs c)(ESP := sp), df := bit fl 10, ks := (ks c)\<lparr>if_flag := bit fl 9\<rparr>\<rparr>"
proof -
  have "ld32 (mem (ks c)) (unat (regs c ESP) + 8) = fl" "ld32 (mem (ks c)) (unat (regs c ESP) + 12) = sp"
    using assms by (simp_all add: stack_def add.commute)
  then show ?thesis by (simp add: iret_def Let_def)
qed

lemma stub_enter_stack:
  assumes s: "stack c n [ret, x, y, z]" and n: "4 \<le> n" "n + 16 < 2 ^ 32"
  shows "stack (stub_enter number c) (n - 4) [regs c EBX, ret, x, y, z]"
    "regs (stub_enter number c) = (regs c)(ESP := regs c ESP - 4, EAX := number, EBX := x, ECX := y, EDX := z)"
    "ks (stub_enter number c) = ks (push (regs c EBX) c)" "df (stub_enter number c) = df c"
proof -
  have p: "stack (push (regs c EBX) c) (n - 4) [regs c EBX, ret, x, y, z]" by (rule push_stack [OF s n(1)])
  have "ld32 (mem (ks (push (regs c EBX) c))) (unat (regs (push (regs c EBX) c) ESP) + 8) = x"
    "ld32 (mem (ks (push (regs c EBX) c))) (unat (regs (push (regs c EBX) c) ESP) + 12) = y"
    "ld32 (mem (ks (push (regs c EBX) c))) (unat (regs (push (regs c EBX) c) ESP) + 16) = z"
    using p n(1) unfolding stack_def by (auto simp: add.commute)
  then have e: "stub_enter number c = set_reg EDX z (set_reg ECX y (set_reg EBX x (set_reg EAX number (push (regs c EBX) c))))"
    by (simp add: stub_enter_def Let_def)
  show "stack (stub_enter number c) (n - 4) [regs c EBX, ret, x, y, z]" using p by (simp add: e stack_def set_reg_def)
  show "regs (stub_enter number c) = (regs c)(ESP := regs c ESP - 4, EAX := number, EBX := x, ECX := y, EDX := z)"
    by (simp add: e set_reg_def push_def Let_def)
  show "ks (stub_enter number c) = ks (push (regs c EBX) c)" "df (stub_enter number c) = df c" by (simp_all add: e set_reg_def)
qed


section \<open>A system call from the program and back\<close>

text \<open>The state in which the kernel's C code starts for a call of the stub.\<close>

definition stub_kernel :: "u32 \<Rightarrow> u32 \<Rightarrow> u32 \<Rightarrow> cpu \<Rightarrow> kstate" where
  "stub_kernel fl eip number c = ks (gate_entry (int80 fl eip (stub_enter number c)))"

lemma stub_returns:
  assumes s: "stack c n [ret, x, y, z]" and n: "4 \<le> n" "n + 16 < 2 ^ 32"
    and k: "unat (tss_esp0 (ks c)) = k" "64 \<le> k" and apart: "n + 16 \<le> k - 64 \<or> k \<le> n - 4"
    and num: "number \<noteq> 9" "number \<noteq> 10"
    and call: "syscall_wrapper_call hs number x y z (stub_kernel fl eip number c) = Some (Ret r, s')"
    and kept: "frame_kept k 52 (stub_kernel fl eip number c) s'" "frame_kept (n + 16) 20 (stub_kernel fl eip number c) s'"
  shows "stub_code hs clob fl eip number c = Some (Ret r, c\<lparr>regs := (regs c)(EAX := of_int r, ECX := y, EDX := z, ESP := regs c ESP + 4),
    df := bit fl 10, ks := s'\<lparr>if_flag := bit fl 9\<rparr>\<rparr>)"
proof -
  let ?e = "stub_enter number c" let ?i = "int80 fl eip (stub_enter number c)"
  note e = stub_enter_stack [OF s n, of number]
  have k': "unat (tss_esp0 (ks ?e)) = k" "20 \<le> k" using k by (simp_all add: e(3) push_def set_reg_def Let_def)
  note i = int80_stack [OF k', where fl = fl and eip = eip]
  have t: "tss_esp0 (ks ?e) = tss_esp0 (ks c)" by (simp add: e(3) push_def set_reg_def Let_def)
  have sp: "unat (regs ?i ESP) = k - 20" using i(1) by (simp add: stack_def)
  have r4: "regs ?i EAX = number" "regs ?i EBX = x" "regs ?i ECX = y" "regs ?i EDX = z" by (simp_all add: i(2) e(2))
  have f1: "frame_kept (k - 20) 32 (ks (gate_entry ?i)) s'" using kept(1) k(2) by (auto simp: frame_kept_def stub_kernel_def)
  have "gate_result ?i (Some (Ret r, s')) (syscall_wrapper_code hs clob ?i)"
    by (rule gate_code [OF sp, where hs = hs]) (use k num call f1 in \<open>simp_all add: r4 stub_kernel_def\<close>)
  then have g: "syscall_wrapper_code hs clob ?i = Some (Ret r, ?i\<lparr>regs := (regs ?i)(EAX := of_int r), df := False, ks := s'\<rparr>)"
    by (simp add: gate_result_def)
  define g where "g = ?i\<lparr>regs := (regs ?i)(EAX := of_int r), df := False, ks := s'\<rparr>"
  have gf: "regs g = (regs ?e)(ESP := tss_esp0 (ks c) - 20, EAX := of_int r)" "ks g = s'" by (simp_all add: g_def i(2) t)
  have gsp: "unat (tss_esp0 (ks c) - 20) = k - 20" using sp by (simp add: i(2) t)
  have same: "mem (ks (gate_entry ?i)) a = mem (ks ?i) a" if "k - 20 \<le> a \<or> a < k - 64" for a
    using gate_entry_mem [OF sp, of a] that k(2) by auto
  have "words (mem s') (k - 20) [eip, ucast USER_CS, fl, regs ?e ESP, ucast USER_DS]"
    by (rule words_kept [where m = "mem (ks ?i)"])
      (use i(1) kept(1) same k(2) in \<open>auto simp: stack_def frame_kept_def stub_kernel_def\<close>)
  then have "stack g (k - 20) [eip, ucast USER_CS, fl, regs ?e ESP, ucast USER_DS]" by (simp add: stack_def gsp gf)
  note ir = iret_stack [OF this]
  have "words (mem s') (n - 4) [regs c EBX, ret, x, y, z]"
  proof (rule words_kept [where m = "mem (ks ?e)"])
    show "words (mem (ks ?e)) (n - 4) [regs c EBX, ret, x, y, z]" using e(1) by (simp add: stack_def)
    fix a assume a: "n - 4 \<le> a" "a < n - 4 + 4 * length [regs c EBX, ret, x, y, z]"
    then have "a < n + 16" using n(1) by simp
    then have "mem s' a = mem (ks (gate_entry ?i)) a" using kept(2) a(1) by (simp add: frame_kept_def stub_kernel_def)
    also have "\<dots> = mem (ks ?i) a" by (rule same) (use apart a(1) \<open>a < n + 16\<close> k(2) in auto)
    also have "\<dots> = mem (ks ?e) a" by (rule i(3)) (use apart a(1) \<open>a < n + 16\<close> k(2) in auto)
    finally show "mem s' a = mem (ks ?e) a" .
  qed
  moreover have "unat (regs ?e ESP) = n - 4" using e(1) by (simp add: stack_def)
  ultimately have st: "stack (iret g) (n - 4) [regs c EBX, ret, x, y, z]" by (simp add: ir stack_def gf)
  note po = pop_stack(2-4) [OF st, of EBX]
  have "step (Addl_esp 4) (pop EBX (iret g)) = c\<lparr>regs := (regs c)(EAX := of_int r, ECX := y, EDX := z, ESP := regs c ESP + 4),
    df := bit fl 10, ks := s'\<lparr>if_flag := bit fl 9\<rparr>\<rparr>"
    using po n by (intro cpu.equality) (simp_all add: set_reg_def ir gf e(2) fun_eq_iff)
  then show ?thesis using g by (simp add: stub_code_def g_def)
qed

end
