(* ===== verification/Wrapper_Theorems.thy ===== *)
theory Wrapper_Theorems
  imports Stub Kernel Example_State
begin

text \<open>
  The theorems on the assembly: the gate implements \<open>syscall_wrapper_call\<close> and gives the
  caller its registers back, the stub around it is a C function that does what \<open>DO_CALL\<close> says, an interrupted program gets all of them back, and the descriptors that start-up
  completes say what the processor should find.
\<close>

section \<open>A program at a system call\<close>

definition caller :: cpu where
  "caller = \<lparr>regs = (\<lambda>r. 0)(EAX := 6, EBX := 9, ESI := 5, ESP := 0x7FF000), df = True, ks = sample\<rparr>"

lemma caller_regs [simp]: "regs caller EAX = 6" "regs caller EBX = 9" "regs caller ESP = 0x7FF000" "ks caller = sample" "df caller"
  by (simp_all add: caller_def)

lemma caller_closes: "syscall_wrapper_call hs 6 9 x y s = Some (Ret (-1), sti s)"
  by (simp add: syscall_wrapper_call_def system_close_def as_ret_def Let_def)


section \<open>The gate\<close>

text \<open>C10: the assembly of the gate refines the system call.  For every call number but the two that run
  into the words behind the table, \<open>syscall_wrapper_code\<close> has the outcome of \<open>syscall_wrapper_call\<close> on the
  registers; a call that returns comes back with its result in \<open>eax\<close>, every other register as it was and
  the direction flag clear, provided that the call did not write to the 32 bytes in which the registers
  were saved.\<close>

theorem gate_refines_call:
  assumes "44 \<le> unat (regs c ESP)" and "regs c EAX \<noteq> 9" "regs c EAX \<noteq> 10"
    and "\<forall>k s'. syscall_wrapper_call hs (regs c EAX) (regs c EBX) (regs c ECX) (regs c EDX) (ks (gate_entry c)) = Some (Ret k, s') \<longrightarrow>
      frame_kept (unat (regs c ESP)) 32 (ks (gate_entry c)) s'"
  shows "case syscall_wrapper_call hs (regs c EAX) (regs c EBX) (regs c ECX) (regs c EDX) (ks (gate_entry c)) of
      None \<Rightarrow> syscall_wrapper_code hs clob c = None
    | Some (Ret k, s') \<Rightarrow> syscall_wrapper_code hs clob c = Some (Ret k, c\<lparr>regs := (regs c)(EAX := of_int k), df := False, ks := s'\<rparr>)
    | Some (r, s') \<Rightarrow> (\<exists>c'. syscall_wrapper_code hs clob c = Some (r, c') \<and> ks c' = s')"
  using gate_code [OF refl assms(1-3) refl assms(4)] by (simp add: gate_result_def)

theorem gate_refines_call_witness:
  "syscall_wrapper_code [] (1, 2) caller =
     Some (Ret (-1), caller\<lparr>regs := (regs caller)(EAX := -1), df := False, ks := sti (ks (gate_entry caller))\<rparr>)"
  using gate_refines_call [of caller "[]" "(1, 2)"] by (simp add: caller_closes frame_kept_def sti_def)


section \<open>The stub\<close>

text \<open>A program that has pushed the arguments and the return address.\<close>

definition in_program :: cpu where
  "in_program = \<lparr>regs = (\<lambda>r. 0)(EBX := 3, ESP := 0x8300000), df = False, ks = sample\<lparr>mem := st32 (mem sample) 0x8300004 9\<rparr>\<rparr>"

lemma in_program_stack:
  "stack in_program 0x8300000 [ld32 (mem (ks in_program)) 0x8300000, 9, ld32 (mem (ks in_program)) 0x8300008, ld32 (mem (ks in_program)) 0x830000C]"
  by (simp add: stack_def in_program_def ld32_st32)

lemma in_program_regs: "tss_esp0 (ks in_program) = 0x7FFFFC" "regs in_program EBX = 3" "regs in_program ESP = 0x8300000"
  by (simp_all add: in_program_def sample_def)

lemma program_closes: "DO_CALL hs 6 9 x y s = Some (-1, sti s)"
  by (simp add: DO_CALL_def caller_closes)

text \<open>C11: the assembly of a system call from the program and back.  The stub, the processor's change to the
  kernel's stack, the gate and the way back do what \<open>DO_CALL\<close> says: the result is in \<open>eax\<close>, the return
  address is popped, \<open>ebx\<close>, \<open>esi\<close>, \<open>edi\<close>, \<open>ebp\<close> and the flags are as before, provided that the two
  stacks are apart and that the call writes neither to the words saved on the kernel's nor to the frame of the
  stub on the program's.\<close>

theorem stub_implements_call:
  assumes "stack c n [ret, x, y, z]" "4 \<le> n" "n + 16 < 2 ^ 32"
    and "unat (tss_esp0 (ks c)) = k" "64 \<le> k" "n + 16 \<le> k - 64 \<or> k \<le> n - 4" and "number \<noteq> 9" "number \<noteq> 10"
    and "DO_CALL hs number x y z (stub_kernel fl eip number c) = Some (r, s')"
    and "frame_kept k 52 (stub_kernel fl eip number c) s'" "frame_kept (n + 16) 20 (stub_kernel fl eip number c) s'"
  shows "stub_code hs clob fl eip number c = Some (Ret r, c\<lparr>regs := (regs c)(EAX := of_int r, ECX := y, EDX := z, ESP := regs c ESP + 4),
    df := bit fl 10, ks := s'\<lparr>if_flag := bit fl 9\<rparr>\<rparr>)"
proof -
  have "syscall_wrapper_call hs number x y z (stub_kernel fl eip number c) = Some (Ret r, s')"
    using assms(9) by (auto simp: DO_CALL_def split: bind_splits outcome.splits)
  from stub_returns [OF assms(1-8) this assms(10,11)] show ?thesis .
qed

theorem stub_implements_call_witness:
  "\<exists>c'. stub_code [] (1, 2) 0x202 0x8048000 6 in_program = Some (Ret (-1), c') \<and> regs c' EAX = -1 \<and> regs c' EBX = 3 \<and>
     regs c' ESP = 0x8300004"
proof -
  have "frame_kept a b s (sti s)" for a b s by (simp add: frame_kept_def sti_def)
  then show ?thesis
    using stub_implements_call [OF in_program_stack, of "0x7FFFFC" 6 "[]" "0x202" "0x8048000" "-1" _ "(1, 2)"]
    by (simp add: in_program_regs program_closes)
qed


section \<open>Interrupts\<close>

text \<open>C33: an interrupt is invisible to the registers of the program.  The wrappers of the clock and the
  keyboard give back all eight registers and clear the direction flag, the keyboard's provided that its
  handler returns and keeps the saved words; the timer's gives them back whenever the process is picked again
  with its stack pointer, \<open>ebp\<close> and saved words as they were.\<close>

theorem interrupts_keep_registers:
  assumes "32 \<le> unat (regs c ESP)"
  shows "rtc_wrapper_code clob c = Some (Ret 0, c\<lparr>df := False, ks := rtc_handler (ks (fold step [Pushal, Cld] c))\<rparr>) \<and>
    (\<forall>k s'. keyboard_handler (ks (fold step [Pushal, Cld] c)) = Some (Ret k, s') \<and>
       frame_kept (unat (regs c ESP)) 32 (ks (fold step [Pushal, Cld] c)) s' \<longrightarrow>
       keyboard_wrapper_code clob c = Some (Ret k, c\<lparr>df := False, ks := s'\<rparr>)) \<and>
    (\<forall>h c2. h (fold step pit_save c) = Some c2 \<and> regs c2 ESP = regs (fold step pit_save c) ESP \<and> regs c2 EBP = regs c EBP \<and>
       frame_kept (unat (regs c ESP)) 24 (ks (fold step pit_save c)) (ks c2) \<longrightarrow>
       pit_wrapper_code h c = Some (c2\<lparr>regs := regs c\<rparr>))"
  using rtc_code [OF refl assms] keyboard_code [OF refl assms] pit_code [OF refl] assms by simp

theorem interrupts_keep_registers_witness:
  "rtc_wrapper_code (1, 2) caller = Some (Ret 0, caller\<lparr>df := False, ks := rtc_handler (ks (fold step [Pushal, Cld] caller))\<rparr>) \<and>
   pit_wrapper_code Some caller = Some ((fold step pit_save caller)\<lparr>regs := regs caller\<rparr>)"
proof -
  have "regs (fold step pit_save caller) EBP = regs caller EBP" by (simp add: pit_save_def)
  then show ?thesis using interrupts_keep_registers [of caller "(1, 2)"] by (simp add: frame_kept_def del: fold.simps)
qed


section \<open>Descriptors\<close>

text \<open>C34: the segments after start-up.  The four segment selectors of kernel and user name present
  segments over the whole memory with the privilege level of the selector; the task register selects a
  descriptor of the task state segment with its address and limit, the LDT register one of the LDT, and
  the stack segment for entries to the kernel is the kernel's data segment.\<close>

theorem start_up_descriptors:
  assumes "ldt_size s < 2 ^ 20" "tss_size s < 2 ^ 20" and "s' = load_tss (load_ldt s)"
  shows "(\<forall>sel \<in> {KERNEL_CS, KERNEL_DS, USER_CS, USER_DS}. \<exists>d. gdt_entry sel s' = Some d \<and> seg_base d = 0 \<and>
      seg_limit d = 0xFFFFFFFF \<and> seg_present d = 1 \<and> seg_sys d = 1 \<and> ucast (seg_dpl d) = sel AND 3) \<and>
    (\<exists>d. gdt_entry (reg_tr s') s' = Some d \<and> seg_base d = tss_at s \<and> seg_limit d = tss_size s \<and>
      seg_type d = 9 \<and> seg_sys d = 0 \<and> seg_dpl d = 0 \<and> seg_present d = 1) \<and>
    (\<exists>d. gdt_entry (reg_ldtr s') s' = Some d \<and> seg_base d = ldt_at s \<and> seg_limit d = ldt_size s \<and>
      seg_type d = 2 \<and> seg_sys d = 0 \<and> seg_dpl d = 0 \<and> seg_present d = 1) \<and>
    ts_ss0 (tss s') = KERNEL_DS \<and> ts_esp0 (tss s') = 0x800000"
proof -
  have flat: "\<forall>sel \<in> {KERNEL_CS, KERNEL_DS, USER_CS, USER_DS}. \<exists>d. gdt_entry sel s' = Some d \<and> seg_base d = 0 \<and>
      seg_limit d = 0xFFFFFFFF \<and> seg_present d = 1 \<and> seg_sys d = 1 \<and> ucast (seg_dpl d) = sel AND 3"
    using flat_segments(1-4) flat_fields by (simp add: selector_defs)
  have t: "reg_tr s' = KERNEL_TSS" "gdt_entry KERNEL_TSS s' = Some (tss_desc_ptr s')"
    and l: "reg_ldtr s' = KERNEL_LDT" "gdt_entry KERNEL_LDT s' = Some (ldt_desc_ptr s')"
    using start_desc_fits [of s] by (simp_all add: assms(3) flat_segments seg_of_quad_of start_regs)
  then show ?thesis
    using flat assms by (simp add: start_desc_fields)
qed

theorem start_up_descriptors_witness:
  "\<exists>d. gdt_entry 0x30 (load_tss (load_ldt sample)) = Some d \<and> seg_base d = 0x403100 \<and> seg_limit d = 103"
proof -
  have "reg_tr (load_tss (load_ldt sample)) = 0x30" by (simp add: start_regs selector_defs)
  with start_up_descriptors [of sample "load_tss (load_ldt sample)"] show ?thesis by (auto simp: sample_def)
qed

end
