(* ===== verification/Clock_Theorems.thy ===== *)
theory Clock_Theorems
  imports Example_State Scheduler
begin

text \<open>
  The real-time clock as a program sees it, through the system calls on a descriptor of \<open>rtc\<close>: which
  frequencies it can choose, and what a read waits for.
\<close>

section \<open>Waiting\<close>

text \<open>Interrupts one after the other, and those that leave the flag of the clock alone.\<close>

fun serve :: "interrupts \<Rightarrow> kstate \<Rightarrow> kstate option" where
  "serve [] s = Some s"
| "serve (h # hs) s = do { s \<leftarrow> h s; serve hs s }"

definition quiet :: "interrupts \<Rightarrow> bool" where
  "quiet hs \<longleftrightarrow> (\<forall>h \<in> set hs. \<forall>s s'. h s = Some s' \<longrightarrow> rtc_flag s' = rtc_flag s)"

lemma pit_quiet: "quiet [pit_handler]"
  by (auto simp: quiet_def pit_handler_def scheduler_handler_def switch_task_def Let_def set_main_process_def map_vid_def
      page_access_def send_eoi_def outb_def map_page_def split: bind_splits if_splits)

lemma rtc_wait_quiet:
  "quiet hs \<Longrightarrow> rtc_flag s = 0 \<Longrightarrow> rtc_wait (hs @ rest) s = do { s \<leftarrow> serve hs s; rtc_wait rest s }"
proof (induction hs arbitrary: s)
  case (Cons h hs)
  then show ?case by (cases "h s") (auto simp: quiet_def)
qed simp

lemma serve_flag: "quiet hs \<Longrightarrow> serve hs s = Some s' \<Longrightarrow> rtc_flag s' = rtc_flag s"
  by (induction hs arbitrary: s) (fastforce simp: quiet_def split: bind_splits)+

definition clock_interrupt :: "kstate \<Rightarrow> kstate option" where
  "clock_interrupt s = Some (rtc_handler s)"

lemma rtc_wait_clock: "rtc_flag s = 0 \<Longrightarrow> rtc_wait (clock_interrupt # rest) s = Some (0, rtc_handler s)"
  by (cases rest) (simp_all add: clock_interrupt_def)


section \<open>The calls on a descriptor of the clock\<close>

definition clock_descriptor :: "int \<Rightarrow> kstate \<Rightarrow> bool" where
  "clock_descriptor fd s \<longleftrightarrow> 0 \<le> fd \<and> fd \<le> 7 \<and>
     (case aget (fdt (pcbs s (return_pcb_parent (main_process s)))) fd of Some e \<Rightarrow> f_ops e = Some rtc_table | None \<Rightarrow> False)"

lemma clock_dispatch:
  assumes "clock_descriptor fd s" "buf \<noteq> 0"
  shows "system_write fd buf n s = rtc_write fd buf n (use_main_pcb s)" "system_read hs fd buf n s = rtc_read hs fd buf n (use_main_pcb s)"
  using assms by (auto simp: clock_descriptor_def system_write_def system_read_def fd_get_def use_main_pcb_def set_filesys_pcb_def Let_def
      split: option.splits)

text \<open>C26: the clock.  A write of four bytes programs the clock if the number at the buffer is a power of two
  from 2 to 8192, with that frequency, at most 1024 Hz, and returns 0; for any other number it returns -1
  and changes no port.  A read returns 0 at the first interrupt of the clock, whatever quiet interrupts
  come before and whatever comes after, and does not return without one.\<close>

theorem clock_calls:
  assumes "clock_descriptor fd s" and "buf \<noteq> 0"
  shows "(\<forall>k \<in> {1..13}. lds32 (mem s) buf = 2 ^ k \<longrightarrow> (\<exists>rate. rtc_hz rate = min (2 ^ k) 1024 \<and>
      system_write fd buf 4 s = Some (0, (use_main_pcb s)\<lparr>port_log := port_log s @ [(0x70, 0x8A), (0x71, rate)]\<rparr>))) \<and>
    ((\<forall>k \<in> {1..13}. lds32 (mem s) buf \<noteq> 2 ^ k) \<longrightarrow> system_write fd buf 4 s = Some (-1, use_main_pcb s)) \<and>
    (\<forall>hs s'. quiet hs \<and> serve hs ((use_main_pcb s)\<lparr>rtc_flag := 0\<rparr>) = Some s' \<longrightarrow>
      system_read (hs @ clock_interrupt # rest) fd buf n s = Some (0, rtc_handler s') \<and> system_read hs fd buf n s = None)"
proof (intro conjI ballI impI allI)
  note d = clock_dispatch [OF assms]
  have m: "mem (use_main_pcb s) = mem s" "port_log (use_main_pcb s) = port_log s" by (simp_all add: use_main_pcb_def set_filesys_pcb_def)
  fix k :: nat assume k: "k \<in> {1..13}" "lds32 (mem s) buf = 2 ^ k"
  then have "rtc_rate (2 ^ k) \<noteq> None" unfolding rtc_rate_dom by auto
  then obtain rate where r: "rtc_rate (2 ^ k) = Some rate" by blast
  then have "system_write fd buf 4 s = Some (0, (use_main_pcb s)\<lparr>port_log := port_log s @ [(0x70, 0x8A), (0x71, rate)]\<rparr>)"
    by (simp add: d rtc_write_def m k outb_def)
  with rtc_rate_Some [OF r] show "\<exists>rate. rtc_hz rate = min (2 ^ k) 1024 \<and>
      system_write fd buf 4 s = Some (0, (use_main_pcb s)\<lparr>port_log := port_log s @ [(0x70, 0x8A), (0x71, rate)]\<rparr>)" by blast
next
  assume no: "\<forall>k \<in> {1..13}. lds32 (mem s) buf \<noteq> 2 ^ k"
  have "rtc_rate (lds32 (mem s) buf) = None" using rtc_rate_dom [of "lds32 (mem s) buf"] no by auto
  then show "system_write fd buf 4 s = Some (-1, use_main_pcb s)"
    by (simp add: clock_dispatch [OF assms] rtc_write_def use_main_pcb_def set_filesys_pcb_def)
next
  fix hs s' assume h: "quiet hs \<and> serve hs ((use_main_pcb s)\<lparr>rtc_flag := 0\<rparr>) = Some s'"
  then have f: "rtc_flag s' = 0" using serve_flag [of hs "(use_main_pcb s)\<lparr>rtc_flag := 0\<rparr>" s'] by simp
  show "system_read (hs @ clock_interrupt # rest) fd buf n s = Some (0, rtc_handler s')"
    using h rtc_wait_clock [OF f] by (simp add: clock_dispatch [OF assms] rtc_read_def rtc_wait_quiet)
  show "system_read hs fd buf n s = None"
    using h f rtc_wait_quiet [of hs "(use_main_pcb s)\<lparr>rtc_flag := 0\<rparr>" "[]"] by (simp add: clock_dispatch [OF assms] rtc_read_def)
qed


section \<open>A program with an open clock\<close>

definition clock_program :: kstate where
  "clock_program = sample\<lparr>pcbs := (\<lambda>a. (sample_pcb 0)\<lparr>fdt := (fdt (sample_pcb 0))[2 :=
     \<lparr>f_ops = Some rtc_table, inode_num = -1, file_pos = 0, flags = 1\<rparr>]\<rparr>),
     mem := (mem sample)(0x8300000 := 64, 0x8300001 := 0, 0x8300002 := 0, 0x8300003 := 0)\<rparr>"

theorem clock_calls_witness:
  "(\<exists>rate. rtc_hz rate = 64 \<and> system_write 2 0x8300000 4 clock_program =
      Some (0, (use_main_pcb clock_program)\<lparr>port_log := port_log clock_program @ [(0x70, 0x8A), (0x71, rate)]\<rparr>)) \<and>
   system_read [\<lambda>s. Some (send_eoi 1 s), clock_interrupt] 2 0x8300000 4 clock_program =
      Some (0, rtc_handler (send_eoi 1 ((use_main_pcb clock_program)\<lparr>rtc_flag := 0\<rparr>)))"
proof -
  have c: "clock_descriptor 2 clock_program" by (simp add: clock_descriptor_def clock_program_def sample_pcb_def aget_def)
  have f: "lds32 (mem clock_program) 0x8300000 = 64" by (simp add: clock_program_def lds32_def ld32_def)
  have q: "quiet [\<lambda>s. Some (send_eoi 1 s)]" by (auto simp: quiet_def send_eoi_def outb_def Let_def)
  note t = clock_calls [OF c, of "0x8300000" "[]" 4]
  from t have "\<forall>k \<in> {1..13}. lds32 (mem clock_program) 0x8300000 = 2 ^ k \<longrightarrow> (\<exists>rate. rtc_hz rate = min (2 ^ k) 1024 \<and>
      system_write 2 0x8300000 4 clock_program =
        Some (0, (use_main_pcb clock_program)\<lparr>port_log := port_log clock_program @ [(0x70, 0x8A), (0x71, rate)]\<rparr>))" by simp
  from bspec [OF this, of 6] f have w: "\<exists>rate. rtc_hz rate = 64 \<and> system_write 2 0x8300000 4 clock_program =
      Some (0, (use_main_pcb clock_program)\<lparr>port_log := port_log clock_program @ [(0x70, 0x8A), (0x71, rate)]\<rparr>)" by simp
  have "system_read ([\<lambda>s. Some (send_eoi 1 s)] @ [clock_interrupt]) 2 0x8300000 4 clock_program =
      Some (0, rtc_handler (send_eoi 1 ((use_main_pcb clock_program)\<lparr>rtc_flag := 0\<rparr>)))"
    using t q by (auto dest!: spec [where x = "[\<lambda>s. Some (send_eoi 1 s)]"])
  with w show ?thesis by simp
qed

end
