(* ===== verification/Ports.thy ===== *)
theory Ports
  imports Kernel_State
begin

text \<open>
  The macros of \<open>lib.h\<close> for wide ports and for the saved flags.  No C file of the kernel uses them; a
  wide access is one to consecutive byte ports, the low byte first.  The flags register is the
  interrupt flag of the state together with the other flags, which are an argument.
\<close>

definition inw :: "u16 \<Rightarrow> kstate \<Rightarrow> u32" where
  "inw port s = ucast (inports s port) OR push_bit 8 (ucast (inports s (port + 1)))"

definition inl :: "u16 \<Rightarrow> kstate \<Rightarrow> u32" where
  "inl port s = ucast (inports s port) OR push_bit 8 (ucast (inports s (port + 1))) OR
     push_bit 16 (ucast (inports s (port + 2))) OR push_bit 24 (ucast (inports s (port + 3)))"

definition outw :: "u16 \<Rightarrow> u16 \<Rightarrow> kstate \<Rightarrow> kstate" where
  "outw data port s = s\<lparr>port_log := port_log s @ [(port, ucast data), (port + 1, ucast (drop_bit 8 data))]\<rparr>"

definition outl :: "u32 \<Rightarrow> u16 \<Rightarrow> kstate \<Rightarrow> kstate" where
  "outl data port s = s\<lparr>port_log := port_log s @ [(port, ucast data), (port + 1, ucast (drop_bit 8 data)),
     (port + 2, ucast (drop_bit 16 data)), (port + 3, ucast (drop_bit 24 data))]\<rparr>"

text \<open>\<open>pushfl; popl; cli\<close> and \<open>pushl; popfl\<close>: bit 9 is the interrupt flag.\<close>

definition eflags :: "u32 \<Rightarrow> kstate \<Rightarrow> u32" where
  "eflags others s = (if if_flag s then set_bit 9 others else unset_bit 9 others)"

definition cli_and_save :: "u32 \<Rightarrow> kstate \<Rightarrow> u32 \<times> kstate" where
  "cli_and_save others s = (eflags others s, cli s)"

definition restore_flags :: "u32 \<Rightarrow> kstate \<Rightarrow> kstate" where
  "restore_flags fl s = s\<lparr>if_flag := bit fl 9\<rparr>"

lemma inw_inb: "inw port s = inb port s OR push_bit 8 (inb (port + 1) s)"
  by (simp add: inw_def inb_def)

lemma inl_inw: "inl port s = inw port s OR push_bit 16 (inw (port + 2) s)"
  by (simp add: inl_def inw_def push_bit_or or.assoc add.assoc)

lemma outw_outb: "outw data port s = outb (ucast (drop_bit 8 data)) (port + 1) (outb (ucast data) port s)"
  by (simp add: outw_def outb_def)

text \<open>A critical section leaves the interrupt flag as it found it.\<close>

lemma restore_saved: "cli_and_save others s = (fl, s') \<Longrightarrow> if_flag (restore_flags fl s'') = if_flag s \<and> \<not> if_flag s'"
  by (cases "if_flag s") (auto simp: cli_and_save_def eflags_def restore_flags_def cli_def bit_simps)

end
