(* ===== verification/Spec2Isabelle.thy ===== *)
theory Spec2Isabelle
  imports Reach_Theorems Boot_Theorem Types_Theorem Process_Theorems File_Theorems Terminal_Theorems User_Theorems
    Console_Theorems Fish_Theorems Emulation_Theorems Wrapper_Theorems Clock_Theorems Ports
begin

text \<open>
  Verification of SrirachOS: the kernel of \<open>student-distrib/\<close>, the user programs of
  \<open>syscalls/\<close> and the animation of \<open>fish/\<close>.

  \<^bold>\<open>The program.\<close>  SrirachOS is a small multitasking kernel for the x86.  \<open>entry\<close> (\<open>kernel.c\<close>)
  is called by the boot loader, reports the Multiboot information, loads the descriptor tables,
  programs the interrupt controllers, clock and timer, sets up paging and the read-only file
  system, and executes the first shell.  From then on the kernel runs on interrupts: the timer
  switches between the current tasks of three terminals (\<open>pit.c\<close>, \<open>scheduler.c\<close>), the keyboard
  edits the line of the terminal in front (\<open>keyboard.c\<close>), system calls come through the gate of
  \<open>syscall_wrapper.S\<close> (\<open>syscall.c\<close>) and reach the file system (\<open>filesys.c\<close>), the clock
  (\<open>rtc.c\<close>) or the terminal through the operations table of a descriptor; exceptions end the
  process (\<open>idt.c\<close>).  Up to six processes share one 4 MB page at 0x08000000 whose frame is changed
  on every switch (\<open>paging.c\<close>).  The programs reach the kernel through the stubs of
  \<open>ece391syscall.S\<close>; \<open>ece391emulate.c\<close> stands in for the kernel when they run on Linux.  \<open>fish\<close>
  animates two pictures with a list of blinking characters (\<open>blink.S\<close>), driven by the clock.

  \<^bold>\<open>The model.\<close>  The static variables of all translation units are the fields of one record
  \<open>kstate\<close> (\<open>Kernel_State\<close>); memory is one byte store addressed by natural numbers, so pointers may
  alias, and the user page is exchanged with the frames behind it when the page directory is
  reloaded (\<open>Paging\<close>).  Integers that may wrap are words; an \<open>int\<close> of the source that stays in range
  is an integer.  A function that may read or write outside an array, divide by zero, jump through
  an unset pointer or run for ever returns an option, with \<open>None\<close> for the lack of a result.
  Operations that leave the calling context return an \<open>outcome\<close> (\<open>Ret\<close>, \<open>Iret\<close> to user code,
  \<open>RetFromHalt\<close> into the caller of \<open>system_execute\<close>).

  \<^item> \<open>OS_Prelude\<close>: arrays with bounds, loads and stores, strings in memory, collections of rewrite rules.
  \<^item> \<open>Lib_Strings\<close>, \<open>Lib_Memory\<close>, \<open>Console\<close>, \<open>Console_Frame\<close>, \<open>Screen\<close>, \<open>Printf\<close>: \<open>lib.c\<close>.
  \<^item> \<open>Kernel_State\<close>, \<open>Ports\<close>, \<open>Terminals\<close>, \<open>Process\<close>, \<open>Syscall\<close>: the headers and \<open>syscall.c\<close>.
  \<^item> \<open>Descriptors\<close>: \<open>x86_desc.S\<close> and \<open>x86_desc.h\<close>; \<open>Wrappers\<close>: the assembly of \<open>syscall_wrapper.S\<close>, the
    interrupt wrappers and \<open>boot.S\<close>, instruction by instruction on a machine with its stack in memory;
    \<open>Stub\<close>: the way of a system call from a program through \<open>ece391syscall.S\<close>, the gate and back.
  \<^item> \<open>Filesys\<close>, \<open>Filesys_Read\<close>, \<open>File_Ops\<close>, \<open>Completion\<close>: \<open>filesys.c\<close>.
  \<^item> \<open>Devices\<close>: \<open>i8259.c\<close>, \<open>rtc.c\<close>, \<open>pit.c\<close>; \<open>Paging\<close>: \<open>paging.c\<close> and \<open>paging.h\<close>.
  \<^item> \<open>Terminal_IO\<close>, \<open>Keyboard\<close>, \<open>Line_Discipline\<close>: \<open>keyboard.c\<close>.
  \<^item> \<open>Scheduler\<close>: \<open>scheduler.c\<close>; \<open>Idt\<close>, \<open>Exceptions\<close>: \<open>idt.c\<close>; \<open>Kernel\<close>: \<open>kernel.c\<close> and \<open>multiboot.h\<close>;
    \<open>Self_Tests\<close>: \<open>tests.c\<close>.
  \<^item> \<open>Execute\<close>, \<open>Process_Life\<close>: \<open>system_execute\<close> and \<open>system_halt\<close> as a whole.
  \<^item> \<open>Kernel_Steps\<close>, \<open>Process_Invariant\<close>, \<open>Kernel_Reach\<close>, \<open>Boot\<close>, \<open>Boot_Live\<close>: the kernel as a transition
    system and its start-up; \<open>Syscall_Frame\<close>: what calls and keys leave alone; \<open>Machine\<close>: whole runs of
    interrupts, exceptions, calls and programs; \<open>Array_Sizes\<close>: the typing of the arrays over such runs.
  \<^item> \<open>Syscall_Gate\<close>: the gate as a function of the registers, and \<open>ece391syscall.S\<close>; \<open>User_Lib\<close>: \<open>ece391support.c\<close>.
  \<^item> \<open>User_Programs\<close>: \<open>ece391cat.c\<close>, \<open>ece391ls.c\<close>, \<open>ece391shell.c\<close>, \<open>ece391grep.c\<close>,
    \<open>ece391hello.c\<close>, \<open>ece391counter.c\<close>, \<open>ece391pingpong.c\<close>, \<open>ece391testprint.c\<close>, \<open>ece391syserr.c\<close>.
  \<^item> \<open>User_Calls\<close>, \<open>User_Cat\<close>, \<open>User_Dir\<close>, \<open>User_Errors\<close>, \<open>User_Shell\<close>, \<open>User_Counter\<close>, \<open>User_Grep\<close>,
    \<open>User_Session\<close>:
    what the programs show on their screen, and a whole command from one prompt of the shell to the next.
  \<^item> \<open>User_Memory\<close>: what a program may write, from the page tables; \<open>Sigtest\<close>: \<open>ece391sigtest.c\<close>.
  \<^item> \<open>Fish\<close>: \<open>fish.c\<close>, \<open>blink.h\<close>, \<open>blink.S\<close>; \<open>Blink_List\<close>: the linked list of \<open>blink.S\<close> in memory against a
    list of records; \<open>Blink_Runs\<close>: its operations as a transition system.
  \<^item> \<open>Emulation\<close>: \<open>ece391emulate.c\<close> over the system calls of the host.
  \<^item> \<open>Example_State\<close>, \<open>Example_User\<close>: concrete systems for the instances; the theories whose names
    end in \<open>Theorem\<close> or \<open>Theorems\<close>: the properties.

  \<^bold>\<open>Interfaces.\<close>  \<open>delim_scan\<close> and \<open>delim_copy\<close> (\<open>Lib_Strings\<close>) are the contracts of the loops
  that run to a delimiter, interpreted by the routines of the kernel and of the user library.
  \<open>char_sink\<close> (\<open>Console\<close>) says what an output routine may change, and \<open>screen_sink\<close> (\<open>Screen\<close>)
  extends it with the effect on an abstract screen; \<open>putc\<close>, \<open>my_putc\<close> and \<open>key_putc\<close> interpret
  both.  \<open>console_frame\<close> (\<open>Console_Frame\<close>) says that output leaves a view of the state alone, interpreted for
  the process table, the sizes of the arrays and the state of start-up; \<open>syscall_frame\<close> and \<open>input_frame\<close>
  (\<open>Syscall_Frame\<close>) extend it to the system calls and the keyboard, interpreted for the process table and the
  sizes of the arrays.  \<open>descriptor_ops\<close> (\<open>File_Ops\<close>) is
  the contract of open and close, interpreted by files and directories.

  \<^bold>\<open>What is shown.\<close>  The process table: every kernel step is simulated by an abstract process table
  \<open>vstep\<close>, whose invariant holds in every state reachable from start-up; hence the timer always
  finds a task and a child always returns to a live process of its terminal, also after an exception.
  The kernel boots into its shell; over every run of interrupts, exceptions and calls it stays in
  reachable states and its arrays keep their types.  The assembly of the gate and of the stub around it implements the
  system call and, like the interrupt wrappers, restores the registers; the descriptors say what they should.  Processes:
  \<open>system_execute\<close> loads the program byte for byte and enters it, and execute followed by halt
  returns to the caller.  Files: \<open>read_data\<close> delivers the bytes of a file across its blocks, and
  descriptors read them in sequence.  The clock: which frequencies a program can choose, and that a read waits for its interrupt.  Terminals: what is typed is what is read, output, formatted output included, refines the
  abstract screen, and switching terminals restores their screens.  Memory: the page tables
  translate as intended and a change of the user page keeps every byte of every process.  The
  library routines: inline assembly and loops against their specifications.  User programs: \<open>cat\<close>,
  \<open>ls\<close>, \<open>grep\<close>, \<open>counter\<close>, the shell and the error tests, composed with the gate, the system
  calls, the file system and the console.  The animation: its list in memory refines a list of
  records.  The emulation splits commands and passes arguments like the kernel.  Error theorems show where the code leaves its arrays,
  calls through unset pointers or never returns.

  \<^bold>\<open>Bounds and fuel.\<close>  A call that waits (\<open>terminal_read\<close>, \<open>rtc_read\<close>) is given the list of
  interrupts that occur meanwhile, of any length, and has no result when the list ends first; for a
  program \<open>env k\<close> is the list of its read number \<open>k\<close>.  The endless loop of \<open>pingpong\<close> is modelled for
  any number of rounds.  No other fuel is used: loops are structural, have a measure, or are partial
  functions whose results are proved to exist.  The shell takes the running of a child as the
  parameter \<open>run\<close>, which \<open>ece391_execute\<close> instantiates.  The places of the variables of \<open>fish\<close> and
  \<open>sigtest\<close> in memory are the parameters \<open>fish_vars\<close> and \<open>sig_vars\<close>; the system calls and the C library
  under the emulation are the parameter \<open>libc\<close>, about which nothing is assumed but what the
  statements name.

  \<^bold>\<open>Not modelled.\<close>  The loads of the segment and descriptor registers in \<open>boot.S\<close> (\<open>lgdt\<close>, \<open>lidt\<close>), which
  change nothing in the flat memory; the frames of the compiled C functions, of which \<open>Wrappers\<close> only
  assumes the calling convention; the addresses of the handlers are the parameter \<open>haddr\<close>.  Of the
  kernel's self-tests (\<open>tests.c\<close>), the ones in comments and the two pictures.  \<open>debug.h\<close>, whose macros are
  empty unless \<open>DEBUG\<close> is defined.
  Signals: the kernel has none.  \<open>fish/\<close> has its own copies of
  \<open>ece391emulate.c\<close> and of half of \<open>ece391support.c\<close>, the same functions as in \<open>syscalls/\<close>.  User
  programs run without being interleaved with other processes: interleaving is treated at the level of
  the process table and of the context switch.
\<close>

end
